(* ===== verification/Prelude.thy ===== *)
theory Prelude
  imports Main "HOL-Library.Word"
begin

text \<open>
  Shared vocabulary of the development: the C integer types as words, the status codes of
  RT-Thread, the collections of simplification rules that the component theories extend,
  and the generic facts on lists and words their proofs share.
\<close>

unbundle bit_operations_syntax

section \<open>C integer types and status codes\<close>

type_synonym u8 = "8 word"
type_synonym u16 = "16 word"
type_synonym u32 = "32 word"
type_synonym u64 = "64 word"
type_synonym i32 = "32 word"   \<comment> \<open>two's complement, read by \<open>sint\<close>\<close>
type_synonym rt_err_t = int

abbreviation RT_EOK :: rt_err_t where "RT_EOK \<equiv> 0"
abbreviation RT_ERROR :: rt_err_t where "RT_ERROR \<equiv> 1"
abbreviation RT_ETIMEOUT :: rt_err_t where "RT_ETIMEOUT \<equiv> 2"
abbreviation RT_EFULL :: rt_err_t where "RT_EFULL \<equiv> 3"
abbreviation RT_EINVAL :: rt_err_t where "RT_EINVAL \<equiv> 10"

section \<open>Rule collections\<close>

named_theorems sys_simps \<open>field rules of the system object and its operations\<close>
named_theorems hall_simps \<open>preservation rules of the motor Hall device\<close>

section \<open>Lists\<close>

text \<open>The first element satisfying a predicate, as the table scans of the source return it.\<close>

lemma find_Some_in: "List.find P xs = Some x \<Longrightarrow> x \<in> set xs \<and> P x"
  by (induction xs) (auto split: if_splits)

lemma find_None_not: "List.find P xs = None \<longleftrightarrow> (\<forall>x \<in> set xs. \<not> P x)"
  by (induction xs) auto

lemma take_list_update_ge [simp]: "n \<le> i \<Longrightarrow> take n (xs[i := v]) = take n xs"
  by (rule nth_equalityI) auto

lemma take_Suc_update: "n < length xs \<Longrightarrow> take (Suc n) (xs[n := v]) = take n xs @ [v]"
  by (simp add: take_Suc_conv_app_nth)

lemma set_butlast_subset: "set (butlast xs) \<subseteq> set xs"
  by (auto dest: in_set_butlastD)

section \<open>Words\<close>

lemma word_not_zero_gt: "(w :: 'a :: len word) \<noteq> 0 \<longleftrightarrow> 0 < w"
  by (simp add: word_gt_0)

lemma unat_less_of_nat: "n < 2 ^ LENGTH('a) \<Longrightarrow> unat (of_nat n :: 'a :: len word) = n"
  by (simp add: unat_of_nat take_bit_nat_eq_self)

lemma unat_inc: "unat (w :: 'a :: len word) + 1 < 2 ^ LENGTH('a) \<Longrightarrow> unat (w + 1) = unat w + 1"
  by (simp add: unat_word_ariths)

lemma unat_u32_less: "unat (w :: u32) < 2 ^ 32"
  using unsigned_less [of w] by simp

lemma unat_u16_less: "unat (w :: u16) < 2 ^ 16"
  using unsigned_less [of w] by simp

end
