(* ===== verification/State_Engine.thy ===== *)
theory State_Engine
  imports Prelude
begin

text \<open>
  The table-driven state machine engine of \<^verbatim>\<open>Utils/state_engine.c\<close>: a jump table
  (current state, event, target state), a table of enter and exit callbacks, and the three
  operations \<open>StateMachine_Init\<close>, \<open>StateMachine_SendEvent\<close> and \<open>StateMachine_GetState\<close>.
  A machine lives inside a larger program state \<open>'w\<close>, which the callbacks may change; a
  pointer to a machine is a pair of a reader and a writer, and a NULL pointer is \<open>None\<close>.
  The callback table is an argument: in the source it is a constant table that the machine
  points to. The interface \<open>sm_place\<close> states what a place of a machine must satisfy; the
  facts about the engine are proved once inside it.
\<close>

section \<open>Tables and machines\<close>

type_synonym Event_t = u32
type_synonym State_t = u32

record StateJumpTable_t =
  jt_cur_state :: State_t
  jt_event :: Event_t
  jt_target_state :: State_t

record 'w StateFuncTable_t =
  ft_state :: State_t
  ft_enter :: "('w \<Rightarrow> 'w) option"
  ft_exit :: "('w \<Rightarrow> 'w) option"

record StateMachine_t =
  jump_table :: "StateJumpTable_t list"
  cur_state :: State_t
  previous_state :: State_t
  init_state :: State_t

definition jump_row :: "State_t \<Rightarrow> Event_t \<Rightarrow> State_t \<Rightarrow> StateJumpTable_t" where
  "jump_row s e t = \<lparr>jt_cur_state = s, jt_event = e, jt_target_state = t\<rparr>"

definition func_row :: "State_t \<Rightarrow> ('w \<Rightarrow> 'w) option \<Rightarrow> ('w \<Rightarrow> 'w) option \<Rightarrow> 'w StateFuncTable_t" where
  "func_row s en ex = \<lparr>ft_state = s, ft_enter = en, ft_exit = ex\<rparr>"

text \<open>A pointer to a machine inside the program state.\<close>

record 'w sm_ptr =
  sm_get :: "'w \<Rightarrow> StateMachine_t"
  sm_put :: "StateMachine_t \<Rightarrow> 'w \<Rightarrow> 'w"

section \<open>Operations\<close>

definition StateMachine_Init :: "'w sm_ptr option \<Rightarrow> 'w \<Rightarrow> 'w" where
  "StateMachine_Init p w =
     (case p of None \<Rightarrow> w
      | Some l \<Rightarrow> sm_put l ((sm_get l w)\<lparr>cur_state := init_state (sm_get l w)\<rparr>) w)"

definition StateMachine_GetState :: "'w sm_ptr option \<Rightarrow> 'w \<Rightarrow> State_t" where
  "StateMachine_GetState p w = (case p of None \<Rightarrow> 0 | Some l \<Rightarrow> cur_state (sm_get l w))"

text \<open>Step 1: the first row for the current state and the event; the current state if none.\<close>

fun jump_scan :: "StateJumpTable_t list \<Rightarrow> State_t \<Rightarrow> Event_t \<Rightarrow> State_t" where
  "jump_scan [] s e = s"
| "jump_scan (r # rs) s e =
     (if jt_cur_state r = s \<and> jt_event r = e then jt_target_state r else jump_scan rs s e)"

text \<open>Steps 2 and 4: the first row of the state whose callback is not NULL is called.\<close>

fun run_exit :: "'w StateFuncTable_t list \<Rightarrow> State_t \<Rightarrow> 'w \<Rightarrow> 'w" where
  "run_exit [] s w = w"
| "run_exit (r # rs) s w =
     (if ft_state r = s then (case ft_exit r of Some f \<Rightarrow> f w | None \<Rightarrow> run_exit rs s w)
      else run_exit rs s w)"

fun run_enter :: "'w StateFuncTable_t list \<Rightarrow> State_t \<Rightarrow> 'w \<Rightarrow> 'w" where
  "run_enter [] s w = w"
| "run_enter (r # rs) s w =
     (if ft_state r = s then (case ft_enter r of Some f \<Rightarrow> f w | None \<Rightarrow> run_enter rs s w)
      else run_enter rs s w)"

definition StateMachine_SendEvent ::
  "'w sm_ptr option \<Rightarrow> 'w StateFuncTable_t list \<Rightarrow> Event_t \<Rightarrow> 'w \<Rightarrow> 'w" where
  "StateMachine_SendEvent p func_table event w =
     (case p of None \<Rightarrow> w
      | Some l \<Rightarrow>
          let sm = sm_get l w;
              target_state = jump_scan (jump_table sm) (cur_state sm) event
          in if target_state = cur_state sm then w
             else
               let w1 = run_exit func_table (cur_state sm) w;
                   sm1 = sm_get l w1;
                   w2 = sm_put l (sm1\<lparr>previous_state := cur_state sm1,
                                      cur_state := target_state\<rparr>) w1
               in run_enter func_table target_state w2)"

section \<open>Table facts\<close>

lemma jump_scan_listed:
  "jump_scan tab s e \<noteq> s \<Longrightarrow>
     \<exists>r \<in> set tab. jt_cur_state r = s \<and> jt_event r = e \<and> jt_target_state r = jump_scan tab s e"
  by (induction tab s e rule: jump_scan.induct) auto

lemma jump_scan_unlisted:
  "\<forall>r \<in> set tab. \<not> (jt_cur_state r = s \<and> jt_event r = e) \<Longrightarrow> jump_scan tab s e = s"
  by (induction tab s e rule: jump_scan.induct) auto

lemma run_exit_no_exits:
  "\<forall>r \<in> set ft. ft_exit r = None \<Longrightarrow> run_exit ft s w = w"
  by (induction ft s w rule: run_exit.induct) auto

lemma run_enter_cases:
  "run_enter ft s w = w \<or> (\<exists>r \<in> set ft. \<exists>f. ft_state r = s \<and> ft_enter r = Some f \<and> run_enter ft s w = f w)"
  by (induction ft s w rule: run_enter.induct) (auto split: option.splits)

section \<open>The interface of a machine's place\<close>

locale sm_place =
  fixes p :: "'w sm_ptr"
  assumes get_put: "sm_get p (sm_put p s w) = s"
    and put_put: "sm_put p s (sm_put p t w) = sm_put p s w"
    and put_get: "sm_put p (sm_get p w) w = w"
begin

lemma init_state_reached:
  "StateMachine_GetState (Some p) (StateMachine_Init (Some p) w) = init_state (sm_get p w)"
  by (simp add: StateMachine_GetState_def StateMachine_Init_def get_put)

lemma send_unlisted:
  assumes "\<forall>r \<in> set (jump_table (sm_get p w)).
     \<not> (jt_cur_state r = cur_state (sm_get p w) \<and> jt_event r = e)"
  shows "StateMachine_SendEvent (Some p) ft e w = w"
  using jump_scan_unlisted [OF assms] by (simp add: StateMachine_SendEvent_def Let_def)

lemma send_fixed:
  "jump_scan (jump_table (sm_get p w)) (cur_state (sm_get p w)) e = cur_state (sm_get p w) \<Longrightarrow>
     StateMachine_SendEvent (Some p) ft e w = w"
  by (simp add: StateMachine_SendEvent_def Let_def)

text \<open>Without exit callbacks a jump writes the two state fields and runs the enter callback.\<close>

lemma send_jump:
  assumes "jump_scan (jump_table (sm_get p w)) (cur_state (sm_get p w)) e = t"
    and "t \<noteq> cur_state (sm_get p w)" and "\<forall>r \<in> set ft. ft_exit r = None"
  shows "StateMachine_SendEvent (Some p) ft e w =
     run_enter ft t (sm_put p ((sm_get p w)\<lparr>previous_state := cur_state (sm_get p w), cur_state := t\<rparr>) w)"
  using assms by (simp add: StateMachine_SendEvent_def Let_def run_exit_no_exits)

text \<open>With callbacks that leave the machine alone, the machine moves exactly as its table says.\<close>

lemma send_state:
  assumes "\<forall>r \<in> set ft. \<forall>f. ft_exit r = Some f \<or> ft_enter r = Some f \<longrightarrow> (\<forall>v. sm_get p (f v) = sm_get p v)"
  shows "StateMachine_GetState (Some p) (StateMachine_SendEvent (Some p) ft e w) =
     jump_scan (jump_table (sm_get p w)) (cur_state (sm_get p w)) e"
proof -
  have enter: "sm_get p (run_enter ft t v) = sm_get p v" for t v
    using assms run_enter_cases [of ft t v] by metis
  show ?thesis
    by (simp add: StateMachine_SendEvent_def StateMachine_GetState_def Let_def enter get_put)
qed

lemma send_previous:
  assumes "\<forall>r \<in> set ft. \<forall>f. ft_exit r = Some f \<or> ft_enter r = Some f \<longrightarrow> (\<forall>v. sm_get p (f v) = sm_get p v)"
    and "jump_scan (jump_table (sm_get p w)) (cur_state (sm_get p w)) e \<noteq> cur_state (sm_get p w)"
  shows "previous_state (sm_get p (StateMachine_SendEvent (Some p) ft e w)) = cur_state (sm_get p w)"
proof -
  have enter: "sm_get p (run_enter ft t v) = sm_get p v" for t v
    using assms(1) run_enter_cases [of ft t v] by metis
  have ex: "sm_get p (run_exit ft t v) = sm_get p v" for t v
    using assms(1) by (induction ft t v rule: run_exit.induct) (auto split: option.splits)
  show ?thesis using assms(2)
    by (simp add: StateMachine_SendEvent_def Let_def enter ex get_put)
qed

end

text \<open>The place of a machine that is the whole state, as in a table checked on its own.\<close>

definition sm_self :: "StateMachine_t sm_ptr" where
  "sm_self = \<lparr>sm_get = (\<lambda>w. w), sm_put = (\<lambda>s w. s)\<rparr>"

interpretation self: sm_place sm_self
  by unfold_locales (simp_all add: sm_self_def)

end
