(* ===== verification/Arb_Queue.thy ===== *)
theory Arb_Queue
  imports Prelude
begin

text \<open>
  The command queues of the arbitration kernel (\<^verbatim>\<open>Dev/dev_act/dev_act.c\<close>): fixed arrays
  of ten records with a fill count, kept in order by shifting. The array operations are
  modelled with their loops; \<open>qlist\<close> reads the queue as a list, and the lemmas show that
  each operation implements the list operation its callers rely on. \<open>command_queue\<close> is that
  contract as a locale, interpreted on the array operations.
\<close>

section \<open>Records and arrays\<close>

abbreviation MAX_CMD_QUEUE_SIZE :: nat where "MAX_CMD_QUEUE_SIZE \<equiv> 10"

record ArbCommandRecord_t =
  r_device_id :: u8
  r_priority :: u8
  r_cmd_type :: u8
  r_duty_pct :: u8
  r_timestamp :: u32

definition zero_record :: ArbCommandRecord_t where
  "zero_record = \<lparr>r_device_id = 0, r_priority = 0, r_cmd_type = 0, r_duty_pct = 0, r_timestamp = 0\<rparr>"

record ArbCommandQueue_t =
  records :: "ArbCommandRecord_t list"
  q_count :: nat

definition empty_queue :: ArbCommandQueue_t where
  "empty_queue = \<lparr>records = replicate MAX_CMD_QUEUE_SIZE zero_record, q_count = 0\<rparr>"

section \<open>Array operations\<close>

text \<open>\<open>for (j = i; j < n; j++) records[j] = records[j + 1]\<close>.\<close>

function shift_down :: "nat \<Rightarrow> nat \<Rightarrow> 'r list \<Rightarrow> 'r list" where
  "shift_down j n rs = (if j < n then shift_down (Suc j) n (rs[j := rs ! Suc j]) else rs)"
  by pat_completeness auto
termination
  by (relation "measure (\<lambda>(j, n, rs). n - j)") auto

declare shift_down.simps [simp del]

text \<open>\<open>for (i = n; i > index; i--) records[i] = records[i - 1]\<close>.\<close>

fun shift_up :: "nat \<Rightarrow> nat \<Rightarrow> 'r list \<Rightarrow> 'r list" where
  "shift_up index 0 rs = rs"
| "shift_up index (Suc i) rs =
     (if index < Suc i then shift_up index i (rs[Suc i := rs ! i]) else rs)"

function remove_scan :: "nat \<Rightarrow> ArbCommandQueue_t \<Rightarrow> u8 \<Rightarrow> ArbCommandQueue_t" where
  "remove_scan i queue device_id =
     (if i < q_count queue then
        if r_device_id (records queue ! i) = device_id then
          let rs = shift_down i (q_count queue - 1) (records queue);
              n = q_count queue - 1
          in queue\<lparr>records := (if n < MAX_CMD_QUEUE_SIZE then rs[n := zero_record] else rs),
                   q_count := n\<rparr>
        else remove_scan (Suc i) queue device_id
      else queue)"
  by pat_completeness auto
termination
  by (relation "measure (\<lambda>(i, q, d). q_count q - i)") auto

declare remove_scan.simps [simp del]

definition Arb_CmdListRemove :: "ArbCommandQueue_t \<Rightarrow> u8 \<Rightarrow> ArbCommandQueue_t" where
  "Arb_CmdListRemove queue device_id = remove_scan 0 queue device_id"

text \<open>The insertion index: the first record of lower urgency than the new one.\<close>

function insert_index :: "nat \<Rightarrow> ArbCommandQueue_t \<Rightarrow> u8 \<Rightarrow> nat" where
  "insert_index index queue priority =
     (if index < q_count queue then
        if priority < r_priority (records queue ! index) then index
        else insert_index (Suc index) queue priority
      else index)"
  by pat_completeness auto
termination
  by (relation "measure (\<lambda>(i, q, d). q_count q - i)") auto

declare insert_index.simps [simp del]

definition Arb_CmdListSetAllow ::
  "ArbCommandQueue_t \<Rightarrow> ArbCommandQueue_t option \<Rightarrow> ArbCommandRecord_t \<Rightarrow> ArbCommandQueue_t" where
  "Arb_CmdListSetAllow queue block_queue r =
     (if (case block_queue of Some b \<Rightarrow> q_count b > 0 | None \<Rightarrow> False) then queue
      else
        let queue1 = Arb_CmdListRemove queue (r_device_id r)
        in if q_count queue1 \<ge> MAX_CMD_QUEUE_SIZE then queue1
           else
             let index = insert_index 0 queue1 (r_priority r);
                 rs = shift_up index (q_count queue1) (records queue1)
             in queue1\<lparr>records := rs[index := r], q_count := Suc (q_count queue1)\<rparr>)"

text \<open>A block record carries no duty: the caller's \<open>duty_pct\<close> is replaced by 0.\<close>

definition Arb_CmdListSetBlock :: "ArbCommandQueue_t \<Rightarrow> ArbCommandRecord_t \<Rightarrow> ArbCommandQueue_t" where
  "Arb_CmdListSetBlock queue r =
     (if \<exists>i < q_count queue. r_device_id (records queue ! i) = r_device_id r then queue
      else if q_count queue \<ge> MAX_CMD_QUEUE_SIZE then queue
      else queue\<lparr>records := (records queue)[q_count queue := r\<lparr>r_duty_pct := 0\<rparr>],
                 q_count := Suc (q_count queue)\<rparr>)"

definition Arb_CmdListClearAll :: "ArbCommandQueue_t \<Rightarrow> ArbCommandQueue_t" where
  "Arb_CmdListClearAll queue =
     queue\<lparr>records := replicate MAX_CMD_QUEUE_SIZE zero_record, q_count := 0\<rparr>"

section \<open>Reading a queue as a list\<close>

definition qlist :: "ArbCommandQueue_t \<Rightarrow> ArbCommandRecord_t list" where
  "qlist q = take (q_count q) (records q)"

definition queue_ok :: "ArbCommandQueue_t \<Rightarrow> bool" where
  "queue_ok q \<longleftrightarrow> length (records q) = MAX_CMD_QUEUE_SIZE \<and> q_count q \<le> MAX_CMD_QUEUE_SIZE \<and>
     distinct (map r_device_id (qlist q))"

text \<open>The list operations: drop the first record of a device, insert by urgency.\<close>

fun remove_dev :: "u8 \<Rightarrow> ArbCommandRecord_t list \<Rightarrow> ArbCommandRecord_t list" where
  "remove_dev d [] = []"
| "remove_dev d (r # rs) = (if r_device_id r = d then rs else r # remove_dev d rs)"

fun insert_prio :: "ArbCommandRecord_t \<Rightarrow> ArbCommandRecord_t list \<Rightarrow> ArbCommandRecord_t list" where
  "insert_prio x [] = [x]"
| "insert_prio x (r # rs) = (if r_priority x < r_priority r then x # r # rs else r # insert_prio x rs)"

lemma length_qlist [simp]: "queue_ok q \<Longrightarrow> length (qlist q) = q_count q"
  by (simp add: queue_ok_def qlist_def)

lemma qlist_nth: "i < q_count q \<Longrightarrow> qlist q ! i = records q ! i"
  by (simp add: qlist_def)

lemma qlist_empty_iff: "queue_ok q \<Longrightarrow> qlist q = [] \<longleftrightarrow> q_count q = 0"
  by (metis length_qlist length_0_conv)

lemma queue_ok_empty [simp]: "queue_ok empty_queue" "qlist empty_queue = []"
  by (simp_all add: queue_ok_def qlist_def empty_queue_def)

subsection \<open>Shifting\<close>

lemma length_shift_down [simp]: "length (shift_down j n rs) = length rs"
  by (induction j n rs rule: shift_down.induct) (subst shift_down.simps, simp)

lemma shift_down_nth:
  assumes "n < length rs" and "k < length rs"
  shows "shift_down j n rs ! k = (if j \<le> k \<and> k < n then rs ! Suc k else rs ! k)"
  using assms
proof (induction j n rs rule: shift_down.induct)
  case (1 j n rs)
  show ?case
  proof (cases "j < n")
    case True
    with 1 have "shift_down (Suc j) n (rs[j := rs ! Suc j]) ! k =
        (if Suc j \<le> k \<and> k < n then rs[j := rs ! Suc j] ! Suc k else rs[j := rs ! Suc j] ! k)"
      by simp
    with True "1.prems" show ?thesis
      by (subst shift_down.simps) (auto simp: nth_list_update)
  next
    case False
    then show ?thesis by (subst shift_down.simps) auto
  qed
qed

lemma length_shift_up [simp]: "length (shift_up index i rs) = length rs"
  by (induction index i rs rule: shift_up.induct) auto

lemma shift_up_nth:
  assumes "i < length rs" and "k < length rs"
  shows "shift_up index i rs ! k = (if index < k \<and> k \<le> i then rs ! (k - 1) else rs ! k)"
  using assms
proof (induction index i rs rule: shift_up.induct)
  case (2 index i rs)
  then show ?case
    by (cases "index < Suc i") (auto simp: nth_list_update not_less le_Suc_eq)
qed simp

subsection \<open>Removal\<close>

lemma remove_scan_shape:
  assumes "length (records q) = MAX_CMD_QUEUE_SIZE"
  shows "length (records (remove_scan i q d)) = MAX_CMD_QUEUE_SIZE \<and> q_count (remove_scan i q d) \<le> q_count q"
  using assms
proof (induction i q d rule: remove_scan.induct)
  case (1 i q d)
  then show ?case by (subst remove_scan.simps, subst remove_scan.simps) (simp add: Let_def)
qed

text \<open>One record taken out of the middle of the array.\<close>

lemma remove_array:
  assumes "length rs = MAX_CMD_QUEUE_SIZE" and "n \<le> MAX_CMD_QUEUE_SIZE" and "i < n"
  shows "take (n - 1) ((shift_down i (n - 1) rs)[n - 1 := z]) = take i rs @ drop (Suc i) (take n rs)"
proof (rule nth_equalityI)
  show "length (take (n - 1) ((shift_down i (n - 1) rs)[n - 1 := z])) =
      length (take i rs @ drop (Suc i) (take n rs))"
    using assms by simp
next
  fix k
  assume "k < length (take (n - 1) ((shift_down i (n - 1) rs)[n - 1 := z]))"
  then have k: "k < n - 1" by simp
  then have "take (n - 1) ((shift_down i (n - 1) rs)[n - 1 := z]) ! k = shift_down i (n - 1) rs ! k"
    by simp
  also have "\<dots> = (if i \<le> k then rs ! Suc k else rs ! k)"
    using assms k by (simp add: shift_down_nth)
  also have "\<dots> = (take i rs @ drop (Suc i) (take n rs)) ! k"
    using assms k by (auto simp: nth_append)
  finally show "take (n - 1) ((shift_down i (n - 1) rs)[n - 1 := z]) ! k =
      (take i rs @ drop (Suc i) (take n rs)) ! k" .
qed

lemma remove_scan_qlist:
  assumes "length (records q) = MAX_CMD_QUEUE_SIZE" and "q_count q \<le> MAX_CMD_QUEUE_SIZE"
  shows "qlist (remove_scan i q d) = take i (qlist q) @ remove_dev d (drop i (qlist q))"
  using assms
proof (induction i q d rule: remove_scan.induct)
  case (1 i q d)
  show ?case
  proof (cases "i < q_count q")
    case inside: True
    have tk: "take i (qlist q) = take i (records q)"
      using inside by (simp add: qlist_def min_def)
    have dr: "drop i (qlist q) = records q ! i # drop (Suc i) (qlist q)"
      using inside "1.prems" by (simp add: qlist_def Cons_nth_drop_Suc [symmetric])
    show ?thesis
    proof (cases "r_device_id (records q ! i) = d")
      case True
      have "qlist (remove_scan i q d) =
          take (q_count q - 1) ((shift_down i (q_count q - 1) (records q))[q_count q - 1 := zero_record])"
        using True inside "1.prems" by (subst remove_scan.simps) (simp add: Let_def qlist_def)
      also have "\<dots> = take i (records q) @ drop (Suc i) (qlist q)"
        using remove_array [OF "1.prems" inside] by (simp add: qlist_def)
      finally show ?thesis using True by (simp add: tk dr)
    next
      case False
      with inside "1" have
        "qlist (remove_scan (Suc i) q d) = take (Suc i) (qlist q) @ remove_dev d (drop (Suc i) (qlist q))"
        by blast
      moreover have "take (Suc i) (qlist q) = take i (qlist q) @ [records q ! i]"
        using inside "1.prems" by (simp add: take_Suc_conv_app_nth qlist_def)
      moreover have "remove_scan i q d = remove_scan (Suc i) q d"
        using False inside by (subst remove_scan.simps) simp
      ultimately show ?thesis using False by (simp add: dr)
    qed
  next
    case False
    with "1.prems" show ?thesis by (subst remove_scan.simps) (simp add: qlist_def)
  qed
qed

lemma set_remove_dev: "set (remove_dev d rs) \<subseteq> set rs"
  by (induction d rs rule: remove_dev.induct) auto

lemma distinct_remove_dev:
  "distinct (map r_device_id rs) \<Longrightarrow> distinct (map r_device_id (remove_dev d rs))"
  using set_remove_dev by (induction d rs rule: remove_dev.induct) fastforce+

lemma remove_dev_absent:
  "distinct (map r_device_id rs) \<Longrightarrow> d \<notin> r_device_id ` set (remove_dev d rs)"
  by (induction d rs rule: remove_dev.induct) auto

lemma remove_dev_keeps:
  "r \<in> set rs \<Longrightarrow> r_device_id r \<noteq> d \<Longrightarrow> r \<in> set (remove_dev d rs)"
  by (induction d rs rule: remove_dev.induct) auto

lemma remove_dev_set:
  "distinct (map r_device_id rs) \<Longrightarrow> set (remove_dev d rs) = {r \<in> set rs. r_device_id r \<noteq> d}"
  using set_remove_dev [of d rs] remove_dev_absent [of rs d] remove_dev_keeps [of _ rs d] by blast

lemma remove_dev_id: "d \<notin> r_device_id ` set rs \<Longrightarrow> remove_dev d rs = rs"
  by (induction d rs rule: remove_dev.induct) auto

lemma length_remove_dev: "length (remove_dev d rs) \<le> length rs"
  by (induction d rs rule: remove_dev.induct) auto

lemma sorted_remove_dev:
  "sorted (map r_priority rs) \<Longrightarrow> sorted (map r_priority (remove_dev d rs))"
  using set_remove_dev by (induction d rs rule: remove_dev.induct) fastforce+

lemma Arb_CmdListRemove_refines:
  assumes "queue_ok q"
  shows "qlist (Arb_CmdListRemove q d) = remove_dev d (qlist q)" "queue_ok (Arb_CmdListRemove q d)"
  using assms remove_scan_qlist [of q 0 d] remove_scan_shape [of q 0 d] distinct_remove_dev [of "qlist q" d]
  by (auto simp: Arb_CmdListRemove_def queue_ok_def)

subsection \<open>Insertion\<close>

lemma insert_index_bounds:
  "i \<le> q_count q \<Longrightarrow> i \<le> insert_index i q p \<and> insert_index i q p \<le> q_count q"
proof (induction i q p rule: insert_index.induct)
  case (1 i q p)
  then show ?case by (subst insert_index.simps, subst (2) insert_index.simps) auto
qed

lemma insert_index_stop:
  "insert_index i q p < q_count q \<Longrightarrow> p < r_priority (records q ! insert_index i q p)"
proof (induction i q p rule: insert_index.induct)
  case (1 i q p)
  then show ?case by (cases "i < q_count q \<and> \<not> p < r_priority (records q ! i)")
    (auto simp: insert_index.simps [of i q p] split: if_splits)
qed

lemma insert_index_skip:
  "i \<le> k \<Longrightarrow> k < insert_index i q p \<Longrightarrow> \<not> p < r_priority (records q ! k)"
proof (induction i q p rule: insert_index.induct)
  case (1 i q p)
  show ?case
  proof (cases "i < q_count q \<and> \<not> p < r_priority (records q ! i)")
    case True
    then have "insert_index i q p = insert_index (Suc i) q p" by (subst insert_index.simps) simp
    with True 1 show ?thesis by (cases "k = i") auto
  next
    case False
    then have "insert_index i q p = i" by (subst insert_index.simps) auto
    with "1.prems" show ?thesis by simp
  qed
qed

lemma insert_prio_split:
  assumes "\<forall>r \<in> set xs. \<not> r_priority x < r_priority r"
    and "ys \<noteq> [] \<longrightarrow> r_priority x < r_priority (hd ys)"
  shows "insert_prio x (xs @ ys) = xs @ x # ys"
  using assms by (induction xs) (cases ys; auto)+

lemma set_insert_prio [simp]: "set (insert_prio x rs) = insert x (set rs)"
  by (induction x rs rule: insert_prio.induct) auto

lemma distinct_insert_prio:
  "distinct (map r_device_id (insert_prio x rs)) \<longleftrightarrow>
     r_device_id x \<notin> r_device_id ` set rs \<and> distinct (map r_device_id rs)"
  by (induction x rs rule: insert_prio.induct) auto

lemma sorted_insert_prio:
  "sorted (map r_priority (insert_prio x rs)) \<longleftrightarrow> sorted (map r_priority rs)"
  by (induction x rs rule: insert_prio.induct) (auto simp: not_less)

lemma insert_array:
  assumes "length rs = MAX_CMD_QUEUE_SIZE" and "n < MAX_CMD_QUEUE_SIZE" and "index \<le> n"
  shows "take (Suc n) ((shift_up index n rs)[index := x]) = take index rs @ x # drop index (take n rs)"
proof (rule nth_equalityI)
  show "length (take (Suc n) ((shift_up index n rs)[index := x])) =
      length (take index rs @ x # drop index (take n rs))"
    using assms by simp
next
  fix k
  assume "k < length (take (Suc n) ((shift_up index n rs)[index := x]))"
  then have k: "k \<le> n" using assms by simp
  consider "k < index" | "k = index" | "index < k" by arith
  then show "take (Suc n) ((shift_up index n rs)[index := x]) ! k =
      (take index rs @ x # drop index (take n rs)) ! k"
    using assms k by cases (auto simp: nth_append shift_up_nth nth_Cons' min_def)
qed

lemma Arb_CmdListSetAllow_refines:
  assumes ok: "queue_ok q"
  shows "qlist (Arb_CmdListSetAllow q b r) =
     (if (case b of Some bq \<Rightarrow> q_count bq > 0 | None \<Rightarrow> False) then qlist q
      else if length (remove_dev (r_device_id r) (qlist q)) \<ge> MAX_CMD_QUEUE_SIZE
        then remove_dev (r_device_id r) (qlist q)
      else insert_prio r (remove_dev (r_device_id r) (qlist q)))"
    and "queue_ok (Arb_CmdListSetAllow q b r)"
proof -
  define q1 where "q1 = Arb_CmdListRemove q (r_device_id r)"
  have ok1: "queue_ok q1" and l1: "qlist q1 = remove_dev (r_device_id r) (qlist q)"
    using Arb_CmdListRemove_refines [OF ok] by (simp_all add: q1_def)
  have len1: "length (remove_dev (r_device_id r) (qlist q)) = q_count q1"
    using length_qlist [OF ok1] by (simp add: l1)
  let ?i = "insert_index 0 q1 (r_priority r)"
  have idx: "?i \<le> q_count q1" by (simp add: insert_index_bounds)
  have arr: "q_count q1 < MAX_CMD_QUEUE_SIZE \<Longrightarrow>
      take (Suc (q_count q1)) ((shift_up ?i (q_count q1) (records q1))[?i := r]) = insert_prio r (qlist q1)"
  proof -
    assume "q_count q1 < MAX_CMD_QUEUE_SIZE"
    then have "take (Suc (q_count q1)) ((shift_up ?i (q_count q1) (records q1))[?i := r]) =
        take ?i (records q1) @ r # drop ?i (qlist q1)"
      using ok1 idx insert_array [of "records q1" "q_count q1" ?i r]
      by (simp add: queue_ok_def qlist_def)
    also have "take ?i (records q1) = take ?i (qlist q1)"
      using idx by (simp add: qlist_def min_def)
    also have "take ?i (qlist q1) @ r # drop ?i (qlist q1) = insert_prio r (take ?i (qlist q1) @ drop ?i (qlist q1))"
      using idx ok1 insert_index_skip [of 0 _ q1 "r_priority r"] insert_index_stop [of 0 q1 "r_priority r"]
      by (intro insert_prio_split [symmetric])
        (auto simp: in_set_conv_nth qlist_nth hd_drop_conv_nth)
    finally show ?thesis by simp
  qed
  show "qlist (Arb_CmdListSetAllow q b r) =
     (if (case b of Some bq \<Rightarrow> q_count bq > 0 | None \<Rightarrow> False) then qlist q
      else if length (remove_dev (r_device_id r) (qlist q)) \<ge> MAX_CMD_QUEUE_SIZE
        then remove_dev (r_device_id r) (qlist q)
      else insert_prio r (remove_dev (r_device_id r) (qlist q)))"
    using arr unfolding len1 unfolding l1 [symmetric]
    by (simp add: Arb_CmdListSetAllow_def Let_def q1_def [symmetric])
      (simp add: qlist_def)
  have new: "distinct (map r_device_id (insert_prio r (qlist q1)))"
    using ok remove_dev_absent distinct_remove_dev
    by (simp add: distinct_insert_prio l1 queue_ok_def)
  show "queue_ok (Arb_CmdListSetAllow q b r)"
    using ok ok1 arr new
    by (simp add: Arb_CmdListSetAllow_def Let_def q1_def [symmetric])
      (simp add: queue_ok_def qlist_def)
qed

subsection \<open>Blocking and clearing\<close>

lemma Arb_CmdListSetBlock_refines:
  assumes ok: "queue_ok q"
  shows "qlist (Arb_CmdListSetBlock q r) =
     (if r_device_id r \<in> r_device_id ` set (qlist q) \<or> length (qlist q) \<ge> MAX_CMD_QUEUE_SIZE then qlist q
      else qlist q @ [r\<lparr>r_duty_pct := 0\<rparr>])"
    and "queue_ok (Arb_CmdListSetBlock q r)"
proof -
  have mem: "(\<exists>i < q_count q. r_device_id (records q ! i) = r_device_id r) \<longleftrightarrow>
      r_device_id r \<in> r_device_id ` set (qlist q)"
    using ok by (auto simp: set_conv_nth image_iff qlist_nth)
  show a: "qlist (Arb_CmdListSetBlock q r) =
     (if r_device_id r \<in> r_device_id ` set (qlist q) \<or> length (qlist q) \<ge> MAX_CMD_QUEUE_SIZE then qlist q
      else qlist q @ [r\<lparr>r_duty_pct := 0\<rparr>])"
    using ok mem by (auto simp: Arb_CmdListSetBlock_def)
      (simp add: qlist_def queue_ok_def take_Suc_update)
  show "queue_ok (Arb_CmdListSetBlock q r)"
    using ok mem a unfolding queue_ok_def
    by (auto simp: Arb_CmdListSetBlock_def split: if_splits)
qed

lemma Arb_CmdListClearAll_refines:
  "qlist (Arb_CmdListClearAll q) = []" "queue_ok (Arb_CmdListClearAll q)"
  by (simp_all add: Arb_CmdListClearAll_def qlist_def queue_ok_def)

section \<open>The contract of a command queue\<close>

text \<open>What the arbitration decision relies on, whatever the representation of the queue.\<close>

locale command_queue =
  fixes lst :: "'q \<Rightarrow> ArbCommandRecord_t list"
    and ok :: "'q \<Rightarrow> bool"
    and remove :: "'q \<Rightarrow> u8 \<Rightarrow> 'q"
    and allow :: "'q \<Rightarrow> ArbCommandRecord_t \<Rightarrow> 'q"
    and block :: "'q \<Rightarrow> ArbCommandRecord_t \<Rightarrow> 'q"
    and clear :: "'q \<Rightarrow> 'q"
    and cap :: nat
  assumes ok_distinct: "ok q \<Longrightarrow> distinct (map r_device_id (lst q))"
    and ok_ops: "ok q \<Longrightarrow> ok (remove q d)" "ok q \<Longrightarrow> ok (allow q r)" "ok q \<Longrightarrow> ok (block q r)" "ok (clear q)"
    and lst_remove: "ok q \<Longrightarrow> lst (remove q d) = remove_dev d (lst q)"
    and lst_allow: "ok q \<Longrightarrow> lst (allow q r) =
        (let l = remove_dev (r_device_id r) (lst q) in if length l \<ge> cap then l else insert_prio r l)"
    and lst_block: "ok q \<Longrightarrow> lst (block q r) =
        (if r_device_id r \<in> r_device_id ` set (lst q) \<or> length (lst q) \<ge> cap then lst q
         else lst q @ [r\<lparr>r_duty_pct := 0\<rparr>])"
    and lst_clear: "lst (clear q) = []"
begin

lemma removed_device_absent: "ok q \<Longrightarrow> d \<notin> r_device_id ` set (lst (remove q d))"
  by (simp add: lst_remove remove_dev_absent ok_distinct)

lemma allow_sorted:
  "ok q \<Longrightarrow> sorted (map r_priority (lst q)) \<Longrightarrow> sorted (map r_priority (lst (allow q r)))"
  by (simp add: lst_allow Let_def sorted_insert_prio sorted_remove_dev)

lemma allow_latest:
  assumes "ok q" and "x \<in> set (lst (allow q r))" and "r_device_id x = r_device_id r"
  shows "x = r"
proof (rule ccontr)
  assume "x \<noteq> r"
  with assms(1,2) have "x \<in> set (remove_dev (r_device_id r) (lst q))"
    by (simp add: lst_allow Let_def split: if_splits)
  then have "r_device_id r \<in> r_device_id ` set (remove_dev (r_device_id r) (lst q))"
    using assms(3) by (metis imageI)
  then show False using remove_dev_absent [OF ok_distinct [OF assms(1)]] by blast
qed

lemma allow_present:
  "ok q \<Longrightarrow> length (remove_dev (r_device_id r) (lst q)) < cap \<Longrightarrow> r \<in> set (lst (allow q r))"
  by (simp add: lst_allow Let_def)

lemma block_blocks:
  "ok q \<Longrightarrow> 0 < cap \<Longrightarrow> lst (block q r) \<noteq> []"
  by (auto simp: lst_block)

lemma block_idempotent:
  "ok q \<Longrightarrow> lst (block (block q r) r) = lst (block q r)"
  by (simp add: lst_block ok_ops)

end

interpretation arbq: command_queue qlist queue_ok Arb_CmdListRemove "\<lambda>q. Arb_CmdListSetAllow q None"
  Arb_CmdListSetBlock Arb_CmdListClearAll MAX_CMD_QUEUE_SIZE
  by unfold_locales
    (simp_all add: Arb_CmdListRemove_refines Arb_CmdListSetAllow_refines Arb_CmdListSetBlock_refines
      Arb_CmdListClearAll_refines Let_def, simp add: queue_ok_def)

end
