(* ===== verification/Rt_Ipc.thy ===== *)
theory Rt_Ipc
  imports Prelude
begin

text \<open>
  The two RT-Thread services through which the threads of the firmware communicate, as their
  callers see them; \<open>Kernel_Mq\<close> and \<open>Kernel_Event\<close> model \<^verbatim>\<open>rt-thread/src/ipc.c\<close> itself and are proved to
  implement them. They are the message queue that feeds the arbitration
  thread and the event sets of the state machines. A queue is the list of its pending
  messages, head first, with the number of message blocks it was created with: the block free
  list is empty exactly when that many messages are pending. Only calls that do not block are
  functions here; a receive that would suspend the caller is the result \<open>None\<close>.
\<close>

section \<open>Message queues\<close>

record 'm rt_mq =
  mq_msgs :: "'m list"
  mq_blocks :: nat

definition rt_mq_create :: "nat \<Rightarrow> 'm rt_mq" where
  "rt_mq_create max_msgs = \<lparr>mq_msgs = [], mq_blocks = max_msgs\<rparr>"

text \<open>\<open>rt_mq_send\<close> is \<open>rt_mq_send_wait\<close> with timeout 0: it appends, or fails when no block is free.\<close>

definition rt_mq_send :: "'m rt_mq \<Rightarrow> 'm \<Rightarrow> rt_err_t \<times> 'm rt_mq" where
  "rt_mq_send mq msg =
     (if length (mq_msgs mq) \<ge> mq_blocks mq then (- RT_EFULL, mq)
      else (RT_EOK, mq\<lparr>mq_msgs := mq_msgs mq @ [msg]\<rparr>))"

definition rt_mq_urgent :: "'m rt_mq \<Rightarrow> 'm \<Rightarrow> rt_err_t \<times> 'm rt_mq" where
  "rt_mq_urgent mq msg =
     (if length (mq_msgs mq) \<ge> mq_blocks mq then (- RT_EFULL, mq)
      else (RT_EOK, mq\<lparr>mq_msgs := msg # mq_msgs mq\<rparr>))"

definition rt_mq_recv :: "'m rt_mq \<Rightarrow> ('m \<times> 'm rt_mq) option" where
  "rt_mq_recv mq =
     (case mq_msgs mq of [] \<Rightarrow> None | m # ms \<Rightarrow> Some (m, mq\<lparr>mq_msgs := ms\<rparr>))"

definition mq_wf :: "'m rt_mq \<Rightarrow> bool" where
  "mq_wf mq \<longleftrightarrow> length (mq_msgs mq) \<le> mq_blocks mq"

lemma mq_wf_ops:
  "mq_wf (rt_mq_create n)"
  "mq_wf mq \<Longrightarrow> mq_wf (snd (rt_mq_send mq m))"
  "mq_wf mq \<Longrightarrow> mq_wf (snd (rt_mq_urgent mq m))"
  "mq_wf mq \<Longrightarrow> rt_mq_recv mq = Some (m, mq') \<Longrightarrow> mq_wf mq'"
  by (auto simp: mq_wf_def rt_mq_create_def rt_mq_send_def rt_mq_urgent_def rt_mq_recv_def
      split: list.splits)

section \<open>Event sets\<close>

text \<open>
  An event set is a 32-bit word of pending bits. Sending ORs the bits in; receiving with
  \<open>RT_EVENT_FLAG_OR | RT_EVENT_FLAG_CLEAR\<close> returns the awaited pending bits and clears the
  awaited ones.
\<close>

definition rt_event_send :: "u32 \<Rightarrow> u32 \<Rightarrow> rt_err_t \<times> u32" where
  "rt_event_send ev bits = (if bits = 0 then (- RT_ERROR, ev) else (RT_EOK, ev OR bits))"

definition rt_event_recv_or_clear :: "u32 \<Rightarrow> u32 \<Rightarrow> (u32 \<times> u32) option" where
  "rt_event_recv_or_clear ev bits =
     (if ev AND bits \<noteq> 0 then Some (ev AND bits, ev AND NOT bits) else None)"

section \<open>The interface the sender and the receiver rely on\<close>

text \<open>
  What the clients of a command channel use: an accepted message is delivered, an urgent one
  before everything that is pending, and an error leaves the channel as it was.
\<close>

locale command_channel =
  fixes send urgent :: "'q \<Rightarrow> 'm \<Rightarrow> rt_err_t \<times> 'q"
    and recv :: "'q \<Rightarrow> ('m \<times> 'q) option"
    and pending :: "'q \<Rightarrow> 'm list"
  assumes send_ok: "send q m = (RT_EOK, q') \<Longrightarrow> pending q' = pending q @ [m]"
    and urgent_ok: "urgent q m = (RT_EOK, q') \<Longrightarrow> pending q' = m # pending q"
    and send_err: "send q m = (r, q') \<Longrightarrow> r \<noteq> RT_EOK \<Longrightarrow> q' = q"
    and urgent_err: "urgent q m = (r, q') \<Longrightarrow> r \<noteq> RT_EOK \<Longrightarrow> q' = q"
    and recv_some: "pending q = m # ms \<Longrightarrow> \<exists>q'. recv q = Some (m, q') \<and> pending q' = ms"
    and recv_none: "pending q = [] \<Longrightarrow> recv q = None"
begin

lemma urgent_next:
  assumes "urgent q m = (RT_EOK, q')"
  shows "\<exists>q''. recv q' = Some (m, q'') \<and> pending q'' = pending q"
  using recv_some [OF urgent_ok [OF assms]] .

lemma send_keeps_order:
  assumes "send q m = (RT_EOK, q')" and "pending q = x # xs"
  shows "\<exists>q''. recv q' = Some (x, q'') \<and> pending q'' = xs @ [m]"
  using recv_some send_ok [OF assms(1)] assms(2) by fastforce

end

interpretation mq: command_channel rt_mq_send rt_mq_urgent rt_mq_recv mq_msgs
  by unfold_locales
    (auto simp: rt_mq_send_def rt_mq_urgent_def rt_mq_recv_def split: if_splits)

end
