(* ===== verification/Arbiter.thy ===== *)
theory Arbiter
  imports Arb_Queue Rt_Ipc
begin

text \<open>
  The motor arbitration kernel, \<^verbatim>\<open>Dev/dev_act/dev_act.c\<close>: every axis keeps a block queue
  and an allow queue per direction; the arbitration thread takes one command message at a
  time, updates the queues and selects the direction. The hardware behind the output
  operations is a type parameter \<open>'h\<close>: the operations are bound at run time
  (\<open>Arb_BindOutputOps\<close>), and \<open>motor_output\<close> is the contract they are expected to keep.
  The results of \<open>rt_mutex_take\<close> and of the creation calls at start-up are inputs of the
  model; the millisecond tick is the argument \<open>now\<close>.
\<close>

section \<open>Constants and data\<close>

abbreviation ARB_MAX_AXIS_NUM :: nat where "ARB_MAX_AXIS_NUM \<equiv> 2"
abbreviation ARB_MQ_DEPTH :: nat where "ARB_MQ_DEPTH \<equiv> 16"

abbreviation CMD_TYPE_RUN_FWD :: u8 where "CMD_TYPE_RUN_FWD \<equiv> 1"
abbreviation CMD_TYPE_RUN_REV :: u8 where "CMD_TYPE_RUN_REV \<equiv> 2"
abbreviation CMD_TYPE_STOP :: u8 where "CMD_TYPE_STOP \<equiv> 3"
abbreviation CMD_TYPE_BLOCK_FWD :: u8 where "CMD_TYPE_BLOCK_FWD \<equiv> 4"
abbreviation CMD_TYPE_BLOCK_REV :: u8 where "CMD_TYPE_BLOCK_REV \<equiv> 5"
abbreviation CMD_TYPE_UNBLOCK_FWD :: u8 where "CMD_TYPE_UNBLOCK_FWD \<equiv> 6"
abbreviation CMD_TYPE_UNBLOCK_REV :: u8 where "CMD_TYPE_UNBLOCK_REV \<equiv> 7"
abbreviation CMD_TYPE_CLEAR_ALLOW_FWD :: u8 where "CMD_TYPE_CLEAR_ALLOW_FWD \<equiv> 8"
abbreviation CMD_TYPE_CLEAR_ALLOW_REV :: u8 where "CMD_TYPE_CLEAR_ALLOW_REV \<equiv> 9"
abbreviation CMD_TYPE_EMERGENCY_STOP :: u8 where "CMD_TYPE_EMERGENCY_STOP \<equiv> 10"

abbreviation DEV_ID_NONE :: u8 where "DEV_ID_NONE \<equiv> 0"
abbreviation DEV_ID_POWER_POS :: u8 where "DEV_ID_POWER_POS \<equiv> 1"
abbreviation DEV_ID_POWER_NEG :: u8 where "DEV_ID_POWER_NEG \<equiv> 2"
abbreviation DEV_ID_EMERGENCY :: u8 where "DEV_ID_EMERGENCY \<equiv> 8"
abbreviation DEV_ID_ROD_LIMIT_FWD :: u8 where "DEV_ID_ROD_LIMIT_FWD \<equiv> 17"
abbreviation DEV_ID_ROD_LIMIT_REV :: u8 where "DEV_ID_ROD_LIMIT_REV \<equiv> 18"
abbreviation DEV_ID_MAX :: u8 where "DEV_ID_MAX \<equiv> 19"

abbreviation PRIO_EMERGENCY :: u8 where "PRIO_EMERGENCY \<equiv> 0"
abbreviation PRIO_LIMIT :: u8 where "PRIO_LIMIT \<equiv> 1"
abbreviation PRIO_POWER :: u8 where "PRIO_POWER \<equiv> 5"

datatype ArbDir_t = DIR_NONE | DIR_FWD | DIR_REV
datatype ArbState_t = MS_IDLE | MS_RUNNING

record ArbCommandMsg_t =
  m_axis_id :: u8
  m_device_id :: u8
  m_priority :: u8
  m_cmd_type :: u8
  m_duty_pct :: u8
  m_timestamp :: u32

record ArbData_t =
  block_fwd :: ArbCommandQueue_t
  block_rev :: ArbCommandQueue_t
  allow_fwd :: ArbCommandQueue_t
  allow_rev :: ArbCommandQueue_t
  active_dir :: ArbDir_t
  active_device_id :: u8
  duty_pct :: u8
  arb_state :: ArbState_t
  enable :: u8
  last_arbitration_time :: u32
  arbitration_count :: u32
  conflict_fault :: u8

text \<open>\<open>memset (arb, 0, sizeof *arb)\<close>.\<close>

definition zero_arb :: ArbData_t where
  "zero_arb = \<lparr>block_fwd = empty_queue, block_rev = empty_queue, allow_fwd = empty_queue,
     allow_rev = empty_queue, active_dir = DIR_NONE, active_device_id = 0, duty_pct = 0,
     arb_state = MS_IDLE, enable = 0, last_arbitration_time = 0, arbitration_count = 0,
     conflict_fault = 0\<rparr>"

record 'h ArbOutputOps_t =
  op_fwd :: "(u8 \<Rightarrow> u8 \<Rightarrow> 'h \<Rightarrow> 'h) option"
  op_rev :: "(u8 \<Rightarrow> u8 \<Rightarrow> 'h \<Rightarrow> 'h) option"
  op_stop :: "(u8 \<Rightarrow> 'h \<Rightarrow> 'h) option"

record ArbDbg_t =
  dbg_watch :: "nat option"
  dbg_block_fwd_count :: nat
  dbg_block_rev_count :: nat
  dbg_allow_fwd_count :: nat
  dbg_allow_rev_count :: nat
  dbg_active_device_id :: u8
  dbg_active_dir :: ArbDir_t
  dbg_state :: ArbState_t
  dbg_conflict_fault :: u8
  dbg_arbitration_count :: u32

definition arb_dbg_zero :: ArbDbg_t where
  "arb_dbg_zero = \<lparr>dbg_watch = None, dbg_block_fwd_count = 0, dbg_block_rev_count = 0,
     dbg_allow_fwd_count = 0, dbg_allow_rev_count = 0, dbg_active_device_id = DEV_ID_NONE,
     dbg_active_dir = DIR_NONE, dbg_state = MS_IDLE, dbg_conflict_fault = 0, dbg_arbitration_count = 0\<rparr>"

record ArbAxis_t =
  axis_num :: u8
  arb :: ArbData_t

text \<open>The module's static data. \<open>mutex_take\<close> is what \<open>rt_mutex_take\<close> returns for the mutex of an axis.\<close>

record 'h arb_mod =
  s_arb_axis :: "ArbAxis_t list"
  s_arb_mq :: "ArbCommandMsg_t rt_mq option"
  s_arb_output_ops :: "'h ArbOutputOps_t option"
  arb_dbg :: ArbDbg_t
  mutex_take :: "nat \<Rightarrow> rt_err_t"
  hw :: 'h

definition get_arb :: "nat \<Rightarrow> 'h arb_mod \<Rightarrow> ArbData_t" where
  "get_arb i m = arb (s_arb_axis m ! i)"

definition set_arb :: "nat \<Rightarrow> ArbData_t \<Rightarrow> 'h arb_mod \<Rightarrow> 'h arb_mod" where
  "set_arb i a m = m\<lparr>s_arb_axis := (s_arb_axis m)[i := (s_arb_axis m ! i)\<lparr>arb := a\<rparr>]\<rparr>"

text \<open>Calls through the bound table.\<close>

definition call_fwd :: "u8 \<Rightarrow> u8 \<Rightarrow> 'h arb_mod \<Rightarrow> 'h arb_mod" where
  "call_fwd axis duty m =
     (case s_arb_output_ops m of Some ops \<Rightarrow> (case op_fwd ops of Some f \<Rightarrow> m\<lparr>hw := f axis duty (hw m)\<rparr> | None \<Rightarrow> m)
      | None \<Rightarrow> m)"

definition call_rev :: "u8 \<Rightarrow> u8 \<Rightarrow> 'h arb_mod \<Rightarrow> 'h arb_mod" where
  "call_rev axis duty m =
     (case s_arb_output_ops m of Some ops \<Rightarrow> (case op_rev ops of Some f \<Rightarrow> m\<lparr>hw := f axis duty (hw m)\<rparr> | None \<Rightarrow> m)
      | None \<Rightarrow> m)"

definition call_stop :: "u8 \<Rightarrow> 'h arb_mod \<Rightarrow> 'h arb_mod" where
  "call_stop axis m =
     (case s_arb_output_ops m of Some ops \<Rightarrow> (case op_stop ops of Some f \<Rightarrow> m\<lparr>hw := f axis (hw m)\<rparr> | None \<Rightarrow> m)
      | None \<Rightarrow> m)"

section \<open>Queue updates by command\<close>

definition msg_record :: "ArbCommandMsg_t \<Rightarrow> ArbCommandRecord_t" where
  "msg_record msg = \<lparr>r_device_id = m_device_id msg, r_priority = m_priority msg,
     r_cmd_type = m_cmd_type msg, r_duty_pct = m_duty_pct msg, r_timestamp = m_timestamp msg\<rparr>"

definition Arb_RemoveOppositePowerAllow :: "ArbData_t \<Rightarrow> ArbCommandMsg_t \<Rightarrow> ArbData_t" where
  "Arb_RemoveOppositePowerAllow a msg =
     (if m_cmd_type msg \<noteq> CMD_TYPE_RUN_FWD \<and> m_cmd_type msg \<noteq> CMD_TYPE_RUN_REV then a
      else if m_device_id msg = DEV_ID_POWER_POS then
        a\<lparr>allow_rev := Arb_CmdListRemove (allow_rev a) DEV_ID_POWER_NEG\<rparr>
      else if m_device_id msg = DEV_ID_POWER_NEG then
        a\<lparr>allow_fwd := Arb_CmdListRemove (allow_fwd a) DEV_ID_POWER_POS\<rparr>
      else a)"

definition Arb_ProcessMessage :: "ArbData_t \<Rightarrow> ArbCommandMsg_t \<Rightarrow> ArbData_t" where
  "Arb_ProcessMessage a0 msg =
     (let a = Arb_RemoveOppositePowerAllow a0 msg; c = m_cmd_type msg; d = m_device_id msg; r = msg_record msg in
      if c = CMD_TYPE_RUN_FWD then
        let bq = Arb_CmdListRemove (block_fwd a) d
        in a\<lparr>block_fwd := bq, allow_fwd := Arb_CmdListSetAllow (allow_fwd a) (Some bq) r\<rparr>
      else if c = CMD_TYPE_RUN_REV then
        let bq = Arb_CmdListRemove (block_rev a) d
        in a\<lparr>block_rev := bq, allow_rev := Arb_CmdListSetAllow (allow_rev a) (Some bq) r\<rparr>
      else if c = CMD_TYPE_STOP then
        a\<lparr>allow_fwd := Arb_CmdListRemove (allow_fwd a) d, allow_rev := Arb_CmdListRemove (allow_rev a) d\<rparr>
      else if c = CMD_TYPE_BLOCK_FWD then a\<lparr>block_fwd := Arb_CmdListSetBlock (block_fwd a) r\<rparr>
      else if c = CMD_TYPE_BLOCK_REV then a\<lparr>block_rev := Arb_CmdListSetBlock (block_rev a) r\<rparr>
      else if c = CMD_TYPE_UNBLOCK_FWD then a\<lparr>block_fwd := Arb_CmdListRemove (block_fwd a) d\<rparr>
      else if c = CMD_TYPE_UNBLOCK_REV then a\<lparr>block_rev := Arb_CmdListRemove (block_rev a) d\<rparr>
      else if c = CMD_TYPE_CLEAR_ALLOW_FWD then a\<lparr>allow_fwd := Arb_CmdListClearAll (allow_fwd a)\<rparr>
      else if c = CMD_TYPE_CLEAR_ALLOW_REV then a\<lparr>allow_rev := Arb_CmdListClearAll (allow_rev a)\<rparr>
      else if c = CMD_TYPE_EMERGENCY_STOP then
        a\<lparr>allow_fwd := Arb_CmdListClearAll (allow_fwd a), allow_rev := Arb_CmdListClearAll (allow_rev a)\<rparr>
      else a)"

section \<open>The decision\<close>

text \<open>Pointer comparison with the axes of the module: a pointer to axis data is its index.\<close>

definition Arb_GetAxisId :: "nat \<Rightarrow> u8" where
  "Arb_GetAxisId i = (if i < ARB_MAX_AXIS_NUM then of_nat i else of_nat ARB_MAX_AXIS_NUM)"

definition Arb_ApplyStop :: "nat \<Rightarrow> 'h arb_mod \<Rightarrow> 'h arb_mod" where
  "Arb_ApplyStop i m =
     call_stop (Arb_GetAxisId i)
       (set_arb i ((get_arb i m)\<lparr>active_device_id := DEV_ID_NONE, active_dir := DIR_NONE,
          duty_pct := 0, arb_state := MS_IDLE\<rparr>) m)"

text \<open>The candidate of each direction, the winner, and whether the candidates conflict.\<close>

definition fwd_cmd :: "ArbData_t \<Rightarrow> ArbCommandRecord_t option" where
  "fwd_cmd a = (if q_count (block_fwd a) = 0 \<and> q_count (allow_fwd a) > 0
     then Some (records (allow_fwd a) ! 0) else None)"

definition rev_cmd :: "ArbData_t \<Rightarrow> ArbCommandRecord_t option" where
  "rev_cmd a = (if q_count (block_rev a) = 0 \<and> q_count (allow_rev a) > 0
     then Some (records (allow_rev a) ! 0) else None)"

definition final_cmd :: "ArbData_t \<Rightarrow> ArbCommandRecord_t option \<times> bool" where
  "final_cmd a =
     (case (fwd_cmd a, rev_cmd a) of
        (Some f, Some r) \<Rightarrow>
          if r_device_id f = r_device_id r then (None, True)
          else if r_priority f < r_priority r then (Some f, False)
          else if r_priority r < r_priority f then (Some r, False)
          else (None, True)
      | (Some f, None) \<Rightarrow> (Some f, False)
      | (None, r) \<Rightarrow> (r, False))"

definition Arb_Decision :: "u32 \<Rightarrow> nat \<Rightarrow> 'h arb_mod \<Rightarrow> 'h arb_mod" where
  "Arb_Decision now i m0 =
     (let m = set_arb i ((get_arb i m0)\<lparr>conflict_fault := 0\<rparr>) m0; a = get_arb i m in
      if enable a = 0 then Arb_ApplyStop i m
      else
        let m1 = (if snd (final_cmd a) then set_arb i (a\<lparr>conflict_fault := 1\<rparr>) m else m);
            m2 = (case fst (final_cmd a) of
                Some r \<Rightarrow>
                  let b = (get_arb i m1)\<lparr>active_device_id := r_device_id r, duty_pct := r_duty_pct r,
                        arb_state := MS_RUNNING\<rparr>
                  in if r_cmd_type r = CMD_TYPE_RUN_FWD
                     then call_fwd (Arb_GetAxisId i) (r_duty_pct r) (set_arb i (b\<lparr>active_dir := DIR_FWD\<rparr>) m1)
                     else call_rev (Arb_GetAxisId i) (r_duty_pct r) (set_arb i (b\<lparr>active_dir := DIR_REV\<rparr>) m1)
              | None \<Rightarrow> Arb_ApplyStop i m1);
            c = get_arb i m2
        in set_arb i (c\<lparr>last_arbitration_time := now, arbitration_count := arbitration_count c + 1\<rparr>) m2)"

definition Arb_RefreshDebug :: "nat \<Rightarrow> 'h arb_mod \<Rightarrow> 'h arb_mod" where
  "Arb_RefreshDebug i m =
     (let a = get_arb i m in
      m\<lparr>arb_dbg := \<lparr>dbg_watch = Some i, dbg_block_fwd_count = q_count (block_fwd a),
         dbg_block_rev_count = q_count (block_rev a), dbg_allow_fwd_count = q_count (allow_fwd a),
         dbg_allow_rev_count = q_count (allow_rev a), dbg_active_device_id = active_device_id a,
         dbg_active_dir = active_dir a, dbg_state = arb_state a, dbg_conflict_fault = conflict_fault a,
         dbg_arbitration_count = arbitration_count a\<rparr>\<rparr>)"

section \<open>The module's interface\<close>

definition Arb_DefaultOutputFwd :: "u8 \<Rightarrow> u8 \<Rightarrow> 'h \<Rightarrow> 'h" where "Arb_DefaultOutputFwd axis duty h = h"
definition Arb_DefaultOutputRev :: "u8 \<Rightarrow> u8 \<Rightarrow> 'h \<Rightarrow> 'h" where "Arb_DefaultOutputRev axis duty h = h"
definition Arb_DefaultOutputStop :: "u8 \<Rightarrow> 'h \<Rightarrow> 'h" where "Arb_DefaultOutputStop axis h = h"

definition s_arb_default_output_ops :: "'h ArbOutputOps_t" where
  "s_arb_default_output_ops = \<lparr>op_fwd = Some Arb_DefaultOutputFwd, op_rev = Some Arb_DefaultOutputRev,
     op_stop = Some Arb_DefaultOutputStop\<rparr>"

text \<open>The re-entry loop: each axis whose mutex can be taken is cleared and enabled.\<close>

fun arb_reset_axes :: "nat list \<Rightarrow> 'h arb_mod \<Rightarrow> 'h arb_mod" where
  "arb_reset_axes [] m = m"
| "arb_reset_axes (i # is) m =
     arb_reset_axes is (if mutex_take m i = RT_EOK then set_arb i (zero_arb\<lparr>enable := 1\<rparr>) m else m)"

text \<open>The first-time loop: it stops at the first mutex that cannot be initialised.\<close>

fun arb_init_axes :: "(nat \<Rightarrow> rt_err_t) \<Rightarrow> nat list \<Rightarrow> 'h arb_mod \<Rightarrow> bool \<times> 'h arb_mod" where
  "arb_init_axes mutex_init [] m = (True, m)"
| "arb_init_axes mutex_init (i # is) m =
     (let m1 = m\<lparr>s_arb_axis := (s_arb_axis m)[i := \<lparr>axis_num = of_nat i, arb = zero_arb\<lparr>enable := 1\<rparr>\<rparr>]\<rparr>
      in if mutex_init i \<noteq> RT_EOK then (False, m1) else arb_init_axes mutex_init is m1)"

definition Arb_Module_Init :: "(nat \<Rightarrow> rt_err_t) \<Rightarrow> bool \<Rightarrow> 'h arb_mod \<Rightarrow> 'h arb_mod" where
  "Arb_Module_Init mutex_init mq_create_ok m =
     (case s_arb_mq m of
        Some _ \<Rightarrow> Arb_RefreshDebug 0 (arb_reset_axes [0..<ARB_MAX_AXIS_NUM] m)
      | None \<Rightarrow>
          let (ok, m1) = arb_init_axes mutex_init [0..<ARB_MAX_AXIS_NUM]
                (m\<lparr>s_arb_output_ops := Some s_arb_default_output_ops\<rparr>)
          in if \<not> ok then m1
             else if \<not> mq_create_ok then m1
             else m1\<lparr>s_arb_mq := Some (rt_mq_create ARB_MQ_DEPTH)\<rparr>)"

definition cmd_type_known :: "u8 \<Rightarrow> bool" where
  "cmd_type_known c \<longleftrightarrow> c \<in> {CMD_TYPE_RUN_FWD, CMD_TYPE_RUN_REV, CMD_TYPE_STOP, CMD_TYPE_BLOCK_FWD,
     CMD_TYPE_BLOCK_REV, CMD_TYPE_UNBLOCK_FWD, CMD_TYPE_UNBLOCK_REV, CMD_TYPE_CLEAR_ALLOW_FWD,
     CMD_TYPE_CLEAR_ALLOW_REV, CMD_TYPE_EMERGENCY_STOP}"

definition Arb_SendCommand ::
  "u8 \<Rightarrow> u8 \<Rightarrow> u8 \<Rightarrow> u8 \<Rightarrow> u8 \<Rightarrow> bool \<Rightarrow> u32 \<Rightarrow> 'h arb_mod \<Rightarrow> rt_err_t \<times> 'h arb_mod" where
  "Arb_SendCommand axis_id device_id priority cmd_type duty urgent now m =
     (case s_arb_mq m of
        None \<Rightarrow> (RT_EINVAL, m)
      | Some q \<Rightarrow>
          if axis_id \<ge> of_nat ARB_MAX_AXIS_NUM \<or> device_id \<le> DEV_ID_NONE \<or> device_id \<ge> DEV_ID_MAX \<or>
             priority > PRIO_POWER \<or> duty > 100 then (RT_EINVAL, m)
          else if \<not> cmd_type_known cmd_type then (RT_EINVAL, m)
          else
            let msg = \<lparr>m_axis_id = axis_id, m_device_id = device_id, m_priority = priority,
                  m_cmd_type = cmd_type, m_duty_pct = duty, m_timestamp = now\<rparr>;
                (ret, q') = (if urgent then rt_mq_urgent q msg else rt_mq_send q msg)
            in (ret, m\<lparr>s_arb_mq := Some q'\<rparr>))"

definition Arb_SetEnable :: "u8 \<Rightarrow> bool \<Rightarrow> 'h arb_mod \<Rightarrow> rt_err_t \<times> 'h arb_mod" where
  "Arb_SetEnable axis_id en m =
     (let i = unat axis_id in
      if axis_id \<ge> of_nat ARB_MAX_AXIS_NUM then (RT_EINVAL, m)
      else if mutex_take m i \<noteq> RT_EOK then (mutex_take m i, m)
      else (RT_EOK, set_arb i ((get_arb i m)\<lparr>enable := (if en then 1 else 0)\<rparr>) m))"

text \<open>The copy of the axis data, or the error; \<open>data_null\<close> when the caller passes a NULL pointer.\<close>

definition Arb_GetData :: "u8 \<Rightarrow> bool \<Rightarrow> 'h arb_mod \<Rightarrow> rt_err_t + ArbData_t" where
  "Arb_GetData axis_id data_null m =
     (let i = unat axis_id in
      if axis_id \<ge> of_nat ARB_MAX_AXIS_NUM \<or> data_null then Inl RT_EINVAL
      else if mutex_take m i \<noteq> RT_EOK then Inl (mutex_take m i)
      else Inr (get_arb i m))"

definition Arb_BindOutputOps :: "'h ArbOutputOps_t option \<Rightarrow> 'h arb_mod \<Rightarrow> rt_err_t \<times> 'h arb_mod" where
  "Arb_BindOutputOps ops m =
     (case ops of
        None \<Rightarrow> (RT_EINVAL, m)
      | Some t \<Rightarrow>
          if op_fwd t = None \<or> op_rev t = None \<or> op_stop t = None then (RT_EINVAL, m)
          else (RT_EOK, m\<lparr>s_arb_output_ops := ops\<rparr>))"

text \<open>One round of \<open>Arb_ThreadEntry\<close>; \<open>None\<close> when the receive suspends the thread.\<close>

definition Arb_ThreadStep :: "u32 \<Rightarrow> 'h arb_mod \<Rightarrow> 'h arb_mod option" where
  "Arb_ThreadStep now m =
     (case s_arb_mq m of
        None \<Rightarrow> None
      | Some q \<Rightarrow>
          (case rt_mq_recv q of
             None \<Rightarrow> None
           | Some (msg, q') \<Rightarrow>
               let m1 = m\<lparr>s_arb_mq := Some q'\<rparr>; i = unat (m_axis_id msg) in
               if m_axis_id msg \<ge> of_nat ARB_MAX_AXIS_NUM then Some m1
               else if mutex_take m1 i \<noteq> RT_EOK then Some m1
               else Some (Arb_RefreshDebug i (Arb_Decision now i
                      (set_arb i (Arb_ProcessMessage (get_arb i m1) msg) m1)))))"

end
