(* ===== verification/Arbiter_Laws.thy ===== *)
theory Arbiter_Laws
  imports Arbiter
begin

text \<open>
  The laws of the arbitration kernel. \<open>arb_decide\<close> is the decision as a function of the
  axis data alone, and \<open>Arb_Decision\<close> implements it; \<open>arb_inv\<close> and \<open>out_inv\<close> are the
  invariants of the queues and of the published output; \<open>arb_reach\<close> are the states the
  module can get into under any interleaving of its callers and its thread; and
  \<open>motor_output\<close> is the contract of the output operations the module is bound to.
\<close>

section \<open>Access to the axes\<close>

lemma get_set_arb [simp]: "i < length (s_arb_axis m) \<Longrightarrow> get_arb i (set_arb i a m) = a"
  by (simp add: get_arb_def set_arb_def)

lemma get_set_arb_other [simp]: "j \<noteq> i \<Longrightarrow> get_arb j (set_arb i a m) = get_arb j m"
  by (simp add: get_arb_def set_arb_def)

lemma set_arb_frame [simp]:
  "length (s_arb_axis (set_arb i a m)) = length (s_arb_axis m)"
  "s_arb_mq (set_arb i a m) = s_arb_mq m"
  "s_arb_output_ops (set_arb i a m) = s_arb_output_ops m"
  "mutex_take (set_arb i a m) = mutex_take m"
  "hw (set_arb i a m) = hw m"
  "arb_dbg (set_arb i a m) = arb_dbg m"
  by (simp_all add: set_arb_def)

lemma call_frame [simp]:
  "s_arb_axis (call_fwd x d m) = s_arb_axis m" "s_arb_mq (call_fwd x d m) = s_arb_mq m"
  "s_arb_axis (call_rev x d m) = s_arb_axis m" "s_arb_mq (call_rev x d m) = s_arb_mq m"
  "s_arb_axis (call_stop x m) = s_arb_axis m" "s_arb_mq (call_stop x m) = s_arb_mq m"
  "mutex_take (call_fwd x d m) = mutex_take m" "mutex_take (call_rev x d m) = mutex_take m"
  "mutex_take (call_stop x m) = mutex_take m"
  "s_arb_output_ops (call_fwd x d m) = s_arb_output_ops m"
  "s_arb_output_ops (call_rev x d m) = s_arb_output_ops m"
  "s_arb_output_ops (call_stop x m) = s_arb_output_ops m"
  by (simp_all add: call_fwd_def call_rev_def call_stop_def split: option.split)

lemma get_arb_call [simp]:
  "get_arb i (call_fwd x d m) = get_arb i m" "get_arb i (call_rev x d m) = get_arb i m"
  "get_arb i (call_stop x m) = get_arb i m"
  by (simp_all add: get_arb_def)

lemma get_arb_upd [simp]:
  "get_arb i (m\<lparr>s_arb_mq := q\<rparr>) = get_arb i m" "get_arb i (m\<lparr>arb_dbg := g\<rparr>) = get_arb i m"
  "get_arb i (m\<lparr>mutex_take := t\<rparr>) = get_arb i m" "get_arb i (m\<lparr>s_arb_output_ops := ops\<rparr>) = get_arb i m"
  "get_arb i (m\<lparr>hw := h\<rparr>) = get_arb i m"
  by (simp_all add: get_arb_def)

lemma Arb_RefreshDebug_frame [simp]:
  "get_arb j (Arb_RefreshDebug i m) = get_arb j m" "s_arb_mq (Arb_RefreshDebug i m) = s_arb_mq m"
  "length (s_arb_axis (Arb_RefreshDebug i m)) = length (s_arb_axis m)"
  "hw (Arb_RefreshDebug i m) = hw m" "mutex_take (Arb_RefreshDebug i m) = mutex_take m"
  "s_arb_output_ops (Arb_RefreshDebug i m) = s_arb_output_ops m"
  by (simp_all add: Arb_RefreshDebug_def Let_def get_arb_def)

section \<open>The decision as a function of the axis data\<close>

definition stopped :: "ArbData_t \<Rightarrow> ArbData_t" where
  "stopped a = a\<lparr>active_device_id := DEV_ID_NONE, active_dir := DIR_NONE, duty_pct := 0, arb_state := MS_IDLE\<rparr>"

definition arb_decide :: "u32 \<Rightarrow> ArbData_t \<Rightarrow> ArbData_t" where
  "arb_decide now a =
     (if enable a = 0 then stopped (a\<lparr>conflict_fault := 0\<rparr>)
      else
        let b = a\<lparr>conflict_fault := (if snd (final_cmd a) then 1 else 0)\<rparr>;
            c = (case fst (final_cmd a) of
                  None \<Rightarrow> stopped b
                | Some r \<Rightarrow> b\<lparr>active_device_id := r_device_id r, duty_pct := r_duty_pct r,
                    arb_state := MS_RUNNING,
                    active_dir := (if r_cmd_type r = CMD_TYPE_RUN_FWD then DIR_FWD else DIR_REV)\<rparr>)
        in c\<lparr>last_arbitration_time := now, arbitration_count := arbitration_count a + 1\<rparr>)"

lemma final_cmd_upd [simp]: "final_cmd (a\<lparr>conflict_fault := c\<rparr>) = final_cmd a"
  by (simp add: final_cmd_def fwd_cmd_def rev_cmd_def)

lemma Arb_ApplyStop_arb [simp]:
  "i < length (s_arb_axis m) \<Longrightarrow> get_arb i (Arb_ApplyStop i m) = stopped (get_arb i m)"
  "length (s_arb_axis (Arb_ApplyStop i m)) = length (s_arb_axis m)"
  "s_arb_mq (Arb_ApplyStop i m) = s_arb_mq m"
  "mutex_take (Arb_ApplyStop i m) = mutex_take m"
  "s_arb_output_ops (Arb_ApplyStop i m) = s_arb_output_ops m"
  "j \<noteq> i \<Longrightarrow> get_arb j (Arb_ApplyStop i m) = get_arb j m"
  by (simp_all add: Arb_ApplyStop_def stopped_def)

lemma Arb_Decision_arb:
  "i < length (s_arb_axis m) \<Longrightarrow> get_arb i (Arb_Decision now i m) = arb_decide now (get_arb i m)"
  by (auto simp: Arb_Decision_def arb_decide_def Let_def stopped_def split: option.split)

lemma Arb_Decision_frame [simp]:
  "j \<noteq> i \<Longrightarrow> get_arb j (Arb_Decision now i m) = get_arb j m"
  "length (s_arb_axis (Arb_Decision now i m)) = length (s_arb_axis m)"
  "s_arb_mq (Arb_Decision now i m) = s_arb_mq m"
  "mutex_take (Arb_Decision now i m) = mutex_take m"
  "s_arb_output_ops (Arb_Decision now i m) = s_arb_output_ops m"
  by (simp_all add: Arb_Decision_def Let_def split: option.split)

lemma arb_decide_queues [simp]:
  "block_fwd (arb_decide now a) = block_fwd a" "block_rev (arb_decide now a) = block_rev a"
  "allow_fwd (arb_decide now a) = allow_fwd a" "allow_rev (arb_decide now a) = allow_rev a"
  "enable (arb_decide now a) = enable a"
  by (simp_all add: arb_decide_def Let_def stopped_def split: option.split)

section \<open>The queue invariant\<close>

definition allow_ok :: "u8 \<Rightarrow> ArbCommandQueue_t \<Rightarrow> bool" where
  "allow_ok c q \<longleftrightarrow> queue_ok q \<and> sorted (map r_priority (qlist q)) \<and>
     (\<forall>r \<in> set (qlist q). r_cmd_type r = c)"

definition arb_inv :: "ArbData_t \<Rightarrow> bool" where
  "arb_inv a \<longleftrightarrow>
     queue_ok (block_fwd a) \<and> queue_ok (block_rev a) \<and>
     allow_ok CMD_TYPE_RUN_FWD (allow_fwd a) \<and> allow_ok CMD_TYPE_RUN_REV (allow_rev a)"

lemma arb_inv_zero [simp]: "arb_inv zero_arb" "arb_inv (a\<lparr>enable := e\<rparr>) = arb_inv a"
  by (simp_all add: arb_inv_def zero_arb_def allow_ok_def)

lemma allow_ok_set:
  "allow_ok c q \<Longrightarrow> r_cmd_type x = c \<Longrightarrow> allow_ok c (Arb_CmdListSetAllow q b x)"
  using set_remove_dev [of "r_device_id x" "qlist q"] Arb_CmdListSetAllow_refines(2) [of q b x]
  by (auto simp: allow_ok_def Arb_CmdListSetAllow_refines(1) sorted_insert_prio sorted_remove_dev)

lemma allow_ok_remove: "allow_ok c q \<Longrightarrow> allow_ok c (Arb_CmdListRemove q d)"
  using set_remove_dev [of d "qlist q"]
  by (auto simp: allow_ok_def Arb_CmdListRemove_refines sorted_remove_dev)

lemma allow_ok_clear: "allow_ok c (Arb_CmdListClearAll q)"
  by (simp add: allow_ok_def Arb_CmdListClearAll_refines)

lemmas queue_inv_rules = allow_ok_set allow_ok_remove allow_ok_clear
  Arb_CmdListRemove_refines(2) Arb_CmdListSetBlock_refines(2)

lemma Arb_RemoveOppositePowerAllow_inv:
  "arb_inv a \<Longrightarrow> arb_inv (Arb_RemoveOppositePowerAllow a msg)"
  by (simp add: Arb_RemoveOppositePowerAllow_def arb_inv_def allow_ok_remove)

lemma Arb_ProcessMessage_inv: "arb_inv a \<Longrightarrow> arb_inv (Arb_ProcessMessage a msg)"
proof -
  assume "arb_inv a"
  then have inv: "arb_inv (Arb_RemoveOppositePowerAllow a msg)"
    by (rule Arb_RemoveOppositePowerAllow_inv)
  have rec: "r_cmd_type (msg_record msg) = m_cmd_type msg" by (simp add: msg_record_def)
  show ?thesis
    using inv unfolding Arb_ProcessMessage_def Let_def arb_inv_def
    by (simp add: rec queue_inv_rules)
qed

lemma arb_decide_inv [simp]: "arb_inv (arb_decide now a) = arb_inv a"
  by (simp add: arb_inv_def)

section \<open>What a published direction guarantees\<close>

text \<open>
  The running command of a direction is a most urgent one of the allow queue, the direction
  is not blocked, and every command of the other direction is strictly less urgent unless
  that direction is blocked.
\<close>

definition winner :: "ArbCommandQueue_t \<Rightarrow> ArbCommandQueue_t \<Rightarrow> ArbCommandQueue_t \<Rightarrow> ArbCommandQueue_t \<Rightarrow>
    u8 \<Rightarrow> u8 \<Rightarrow> bool" where
  "winner bq aq obq oaq dev duty \<longleftrightarrow>
     qlist bq = [] \<and>
     (\<exists>r \<in> set (qlist aq). r_device_id r = dev \<and> r_duty_pct r = duty \<and>
        (\<forall>x \<in> set (qlist aq). r_priority r \<le> r_priority x) \<and>
        (qlist obq = [] \<longrightarrow> (\<forall>x \<in> set (qlist oaq). r_priority r < r_priority x)))"

definition out_inv :: "ArbData_t \<Rightarrow> bool" where
  "out_inv a \<longleftrightarrow>
     (active_dir a = DIR_FWD \<longrightarrow> winner (block_fwd a) (allow_fwd a) (block_rev a) (allow_rev a) (active_device_id a) (duty_pct a)) \<and>
     (active_dir a = DIR_REV \<longrightarrow> winner (block_rev a) (allow_rev a) (block_fwd a) (allow_fwd a) (active_device_id a) (duty_pct a)) \<and>
     (active_dir a = DIR_NONE \<longleftrightarrow> arb_state a = MS_IDLE) \<and>
     (active_dir a = DIR_NONE \<longrightarrow> duty_pct a = 0 \<and> active_device_id a = DEV_ID_NONE)"

lemma out_inv_zero [simp]: "out_inv zero_arb" "out_inv (a\<lparr>enable := e\<rparr>) = out_inv a"
  by (simp_all add: out_inv_def zero_arb_def)

text \<open>The candidate of a direction, on the list view.\<close>

lemma head_candidate:
  assumes "queue_ok q" and "q_count q > 0"
  shows "\<exists>x xs. qlist q = x # xs \<and> records q ! 0 = x"
proof -
  have "qlist q \<noteq> []" using assms by (simp add: qlist_empty_iff)
  then obtain x xs where "qlist q = x # xs" by (cases "qlist q") auto
  moreover have "records q ! 0 = x" using calculation assms qlist_nth [of 0 q] by simp
  ultimately show ?thesis by blast
qed

lemma fwd_cmd_list:
  "arb_inv a \<Longrightarrow> fwd_cmd a = (if qlist (block_fwd a) = [] then
     (case qlist (allow_fwd a) of [] \<Rightarrow> None | x # _ \<Rightarrow> Some x) else None)"
  using head_candidate [of "allow_fwd a"]
  by (auto simp: fwd_cmd_def arb_inv_def allow_ok_def qlist_empty_iff split: list.split) (simp add: qlist_def)

lemma rev_cmd_list:
  "arb_inv a \<Longrightarrow> rev_cmd a = (if qlist (block_rev a) = [] then
     (case qlist (allow_rev a) of [] \<Rightarrow> None | x # _ \<Rightarrow> Some x) else None)"
  using head_candidate [of "allow_rev a"]
  by (auto simp: rev_cmd_def arb_inv_def allow_ok_def qlist_empty_iff split: list.split) (simp add: qlist_def)

lemma sorted_head_least:
  "sorted (map r_priority (x # xs)) \<Longrightarrow> y \<in> set (x # xs) \<Longrightarrow> r_priority x \<le> r_priority y"
  by auto

section \<open>The decision publishes the most urgent unblocked command\<close>

lemma final_cmd_fwd:
  assumes "arb_inv a" and "fst (final_cmd a) = Some r" and "r_cmd_type r = CMD_TYPE_RUN_FWD"
  shows "winner (block_fwd a) (allow_fwd a) (block_rev a) (allow_rev a) (r_device_id r) (r_duty_pct r)"
proof -
  have f: "fwd_cmd a = Some r"
    using assms rev_cmd_list [of a]
    by (auto simp: final_cmd_def arb_inv_def allow_ok_def split: option.splits if_splits list.splits)
  have block: "qlist (block_fwd a) = []" using f fwd_cmd_list [OF assms(1)] by (auto split: if_splits)
  obtain xs where xs: "qlist (allow_fwd a) = r # xs"
    using f fwd_cmd_list [OF assms(1)] by (auto split: if_splits list.splits)
  have least: "\<forall>x \<in> set (qlist (allow_fwd a)). r_priority r \<le> r_priority x"
    using assms(1) xs by (auto simp: arb_inv_def allow_ok_def)
  have other: "r_priority r < r_priority y" if b: "qlist (block_rev a) = []" and y: "y \<in> set (qlist (allow_rev a))" for y
  proof -
    obtain z zs where z: "qlist (allow_rev a) = z # zs" using y by (cases "qlist (allow_rev a)") auto
    have "rev_cmd a = Some z" using b z rev_cmd_list [OF assms(1)] by simp
    then have "r_priority r < r_priority z" using f assms(1,2,3) z
      by (auto simp: final_cmd_def arb_inv_def allow_ok_def split: if_splits)
    moreover have "r_priority z \<le> r_priority y"
      using assms(1) z y by (auto simp: arb_inv_def allow_ok_def)
    ultimately show ?thesis by (rule less_le_trans)
  qed
  show ?thesis unfolding winner_def using block xs least other by auto
qed

lemma final_cmd_rev:
  assumes "arb_inv a" and "fst (final_cmd a) = Some r" and "r_cmd_type r \<noteq> CMD_TYPE_RUN_FWD"
  shows "winner (block_rev a) (allow_rev a) (block_fwd a) (allow_fwd a) (r_device_id r) (r_duty_pct r)"
proof -
  have f: "rev_cmd a = Some r"
    using assms fwd_cmd_list [of a]
    by (auto simp: final_cmd_def arb_inv_def allow_ok_def split: option.splits if_splits list.splits)
  have block: "qlist (block_rev a) = []" using f rev_cmd_list [OF assms(1)] by (auto split: if_splits)
  obtain xs where xs: "qlist (allow_rev a) = r # xs"
    using f rev_cmd_list [OF assms(1)] by (auto split: if_splits list.splits)
  have least: "\<forall>x \<in> set (qlist (allow_rev a)). r_priority r \<le> r_priority x"
    using assms(1) xs by (auto simp: arb_inv_def allow_ok_def)
  have other: "r_priority r < r_priority y" if b: "qlist (block_fwd a) = []" and y: "y \<in> set (qlist (allow_fwd a))" for y
  proof -
    obtain z zs where z: "qlist (allow_fwd a) = z # zs" using y by (cases "qlist (allow_fwd a)") auto
    have "fwd_cmd a = Some z" using b z fwd_cmd_list [OF assms(1)] by simp
    then have "r_priority r < r_priority z" using f assms(1,2,3) z
      by (auto simp: final_cmd_def arb_inv_def allow_ok_def split: if_splits)
    moreover have "r_priority z \<le> r_priority y"
      using assms(1) z y by (auto simp: arb_inv_def allow_ok_def)
    ultimately show ?thesis by (rule less_le_trans)
  qed
  show ?thesis unfolding winner_def using block xs least other by auto
qed

lemma arb_decide_out_inv:
  assumes "arb_inv a"
  shows "out_inv (arb_decide now a)"
proof (cases "enable a = 0 \<or> fst (final_cmd a) = None")
  case True
  then show ?thesis by (auto simp: out_inv_def arb_decide_def Let_def stopped_def)
next
  case False
  then obtain r where r: "fst (final_cmd a) = Some r" and en: "enable a \<noteq> 0" by auto
  show ?thesis
    using final_cmd_fwd [OF assms r] final_cmd_rev [OF assms r] r en
    by (simp add: out_inv_def arb_decide_def Let_def)
qed

text \<open>The converse: a strictly most urgent unblocked command of an enabled axis does run.\<close>

lemma arb_decide_runs_fwd:
  assumes "arb_inv a" and "enable a \<noteq> 0" and "qlist (block_fwd a) = []"
    and "r \<in> set (qlist (allow_fwd a))"
    and "qlist (block_rev a) \<noteq> [] \<or> (\<forall>x \<in> set (qlist (allow_rev a)).
           r_priority r < r_priority x \<and> r_device_id x \<notin> r_device_id ` set (qlist (allow_fwd a)))"
  shows "active_dir (arb_decide now a) = DIR_FWD"
proof -
  obtain h t where h: "qlist (allow_fwd a) = h # t" using assms(4) by (cases "qlist (allow_fwd a)") auto
  have le: "r_priority h \<le> r_priority r"
    using assms(1,4) h by (auto simp: arb_inv_def allow_ok_def)
  have fc: "fwd_cmd a = Some h" using h assms(3) fwd_cmd_list [OF assms(1)] by simp
  have ty: "r_cmd_type h = CMD_TYPE_RUN_FWD" using assms(1) h by (auto simp: arb_inv_def allow_ok_def)
  have "fst (final_cmd a) = Some h"
  proof (cases "rev_cmd a")
    case None
    then show ?thesis by (simp add: final_cmd_def fc)
  next
    case (Some z)
    then have "qlist (block_rev a) = []" "z \<in> set (qlist (allow_rev a))"
      using rev_cmd_list [OF assms(1)] by (auto split: if_splits list.splits)
    with assms(5) h have "r_priority r < r_priority z" "r_device_id h \<noteq> r_device_id z" by force+
    with le show ?thesis by (auto simp: final_cmd_def fc Some)
  qed
  with ty assms(2) show ?thesis by (simp add: arb_decide_def Let_def)
qed

section \<open>The module under any interleaving\<close>

text \<open>
  The static data before the first call, and the calls other threads and the arbitration
  thread make, in any order; \<open>env\<close> changes what the mutexes answer and what the hardware does.
\<close>

definition arb_boot :: "(nat \<Rightarrow> rt_err_t) \<Rightarrow> 'h \<Rightarrow> 'h arb_mod" where
  "arb_boot take0 h = \<lparr>s_arb_axis = replicate ARB_MAX_AXIS_NUM \<lparr>axis_num = 0, arb = zero_arb\<rparr>,
     s_arb_mq = None, s_arb_output_ops = None, arb_dbg = arb_dbg_zero,
     mutex_take = take0, hw = h\<rparr>"

inductive arb_step :: "'h arb_mod \<Rightarrow> 'h arb_mod \<Rightarrow> bool" where
  init: "arb_step m (Arb_Module_Init mi ok m)"
| send: "arb_step m (snd (Arb_SendCommand axis dev prio c duty urgent now m))"
| enable: "arb_step m (snd (Arb_SetEnable axis en m))"
| bind: "arb_step m (snd (Arb_BindOutputOps ops m))"
| thread: "Arb_ThreadStep now m = Some m' \<Longrightarrow> arb_step m m'"
| env: "arb_step m (m\<lparr>mutex_take := t, hw := h\<rparr>)"

inductive arb_reach :: "'h arb_mod \<Rightarrow> bool" where
  boot: "arb_reach (arb_boot t h)"
| step: "arb_reach m \<Longrightarrow> arb_step m m' \<Longrightarrow> arb_reach m'"

inductive_cases arb_stepE: "arb_step m m'"

text \<open>The table the thread calls through is bound and has no NULL entry.\<close>

definition ops_bound :: "'h arb_mod \<Rightarrow> bool" where
  "ops_bound m \<longleftrightarrow> (\<exists>f r s. s_arb_output_ops m = Some \<lparr>op_fwd = Some f, op_rev = Some r, op_stop = Some s\<rparr>)"

definition mod_inv :: "'h arb_mod \<Rightarrow> bool" where
  "mod_inv m \<longleftrightarrow> length (s_arb_axis m) = ARB_MAX_AXIS_NUM \<and> (s_arb_mq m \<noteq> None \<longrightarrow> ops_bound m) \<and>
     (\<forall>i < ARB_MAX_AXIS_NUM. arb_inv (get_arb i m) \<and> out_inv (get_arb i m)) \<and>
     (\<forall>q. s_arb_mq m = Some q \<longrightarrow> mq_wf q \<and> (\<forall>msg \<in> set (mq_msgs q). m_axis_id msg < of_nat ARB_MAX_AXIS_NUM))"

lemma ops_bound_frame [simp]:
  "ops_bound (set_arb i a m) = ops_bound m" "ops_bound (m\<lparr>s_arb_mq := q\<rparr>) = ops_bound m"
  "ops_bound (m\<lparr>s_arb_axis := x\<rparr>) = ops_bound m" "ops_bound (Arb_RefreshDebug i m) = ops_bound m"
  "ops_bound (m\<lparr>mutex_take := t, hw := h\<rparr>) = ops_bound m" "ops_bound (Arb_Decision now i m) = ops_bound m"
  "ops_bound (m\<lparr>s_arb_output_ops := Some s_arb_default_output_ops\<rparr>)"
  by (simp_all add: ops_bound_def s_arb_default_output_ops_def)

lemma set_arb_inv:
  assumes "mod_inv m" and "arb_inv a" and "out_inv a"
  shows "mod_inv (set_arb i a m)"
proof -
  have "arb_inv (get_arb j (set_arb i a m)) \<and> out_inv (get_arb j (set_arb i a m))" if "j < 2" for j
    using assms that by (cases "j = i") (auto simp: mod_inv_def)
  with assms(1) show ?thesis by (simp add: mod_inv_def)
qed

lemma arb_reset_axes_inv: "mod_inv m \<Longrightarrow> mod_inv (arb_reset_axes is m)"
  by (induction "is" m rule: arb_reset_axes.induct) (simp_all add: set_arb_inv)

lemma init_axis_inv:
  "mod_inv m \<Longrightarrow> arb_inv (arb x) \<Longrightarrow> out_inv (arb x) \<Longrightarrow>
     mod_inv (m\<lparr>s_arb_axis := (s_arb_axis m)[i := x]\<rparr>)"
  by (cases "i < 2") (auto simp: mod_inv_def get_arb_def nth_list_update)

lemma arb_init_axes_inv: "mod_inv m \<Longrightarrow> mod_inv (snd (arb_init_axes mi is m))"
proof (induction mi "is" m rule: arb_init_axes.induct)
  case (2 mi i "is" m)
  have "mod_inv (m\<lparr>s_arb_axis := (s_arb_axis m)[i := \<lparr>axis_num = of_nat i, arb = zero_arb\<lparr>enable := 1\<rparr>\<rparr>]\<rparr>)"
    using "2.prems" by (rule init_axis_inv) simp_all
  with "2.IH" show ?case by (simp add: Let_def)
qed simp

lemma arb_init_axes_ops [simp]:
  "s_arb_output_ops (snd (arb_init_axes mi is m)) = s_arb_output_ops m"
  by (induction mi "is" m rule: arb_init_axes.induct) (simp_all add: Let_def)

lemma mod_inv_upd:
  "mod_inv m \<Longrightarrow> ops_bound (m\<lparr>s_arb_output_ops := ops\<rparr>) \<Longrightarrow> mod_inv (m\<lparr>s_arb_output_ops := ops\<rparr>)"
  "mod_inv (m\<lparr>mutex_take := t, hw := h\<rparr>) = mod_inv m"
  "mod_inv (Arb_RefreshDebug i m) = mod_inv m"
  "mod_inv m \<Longrightarrow> ops_bound m \<Longrightarrow> mod_inv (m\<lparr>s_arb_mq := Some (rt_mq_create n)\<rparr>)"
  by (simp_all add: mod_inv_def mq_wf_ops) (simp_all add: get_arb_def rt_mq_create_def)

lemma Arb_Module_Init_inv: "mod_inv m \<Longrightarrow> mod_inv (Arb_Module_Init mi ok m)"
proof -
  assume inv: "mod_inv m"
  let ?m0 = "m\<lparr>s_arb_output_ops := Some s_arb_default_output_ops\<rparr>"
  let ?m1 = "snd (arb_init_axes mi [0..<ARB_MAX_AXIS_NUM] ?m0)"
  have m1: "mod_inv ?m1" using inv by (intro arb_init_axes_inv mod_inv_upd) simp_all
  have b1: "ops_bound ?m1" by (simp add: ops_bound_def s_arb_default_output_ops_def)
  show ?thesis
    using inv m1 mod_inv_upd(4) [OF m1 b1]
    by (simp add: Arb_Module_Init_def Let_def mod_inv_upd arb_reset_axes_inv case_prod_beta split: option.split)
qed

lemma Arb_SendCommand_inv:
  "mod_inv m \<Longrightarrow> mod_inv (snd (Arb_SendCommand axis dev prio c duty urgent now m))"
  by (auto simp: Arb_SendCommand_def mod_inv_def Let_def not_le rt_mq_send_def rt_mq_urgent_def mq_wf_def
      split: option.split prod.split)

lemma Arb_ThreadStep_inv:
  assumes "mod_inv m" and "Arb_ThreadStep now m = Some m'"
  shows "mod_inv m'"
proof -
  obtain q msg q' where q: "s_arb_mq m = Some q" and r: "rt_mq_recv q = Some (msg, q')"
    using assms(2) by (auto simp: Arb_ThreadStep_def split: option.splits)
  let ?m1 = "m\<lparr>s_arb_mq := Some q'\<rparr>"
  let ?i = "unat (m_axis_id msg)"
  have m1: "mod_inv ?m1"
    using assms(1) q r mq_wf_ops(4) [of q msg q']
    by (auto simp: mod_inv_def rt_mq_recv_def split: list.splits)
  have step: "mod_inv (Arb_Decision now ?i (set_arb ?i (Arb_ProcessMessage (get_arb ?i ?m1) msg) ?m1))"
    if i: "?i < ARB_MAX_AXIS_NUM"
  proof -
    let ?a = "Arb_ProcessMessage (get_arb ?i ?m1) msg"
    have a: "arb_inv ?a" using m1 i by (intro Arb_ProcessMessage_inv) (simp add: mod_inv_def)
    have len: "?i < length (s_arb_axis ?m1)" using m1 i by (simp add: mod_inv_def)
    have "arb_inv (get_arb j (Arb_Decision now ?i (set_arb ?i ?a ?m1))) \<and>
        out_inv (get_arb j (Arb_Decision now ?i (set_arb ?i ?a ?m1)))" if "j < ARB_MAX_AXIS_NUM" for j
      using a len m1 that arb_decide_out_inv [OF a]
      by (cases "j = ?i") (simp_all add: Arb_Decision_arb mod_inv_def)
    then show ?thesis using m1 by (simp add: mod_inv_def)
  qed
  have bound: "?i < ARB_MAX_AXIS_NUM" if "\<not> m_axis_id msg \<ge> of_nat ARB_MAX_AXIS_NUM"
    using that by (simp add: not_le word_less_nat_alt)
  show ?thesis
    using assms(2) q r m1 step bound
    by (auto simp: Arb_ThreadStep_def Let_def mod_inv_upd split: if_splits)
qed

lemma arb_step_inv: "arb_step m m' \<Longrightarrow> mod_inv m \<Longrightarrow> mod_inv m'"
proof (induction rule: arb_step.induct)
  case (enable m axis en)
  have "mod_inv (set_arb (unat axis) ((get_arb (unat axis) m)\<lparr>enable := e\<rparr>) m)" if "unat axis < 2" for e
    using enable that by (intro set_arb_inv) (simp_all add: mod_inv_def)
  with enable show ?case by (simp add: Arb_SetEnable_def Let_def not_le word_less_nat_alt)
next
  case (bind m ops)
  have "ops_bound (m\<lparr>s_arb_output_ops := Some t\<rparr>)" if "op_fwd t \<noteq> None" "op_rev t \<noteq> None" "op_stop t \<noteq> None" for t
    using that by (cases t) (auto simp: ops_bound_def)
  with bind show ?case by (auto simp: Arb_BindOutputOps_def mod_inv_upd split: option.split)
qed (auto simp: Arb_Module_Init_inv Arb_SendCommand_inv mod_inv_upd intro: Arb_ThreadStep_inv)

lemma arb_reach_inv: "arb_reach m \<Longrightarrow> mod_inv m"
proof (induction rule: arb_reach.induct)
  case (boot t h)
  then show ?case by (auto simp: mod_inv_def arb_boot_def get_arb_def less_2_cases_iff)
qed (rule arb_step_inv)

section \<open>The commands\<close>

text \<open>One message taken by the thread with the axis mutex free.\<close>

lemma Arb_ThreadStep_message:
  assumes "s_arb_mq m = Some q" and "rt_mq_recv q = Some (msg, q')"
    and "unat (m_axis_id msg) < ARB_MAX_AXIS_NUM" and "mutex_take m (unat (m_axis_id msg)) = RT_EOK"
    and "length (s_arb_axis m) = ARB_MAX_AXIS_NUM"
  shows "\<exists>m'. Arb_ThreadStep now m = Some m' \<and> get_arb (unat (m_axis_id msg)) m' =
           arb_decide now (Arb_ProcessMessage (get_arb (unat (m_axis_id msg)) m) msg)"
  using assms by (simp add: Arb_ThreadStep_def Let_def not_le word_le_nat_alt Arb_Decision_arb)

lemma arb_decide_stops:
  assumes "fst (final_cmd a) = None \<or> enable a = 0"
  shows "active_dir (arb_decide now a) = DIR_NONE" "duty_pct (arb_decide now a) = 0"
    "arb_state (arb_decide now a) = MS_IDLE" "active_device_id (arb_decide now a) = DEV_ID_NONE"
  using assms by (auto simp: arb_decide_def Let_def stopped_def)

lemma emergency_clears:
  assumes "m_cmd_type msg = CMD_TYPE_EMERGENCY_STOP"
  shows "qlist (allow_fwd (Arb_ProcessMessage a msg)) = []" "qlist (allow_rev (Arb_ProcessMessage a msg)) = []"
    "fst (final_cmd (Arb_ProcessMessage a msg)) = None"
    "block_fwd (Arb_ProcessMessage a msg) = block_fwd a" "block_rev (Arb_ProcessMessage a msg) = block_rev a"
  using assms
  by (simp_all add: Arb_ProcessMessage_def Let_def Arb_RemoveOppositePowerAllow_def Arb_CmdListClearAll_refines)
    (simp add: final_cmd_def fwd_cmd_def rev_cmd_def Arb_CmdListClearAll_def)

lemma block_fwd_blocks:
  assumes "arb_inv a" and "m_cmd_type msg = CMD_TYPE_BLOCK_FWD"
  shows "qlist (block_fwd (Arb_ProcessMessage a msg)) \<noteq> []"
  using assms arbq.block_blocks [of "block_fwd a" "msg_record msg"]
  by (simp add: Arb_ProcessMessage_def Let_def Arb_RemoveOppositePowerAllow_def arb_inv_def)

lemma blocked_not_fwd:
  assumes "arb_inv a" and "qlist (block_fwd a) \<noteq> []"
  shows "active_dir (arb_decide now a) \<noteq> DIR_FWD"
  using arb_decide_out_inv [OF assms(1), of now] assms(2) by (auto simp: out_inv_def winner_def)

lemma run_fwd_refused:
  assumes "arb_inv a" and "m_cmd_type msg = CMD_TYPE_RUN_FWD"
    and "r \<in> set (qlist (block_fwd a))" and "r_device_id r \<noteq> m_device_id msg"
  shows "r \<in> set (qlist (block_fwd (Arb_ProcessMessage a msg)))"
    and "set (qlist (allow_fwd (Arb_ProcessMessage a msg))) \<subseteq> set (qlist (allow_fwd a))"
proof -
  let ?a = "Arb_RemoveOppositePowerAllow a msg"
  have inv: "arb_inv ?a" by (rule Arb_RemoveOppositePowerAllow_inv [OF assms(1)])
  have b: "block_fwd ?a = block_fwd a" by (simp add: Arb_RemoveOppositePowerAllow_def)
  have keep: "r \<in> set (qlist (Arb_CmdListRemove (block_fwd a) (m_device_id msg)))"
    using assms remove_dev_keeps by (simp add: arb_inv_def Arb_CmdListRemove_refines)
  then have pos: "0 < q_count (Arb_CmdListRemove (block_fwd a) (m_device_id msg))"
    by (cases "q_count (Arb_CmdListRemove (block_fwd a) (m_device_id msg))") (auto simp: qlist_def)
  show "r \<in> set (qlist (block_fwd (Arb_ProcessMessage a msg)))"
    using keep assms(2) by (simp add: Arb_ProcessMessage_def Let_def b)
  have "allow_fwd (Arb_ProcessMessage a msg) = allow_fwd ?a"
    using pos assms(2) by (simp add: Arb_ProcessMessage_def Let_def b Arb_CmdListSetAllow_def)
  moreover have "set (qlist (allow_fwd ?a)) \<subseteq> set (qlist (allow_fwd a))"
    using assms(1) set_remove_dev
    by (auto simp: Arb_RemoveOppositePowerAllow_def arb_inv_def allow_ok_def Arb_CmdListRemove_refines
        dest: subsetD [OF set_remove_dev])
  ultimately show "set (qlist (allow_fwd (Arb_ProcessMessage a msg))) \<subseteq> set (qlist (allow_fwd a))" by simp
qed

lemma run_fwd_accepted:
  assumes "arb_inv a" and "m_cmd_type msg = CMD_TYPE_RUN_FWD" and "qlist (block_fwd a) = []"
    and "length (qlist (allow_fwd a)) < MAX_CMD_QUEUE_SIZE"
  shows "qlist (block_fwd (Arb_ProcessMessage a msg)) = []"
    and "msg_record msg \<in> set (qlist (allow_fwd (Arb_ProcessMessage a msg)))"
    and "allow_rev (Arb_ProcessMessage a msg) = allow_rev (Arb_RemoveOppositePowerAllow a msg)"
    and "block_rev (Arb_ProcessMessage a msg) = block_rev a" "enable (Arb_ProcessMessage a msg) = enable a"
proof -
  let ?a = "Arb_RemoveOppositePowerAllow a msg"
  have inv: "arb_inv ?a" by (rule Arb_RemoveOppositePowerAllow_inv [OF assms(1)])
  have b: "block_fwd ?a = block_fwd a" "block_rev ?a = block_rev a" "enable ?a = enable a"
    by (simp_all add: Arb_RemoveOppositePowerAllow_def)
  have q: "qlist (Arb_CmdListRemove (block_fwd a) (m_device_id msg)) = []" "queue_ok (Arb_CmdListRemove (block_fwd a) (m_device_id msg))"
    using assms(1,3) by (simp_all add: arb_inv_def Arb_CmdListRemove_refines)
  then have z: "q_count (Arb_CmdListRemove (block_fwd a) (m_device_id msg)) = 0" by (simp add: qlist_empty_iff)
  have "length (qlist (allow_fwd ?a)) < MAX_CMD_QUEUE_SIZE"
    using assms(1,4) remove_scan_shape [of "allow_fwd a" 0 DEV_ID_POWER_POS]
    by (simp add: Arb_RemoveOppositePowerAllow_def arb_inv_def allow_ok_def Arb_CmdListRemove_refines)
      (simp add: Arb_CmdListRemove_def queue_ok_def)
  then have len: "length (remove_dev (r_device_id (msg_record msg)) (qlist (allow_fwd ?a))) < MAX_CMD_QUEUE_SIZE"
    using length_remove_dev [of "r_device_id (msg_record msg)" "qlist (allow_fwd ?a)"] by simp
  show "qlist (block_fwd (Arb_ProcessMessage a msg)) = []"
    using q assms(2) by (simp add: Arb_ProcessMessage_def Let_def b)
  show "msg_record msg \<in> set (qlist (allow_fwd (Arb_ProcessMessage a msg)))"
    using z len assms(2) inv
    by (simp add: Arb_ProcessMessage_def Let_def b Arb_CmdListSetAllow_refines arb_inv_def allow_ok_def)
  show "allow_rev (Arb_ProcessMessage a msg) = allow_rev ?a" "block_rev (Arb_ProcessMessage a msg) = block_rev a"
    "enable (Arb_ProcessMessage a msg) = enable a"
    using assms(2) b by (simp_all add: Arb_ProcessMessage_def Let_def)
qed

section \<open>The contract of the output operations\<close>

text \<open>
  What the module expects of the operations it is bound to: each call leaves the output
  driving the direction of its name. \<open>dir_of\<close> reads the direction off the hardware.
\<close>

definition output_ops :: "(u8 \<Rightarrow> u8 \<Rightarrow> 'h \<Rightarrow> 'h) \<Rightarrow> (u8 \<Rightarrow> u8 \<Rightarrow> 'h \<Rightarrow> 'h) \<Rightarrow> (u8 \<Rightarrow> 'h \<Rightarrow> 'h) \<Rightarrow> 'h ArbOutputOps_t" where
  "output_ops f r s = \<lparr>op_fwd = Some f, op_rev = Some r, op_stop = Some s\<rparr>"

locale motor_output =
  fixes fwd rev :: "u8 \<Rightarrow> u8 \<Rightarrow> 'h \<Rightarrow> 'h"
    and stop :: "u8 \<Rightarrow> 'h \<Rightarrow> 'h"
    and dir_of :: "'h \<Rightarrow> ArbDir_t"
  assumes dir_fwd: "dir_of (fwd axis duty h) = DIR_FWD"
    and dir_rev: "dir_of (rev axis duty h) = DIR_REV"
    and dir_stop: "dir_of (stop axis h) = DIR_NONE"
begin

lemma decision_output:
  assumes "s_arb_output_ops m = Some (output_ops fwd rev stop)" and "i < length (s_arb_axis m)"
  shows "dir_of (hw (Arb_Decision now i m)) = active_dir (get_arb i (Arb_Decision now i m))"
proof -
  have stp: "dir_of (hw (Arb_ApplyStop i v)) = DIR_NONE" if "s_arb_output_ops v = Some (output_ops fwd rev stop)" for v
    using that by (simp add: Arb_ApplyStop_def call_stop_def output_ops_def dir_stop)
  show ?thesis
    unfolding Arb_Decision_def Let_def using assms
    by (auto simp: stp stopped_def call_fwd_def call_rev_def output_ops_def dir_fwd dir_rev split: option.split)
qed

text \<open>After a round of the thread that decides, the output drives the published direction.\<close>

lemma thread_output:
  assumes "s_arb_output_ops m = Some (output_ops fwd rev stop)" and "length (s_arb_axis m) = ARB_MAX_AXIS_NUM"
    and "s_arb_mq m = Some q" and "rt_mq_recv q = Some (msg, q')"
    and "unat (m_axis_id msg) < ARB_MAX_AXIS_NUM" and "mutex_take m (unat (m_axis_id msg)) = RT_EOK"
    and "Arb_ThreadStep now m = Some m'"
  shows "dir_of (hw m') = active_dir (get_arb (unat (m_axis_id msg)) m')"
proof -
  let ?i = "unat (m_axis_id msg)"
  let ?m2 = "set_arb ?i (Arb_ProcessMessage (get_arb ?i m) msg) (m\<lparr>s_arb_mq := Some q'\<rparr>)"
  have "m' = Arb_RefreshDebug ?i (Arb_Decision now ?i ?m2)"
    using assms by (simp add: Arb_ThreadStep_def Let_def not_le word_le_nat_alt)
  then show ?thesis using decision_output [of ?m2 ?i now] assms by simp
qed

end

section \<open>Properties of the arbitration kernel\<close>

definition demo_boot :: "unit arb_mod" where
  "demo_boot = Arb_Module_Init (\<lambda>_. RT_EOK) True (arb_boot (\<lambda>_. RT_EOK) ())"

definition demo_sent :: "unit arb_mod" where
  "demo_sent = snd (Arb_SendCommand 0 DEV_ID_POWER_POS PRIO_POWER CMD_TYPE_RUN_FWD 98 False 1 demo_boot)"

definition demo_run :: "unit arb_mod" where "demo_run = the (Arb_ThreadStep 2 demo_sent)"

lemma demo_step: "Arb_ThreadStep 2 demo_sent = Some demo_run"
proof -
  have "Arb_ThreadStep 2 demo_sent \<noteq> None" by code_simp
  then show ?thesis by (simp add: demo_run_def)
qed

lemma demo_reach: "arb_reach demo_boot" "arb_reach demo_sent" "arb_reach demo_run"
proof -
  show b: "arb_reach demo_boot" unfolding demo_boot_def by (rule arb_reach.step [OF arb_reach.boot arb_step.init])
  show s: "arb_reach demo_sent" unfolding demo_sent_def by (rule arb_reach.step [OF b arb_step.send])
  show "arb_reach demo_run" by (rule arb_reach.step [OF s arb_step.thread [OF demo_step]])
qed

text \<open>
  C3. In every state the module can reach, the queues of each axis are well formed (no device
  twice, allow queues ordered by priority) and the published output is right: a running
  direction is not blocked, its command is a most urgent one of its allow queue, and every
  command of the other direction is strictly less urgent unless that direction is blocked;
  with no direction the duty cycle is 0 and the state is idle.
\<close>

theorem arb_output_most_urgent:
  assumes "arb_reach m" and "i < ARB_MAX_AXIS_NUM"
  shows "arb_inv (get_arb i m) \<and> out_inv (get_arb i m)"
  using arb_reach_inv [OF assms(1)] assms(2) by (simp add: mod_inv_def)

theorem arb_output_most_urgent_witness:
  "out_inv (get_arb 0 demo_run) \<and> active_dir (get_arb 0 demo_run) = DIR_FWD \<and> duty_pct (get_arb 0 demo_run) = 98"
proof -
  have "active_dir (get_arb 0 demo_run) = DIR_FWD" by code_simp
  moreover have "duty_pct (get_arb 0 demo_run) = 98" by code_simp
  ultimately show ?thesis using arb_output_most_urgent [OF demo_reach(3), of 0] by simp
qed

text \<open>
  An enabled axis whose forward direction is not blocked runs forward after the decision
  whenever it holds a forward command that is strictly more urgent than every reverse command
  (of other devices), or the reverse direction is blocked.
\<close>

theorem arb_decision_runs:
  assumes "i < length (s_arb_axis m)" and "arb_inv (get_arb i m)" and "enable (get_arb i m) \<noteq> 0"
    and "qlist (block_fwd (get_arb i m)) = []" and "r \<in> set (qlist (allow_fwd (get_arb i m)))"
    and "qlist (block_rev (get_arb i m)) \<noteq> [] \<or> (\<forall>x \<in> set (qlist (allow_rev (get_arb i m))).
           r_priority r < r_priority x \<and> r_device_id x \<notin> r_device_id ` set (qlist (allow_fwd (get_arb i m))))"
  shows "active_dir (get_arb i (Arb_Decision now i m)) = DIR_FWD"
  using arb_decide_runs_fwd [OF assms(2-6)] by (simp add: Arb_Decision_arb assms(1))

theorem arb_decision_runs_witness: "active_dir (get_arb 0 (Arb_Decision 9 0 demo_run)) = DIR_FWD"
proof -
  have "allow_rev (get_arb 0 demo_run) = empty_queue" "block_fwd (get_arb 0 demo_run) = empty_queue" by code_simp+
  then have "qlist (allow_rev (get_arb 0 demo_run)) = []" "qlist (block_fwd (get_arb 0 demo_run)) = []" by simp_all
  moreover have "q_count (allow_fwd (get_arb 0 demo_run)) = 1" by code_simp
  then obtain r where "r \<in> set (qlist (allow_fwd (get_arb 0 demo_run)))"
    using arb_reach_inv [OF demo_reach(3)]
    by (cases "qlist (allow_fwd (get_arb 0 demo_run))") (auto simp: mod_inv_def arb_inv_def allow_ok_def qlist_empty_iff)
  moreover have "enable (get_arb 0 demo_run) = 1" by code_simp
  ultimately show ?thesis
    using arb_reach_inv [OF demo_reach(3)] by (intro arb_decision_runs [of 0 demo_run]) (auto simp: mod_inv_def)
qed

text \<open>
  C22. An accepted urgent emergency stop is the very next message the thread takes; with the
  axis mutex free the round clears both allow queues of the axis and publishes no direction.
\<close>

theorem arb_emergency_stops_next:
  assumes "arb_reach m"
    and "Arb_SendCommand axis dev prio CMD_TYPE_EMERGENCY_STOP duty True t0 m = (RT_EOK, m1)"
    and "mutex_take m1 (unat axis) = RT_EOK"
  shows "\<exists>m'. Arb_ThreadStep now m1 = Some m' \<and> active_dir (get_arb (unat axis) m') = DIR_NONE \<and>
     duty_pct (get_arb (unat axis) m') = 0 \<and>
     qlist (allow_fwd (get_arb (unat axis) m')) = [] \<and> qlist (allow_rev (get_arb (unat axis) m')) = []"
proof -
  let ?msg = "\<lparr>m_axis_id = axis, m_device_id = dev, m_priority = prio, m_cmd_type = CMD_TYPE_EMERGENCY_STOP,
     m_duty_pct = duty, m_timestamp = t0\<rparr>"
  have inv: "mod_inv m" by (rule arb_reach_inv [OF assms(1)])
  obtain q q1 where q: "s_arb_mq m = Some q" "rt_mq_urgent q ?msg = (RT_EOK, q1)" "m1 = m\<lparr>s_arb_mq := Some q1\<rparr>"
    "unat axis < ARB_MAX_AXIS_NUM"
    using assms(2) by (auto simp: Arb_SendCommand_def Let_def not_le word_less_nat_alt split: option.splits if_splits prod.splits)
  obtain q2 where q2: "rt_mq_recv q1 = Some (?msg, q2)" using mq.urgent_next [OF q(2)] by blast
  have "\<exists>m'. Arb_ThreadStep now m1 = Some m' \<and>
      get_arb (unat axis) m' = arb_decide now (Arb_ProcessMessage (get_arb (unat axis) m1) ?msg)"
    using Arb_ThreadStep_message [of m1 q1 ?msg q2 now] q q2 assms(3) inv by (simp add: mod_inv_def)
  then show ?thesis
    using emergency_clears [of ?msg] arb_decide_stops by auto
qed

theorem arb_emergency_stops_next_witness:
  "\<exists>m'. Arb_ThreadStep 4 (snd (Arb_SendCommand 0 DEV_ID_EMERGENCY PRIO_EMERGENCY CMD_TYPE_EMERGENCY_STOP 0 True 3 demo_run)) = Some m' \<and>
     active_dir (get_arb 0 m') = DIR_NONE"
proof -
  let ?s = "Arb_SendCommand 0 DEV_ID_EMERGENCY PRIO_EMERGENCY CMD_TYPE_EMERGENCY_STOP 0 True 3 demo_run"
  have r: "fst ?s = RT_EOK" and t: "mutex_take (snd ?s) 0 = RT_EOK" by code_simp+
  from r have "?s = (RT_EOK, snd ?s)" by (simp add: prod_eq_iff)
  from arb_emergency_stops_next [OF demo_reach(3) this, of 4] t show ?thesis by auto
qed


definition demo_msg :: "u8 \<Rightarrow> u8 \<Rightarrow> u8 \<Rightarrow> ArbCommandMsg_t" where
  "demo_msg dev prio c = \<lparr>m_axis_id = 0, m_device_id = dev, m_priority = prio, m_cmd_type = c,
     m_duty_pct = 98, m_timestamp = 7\<rparr>"

lemma demo_msg_fields [simp]:
  "m_device_id (demo_msg dev prio c) = dev" "m_cmd_type (demo_msg dev prio c) = c"
  by (simp_all add: demo_msg_def)

lemma zero_arb_queues [simp]:
  "q_count (block_fwd zero_arb) = 0" "qlist (block_fwd zero_arb) = []"
  by (simp_all add: zero_arb_def empty_queue_def qlist_def)


text \<open>
  The emergency stop is not latched in the arbitration kernel: on an enabled axis with no
  block, the first \<open>RUN_FWD\<close> after it runs the motor again. The state machine keeps the motor
  stopped by disabling the axis.
\<close>

theorem arb_emergency_not_latched:
  assumes "arb_inv a" and "enable a \<noteq> 0" and "qlist (block_fwd a) = []"
    and "m_cmd_type e = CMD_TYPE_EMERGENCY_STOP" and "m_cmd_type r = CMD_TYPE_RUN_FWD"
  shows "active_dir (arb_decide t1 (Arb_ProcessMessage a e)) = DIR_NONE \<and>
     active_dir (arb_decide t2 (Arb_ProcessMessage (arb_decide t1 (Arb_ProcessMessage a e)) r)) = DIR_FWD"
proof -
  let ?a1 = "Arb_ProcessMessage a e"
  let ?d1 = "arb_decide t1 ?a1"
  have id: "arb_inv ?d1" using Arb_ProcessMessage_inv [OF assms(1)] by simp
  note e = emergency_clears [OF assms(4), of a]
  have en: "enable ?a1 = enable a"
    using assms(4) by (simp add: Arb_ProcessMessage_def Let_def Arb_RemoveOppositePowerAllow_def)
  have bf: "qlist (block_fwd ?d1) = []" and len: "length (qlist (allow_fwd ?d1)) < MAX_CMD_QUEUE_SIZE"
    using e assms(3) by simp_all
  note acc = run_fwd_accepted [OF id assms(5) bf len]
  have rev: "qlist (allow_rev (Arb_RemoveOppositePowerAllow ?d1 r)) = []"
    using id e(2) by (simp add: Arb_RemoveOppositePowerAllow_def Arb_CmdListRemove_refines arb_inv_def allow_ok_def)
  have "active_dir (arb_decide t2 (Arb_ProcessMessage ?d1 r)) = DIR_FWD"
    by (rule arb_decide_runs_fwd [OF Arb_ProcessMessage_inv [OF id] _ acc(1,2)])
      (use acc(3,5) rev en assms(2) in auto)
  then show ?thesis using e(3) arb_decide_stops(1) [of ?a1 t1] by simp
qed

theorem arb_emergency_not_latched_witness:
  "active_dir (arb_decide 2 (Arb_ProcessMessage (arb_decide 1 (Arb_ProcessMessage (zero_arb\<lparr>enable := 1\<rparr>)
     (demo_msg DEV_ID_EMERGENCY PRIO_EMERGENCY CMD_TYPE_EMERGENCY_STOP))) (demo_msg DEV_ID_POWER_POS PRIO_POWER CMD_TYPE_RUN_FWD))) = DIR_FWD"
  using arb_emergency_not_latched [of "zero_arb\<lparr>enable := 1\<rparr>" "demo_msg DEV_ID_EMERGENCY PRIO_EMERGENCY CMD_TYPE_EMERGENCY_STOP"
      "demo_msg DEV_ID_POWER_POS PRIO_POWER CMD_TYPE_RUN_FWD" 1 2]
  by simp

text \<open>
  What \<open>Arb_SendCommand\<close> accepts: exactly a known command of an existing axis, device and
  priority with a duty cycle of at most 100, once the module is initialised; it is queued if
  the queue has room, and on any error the module is unchanged.
\<close>

theorem arb_send_command_errors:
  "case Arb_SendCommand axis dev prio c duty urgent now m of (ret, m') \<Rightarrow>
     (ret = RT_EOK \<longleftrightarrow> (\<exists>q. s_arb_mq m = Some q \<and> length (mq_msgs q) < mq_blocks q \<and>
        unat axis < ARB_MAX_AXIS_NUM \<and> 0 < unat dev \<and> unat dev < 19 \<and> unat prio \<le> 5 \<and> unat duty \<le> 100 \<and>
        1 \<le> unat c \<and> unat c \<le> 10)) \<and>
     (ret \<noteq> RT_EOK \<and> m' = m \<and> ret \<in> {RT_EINVAL, - RT_EFULL} \<or>
      ret = RT_EOK \<and> (\<exists>q'. s_arb_mq m' = Some q' \<and> m' = m\<lparr>s_arb_mq := Some q'\<rparr>))"
proof -
  have known: "cmd_type_known c \<longleftrightarrow> 1 \<le> unat c \<and> unat c \<le> 10"
  proof
    assume r: "1 \<le> unat c \<and> unat c \<le> 10"
    have "c = of_nat (unat c)" by simp
    moreover have "unat c = 1 \<or> unat c = 2 \<or> unat c = 3 \<or> unat c = 4 \<or> unat c = 5 \<or>
        unat c = 6 \<or> unat c = 7 \<or> unat c = 8 \<or> unat c = 9 \<or> unat c = 10" using r by presburger
    ultimately show "cmd_type_known c" unfolding cmd_type_known_def by (elim disjE) simp_all
  qed (auto simp: cmd_type_known_def)
  show ?thesis
    by (cases "s_arb_mq m")
      (auto simp: Arb_SendCommand_def known Let_def rt_mq_send_def rt_mq_urgent_def word_le_nat_alt word_less_nat_alt)
qed

text \<open>
  The arbitration thread never calls through an unbound table or a NULL operation, under
  any interleaving of initialisation, binding, commands and rounds of the thread.
\<close>

theorem arb_thread_ops_bound:
  assumes "arb_reach m" and "Arb_ThreadStep now m = Some m'"
  shows "ops_bound m \<and> ops_bound m'"
proof -
  have "s_arb_mq m \<noteq> None" "s_arb_mq m' \<noteq> None"
    using assms(2) by (auto simp: Arb_ThreadStep_def Let_def split: option.splits if_splits)
  then show ?thesis
    using arb_reach_inv [OF assms(1)] Arb_ThreadStep_inv [OF arb_reach_inv [OF assms(1)] assms(2)]
    by (simp add: mod_inv_def)
qed

theorem arb_thread_ops_bound_witness: "ops_bound demo_sent \<and> ops_bound demo_run"
  by (rule arb_thread_ops_bound [OF demo_reach(2) demo_step])

end
