(* ===== verification/Float32.thy ===== *)
theory Float32
  imports Prelude
begin

text \<open>
  The C type \<open>float\<close>: IEEE 754 binary32, as the bit pattern of its 32-bit word. Comparison
  works on the patterns; arithmetic is exact on integers scaled by \<open>2 ^ 149\<close> (every finite
  single is a multiple of \<open>2 ^ (- 149)\<close>) followed by one rounding to nearest, ties to even,
  with gradual underflow, infinities and NaN (one quiet NaN: payloads are not modelled).
\<close>

type_synonym f32 = u32

section \<open>Bit patterns\<close>

definition f_neg :: "f32 \<Rightarrow> bool" where "f_neg x = bit x 31"
definition f_mag :: "f32 \<Rightarrow> int" where "f_mag x = uint x mod 2 ^ 31"
definition f_make :: "bool \<Rightarrow> int \<Rightarrow> f32" where "f_make s m = word_of_int ((if s then 2 ^ 31 else 0) + m)"

abbreviation INF_MAG :: int where "INF_MAG \<equiv> 0x7F800000"
abbreviation F_NAN :: f32 where "F_NAN \<equiv> 0x7FC00000"
abbreviation F_ZERO :: f32 where "F_ZERO \<equiv> 0"

definition f_isnan :: "f32 \<Rightarrow> bool" where "f_isnan x \<longleftrightarrow> INF_MAG < f_mag x"
definition f_isinf :: "f32 \<Rightarrow> bool" where "f_isinf x \<longleftrightarrow> f_mag x = INF_MAG"
definition f_finite :: "f32 \<Rightarrow> bool" where "f_finite x \<longleftrightarrow> f_mag x < INF_MAG"

section \<open>Comparison\<close>

text \<open>The patterns of two numbers are ordered as their signed magnitudes.\<close>

definition f_key :: "f32 \<Rightarrow> int" where
  "f_key x = (if f_neg x then - f_mag x else f_mag x)"

definition flt :: "f32 \<Rightarrow> f32 \<Rightarrow> bool" where
  "flt x y \<longleftrightarrow> \<not> f_isnan x \<and> \<not> f_isnan y \<and> f_key x < f_key y"

definition fle :: "f32 \<Rightarrow> f32 \<Rightarrow> bool" where
  "fle x y \<longleftrightarrow> \<not> f_isnan x \<and> \<not> f_isnan y \<and> f_key x \<le> f_key y"

abbreviation fgt :: "f32 \<Rightarrow> f32 \<Rightarrow> bool" where "fgt x y \<equiv> flt y x"
abbreviation fge :: "f32 \<Rightarrow> f32 \<Rightarrow> bool" where "fge x y \<equiv> fle y x"

definition feq :: "f32 \<Rightarrow> f32 \<Rightarrow> bool" where
  "feq x y \<longleftrightarrow> \<not> f_isnan x \<and> \<not> f_isnan y \<and> f_key x = f_key y"

lemma flt_irrefl [simp]: "\<not> flt x x" by (simp add: flt_def)
lemma flt_asym: "flt x y \<Longrightarrow> \<not> flt y x" by (simp add: flt_def)
lemma flt_trans: "flt x y \<Longrightarrow> flt y z \<Longrightarrow> flt x z" by (auto simp: flt_def)
lemma fle_trans: "fle x y \<Longrightarrow> fle y z \<Longrightarrow> fle x z" by (auto simp: fle_def)
lemma flt_fle: "flt x y \<Longrightarrow> fle x y" by (simp add: flt_def fle_def)
lemma fle_flt_trans: "fle x y \<Longrightarrow> flt y z \<Longrightarrow> flt x z" by (auto simp: flt_def fle_def)
lemma flt_fle_trans: "flt x y \<Longrightarrow> fle y z \<Longrightarrow> flt x z" by (auto simp: flt_def fle_def)
lemma fle_not_flt: "fle x y \<Longrightarrow> \<not> flt y x" by (auto simp: flt_def fle_def)
lemma not_flt_fle: "\<not> f_isnan x \<Longrightarrow> \<not> f_isnan y \<Longrightarrow> \<not> flt x y \<Longrightarrow> fle y x"
  by (auto simp: flt_def fle_def)
lemma fle_refl: "\<not> f_isnan x \<Longrightarrow> fle x x" by (simp add: fle_def)

section \<open>Encoding and decoding\<close>

text \<open>The value of a magnitude pattern, times \<open>2 ^ 149\<close>.\<close>

definition mag_fix :: "int \<Rightarrow> int" where
  "mag_fix b = (let E = b div 2 ^ 23; m = b mod 2 ^ 23 in
     if E = 0 then m else (2 ^ 23 + m) * 2 ^ nat (E - 1))"

definition f_fix :: "f32 \<Rightarrow> int" where
  "f_fix x = (if f_neg x then - mag_fix (f_mag x) else mag_fix (f_mag x))"

function bitlen :: "int \<Rightarrow> int" where
  "bitlen n = (if n \<le> 0 then 0 else bitlen (n div 2) + 1)"
  by pat_completeness auto
termination
  by (relation "measure nat") auto

declare bitlen.simps [simp del]

text \<open>The quotient rounded to nearest, ties to even.\<close>

definition rne :: "int \<Rightarrow> int \<Rightarrow> int" where
  "rne n d = (let t = n div d; r = n mod d in
     if 2 * r < d \<or> (2 * r = d \<and> even t) then t else t + 1)"

text \<open>The pattern nearest to \<open>n / d\<close>: \<open>l\<close> is the exponent of the leading bit.\<close>

definition mag_enc :: "int \<Rightarrow> int \<Rightarrow> int" where
  "mag_enc n d =
     (if n = 0 then 0
      else
        let k = bitlen n - bitlen d;
            l = (if n * 2 ^ nat (- k) < d * 2 ^ nat k then k - 1 else k);
            e = max (- 149) (l - 23);
            m = rne (n * 2 ^ nat (- e)) (d * 2 ^ nat e)
        in min ((e + 149) * 2 ^ 23 + m) INF_MAG)"

definition f_enc :: "int \<Rightarrow> int \<Rightarrow> f32" where
  "f_enc n d = f_make (n < 0) (mag_enc \<bar>n\<bar> d)"

definition f_lit :: "int \<Rightarrow> int \<Rightarrow> f32" where "f_lit n d = f_make False (mag_enc n d)"

section \<open>Arithmetic\<close>

definition fneg :: "f32 \<Rightarrow> f32" where "fneg x = x XOR 0x80000000"
definition fabs :: "f32 \<Rightarrow> f32" where "fabs x = x AND 0x7FFFFFFF"

definition fadd :: "f32 \<Rightarrow> f32 \<Rightarrow> f32" where
  "fadd x y =
     (if f_isnan x \<or> f_isnan y then F_NAN
      else if f_isinf x then (if f_isinf y \<and> f_neg x \<noteq> f_neg y then F_NAN else x)
      else if f_isinf y then y
      else if f_mag x = 0 \<and> f_mag y = 0 then f_make (f_neg x \<and> f_neg y) 0
      else f_enc (f_fix x + f_fix y) (2 ^ 149))"

definition fsub :: "f32 \<Rightarrow> f32 \<Rightarrow> f32" where
  "fsub x y = (if f_isnan y then F_NAN else fadd x (fneg y))"

definition fmul :: "f32 \<Rightarrow> f32 \<Rightarrow> f32" where
  "fmul x y =
     (let s = (f_neg x \<noteq> f_neg y) in
      if f_isnan x \<or> f_isnan y then F_NAN
      else if f_isinf x \<or> f_isinf y then
        (if f_mag x = 0 \<or> f_mag y = 0 then F_NAN else f_make s INF_MAG)
      else f_make s (mag_enc (mag_fix (f_mag x) * mag_fix (f_mag y)) (2 ^ 298)))"

definition fdiv :: "f32 \<Rightarrow> f32 \<Rightarrow> f32" where
  "fdiv x y =
     (let s = (f_neg x \<noteq> f_neg y) in
      if f_isnan x \<or> f_isnan y then F_NAN
      else if f_isinf x then (if f_isinf y then F_NAN else f_make s INF_MAG)
      else if f_isinf y then f_make s 0
      else if f_mag y = 0 then (if f_mag x = 0 then F_NAN else f_make s INF_MAG)
      else f_make s (mag_enc (mag_fix (f_mag x)) (mag_fix (f_mag y))))"

section \<open>Conversions\<close>

definition f_of_nat :: "nat \<Rightarrow> f32" where "f_of_nat n = f_make False (mag_enc (int n) 1)"
definition f_of_int :: "int \<Rightarrow> f32" where "f_of_int i = f_enc i 1"

text \<open>
  Truncation to an integer, and the conversion to an unsigned type. The C standard leaves an
  out-of-range conversion undefined; the conversion instruction of the Cortex-M4 saturates.
\<close>

definition f_trunc :: "f32 \<Rightarrow> int" where
  "f_trunc x = (let t = mag_fix (f_mag x) div 2 ^ 149 in if f_neg x then - t else t)"

definition f_to_u32 :: "f32 \<Rightarrow> u32" where
  "f_to_u32 x = (if f_isnan x then 0 else of_int (max 0 (min (2 ^ 32 - 1) (f_trunc x))))"

definition f_to_i32 :: "f32 \<Rightarrow> i32" where
  "f_to_i32 x = (if f_isnan x then 0 else of_int (max (- (2 ^ 31)) (min (2 ^ 31 - 1) (f_trunc x))))"

end
