(* ===== verification/Dev_Events.thy ===== *)
theory Dev_Events
  imports Rt_Ipc
begin

text \<open>
  The event bits of \<^verbatim>\<open>Dev/dev_mgr/dev_event_def.h\<close>: the system event set, on which the
  system state machine waits, and the event set of each axis.
\<close>

abbreviation EVT_SYS_INIT_DONE :: u32 where "EVT_SYS_INIT_DONE \<equiv> 0x1"
abbreviation EVT_SYS_FAULT :: u32 where "EVT_SYS_FAULT \<equiv> 0x2"
abbreviation EVT_SYS_EMERGENCY :: u32 where "EVT_SYS_EMERGENCY \<equiv> 0x4"
abbreviation EVT_SYS_RECOVERY :: u32 where "EVT_SYS_RECOVERY \<equiv> 0x8"
abbreviation EVT_SYS_VOLT_NORMAL :: u32 where "EVT_SYS_VOLT_NORMAL \<equiv> 0x10"
abbreviation EVT_SYS_VOLT_OVER :: u32 where "EVT_SYS_VOLT_OVER \<equiv> 0x20"
abbreviation EVT_SYS_VOLT_UNDER :: u32 where "EVT_SYS_VOLT_UNDER \<equiv> 0x40"
abbreviation EVT_SYS_CMD_WORK_ENABLE :: u32 where "EVT_SYS_CMD_WORK_ENABLE \<equiv> 0x80"
abbreviation EVT_SYS_OVER_CURRENT :: u32 where "EVT_SYS_OVER_CURRENT \<equiv> 0x100"
abbreviation EVT_SYS_ROD_LIMIT_FAULT :: u32 where "EVT_SYS_ROD_LIMIT_FAULT \<equiv> 0x200"
abbreviation EVT_SYS_VOLT_RECOVER_WAIT :: u32 where "EVT_SYS_VOLT_RECOVER_WAIT \<equiv> 0x400"
abbreviation EVT_SYS_POLARITY_CHG :: u32 where "EVT_SYS_POLARITY_CHG \<equiv> 0x800"
abbreviation EVT_SYS_ST_WORK_ERROR :: u32 where "EVT_SYS_ST_WORK_ERROR \<equiv> 0x2000"

abbreviation EVT_ACT_WORK_ENABLE :: u32 where "EVT_ACT_WORK_ENABLE \<equiv> 0x1"
abbreviation EVT_ACT_WORK_DISABLE :: u32 where "EVT_ACT_WORK_DISABLE \<equiv> 0x2"
abbreviation EVT_ACT_POLARITY_FWD :: u32 where "EVT_ACT_POLARITY_FWD \<equiv> 0x4"
abbreviation EVT_ACT_POLARITY_REV :: u32 where "EVT_ACT_POLARITY_REV \<equiv> 0x8"
abbreviation EVT_ROD_LIMIT_EXTEND :: u32 where "EVT_ROD_LIMIT_EXTEND \<equiv> 0x40"
abbreviation EVT_ROD_LIMIT_RETRACT :: u32 where "EVT_ROD_LIMIT_RETRACT \<equiv> 0x80"
abbreviation EVT_ROD_LIMIT_RELEASED :: u32 where "EVT_ROD_LIMIT_RELEASED \<equiv> 0x100"
abbreviation EVT_ACT_HOLD :: u32 where "EVT_ACT_HOLD \<equiv> 0x4000"

text \<open>The bits the system thread waits for.\<close>

definition SYS_SM_WAIT_EVENTS :: u32 where
  "SYS_SM_WAIT_EVENTS = EVT_SYS_INIT_DONE OR EVT_SYS_CMD_WORK_ENABLE OR EVT_SYS_FAULT OR
     EVT_SYS_EMERGENCY OR EVT_SYS_RECOVERY OR EVT_SYS_VOLT_OVER OR EVT_SYS_VOLT_UNDER OR
     EVT_SYS_VOLT_NORMAL OR EVT_SYS_OVER_CURRENT OR EVT_SYS_ROD_LIMIT_FAULT OR
     EVT_SYS_ST_WORK_ERROR OR EVT_SYS_VOLT_RECOVER_WAIT OR EVT_SYS_POLARITY_CHG"

text \<open>Bits sent one after the other to an event set.\<close>

definition send_all :: "u32 list \<Rightarrow> u32 \<Rightarrow> u32" where
  "send_all es ev = fold (\<lambda>b e. snd (rt_event_send e b)) es ev"

end
