(* ===== verification/Power_Sense.thy ===== *)
theory Power_Sense
  imports Float32 Dev_Events
begin

text \<open>
  The supply supervision of the 1 ms interrupt: bus voltage (\<^verbatim>\<open>Dev/dev_power/dev_bus_voltage.c\<close>),
  motor current (\<^verbatim>\<open>dev_cur_sensor.c\<close>) and their dispatch (\<^verbatim>\<open>dev_power_isr.c\<close>). The ADC mean
  of a channel is an argument (\<open>None\<close> when \<open>Dev_Adc_GetMean\<close> fails and leaves the local
  variable at 0); the events an interrupt sends are returned in order. The simulation modes
  are compiled out in the source.
\<close>

section \<open>Bus voltage\<close>

record VoltCfg_t =
  over_th :: f32
  under_th :: f32
  hyst :: f32
  recover_ms :: u32

record bus_voltage =
  s_fVolt :: f32
  bv_status :: u8
  s_u8SeenValid :: u8
  s_u8Fault :: u8
  s_u8Waiting :: u8
  s_u32RecoverCnt :: u32
  s_fFaultVolt :: f32

abbreviation VS_NORMAL :: u8 where "VS_NORMAL \<equiv> 0"
abbreviation VS_UNDER :: u8 where "VS_UNDER \<equiv> 1"
abbreviation VS_OVER :: u8 where "VS_OVER \<equiv> 2"

definition VOL_OFFSET_V :: f32 where "VOL_OFFSET_V = fmul (f_lit 1200 1) (f_lit 1 1000)"

definition BusVoltage_Init :: "bus_voltage \<Rightarrow> bus_voltage" where
  "BusVoltage_Init s = s\<lparr>s_fVolt := F_ZERO, bv_status := 0, s_u8Fault := 0, s_u8Waiting := 0,
     s_u32RecoverCnt := 0, s_fFaultVolt := F_ZERO\<rparr>"

definition volt_ok_low :: "VoltCfg_t \<Rightarrow> f32 \<Rightarrow> bool" where
  "volt_ok_low cfg v = fgt v (fadd (under_th cfg) (hyst cfg))"

definition volt_recover :: "VoltCfg_t \<Rightarrow> u8 \<Rightarrow> f32 \<Rightarrow> bool" where
  "volt_recover cfg fault v =
     (if fault = VS_OVER then flt v (fsub (over_th cfg) (hyst cfg)) else volt_ok_low cfg v)"

text \<open>The part of the interrupt after \<open>fVolt\<close> is computed, up to the event of a fault change.\<close>

definition bv_detect :: "VoltCfg_t \<Rightarrow> f32 \<Rightarrow> bus_voltage \<Rightarrow> bus_voltage \<times> u32 list" where
  "bv_detect cfg v s =
     (if s_u8Fault s \<noteq> 0 then
        if volt_recover cfg (s_u8Fault s) v then
          if s_u8Waiting s = 0 then
            (s\<lparr>s_u8Waiting := 1, s_u32RecoverCnt := 0\<rparr>, [EVT_SYS_VOLT_RECOVER_WAIT])
          else
            let n = s_u32RecoverCnt s + 1 in
            if n \<ge> recover_ms cfg
            then (s\<lparr>s_u8Fault := 0, s_u8Waiting := 0, s_u32RecoverCnt := 0\<rparr>, [])
            else (s\<lparr>s_u32RecoverCnt := n\<rparr>, [])
        else (s\<lparr>s_u8Waiting := 0, s_u32RecoverCnt := 0\<rparr>, [])
      else if fgt v (over_th cfg) then (s\<lparr>s_u8Fault := VS_OVER, s_fFaultVolt := v\<rparr>, [])
      else if flt v (under_th cfg) then (s\<lparr>s_u8Fault := VS_UNDER, s_fFaultVolt := v\<rparr>, [])
      else (s, []))"

definition BusVoltage_Isr1ms :: "VoltCfg_t \<Rightarrow> f32 option \<Rightarrow> bus_voltage \<Rightarrow> bus_voltage \<times> u32 list" where
  "BusVoltage_Isr1ms cfg adc_mean s =
     (let v = fadd (case adc_mean of Some x \<Rightarrow> x | None \<Rightarrow> F_ZERO) VOL_OFFSET_V;
          s1 = s\<lparr>s_fVolt := v, s_u8SeenValid := (if volt_ok_low cfg v then 1 else s_u8SeenValid s)\<rparr>;
          prev = s_u8Fault s1;
          (s2, es) = bv_detect cfg v s1;
          s3 = s2\<lparr>bv_status := s_u8Fault s2\<rparr>
      in if s_u8Fault s3 = prev then (s3, es)
         else if s_u8Fault s3 = VS_OVER then (s3, es @ [EVT_SYS_VOLT_OVER])
         else if s_u8Fault s3 = VS_UNDER then (s3, es @ [EVT_SYS_VOLT_UNDER])
         else (s3\<lparr>s_fFaultVolt := v\<rparr>, es @ [EVT_SYS_VOLT_NORMAL]))"

definition BusVoltage_GetInfo :: "bus_voltage \<Rightarrow> f32 \<times> u8" where
  "BusVoltage_GetInfo s = (s_fVolt s, bv_status s)"

definition BusVoltage_IsUnderVoltage :: "bus_voltage \<Rightarrow> u8" where
  "BusVoltage_IsUnderVoltage s = (if bv_status s = VS_UNDER then 1 else 0)"

definition BusVoltage_HasSeenValid :: "bus_voltage \<Rightarrow> u8" where
  "BusVoltage_HasSeenValid s = (if s_u8SeenValid s \<noteq> 0 then 1 else 0)"

definition BusVoltage_GetFaultVolt :: "bus_voltage \<Rightarrow> f32" where
  "BusVoltage_GetFaultVolt s = s_fFaultVolt s"

section \<open>Motor current\<close>

record CurCfg_t =
  over_th_ma :: f32
  window_ms :: u16
  block_ms :: u16

record cur_sensor =
  s_u16BlockMs :: u16
  s_fCurrMa :: f32
  cs_status :: u8
  s_u16OverMs :: u16
  s_fFaultMa :: f32

definition CUR_SENSITIVITY_MA_PER_V :: f32 where
  "CUR_SENSITIVITY_MA_PER_V =
     fdiv (fdiv (fmul (f_lit 1000 1) (f_lit 1000 1)) (fmul (f_lit 10 1) (f_lit 20 1))) (f_lit 10 1)"

definition CurrentSensor_Init :: "cur_sensor \<Rightarrow> cur_sensor" where
  "CurrentSensor_Init s = s\<lparr>s_fCurrMa := F_ZERO, cs_status := 0, s_u16OverMs := 0, s_u16BlockMs := 0, s_fFaultMa := F_ZERO\<rparr>"

definition CurrentSensor_Isr1ms :: "CurCfg_t \<Rightarrow> f32 option \<Rightarrow> cur_sensor \<Rightarrow> cur_sensor \<times> u32 list" where
  "CurrentSensor_Isr1ms cfg adc_mean s =
     (let ma = fmul (fsub (case adc_mean of Some x \<Rightarrow> x | None \<Rightarrow> F_ZERO) F_ZERO) CUR_SENSITIVITY_MA_PER_V;
          s1 = s\<lparr>s_fCurrMa := ma\<rparr>
      in if s_u16BlockMs s1 \<noteq> 0 then
           (s1\<lparr>s_u16BlockMs := s_u16BlockMs s1 - 1, s_u16OverMs := 0, cs_status := 0\<rparr>, [])
         else
           let prev = cs_status s1;
               s2 = (if fgt ma (over_th_ma cfg) then
                       let n = (if s_u16OverMs s1 < window_ms cfg then s_u16OverMs s1 + 1 else s_u16OverMs s1)
                       in s1\<lparr>s_u16OverMs := n, cs_status := (if n \<ge> window_ms cfg then 1 else cs_status s1)\<rparr>
                     else s1\<lparr>s_u16OverMs := 0, cs_status := 0\<rparr>)
           in if cs_status s2 \<noteq> prev \<and> cs_status s2 = 1
              then (s2\<lparr>s_fFaultMa := ma\<rparr>, [EVT_SYS_OVER_CURRENT]) else (s2, []))"

definition CurrentSensor_ReqBlock :: "u16 \<Rightarrow> cur_sensor \<Rightarrow> cur_sensor" where
  "CurrentSensor_ReqBlock ms s = s\<lparr>s_u16BlockMs := ms\<rparr>"

definition CurrentSensor_GetInfo :: "cur_sensor \<Rightarrow> f32 \<times> u8" where
  "CurrentSensor_GetInfo s = (s_fCurrMa s, cs_status s)"

definition CurrentSensor_GetOverMs :: "cur_sensor \<Rightarrow> u16" where
  "CurrentSensor_GetOverMs s = s_u16OverMs s"

definition CurrentSensor_GetFaultMa :: "cur_sensor \<Rightarrow> f32" where
  "CurrentSensor_GetFaultMa s = s_fFaultMa s"

section \<open>Dispatch\<close>

definition Dev_Power_Isr1ms ::
  "VoltCfg_t \<Rightarrow> CurCfg_t \<Rightarrow> (u8 \<Rightarrow> f32 option) \<Rightarrow> bus_voltage \<times> cur_sensor \<Rightarrow> (bus_voltage \<times> cur_sensor) \<times> u32 list" where
  "Dev_Power_Isr1ms vcfg ccfg adc w =
     (let (b, es) = BusVoltage_Isr1ms vcfg (adc 0) (fst w);
          (c, fs) = CurrentSensor_Isr1ms ccfg (adc 1) (snd w)
      in ((b, c), es @ fs))"

end
