(* ===== verification/Motor_Output.thy ===== *)
theory Motor_Output
  imports Arbiter_Laws Power_Sense
begin

text \<open>
  The two implementations of the arbitration outputs: the two-pin bridge driver of
  \<^verbatim>\<open>Dev/dev_gpio_motor/dev_gpio_motor.c\<close>, which acts at once, and the PWM driver of
  \<^verbatim>\<open>Dev/dev_pwm/dev_pwm.c\<close> on the TMR4 adaptation of \<^verbatim>\<open>Adp/hc32_drv_pwm.c\<close>, whose operations
  only post a target that a 10 ms thread approaches. Pins and timer registers are fields of
  the device state. Both are interpretations of \<open>motor_output\<close>.
\<close>

section \<open>Two-pin output\<close>

record gpio_motor =
  pin_fwd :: bool
  pin_rev :: bool
  mg_inited :: u8
  s_dir_invert :: u8
  s_prev_out_dir :: u8
  mg_cur :: cur_sensor

definition MotorGpio_WritePair :: "CurCfg_t \<Rightarrow> u8 \<Rightarrow> u8 \<Rightarrow> gpio_motor \<Rightarrow> gpio_motor" where
  "MotorGpio_WritePair cfg fwd_en0 rev_en0 g =
     (let (fwd_en, rev_en) = (if s_dir_invert g \<noteq> 0 then (rev_en0, fwd_en0) else (fwd_en0, rev_en0));
          (g1, new_dir) =
            (if fwd_en \<noteq> 0 \<and> rev_en = 0 then (g\<lparr>pin_fwd := True, pin_rev := False\<rparr>, 1)
             else if rev_en \<noteq> 0 \<and> fwd_en = 0 then (g\<lparr>pin_fwd := False, pin_rev := True\<rparr>, 2)
             else (g\<lparr>pin_fwd := True, pin_rev := True\<rparr>, 0));
          g2 = (if new_dir \<noteq> 0 \<and> new_dir \<noteq> s_prev_out_dir g1 \<and> block_ms cfg \<noteq> 0
                then g1\<lparr>mg_cur := CurrentSensor_ReqBlock (block_ms cfg) (mg_cur g1)\<rparr> else g1)
      in g2\<lparr>s_prev_out_dir := new_dir\<rparr>)"

definition MotorGpio_OpFwd :: "CurCfg_t \<Rightarrow> u8 \<Rightarrow> u8 \<Rightarrow> gpio_motor \<Rightarrow> gpio_motor" where
  "MotorGpio_OpFwd cfg axis_id duty = MotorGpio_WritePair cfg 1 0"

definition MotorGpio_OpRev :: "CurCfg_t \<Rightarrow> u8 \<Rightarrow> u8 \<Rightarrow> gpio_motor \<Rightarrow> gpio_motor" where
  "MotorGpio_OpRev cfg axis_id duty = MotorGpio_WritePair cfg 0 1"

definition MotorGpio_OpStop :: "CurCfg_t \<Rightarrow> u8 \<Rightarrow> gpio_motor \<Rightarrow> gpio_motor" where
  "MotorGpio_OpStop cfg axis_id = MotorGpio_WritePair cfg 1 1"

definition s_gpio_out_ops :: "CurCfg_t \<Rightarrow> gpio_motor ArbOutputOps_t" where
  "s_gpio_out_ops cfg = output_ops (MotorGpio_OpFwd cfg) (MotorGpio_OpRev cfg) (MotorGpio_OpStop cfg)"

definition Dev_MotorGpio_SetDirInvert :: "u8 \<Rightarrow> gpio_motor \<Rightarrow> gpio_motor" where
  "Dev_MotorGpio_SetDirInvert invert g = g\<lparr>s_dir_invert := (if invert \<noteq> 0 then 1 else 0)\<rparr>"

definition Dev_MotorGpio_RunFwd :: "CurCfg_t \<Rightarrow> gpio_motor \<Rightarrow> int \<times> gpio_motor" where
  "Dev_MotorGpio_RunFwd cfg g = (if mg_inited g = 0 then (- 1, g) else (0, MotorGpio_WritePair cfg 1 0 g))"

definition Dev_MotorGpio_RunRev :: "CurCfg_t \<Rightarrow> gpio_motor \<Rightarrow> int \<times> gpio_motor" where
  "Dev_MotorGpio_RunRev cfg g = (if mg_inited g = 0 then (- 1, g) else (0, MotorGpio_WritePair cfg 0 1 g))"

definition Dev_MotorGpio_Stop :: "CurCfg_t \<Rightarrow> gpio_motor \<Rightarrow> int \<times> gpio_motor" where
  "Dev_MotorGpio_Stop cfg g = (if mg_inited g = 0 then (- 1, g) else (0, MotorGpio_WritePair cfg 0 0 g))"

definition Dev_MotorGpio_EStop :: "CurCfg_t \<Rightarrow> gpio_motor \<Rightarrow> int \<times> gpio_motor" where
  "Dev_MotorGpio_EStop cfg g = (0, MotorGpio_WritePair cfg 1 1 g)"

definition Dev_MotorGpio_Init :: "CurCfg_t \<Rightarrow> gpio_motor arb_mod \<Rightarrow> gpio_motor arb_mod" where
  "Dev_MotorGpio_Init cfg m =
     (if mg_inited (hw m) \<noteq> 0 then m
      else let m1 = snd (Arb_BindOutputOps (Some (s_gpio_out_ops cfg)) (m\<lparr>hw := (hw m)\<lparr>pin_fwd := True, pin_rev := True\<rparr>\<rparr>))
           in m1\<lparr>hw := (hw m1)\<lparr>mg_inited := 1\<rparr>\<rparr>)"

text \<open>The logical direction the pins drive; equal levels brake.\<close>

definition gpio_dir :: "gpio_motor \<Rightarrow> ArbDir_t" where
  "gpio_dir g = (if pin_fwd g = pin_rev g then DIR_NONE
     else if pin_fwd g = (s_dir_invert g = 0) then DIR_FWD else DIR_REV)"

lemma WritePair_frame [simp]:
  "s_dir_invert (MotorGpio_WritePair cfg f r g) = s_dir_invert g"
  "mg_inited (MotorGpio_WritePair cfg f r g) = mg_inited g"
  by (simp_all add: MotorGpio_WritePair_def Let_def)

lemma WritePair_pins:
  "pin_fwd (MotorGpio_WritePair cfg f r g) =
     (if (f \<noteq> 0) \<noteq> (r \<noteq> 0) then (if s_dir_invert g \<noteq> 0 then r \<noteq> 0 else f \<noteq> 0) else True)"
  "pin_rev (MotorGpio_WritePair cfg f r g) =
     (if (f \<noteq> 0) \<noteq> (r \<noteq> 0) then (if s_dir_invert g \<noteq> 0 then f \<noteq> 0 else r \<noteq> 0) else True)"
  by (auto simp: MotorGpio_WritePair_def Let_def)

interpretation gpio_out: motor_output "MotorGpio_OpFwd cfg" "MotorGpio_OpRev cfg" "MotorGpio_OpStop cfg" gpio_dir
  by unfold_locales
    (simp_all add: gpio_dir_def MotorGpio_OpFwd_def MotorGpio_OpRev_def MotorGpio_OpStop_def WritePair_pins)

section \<open>PWM output\<close>

abbreviation PWM_RUN_DUTY_PCT :: u8 where "PWM_RUN_DUTY_PCT \<equiv> 20"
abbreviation PWM_RAMP_STEP_PCT :: u8 where "PWM_RAMP_STEP_PCT \<equiv> 2"
abbreviation PWM_RAMP_STEP_STOP_PCT :: u8 where "PWM_RAMP_STEP_STOP_PCT \<equiv> 10"
abbreviation PWM_DUTY_MIN :: u8 where "PWM_DUTY_MIN \<equiv> 2"
abbreviation PWM_DUTY_MAX :: u8 where "PWM_DUTY_MAX \<equiv> 98"
abbreviation PWM_TICK :: u32 where "PWM_TICK \<equiv> 10"   \<comment> \<open>\<open>rt_tick_from_millisecond\<close> at 1000 ticks per second\<close>
abbreviation PWM_CMD_DIR_STOP :: u8 where "PWM_CMD_DIR_STOP \<equiv> 0"
abbreviation PWM_CMD_DIR_FWD :: u8 where "PWM_CMD_DIR_FWD \<equiv> 1"
abbreviation PWM_CMD_DIR_REV :: u8 where "PWM_CMD_DIR_REV \<equiv> 2"

datatype PwmState_t = PWM_ST_STOP | PWM_ST_RAMP | PWM_ST_RUN
datatype PwmGroup = PWM_GRP_U | PWM_GRP_V
datatype PwmPolarity = OXH_HOLD_OXL_HOLD | OXH_HOLD_OXL_INVT

text \<open>The timer: period, compare value and output polarity of each group.\<close>

record tmr4 =
  s_tmr4_period :: u16
  occr_u :: u16
  occr_v :: u16
  pocr_u :: PwmPolarity
  pocr_v :: PwmPolarity

record pwm_dev =
  s_cmd_dir :: u8
  s_cmd_duty :: u8
  s_cmd_sem :: nat
  s_st :: PwmState_t
  s_run_dir :: u8
  s_u_cur :: u8
  s_v_cur :: u8
  s_u_tgt :: u8
  s_v_tgt :: u8
  s_u_applied :: u8
  s_v_applied :: u8
  s_last_tick :: u32
  pw_inited :: u8
  tmr :: tmr4

subsection \<open>Timer adaptation\<close>

definition PwmHw4_GetPeriod :: "tmr4 \<Rightarrow> u16" where "PwmHw4_GetPeriod t = s_tmr4_period t"

definition PwmHw4_DutyToCompare :: "tmr4 \<Rightarrow> u32 \<Rightarrow> u16" where
  "PwmHw4_DutyToCompare t duty = ucast ((ucast (s_tmr4_period t) + 1) * (if duty > 100 then 100 else duty) div 100 :: u32)"

definition PwmHw4_SetCompare :: "PwmGroup \<Rightarrow> u16 \<Rightarrow> tmr4 \<Rightarrow> tmr4" where
  "PwmHw4_SetCompare grp cmp t = (case grp of PWM_GRP_U \<Rightarrow> t\<lparr>occr_u := cmp\<rparr> | PWM_GRP_V \<Rightarrow> t\<lparr>occr_v := cmp\<rparr>)"

definition PwmHw4_SetRunPolarity :: "PwmGroup \<Rightarrow> tmr4 \<Rightarrow> tmr4" where
  "PwmHw4_SetRunPolarity grp t =
     (case grp of PWM_GRP_U \<Rightarrow> t\<lparr>pocr_u := OXH_HOLD_OXL_HOLD\<rparr> | PWM_GRP_V \<Rightarrow> t\<lparr>pocr_v := OXH_HOLD_OXL_HOLD\<rparr>)"

definition PwmHw4_SetStopPolarity :: "PwmGroup \<Rightarrow> tmr4 \<Rightarrow> tmr4" where
  "PwmHw4_SetStopPolarity grp t =
     (case grp of PWM_GRP_U \<Rightarrow> t\<lparr>pocr_u := OXH_HOLD_OXL_INVT\<rparr> | PWM_GRP_V \<Rightarrow> t\<lparr>pocr_v := OXH_HOLD_OXL_INVT\<rparr>)"

text \<open>The period, then for each group the 50\% compare value and the stop polarity.\<close>

definition PwmHw4_Init :: "u32 \<Rightarrow> u32 \<Rightarrow> tmr4 \<Rightarrow> tmr4" where
  "PwmHw4_Init pclk1 freq_hz t =
     (let f = (if freq_hz = 0 then 6500 else freq_hz);
          t1 = t\<lparr>s_tmr4_period := ucast (pclk1 div f - 1)\<rparr>;
          init = (\<lambda>grp t. PwmHw4_SetStopPolarity grp (PwmHw4_SetCompare grp (PwmHw4_DutyToCompare t 50) t))
      in init PWM_GRP_V (init PWM_GRP_U t1))"

subsection \<open>Commands\<close>

definition sem_release :: "nat \<Rightarrow> nat" where "sem_release v = (if v < 65535 then v + 1 else v)"

definition Cmd_Post :: "u8 \<Rightarrow> u8 \<Rightarrow> pwm_dev \<Rightarrow> pwm_dev" where
  "Cmd_Post dir duty p = p\<lparr>s_cmd_dir := dir, s_cmd_duty := duty, s_cmd_sem := sem_release (s_cmd_sem p)\<rparr>"

definition Cmd_Fetch :: "pwm_dev \<Rightarrow> u8 \<times> u8" where "Cmd_Fetch p = (s_cmd_dir p, s_cmd_duty p)"

definition Pwm_OpFwd :: "u8 \<Rightarrow> u8 \<Rightarrow> pwm_dev \<Rightarrow> pwm_dev" where "Pwm_OpFwd axis_id duty = Cmd_Post PWM_CMD_DIR_FWD duty"
definition Pwm_OpRev :: "u8 \<Rightarrow> u8 \<Rightarrow> pwm_dev \<Rightarrow> pwm_dev" where "Pwm_OpRev axis_id duty = Cmd_Post PWM_CMD_DIR_REV duty"
definition Pwm_OpStop :: "u8 \<Rightarrow> pwm_dev \<Rightarrow> pwm_dev" where "Pwm_OpStop axis_id = Cmd_Post PWM_CMD_DIR_STOP 0"

definition s_pwm_out_ops :: "pwm_dev ArbOutputOps_t" where
  "s_pwm_out_ops = output_ops Pwm_OpFwd Pwm_OpRev Pwm_OpStop"

definition Dev_PwmMotor_RunFwd :: "pwm_dev \<Rightarrow> int \<times> pwm_dev" where
  "Dev_PwmMotor_RunFwd p = (if pw_inited p = 0 then (- 1, p) else (0, Cmd_Post PWM_CMD_DIR_FWD 0 p))"
definition Dev_PwmMotor_RunRev :: "pwm_dev \<Rightarrow> int \<times> pwm_dev" where
  "Dev_PwmMotor_RunRev p = (if pw_inited p = 0 then (- 1, p) else (0, Cmd_Post PWM_CMD_DIR_REV 0 p))"
definition Dev_PwmMotor_Stop :: "pwm_dev \<Rightarrow> int \<times> pwm_dev" where
  "Dev_PwmMotor_Stop p = (if pw_inited p = 0 then (- 1, p) else (0, Cmd_Post PWM_CMD_DIR_STOP 0 p))"

definition Dev_PwmMotor_EStop :: "pwm_dev \<Rightarrow> int \<times> pwm_dev" where
  "Dev_PwmMotor_EStop p =
     (let t = tmr p; c = PwmHw4_DutyToCompare t 50;
          t1 = PwmHw4_SetStopPolarity PWM_GRP_V (PwmHw4_SetStopPolarity PWM_GRP_U
                 (PwmHw4_SetCompare PWM_GRP_V c (PwmHw4_SetCompare PWM_GRP_U c t)))
      in (0, p\<lparr>s_cmd_dir := PWM_CMD_DIR_STOP, s_cmd_duty := 0, tmr := t1, s_u_cur := 50, s_v_cur := 50,
             s_u_applied := 50, s_v_applied := 50, s_st := PWM_ST_STOP\<rparr>))"

subsection \<open>The ramp\<close>

definition RampStep8 :: "u8 \<Rightarrow> u8 \<Rightarrow> u8 \<Rightarrow> u8" where
  "RampStep8 cur tgt step =
     (if cur < tgt then (let c = cur + step in if c > tgt then tgt else c)
      else if cur > tgt then (if cur > tgt + step then cur - step else tgt)
      else cur)"

definition ApplyDutyU :: "u8 \<Rightarrow> pwm_dev \<Rightarrow> pwm_dev" where
  "ApplyDutyU duty p = (if s_u_applied p \<noteq> duty
     then p\<lparr>tmr := PwmHw4_SetCompare PWM_GRP_U (PwmHw4_DutyToCompare (tmr p) (ucast duty)) (tmr p), s_u_applied := duty\<rparr> else p)"

definition ApplyDutyV :: "u8 \<Rightarrow> pwm_dev \<Rightarrow> pwm_dev" where
  "ApplyDutyV duty p = (if s_v_applied p \<noteq> duty
     then p\<lparr>tmr := PwmHw4_SetCompare PWM_GRP_V (PwmHw4_DutyToCompare (tmr p) (ucast duty)) (tmr p), s_v_applied := duty\<rparr> else p)"

definition pwm_eff :: "u8 \<Rightarrow> u8" where
  "pwm_eff duty =
     (let e = (if duty = 0 then PWM_RUN_DUTY_PCT else duty);
          e1 = (if e < PWM_DUTY_MIN then PWM_DUTY_MIN else e)
      in if e1 > PWM_DUTY_MAX then PWM_DUTY_MAX else e1)"

text \<open>The parts of the tick: the targets, the start, the ramp step with the register writes, and the state change.\<close>

definition pwm_targets :: "u8 \<Rightarrow> u8 \<Rightarrow> u8 \<times> u8" where
  "pwm_targets dir duty =
     (if dir = PWM_CMD_DIR_STOP then (50, 50)
      else if dir = PWM_CMD_DIR_FWD then (100 - pwm_eff duty, pwm_eff duty)
      else (pwm_eff duty, 100 - pwm_eff duty))"

definition pwm_start :: "u8 \<Rightarrow> pwm_dev \<Rightarrow> pwm_dev" where
  "pwm_start dir p = p\<lparr>s_run_dir := dir, s_u_cur := 50, s_v_cur := 50, s_u_applied := 0xFF, s_v_applied := 0xFF,
     tmr := PwmHw4_SetRunPolarity PWM_GRP_V (PwmHw4_SetRunPolarity PWM_GRP_U (tmr p)), s_st := PWM_ST_RAMP\<rparr>"

definition pwm_ramp :: "u8 \<Rightarrow> pwm_dev \<Rightarrow> pwm_dev" where
  "pwm_ramp dir p =
     (let step = (if dir = PWM_CMD_DIR_STOP then PWM_RAMP_STEP_STOP_PCT else PWM_RAMP_STEP_PCT);
          p1 = p\<lparr>s_u_cur := RampStep8 (s_u_cur p) (s_u_tgt p) step, s_v_cur := RampStep8 (s_v_cur p) (s_v_tgt p) step\<rparr>
      in ApplyDutyV (s_v_cur p1) (ApplyDutyU (s_u_cur p1) p1))"

definition pwm_settle :: "u8 \<Rightarrow> pwm_dev \<Rightarrow> pwm_dev" where
  "pwm_settle dir p =
     (if s_u_cur p = s_u_tgt p \<and> s_v_cur p = s_v_tgt p then
        if dir = PWM_CMD_DIR_STOP then
          p\<lparr>tmr := PwmHw4_SetStopPolarity PWM_GRP_V (PwmHw4_SetStopPolarity PWM_GRP_U (tmr p)), s_st := PWM_ST_STOP\<rparr>
        else p\<lparr>s_run_dir := (if s_run_dir p \<noteq> dir then dir else s_run_dir p), s_st := PWM_ST_RUN\<rparr>
      else p\<lparr>s_st := PWM_ST_RAMP, s_run_dir := (if dir \<noteq> PWM_CMD_DIR_STOP then dir else s_run_dir p)\<rparr>)"

definition pwm_advance :: "u8 \<Rightarrow> pwm_dev \<Rightarrow> pwm_dev" where
  "pwm_advance dir p = pwm_settle dir (pwm_ramp dir p)"

definition Pwm_RampTick :: "pwm_dev \<Rightarrow> pwm_dev" where
  "Pwm_RampTick p0 =
     (let (dir, duty) = Cmd_Fetch p0; (ut, vt) = pwm_targets dir duty; p = p0\<lparr>s_u_tgt := ut, s_v_tgt := vt\<rparr> in
      if s_st p = PWM_ST_STOP then
        if dir = PWM_CMD_DIR_STOP then p else pwm_advance dir (pwm_start dir p)
      else pwm_advance dir p)"

text \<open>One round of the thread at tick \<open>now\<close>: a pending semaphore count is taken, else the take times out.\<close>

definition Pwm_ThreadStep :: "u32 \<Rightarrow> pwm_dev \<Rightarrow> pwm_dev" where
  "Pwm_ThreadStep now p0 =
     (let p = p0\<lparr>s_cmd_sem := s_cmd_sem p0 - 1\<rparr> in
      if now - s_last_tick p < PWM_TICK then p else Pwm_RampTick (p\<lparr>s_last_tick := now\<rparr>))"

definition Dev_Pwm_Init :: "u32 \<Rightarrow> bool \<Rightarrow> bool \<Rightarrow> pwm_dev arb_mod \<Rightarrow> pwm_dev arb_mod" where
  "Dev_Pwm_Init pclk1 sem_ok thread_ok m =
     (if pw_inited (hw m) \<noteq> 0 then m
      else
        let m1 = m\<lparr>hw := (hw m)\<lparr>tmr := PwmHw4_Init pclk1 6500 (tmr (hw m))\<rparr>\<rparr> in
        if \<not> sem_ok then m1
        else
          let m2 = m1\<lparr>hw := (hw m1)\<lparr>s_cmd_sem := 0\<rparr>\<rparr> in
          if \<not> thread_ok then m2
          else
            let m3 = snd (Arb_BindOutputOps (Some s_pwm_out_ops) m2) in
            m3\<lparr>hw := (hw m3)\<lparr>pw_inited := 1\<rparr>\<rparr>)"

text \<open>The direction that is posted to the ramp thread.\<close>

definition pwm_dir :: "pwm_dev \<Rightarrow> ArbDir_t" where
  "pwm_dir p = (if s_cmd_dir p = PWM_CMD_DIR_STOP then DIR_NONE
     else if s_cmd_dir p = PWM_CMD_DIR_FWD then DIR_FWD else DIR_REV)"

interpretation pwm_out: motor_output Pwm_OpFwd Pwm_OpRev Pwm_OpStop pwm_dir
  by unfold_locales (simp_all add: pwm_dir_def Pwm_OpFwd_def Pwm_OpRev_def Pwm_OpStop_def Cmd_Post_def)

end
