(* ===== verification/Debounce.thy ===== *)
theory Debounce
  imports Prelude
begin

text \<open>
  The sampling windows of \<^verbatim>\<open>Dev/dev_power/dev_polarity.c\<close> (5 points) and
  \<^verbatim>\<open>Dev/dev_hall_rod/dev_hall_rod.c\<close> (3 points): a 16-bit shift register of samples, newest in
  bit 0, with a count of the points taken, compared as a whole with the pattern of \<open>sz\<close> ones or
  with zero. The lemmas say what the comparison means for the sequence of samples.
\<close>

record sample_win =
  win :: u16
  win_cnt :: u8

definition win_reset :: sample_win where "win_reset = \<lparr>win = 0, win_cnt = 0\<rparr>"

definition win_full :: "u8 \<Rightarrow> sample_win \<Rightarrow> bool" where "win_full sz w \<longleftrightarrow> win_cnt w \<ge> sz"

definition win_push :: "u8 \<Rightarrow> bool \<Rightarrow> sample_win \<Rightarrow> sample_win" where
  "win_push sz b w =
     w\<lparr>win := push_bit 1 (win w) OR (if b then 1 else 0),
       win_cnt := (if win_cnt w < sz then win_cnt w + 1 else win_cnt w)\<rparr>"

definition win_all_zero :: "u8 \<Rightarrow> sample_win \<Rightarrow> bool" where
  "win_all_zero sz w \<longleftrightarrow> win_full sz w \<and> win w = 0"

definition win_all_one :: "u8 \<Rightarrow> sample_win \<Rightarrow> bool" where
  "win_all_one sz w \<longleftrightarrow> win_full sz w \<and> win w = push_bit (unat sz) 1 - 1"

text \<open>Samples pushed one after the other, oldest first.\<close>

definition win_run :: "u8 \<Rightarrow> bool list \<Rightarrow> sample_win" where
  "win_run sz bs = fold (win_push sz) bs win_reset"

section \<open>Contents of the register\<close>

lemma win_run_snoc [simp]: "win_run sz (bs @ [b]) = win_push sz b (win_run sz bs)"
  by (simp add: win_run_def)

lemma win_run_Nil [simp]: "win_run sz [] = win_reset"
  by (simp add: win_run_def)

lemma bit_push_win:
  "bit (win (win_push sz b w)) k \<longleftrightarrow> k < 16 \<and> (if k = 0 then b else bit (win w) (k - 1))"
proof -
  have "bit (push_bit 1 (win w)) k \<longleftrightarrow> 1 \<le> k \<and> k < 16 \<and> bit (win w) (k - 1)"
    unfolding bit_push_bit_iff possible_bit_word by simp
  moreover have "bit (if b then 1 else 0 :: u16) k \<longleftrightarrow> k = 0 \<and> b" by (simp add: bit_1_iff)
  ultimately show ?thesis by (auto simp: win_push_def bit_or_iff simp del: push_bit_of_1 push_bit_Suc)
qed

lemma bit_win_run: "bit (win (win_run sz bs)) k \<longleftrightarrow> k < 16 \<and> k < length bs \<and> rev bs ! k"
proof (induction bs arbitrary: k rule: rev_induct)
  case Nil
  then show ?case by (simp add: win_reset_def)
next
  case (snoc b bs)
  show ?case by (cases k) (auto simp: bit_push_win snoc)
qed

lemma win_cnt_run: "unat (win_cnt (win_run sz bs)) = min (length bs) (unat sz)"
proof (induction bs rule: rev_induct)
  case Nil
  then show ?case by (simp add: win_reset_def)
next
  case (snoc b bs)
  have "unat (win_cnt (win_run sz bs) + 1) = Suc (unat (win_cnt (win_run sz bs)))"
    if "win_cnt (win_run sz bs) < sz"
  proof -
    have "Suc (unat (win_cnt (win_run sz bs))) < 2 ^ 8"
      using that unsigned_less [of sz, where ?'a = nat] by (simp add: word_less_nat_alt)
    then show ?thesis by (simp add: unat_word_ariths)
  qed
  with snoc show ?case by (auto simp: win_push_def word_less_nat_alt)
qed

lemma win_full_run: "win_full sz (win_run sz bs) \<longleftrightarrow> unat sz \<le> length bs"
  by (auto simp: win_full_def word_le_nat_alt win_cnt_run)

lemma bit_ones: "n < 16 \<Longrightarrow> bit (2 ^ n - 1 :: u16) k \<longleftrightarrow> k < n"
  unfolding mask_eq_exp_minus_1 [symmetric] by (auto simp: bit_mask_iff)

text \<open>
  The comparison with all ones holds exactly when the last \<open>sz\<close> samples are ones and all
  older samples still in the register, up to the sixteenth, are zeros.
\<close>

lemma win_all_one_run:
  assumes "unat sz < 16"
  shows "win_all_one sz (win_run sz bs) \<longleftrightarrow>
     unat sz \<le> length bs \<and> (\<forall>k < min 16 (length bs). rev bs ! k \<longleftrightarrow> k < unat sz)"
proof -
  have "win (win_run sz bs) = push_bit (unat sz) 1 - 1 \<longleftrightarrow>
      (\<forall>k < 16. (k < length bs \<and> rev bs ! k) = (k < unat sz))"
    using assms by (auto simp: bit_eq_iff bit_win_run bit_ones possible_bit_word)
  then show ?thesis
    by (auto simp: win_all_one_def win_full_run)
qed

lemma win_all_zero_run:
  "win_all_zero sz (win_run sz bs) \<longleftrightarrow>
     unat sz \<le> length bs \<and> (\<forall>k < min 16 (length bs). \<not> rev bs ! k)"
proof -
  have "win (win_run sz bs) = 0 \<longleftrightarrow> (\<forall>k < 16. \<not> (k < length bs \<and> rev bs ! k))"
    by (auto simp: bit_eq_iff bit_win_run possible_bit_word)
  then show ?thesis by (auto simp: win_all_zero_def win_full_run)
qed

lemmas window_simps_run = win_all_one_run win_all_zero_run

end
