(* ===== verification/Polarity.thy ===== *)
theory Polarity
  imports Debounce Arbiter_Laws Power_Sense
begin

text \<open>
  The supply polarity device, \<^verbatim>\<open>Dev/dev_power/dev_polarity.c\<close>: one direction pin, sampled every
  2 ms by the digital input task, debounced by a 5-point window; a stable change of direction
  posts an axis event, a system event and a run command to the arbitration kernel. The level of
  the pin and the under-voltage status are arguments. The simulation mode is compiled out, and
  the log of a pending change is modelled up to the line that is printed.
\<close>

abbreviation POLARITY_WIN_SIZE :: u8 where "POLARITY_WIN_SIZE \<equiv> 5"
abbreviation POLARITY_ARB_AXIS_ID :: u8 where "POLARITY_ARB_AXIS_ID \<equiv> 0"
abbreviation POLARITY_ARB_RUN_DUTY_PCT :: u8 where "POLARITY_ARB_RUN_DUTY_PCT \<equiv> 98"

datatype PolarityState_t = POLARITY_UNKNOWN | POLARITY_UNPOWERED | POLARITY_FWD | POLARITY_REV | POLARITY_ABNORMAL

record polarity =
  pol_state :: PolarityState_t
  s_dirWin :: sample_win
  pol_bInit :: u8
  s_u8PendingState :: PolarityState_t
  s_arb_send_fail_count :: u32

section \<open>Window operations\<close>

definition Polarity_WinFull :: "sample_win \<Rightarrow> bool" where "Polarity_WinFull = win_full POLARITY_WIN_SIZE"
definition Polarity_WinPush :: "sample_win \<Rightarrow> bool \<Rightarrow> sample_win" where "Polarity_WinPush w b = win_push POLARITY_WIN_SIZE b w"
definition Polarity_WinAllZero :: "sample_win \<Rightarrow> bool" where "Polarity_WinAllZero = win_all_zero POLARITY_WIN_SIZE"
definition Polarity_WinAllOne :: "sample_win \<Rightarrow> bool" where "Polarity_WinAllOne = win_all_one POLARITY_WIN_SIZE"

definition Polarity_ResetWindow :: "polarity \<Rightarrow> polarity" where "Polarity_ResetWindow p = p\<lparr>s_dirWin := win_reset\<rparr>"

definition Polarity_ForceUnpowered :: "polarity \<Rightarrow> polarity" where
  "Polarity_ForceUnpowered p0 =
     (let p = Polarity_ResetWindow p0 in
      if pol_state p \<noteq> POLARITY_UNPOWERED
      then p\<lparr>pol_state := POLARITY_UNPOWERED, s_u8PendingState := POLARITY_UNPOWERED\<rparr> else p)"

definition Polarity_SendArb :: "u8 \<Rightarrow> u8 \<Rightarrow> u8 \<Rightarrow> u32 \<Rightarrow> polarity \<times> 'h arb_mod \<Rightarrow> polarity \<times> 'h arb_mod" where
  "Polarity_SendArb device_id cmd_type duty now = (\<lambda>(p, m).
     let (ret, m') = Arb_SendCommand POLARITY_ARB_AXIS_ID device_id PRIO_POWER cmd_type duty False now m
     in (if ret \<noteq> RT_EOK then p\<lparr>s_arb_send_fail_count := s_arb_send_fail_count p + 1\<rparr> else p, m'))"

definition Polarity_Eval :: "polarity \<Rightarrow> PolarityState_t" where
  "Polarity_Eval p =
     (if Polarity_WinAllZero (s_dirWin p) then POLARITY_FWD
      else if Polarity_WinAllOne (s_dirWin p) then POLARITY_REV
      else POLARITY_UNKNOWN)"

section \<open>Interface\<close>

definition Polarity_Init :: "polarity \<Rightarrow> polarity" where
  "Polarity_Init p = p\<lparr>pol_state := POLARITY_UNKNOWN, s_dirWin := win_reset,
     s_u8PendingState := POLARITY_UNKNOWN, pol_bInit := 1\<rparr>"

text \<open>A scan; the results are the device, the arbitration module, the axis events and the system events sent.\<close>

definition Polarity_Scan :: "u8 \<Rightarrow> bool \<Rightarrow> u32 \<Rightarrow> polarity \<times> 'h arb_mod \<Rightarrow> (polarity \<times> 'h arb_mod) \<times> u32 list \<times> u32 list" where
  "Polarity_Scan under_voltage pin now = (\<lambda>(p0, m).
     if pol_bInit p0 = 0 then ((p0, m), [], [])
     else if under_voltage \<noteq> 0 then ((Polarity_ForceUnpowered p0, m), [], [])
     else
       let p = p0\<lparr>s_dirWin := Polarity_WinPush (s_dirWin p0) pin\<rparr>; st = Polarity_Eval p in
       if st = POLARITY_UNKNOWN then ((p, m), [], [])
       else if st \<noteq> pol_state p then
         let p1 = p\<lparr>pol_state := st, s_u8PendingState := st\<rparr> in
         (case st of
            POLARITY_FWD \<Rightarrow> (Polarity_SendArb DEV_ID_POWER_POS CMD_TYPE_RUN_FWD POLARITY_ARB_RUN_DUTY_PCT now (p1, m),
                              [EVT_ACT_POLARITY_FWD], [EVT_SYS_POLARITY_CHG])
          | POLARITY_REV \<Rightarrow> (Polarity_SendArb DEV_ID_POWER_NEG CMD_TYPE_RUN_REV POLARITY_ARB_RUN_DUTY_PCT now (p1, m),
                              [EVT_ACT_POLARITY_REV], [EVT_SYS_POLARITY_CHG])
          | _ \<Rightarrow> ((p1, m), [], []))
       else ((p, m), [], []))"

text \<open>The state to be logged, if any; the request is cleared.\<close>

definition Polarity_PrintPending :: "polarity \<Rightarrow> PolarityState_t option \<times> polarity" where
  "Polarity_PrintPending p =
     (let st = s_u8PendingState p; p' = p\<lparr>s_u8PendingState := POLARITY_UNKNOWN\<rparr>
      in (if st = POLARITY_UNKNOWN then None else Some st, p'))"

definition Polarity_GetState :: "polarity \<Rightarrow> PolarityState_t" where "Polarity_GetState p = pol_state p"

section \<open>Sequences of scans\<close>

text \<open>The levels seen by successive scans with the supply in range, oldest first.\<close>

fun pol_run :: "(bool \<times> u32) list \<Rightarrow> polarity \<times> 'h arb_mod \<Rightarrow> polarity \<times> 'h arb_mod" where
  "pol_run [] w = w"
| "pol_run ((pin, now) # xs) w = pol_run xs (fst (Polarity_Scan 0 pin now w))"

lemma Polarity_SendArb_frame [simp]:
  "s_dirWin (fst (Polarity_SendArb d c du now w)) = s_dirWin (fst w)"
  "pol_bInit (fst (Polarity_SendArb d c du now w)) = pol_bInit (fst w)"
  "pol_state (fst (Polarity_SendArb d c du now w)) = pol_state (fst w)"
  by (simp_all add: Polarity_SendArb_def case_prod_beta Let_def)

lemma Polarity_Scan_win:
  assumes "pol_bInit (fst w) \<noteq> 0"
  shows "s_dirWin (fst (fst (Polarity_Scan 0 pin now w))) = win_push POLARITY_WIN_SIZE pin (s_dirWin (fst w))"
    and "pol_bInit (fst (fst (Polarity_Scan 0 pin now w))) = pol_bInit (fst w)"
  using assms
  by (auto simp: Polarity_Scan_def case_prod_beta Let_def Polarity_WinPush_def split: PolarityState_t.split)

lemma pol_run_win:
  assumes "pol_bInit (fst w) \<noteq> 0" and "s_dirWin (fst w) = win_run POLARITY_WIN_SIZE bs"
  shows "s_dirWin (fst (pol_run xs w)) = win_run POLARITY_WIN_SIZE (bs @ map fst xs)"
  using assms
proof (induction xs arbitrary: w bs)
  case (Cons x xs)
  obtain pin now where x: "x = (pin, now)" by fastforce
  have "s_dirWin (fst (fst (Polarity_Scan 0 pin now w))) = win_run POLARITY_WIN_SIZE (bs @ [pin])"
    using Cons.prems Polarity_Scan_win(1) by (metis win_run_snoc)
  from Cons.IH [OF _ this] Cons.prems Polarity_Scan_win(2) [of w pin now] x show ?case by simp
qed simp

section \<open>Properties of the polarity device\<close>

definition demo_pol :: polarity where
  "demo_pol = \<lparr>pol_state = POLARITY_UNKNOWN, s_dirWin = win_reset, pol_bInit = 0,
     s_u8PendingState = POLARITY_UNKNOWN, s_arb_send_fail_count = 0\<rparr>"

text \<open>
  What the 5-point window accepts: after a reset and the levels \<open>bs\<close>, forward is recognised
  exactly when at least five samples were taken and all of the last sixteen are low, and
  reverse exactly when the last five are high and all older ones of the last sixteen are low.
\<close>

theorem polarity_window_exact:
  "Polarity_Eval (p\<lparr>s_dirWin := win_run POLARITY_WIN_SIZE bs\<rparr>) =
     (if 5 \<le> length bs \<and> (\<forall>k < min 16 (length bs). \<not> rev bs ! k) then POLARITY_FWD
      else if 5 \<le> length bs \<and> (\<forall>k < min 16 (length bs). rev bs ! k \<longleftrightarrow> k < 5) then POLARITY_REV
      else POLARITY_UNKNOWN)"
  by (simp add: Polarity_Eval_def Polarity_WinAllZero_def Polarity_WinAllOne_def win_all_one_run win_all_zero_run)

theorem polarity_window_exact_witness:
  "Polarity_Eval (demo_pol\<lparr>s_dirWin := win_run POLARITY_WIN_SIZE [False, True, True, True, True, True]\<rparr>) = POLARITY_REV"
proof -
  let ?bs = "[False, True, True, True, True, True]"
  have "\<forall>k < min 16 (length ?bs). rev ?bs ! k \<longleftrightarrow> k < 5" "\<not> (\<forall>k < min 16 (length ?bs). \<not> rev ?bs ! k)" by code_simp+
  then show ?thesis using polarity_window_exact [where p = demo_pol and bs = ?bs] by simp
qed

lemma bounce_mismatch:
  "\<exists>k < min 16 (Suc (Suc n)). rev (True # False # replicate n True) ! k \<noteq> (k < 5)"
proof -
  consider "n < 5" | "n = 5" | "5 < n" by linarith
  then show ?thesis
  proof cases
    case 1
    then show ?thesis by (intro exI [of _ n]) (simp add: nth_append)
  next
    case 2
    then show ?thesis by (intro exI [of _ 6]) (simp add: nth_append)
  next
    case 3
    then show ?thesis by (intro exI [of _ 5]) (simp add: nth_append)
  qed
qed

text \<open>
  A single bounce defeats the window for good: from \<open>Polarity_Init\<close>, with the supply in
  range, after the levels high and low the pin may stay high for any number of further scans and
  the window never reads as reverse (or as forward).
\<close>

theorem polarity_bounce_never_recognised:
  assumes "map fst xs = True # False # replicate n True"
  shows "Polarity_Eval (fst (pol_run xs (Polarity_Init p, m))) \<notin> {POLARITY_REV, POLARITY_FWD}"
proof -
  let ?p = "fst (pol_run xs (Polarity_Init p, m))"
  have w: "s_dirWin ?p = win_run POLARITY_WIN_SIZE (True # False # replicate n True)"
    using pol_run_win [of "(Polarity_Init p, m)" "[]" xs] assms by (simp add: Polarity_Init_def)
  have "\<not> (\<forall>k < min 16 (length (True # False # replicate n True)). rev (True # False # replicate n True) ! k \<longleftrightarrow> k < 5)"
    using bounce_mismatch [of n] by (metis length_Cons length_replicate)
  then have one: "\<not> Polarity_WinAllOne (s_dirWin ?p)" by (simp add: w Polarity_WinAllOne_def win_all_one_run del: rev.simps)
  have "n \<ge> 3 \<Longrightarrow> rev (True # False # replicate n True) ! 0" by (simp add: nth_append)
  then have zero: "\<not> Polarity_WinAllZero (s_dirWin ?p)"
    by (auto simp: w Polarity_WinAllZero_def win_all_zero_run simp del: rev.simps)
  from one zero show ?thesis by (simp add: Polarity_Eval_def)
qed

theorem polarity_bounce_never_recognised_witness:
  "Polarity_Eval (fst (pol_run (map (\<lambda>b. (b, 0)) (True # False # replicate 20 True)) (Polarity_Init demo_pol, demo_boot)))
     \<notin> {POLARITY_REV, POLARITY_FWD}"
  by (rule polarity_bounce_never_recognised [of _ 20]) simp



end
