(* ===== verification/Rod.thy ===== *)
theory Rod
  imports State_Engine Float32 Arbiter Dev_Events
begin

text \<open>
  The actuator rod: position from Hall pulses with its calibration windows
  (\<^verbatim>\<open>Dev/dev_rod/dev_rod_position.c\<close>), the table-driven rod state machine with its commands to
  the arbitration kernel (\<^verbatim>\<open>dev_rod_state.c\<close>), and the decision on over-current between soft
  limit and fault (\<^verbatim>\<open>dev_rod_calib.c\<close>). The commands and events an update sends are returned in
  order: the source ignores their results.
\<close>

section \<open>Position\<close>

datatype PositionCalibState_t = POSITION_NOT_CALIBRATED | POSITION_CALIBRATED

record RodPosition_t =
  position_mm :: f32
  calib_state :: PositionCalibState_t
  calib_pending :: bool
  calib_allowed :: bool
  in_calib_zone_min :: bool
  in_calib_zone_max :: bool
  min_limit_triggered :: bool
  max_limit_triggered :: bool
  stroke_mm :: f32
  reduction_ratio :: f32
  pulse_to_mm :: f32
  calib_win_a :: f32
  calib_win_b :: f32
  calib_win_c :: f32
  calib_win_d :: f32
  stop_margin_mm :: f32

definition RodPosition_Init :: "RodPosition_t \<Rightarrow> RodPosition_t" where
  "RodPosition_Init pos = pos\<lparr>position_mm := F_ZERO, calib_state := POSITION_NOT_CALIBRATED, calib_pending := True,
     calib_allowed := True, in_calib_zone_min := False, in_calib_zone_max := False, min_limit_triggered := False,
     max_limit_triggered := False, stroke_mm := F_ZERO, reduction_ratio := f_lit 1 1, pulse_to_mm := F_ZERO,
     calib_win_a := f_lit 1 1, calib_win_b := f_lit 1 1, calib_win_c := f_lit 24 1, calib_win_d := f_lit 24 1\<rparr>"

definition RodPosition_SetParams :: "f32 \<Rightarrow> f32 \<Rightarrow> f32 \<Rightarrow> f32 \<Rightarrow> RodPosition_t \<Rightarrow> RodPosition_t" where
  "RodPosition_SetParams stroke ratio hall_pulses_per_rev screw_lead pos =
     pos\<lparr>stroke_mm := stroke, reduction_ratio := ratio, pulse_to_mm := fdiv screw_lead (fmul ratio hall_pulses_per_rev)\<rparr>"

definition zone_min :: "RodPosition_t \<Rightarrow> f32 \<Rightarrow> bool" where
  "zone_min pos x = (if flt (calib_win_a pos) (calib_win_b pos)
     then fge x (calib_win_a pos) \<and> fle x (calib_win_b pos) else fle x (calib_win_a pos))"

definition zone_max :: "RodPosition_t \<Rightarrow> f32 \<Rightarrow> bool" where
  "zone_max pos x = (if fgt (calib_win_c pos) (calib_win_d pos)
     then fge x (calib_win_d pos) \<and> fle x (calib_win_c pos) else fge x (calib_win_c pos))"

definition RodPosition_Update :: "i32 \<Rightarrow> RodPosition_t \<Rightarrow> RodPosition_t" where
  "RodPosition_Update delta_pulses pos =
     (let x = fadd (position_mm pos) (fmul (f_of_int (sint delta_pulses)) (pulse_to_mm pos));
          zn = zone_min pos x; zx = zone_max pos x
      in pos\<lparr>position_mm := x, in_calib_zone_min := zn, in_calib_zone_max := zx,
             calib_allowed := (if calib_state pos = POSITION_NOT_CALIBRATED then True else zn \<or> zx)\<rparr>)"

definition RodPosition_OnMinLimit :: "bool \<Rightarrow> RodPosition_t \<Rightarrow> bool \<times> RodPosition_t" where
  "RodPosition_OnMinLimit triggered pos0 =
     (let pos = pos0\<lparr>min_limit_triggered := triggered\<rparr> in
      if triggered \<and> calib_allowed pos
      then (True, pos\<lparr>position_mm := F_ZERO, calib_state := POSITION_CALIBRATED, calib_pending := False\<rparr>)
      else (False, pos))"

definition RodPosition_OnMaxLimit :: "bool \<Rightarrow> RodPosition_t \<Rightarrow> bool \<times> RodPosition_t" where
  "RodPosition_OnMaxLimit triggered pos0 =
     (let pos = pos0\<lparr>max_limit_triggered := triggered\<rparr> in
      if triggered \<and> calib_allowed pos
      then (True, pos\<lparr>position_mm := stroke_mm pos, calib_state := POSITION_CALIBRATED, calib_pending := False\<rparr>)
      else (False, pos))"

definition RodPosition_GetCurrent :: "RodPosition_t \<Rightarrow> f32" where "RodPosition_GetCurrent pos = position_mm pos"
definition RodPosition_IsCalibrated :: "RodPosition_t \<Rightarrow> bool" where
  "RodPosition_IsCalibrated pos \<longleftrightarrow> calib_state pos = POSITION_CALIBRATED"
definition RodPosition_IsCalibAllowed :: "RodPosition_t \<Rightarrow> bool" where "RodPosition_IsCalibAllowed pos = calib_allowed pos"
definition RodPosition_IsInCalibZoneMin :: "RodPosition_t \<Rightarrow> bool" where "RodPosition_IsInCalibZoneMin pos = in_calib_zone_min pos"
definition RodPosition_IsInCalibZoneMax :: "RodPosition_t \<Rightarrow> bool" where "RodPosition_IsInCalibZoneMax pos = in_calib_zone_max pos"

section \<open>The rod state machine\<close>

datatype RodDirection_t = ROD_DIR_STOP | ROD_DIR_FWD | ROD_DIR_REV
datatype RodCalibReq_t = ROD_CALIB_REQ_NONE | ROD_CALIB_REQ_MAX | ROD_CALIB_REQ_MIN

abbreviation ROD_STATE_UNKNOWN :: State_t where "ROD_STATE_UNKNOWN \<equiv> 0"
abbreviation ROD_STATE_STOPPED :: State_t where "ROD_STATE_STOPPED \<equiv> 1"
abbreviation ROD_STATE_EXTENDING :: State_t where "ROD_STATE_EXTENDING \<equiv> 2"
abbreviation ROD_STATE_EXT_LIMIT :: State_t where "ROD_STATE_EXT_LIMIT \<equiv> 3"
abbreviation ROD_STATE_EXT_FAULT :: State_t where "ROD_STATE_EXT_FAULT \<equiv> 4"
abbreviation ROD_STATE_RETRACTING :: State_t where "ROD_STATE_RETRACTING \<equiv> 5"
abbreviation ROD_STATE_RET_LIMIT :: State_t where "ROD_STATE_RET_LIMIT \<equiv> 6"
abbreviation ROD_STATE_RET_FAULT :: State_t where "ROD_STATE_RET_FAULT \<equiv> 7"

abbreviation ROD_EVT_CMD_STOP :: Event_t where "ROD_EVT_CMD_STOP \<equiv> 1"
abbreviation ROD_EVT_CMD_EXTEND :: Event_t where "ROD_EVT_CMD_EXTEND \<equiv> 2"
abbreviation ROD_EVT_CMD_RETRACT :: Event_t where "ROD_EVT_CMD_RETRACT \<equiv> 3"
abbreviation ROD_EVT_AT_MAX :: Event_t where "ROD_EVT_AT_MAX \<equiv> 4"
abbreviation ROD_EVT_AT_MIN :: Event_t where "ROD_EVT_AT_MIN \<equiv> 5"
abbreviation ROD_EVT_TIMEOUT :: Event_t where "ROD_EVT_TIMEOUT \<equiv> 6"
abbreviation ROD_EVT_SENSOR_FAULT :: Event_t where "ROD_EVT_SENSOR_FAULT \<equiv> 7"

definition s_rod_jump :: "StateJumpTable_t list" where
  "s_rod_jump =
    [jump_row ROD_STATE_UNKNOWN ROD_EVT_CMD_STOP ROD_STATE_STOPPED,
     jump_row ROD_STATE_UNKNOWN ROD_EVT_CMD_EXTEND ROD_STATE_EXTENDING,
     jump_row ROD_STATE_UNKNOWN ROD_EVT_CMD_RETRACT ROD_STATE_RETRACTING,
     jump_row ROD_STATE_UNKNOWN ROD_EVT_AT_MAX ROD_STATE_EXT_LIMIT,
     jump_row ROD_STATE_UNKNOWN ROD_EVT_AT_MIN ROD_STATE_RET_LIMIT,
     jump_row ROD_STATE_STOPPED ROD_EVT_CMD_EXTEND ROD_STATE_EXTENDING,
     jump_row ROD_STATE_STOPPED ROD_EVT_CMD_RETRACT ROD_STATE_RETRACTING,
     jump_row ROD_STATE_STOPPED ROD_EVT_AT_MAX ROD_STATE_EXT_LIMIT,
     jump_row ROD_STATE_STOPPED ROD_EVT_AT_MIN ROD_STATE_RET_LIMIT,
     jump_row ROD_STATE_EXTENDING ROD_EVT_CMD_STOP ROD_STATE_STOPPED,
     jump_row ROD_STATE_EXTENDING ROD_EVT_CMD_RETRACT ROD_STATE_RETRACTING,
     jump_row ROD_STATE_EXTENDING ROD_EVT_AT_MAX ROD_STATE_EXT_LIMIT,
     jump_row ROD_STATE_EXTENDING ROD_EVT_TIMEOUT ROD_STATE_EXT_FAULT,
     jump_row ROD_STATE_EXTENDING ROD_EVT_SENSOR_FAULT ROD_STATE_EXT_FAULT,
     jump_row ROD_STATE_RETRACTING ROD_EVT_CMD_STOP ROD_STATE_STOPPED,
     jump_row ROD_STATE_RETRACTING ROD_EVT_CMD_EXTEND ROD_STATE_EXTENDING,
     jump_row ROD_STATE_RETRACTING ROD_EVT_AT_MIN ROD_STATE_RET_LIMIT,
     jump_row ROD_STATE_RETRACTING ROD_EVT_TIMEOUT ROD_STATE_RET_FAULT,
     jump_row ROD_STATE_RETRACTING ROD_EVT_SENSOR_FAULT ROD_STATE_RET_FAULT,
     jump_row ROD_STATE_EXT_LIMIT ROD_EVT_CMD_RETRACT ROD_STATE_RETRACTING,
     jump_row ROD_STATE_RET_LIMIT ROD_EVT_CMD_EXTEND ROD_STATE_EXTENDING,
     jump_row ROD_STATE_EXT_FAULT ROD_EVT_CMD_STOP ROD_STATE_STOPPED,
     jump_row ROD_STATE_EXT_FAULT ROD_EVT_CMD_EXTEND ROD_STATE_EXTENDING,
     jump_row ROD_STATE_EXT_FAULT ROD_EVT_CMD_RETRACT ROD_STATE_RETRACTING,
     jump_row ROD_STATE_RET_FAULT ROD_EVT_CMD_STOP ROD_STATE_STOPPED,
     jump_row ROD_STATE_RET_FAULT ROD_EVT_CMD_EXTEND ROD_STATE_EXTENDING,
     jump_row ROD_STATE_RET_FAULT ROD_EVT_CMD_RETRACT ROD_STATE_RETRACTING]"

record RodStateCtx_t =
  rc_axis_id :: u8
  rc_direction :: RodDirection_t
  calib_req :: RodCalibReq_t
  fault_code :: u32
  move_start_tick :: u32
  move_timeout_ms :: u32
  limit_ext_sent :: bool
  limit_ret_sent :: bool
  extend_count :: u32
  retract_count :: u32
  fault_count :: u32
  limit_reach_count :: u32

text \<open>The calls an update makes to other modules.\<close>

datatype rod_out =
    OutArb u8 u8 u8 u8 u8 bool   \<comment> \<open>\<open>Arb_SendCommand\<close>: axis, device, priority, command, duty, urgent\<close>
  | OutActEvent u32              \<comment> \<open>\<open>Act_Event_Send\<close>\<close>

definition RodState_Init :: "u8 \<Rightarrow> StateMachine_t \<times> RodStateCtx_t \<Rightarrow> StateMachine_t \<times> RodStateCtx_t" where
  "RodState_Init axis_id = (\<lambda>(sm, ctx).
     (StateMachine_Init (Some sm_self) (sm\<lparr>jump_table := s_rod_jump, init_state := ROD_STATE_UNKNOWN\<rparr>),
      ctx\<lparr>rc_axis_id := axis_id, rc_direction := ROD_DIR_STOP, calib_req := ROD_CALIB_REQ_NONE, fault_code := 0,
          move_start_tick := 0, move_timeout_ms := 5000, limit_ext_sent := False, limit_ret_sent := False,
          extend_count := 0, retract_count := 0, fault_count := 0, limit_reach_count := 0\<rparr>))"

text \<open>\<open>pos\<close> is what the context's position pointer refers to, \<open>None\<close> for NULL.\<close>

definition at_stop_position :: "RodPosition_t option \<Rightarrow> bool" where
  "at_stop_position pos \<longleftrightarrow> (case pos of None \<Rightarrow> False
     | Some p \<Rightarrow> calib_state p = POSITION_CALIBRATED \<and> fge (position_mm p) (fsub (stroke_mm p) (stop_margin_mm p)))"

definition RodState_SynthesizeEvent ::
  "RodStateCtx_t \<Rightarrow> RodPosition_t option \<Rightarrow> State_t \<Rightarrow> RodDirection_t \<Rightarrow> u32 \<Rightarrow> Event_t" where
  "RodState_SynthesizeEvent ctx pos st dir tick =
     (if calib_req ctx = ROD_CALIB_REQ_MAX then ROD_EVT_AT_MAX
      else if calib_req ctx = ROD_CALIB_REQ_MIN then ROD_EVT_AT_MIN
      else if at_stop_position pos \<and>
        (st = ROD_STATE_UNKNOWN \<or> st = ROD_STATE_STOPPED \<or> st = ROD_STATE_EXTENDING \<or> st = ROD_STATE_EXT_LIMIT)
        then ROD_EVT_AT_MAX
      else if (st = ROD_STATE_EXTENDING \<or> st = ROD_STATE_RETRACTING) \<and> move_timeout_ms ctx \<noteq> 0 \<and>
        tick - move_start_tick ctx \<ge> move_timeout_ms ctx then ROD_EVT_TIMEOUT
      else case dir of ROD_DIR_FWD \<Rightarrow> ROD_EVT_CMD_EXTEND | ROD_DIR_REV \<Rightarrow> ROD_EVT_CMD_RETRACT
        | ROD_DIR_STOP \<Rightarrow> ROD_EVT_CMD_STOP)"

abbreviation lim_fwd :: "u8 \<Rightarrow> u8 \<Rightarrow> rod_out" where
  "lim_fwd axis c \<equiv> OutArb axis DEV_ID_ROD_LIMIT_FWD PRIO_LIMIT c 0 True"
abbreviation lim_rev :: "u8 \<Rightarrow> u8 \<Rightarrow> rod_out" where
  "lim_rev axis c \<equiv> OutArb axis DEV_ID_ROD_LIMIT_REV PRIO_LIMIT c 0 True"

text \<open>The side effects of a change from \<open>prev\<close> to \<open>cur\<close>, branch by branch.\<close>

definition rod_effects :: "State_t \<Rightarrow> State_t \<Rightarrow> u32 \<Rightarrow> RodStateCtx_t \<Rightarrow> RodStateCtx_t \<times> rod_out list" where
  "rod_effects prev cur tick ctx =
     (let ax = rc_axis_id ctx in
      if cur = ROD_STATE_EXTENDING then
        let c1 = (if prev \<noteq> ROD_STATE_EXTENDING
              then ctx\<lparr>extend_count := extend_count ctx + 1, move_start_tick := tick\<rparr> else ctx)
        in if prev = ROD_STATE_RET_LIMIT
           then (c1\<lparr>limit_ret_sent := False\<rparr>, [OutActEvent EVT_ROD_LIMIT_RELEASED, lim_rev ax CMD_TYPE_UNBLOCK_REV])
           else (c1, [])
      else if cur = ROD_STATE_RETRACTING then
        let c1 = (if prev \<noteq> ROD_STATE_RETRACTING
              then ctx\<lparr>retract_count := retract_count ctx + 1, move_start_tick := tick\<rparr> else ctx)
        in if prev = ROD_STATE_EXT_LIMIT
           then (c1\<lparr>limit_ext_sent := False\<rparr>, [OutActEvent EVT_ROD_LIMIT_RELEASED, lim_fwd ax CMD_TYPE_UNBLOCK_FWD])
           else (c1, [])
      else if cur = ROD_STATE_EXT_LIMIT then
        if prev \<noteq> ROD_STATE_EXT_LIMIT then
          let c1 = ctx\<lparr>limit_reach_count := limit_reach_count ctx + 1\<rparr>;
              (c2, es) = (if \<not> limit_ext_sent c1 then (c1\<lparr>limit_ext_sent := True\<rparr>, [OutActEvent EVT_ROD_LIMIT_EXTEND]) else (c1, []))
          in (c2, es @ [lim_fwd ax CMD_TYPE_CLEAR_ALLOW_FWD, lim_fwd ax CMD_TYPE_BLOCK_FWD])
        else (ctx, [lim_fwd ax CMD_TYPE_BLOCK_FWD])
      else if cur = ROD_STATE_RET_LIMIT then
        if prev \<noteq> ROD_STATE_RET_LIMIT then
          let c1 = ctx\<lparr>limit_reach_count := limit_reach_count ctx + 1\<rparr>;
              (c2, es) = (if \<not> limit_ret_sent c1 then (c1\<lparr>limit_ret_sent := True\<rparr>, [OutActEvent EVT_ROD_LIMIT_RETRACT]) else (c1, []))
          in (c2, es @ [lim_rev ax CMD_TYPE_CLEAR_ALLOW_REV, lim_rev ax CMD_TYPE_BLOCK_REV])
        else (ctx, [lim_rev ax CMD_TYPE_BLOCK_REV])
      else if cur = ROD_STATE_EXT_FAULT \<or> cur = ROD_STATE_RET_FAULT then
        (if prev \<noteq> cur then ctx\<lparr>fault_count := fault_count ctx + 1\<rparr> else ctx, [])
      else (ctx, []))"

definition RodState_Update ::
  "RodPosition_t option \<Rightarrow> RodDirection_t \<Rightarrow> u32 \<Rightarrow> StateMachine_t \<times> RodStateCtx_t \<Rightarrow>
     (StateMachine_t \<times> RodStateCtx_t) \<times> rod_out list" where
  "RodState_Update pos dir tick = (\<lambda>(sm, ctx0).
     let ctx = ctx0\<lparr>rc_direction := dir\<rparr>;
         prev = StateMachine_GetState (Some sm_self) sm;
         evt = RodState_SynthesizeEvent ctx pos prev dir tick;
         sm' = StateMachine_SendEvent (Some sm_self) [] evt sm;
         cur = StateMachine_GetState (Some sm_self) sm';
         (ctx', outs) = rod_effects prev cur tick (ctx\<lparr>calib_req := ROD_CALIB_REQ_NONE\<rparr>)
     in ((sm', ctx'), outs))"

definition RodState_Get :: "StateMachine_t \<Rightarrow> State_t" where
  "RodState_Get sm = StateMachine_GetState (Some sm_self) sm"

section \<open>Over-current: soft limit or fault\<close>

datatype RodCalibResult_t = ROD_CALIB_IGNORED | ROD_CALIB_CALIB_MAX | ROD_CALIB_CALIB_MIN
  | ROD_CALIB_FAULT_FWD | ROD_CALIB_FAULT_REV

definition RodCalib_OnOverCurrent ::
  "'h arb_mod \<Rightarrow> RodPosition_t \<Rightarrow> RodStateCtx_t \<Rightarrow> RodCalibResult_t \<times> RodStateCtx_t" where
  "RodCalib_OnOverCurrent m pos ctx =
     (let (arb_dir, arb_en) = (case Arb_GetData 0 False m of Inr a \<Rightarrow> (active_dir a, enable a) | Inl _ \<Rightarrow> (DIR_NONE, 0)) in
      if arb_en = 0 \<or> (arb_dir \<noteq> DIR_FWD \<and> arb_dir \<noteq> DIR_REV) then (ROD_CALIB_IGNORED, ctx)
      else if arb_dir = DIR_FWD then
        if \<not> RodPosition_IsCalibrated pos \<or> RodPosition_IsInCalibZoneMax pos
        then (ROD_CALIB_CALIB_MAX, ctx\<lparr>calib_req := ROD_CALIB_REQ_MAX\<rparr>) else (ROD_CALIB_FAULT_FWD, ctx)
      else
        if \<not> RodPosition_IsCalibrated pos \<or> RodPosition_IsInCalibZoneMin pos
        then (ROD_CALIB_CALIB_MIN, ctx\<lparr>calib_req := ROD_CALIB_REQ_MIN\<rparr>) else (ROD_CALIB_FAULT_REV, ctx))"

section \<open>One axis of the 10 ms task\<close>

text \<open>The body of the axis loop of \<open>Actuator_Tick\<close> (\<^verbatim>\<open>Task/rod_task.c\<close>) for a configured axis;
  \<open>delta\<close> is what \<open>MotorHall_GetDeltaPulses\<close> returns.\<close>

definition rod_dir :: "'h arb_mod \<Rightarrow> u8 \<Rightarrow> RodDirection_t" where
  "rod_dir m i =
     (case Arb_GetData i False m of
        Inr a \<Rightarrow> if enable a \<noteq> 0
          then (case active_dir a of DIR_FWD \<Rightarrow> ROD_DIR_FWD | DIR_REV \<Rightarrow> ROD_DIR_REV | DIR_NONE \<Rightarrow> ROD_DIR_STOP)
          else ROD_DIR_STOP
      | Inl _ \<Rightarrow> ROD_DIR_STOP)"

definition rod_axis_tick ::
  "'h arb_mod \<Rightarrow> u8 \<Rightarrow> i32 \<Rightarrow> u32 \<Rightarrow> RodPosition_t \<times> StateMachine_t \<times> RodStateCtx_t \<Rightarrow>
     (RodPosition_t \<times> StateMachine_t \<times> RodStateCtx_t) \<times> rod_out list" where
  "rod_axis_tick m i delta tick = (\<lambda>(pos0, sm, ctx).
     let pos1 = RodPosition_Update delta pos0;
         pos = (if calib_req ctx = ROD_CALIB_REQ_MIN then snd (RodPosition_OnMinLimit True pos1)
                else if calib_req ctx = ROD_CALIB_REQ_MAX then snd (RodPosition_OnMaxLimit True pos1) else pos1);
         ((sm', ctx'), outs) = RodState_Update (Some pos) (rod_dir m i) tick (sm, ctx)
     in ((pos, sm', ctx'), outs))"

end
