(* ===== verification/Us_Timer.thy ===== *)
theory Us_Timer
  imports Float32
begin

text \<open>
  The microsecond time base: the interface table of \<^verbatim>\<open>Utils/us_timer.c\<close> and its implementation
  on the 16-bit timer 6 in \<^verbatim>\<open>Adp/hc32_drv_timer.c\<close>. The timer registers (count value, running)
  are fields of the driver state, and the peripheral clock that \<open>CLK_GetClockFreq\<close> reports is an
  argument. The interface \<open>us_counter\<close> states what a client measures with a wrapping counter.
\<close>

section \<open>The driver\<close>

abbreviation TMR6_DIV_VAL :: u32 where "TMR6_DIV_VAL \<equiv> 64"

record us_timer =
  m_u32TimerFreq :: u32
  m_u32LastCounter :: u32
  m_u32DeltaCounter :: u32
  s_total_elapsed_us :: u64
  s_last_timer6_counter :: u32
  s_timestamp_initialized :: u8
  tmr6_count :: u16
  tmr6_running :: bool

definition Timer6_Timebase_Init :: "u32 \<Rightarrow> us_timer \<Rightarrow> us_timer" where
  "Timer6_Timebase_Init pclk0 t =
     t\<lparr>m_u32TimerFreq := pclk0 div TMR6_DIV_VAL, tmr6_count := 0, tmr6_running := False,
       m_u32LastCounter := 0, m_u32DeltaCounter := 0, s_timestamp_initialized := 0\<rparr>"

definition Timer6_Timebase_Start :: "us_timer \<Rightarrow> us_timer" where
  "Timer6_Timebase_Start t = t\<lparr>tmr6_running := True\<rparr>"

definition Timer6_Timebase_Stop :: "us_timer \<Rightarrow> us_timer" where
  "Timer6_Timebase_Stop t = t\<lparr>tmr6_running := False\<rparr>"

definition Timer6_Timebase_GetCounter :: "us_timer \<Rightarrow> u32" where
  "Timer6_Timebase_GetCounter t = ucast (tmr6_count t)"

definition Timer6_Timebase_GetFrequency :: "us_timer \<Rightarrow> u32" where
  "Timer6_Timebase_GetFrequency t = m_u32TimerFreq t"

text \<open>The difference of two readings, corrected for one wrap of the 16-bit counter.\<close>

definition wrap_delta :: "u32 \<Rightarrow> u32 \<Rightarrow> u32" where
  "wrap_delta cur prev = (if cur \<ge> prev then cur - prev else (0x10000 - prev) + cur)"

definition Timer6_Timebase_GetDelta :: "us_timer \<Rightarrow> u32 \<times> us_timer" where
  "Timer6_Timebase_GetDelta t =
     (let c = Timer6_Timebase_GetCounter t; d = wrap_delta c (m_u32LastCounter t)
      in (d, t\<lparr>m_u32LastCounter := c, m_u32DeltaCounter := d\<rparr>))"

definition Timer6_Timebase_DeltaToUs :: "us_timer \<Rightarrow> u32 \<Rightarrow> u32" where
  "Timer6_Timebase_DeltaToUs t d = (if m_u32TimerFreq t = 0 then 0 else (d * 1000000) div m_u32TimerFreq t)"

definition Timer6_Timebase_DeltaToMs :: "us_timer \<Rightarrow> u32 \<Rightarrow> u32" where
  "Timer6_Timebase_DeltaToMs t d = (if m_u32TimerFreq t = 0 then 0 else (d * 1000) div m_u32TimerFreq t)"

definition Timer6_Timebase_GetPulseInterval :: "us_timer \<Rightarrow> u32 \<times> us_timer" where
  "Timer6_Timebase_GetPulseInterval t =
     (let (d, t') = Timer6_Timebase_GetDelta t in (Timer6_Timebase_DeltaToUs t' d, t'))"

definition Timer6_Timebase_GetPulseTime :: "u8 \<Rightarrow> us_timer \<Rightarrow> u32 \<times> us_timer" where
  "Timer6_Timebase_GetPulseTime pulse_count t =
     (if pulse_count < 2 then (0, t)
      else let (d, t') = Timer6_Timebase_GetDelta t
           in (Timer6_Timebase_DeltaToUs t' d * (ucast pulse_count - 1), t'))"

definition Timer6_Timebase_CalculateRPM :: "u32 \<Rightarrow> u8 \<Rightarrow> u8 \<Rightarrow> f32" where
  "Timer6_Timebase_CalculateRPM time_us pulses pulses_per_rev =
     (if time_us = 0 \<or> pulses = 0 \<or> pulses_per_rev = 0 then F_ZERO
      else fdiv (fmul (f_of_int (uint pulses)) (f_lit 60000000 1))
             (fmul (f_of_int (uint pulses_per_rev)) (f_of_int (uint time_us))))"

definition Timer6_Timebase_UpdateTimestamp :: "us_timer \<Rightarrow> us_timer" where
  "Timer6_Timebase_UpdateTimestamp t =
     (let c = Timer6_Timebase_GetCounter t in
      if s_timestamp_initialized t = 0 then t\<lparr>s_last_timer6_counter := c, s_timestamp_initialized := 1\<rparr>
      else
        let delta_us = Timer6_Timebase_DeltaToUs t (wrap_delta c (s_last_timer6_counter t))
        in t\<lparr>s_total_elapsed_us := s_total_elapsed_us t + ucast delta_us, s_last_timer6_counter := c\<rparr>)"

definition Timer6_Timebase_GetTimestamp :: "us_timer \<Rightarrow> u64" where
  "Timer6_Timebase_GetTimestamp t = s_total_elapsed_us t"

section \<open>The interface table\<close>

record 's us_timer_ops =
  ut_init :: "('s \<Rightarrow> 's) option"
  ut_start :: "('s \<Rightarrow> 's) option"
  ut_stop :: "('s \<Rightarrow> 's) option"
  ut_update_timestamp :: "('s \<Rightarrow> 's) option"
  ut_get_timestamp :: "('s \<Rightarrow> u64) option"
  ut_get_counter :: "('s \<Rightarrow> u32) option"
  ut_delta_to_us :: "('s \<Rightarrow> u32 \<Rightarrow> u32) option"
  ut_get_delta :: "('s \<Rightarrow> u32 \<times> 's) option"

definition hc_us_timer_ops :: "u32 \<Rightarrow> us_timer us_timer_ops" where
  "hc_us_timer_ops pclk0 =
     \<lparr>ut_init = Some (Timer6_Timebase_Init pclk0), ut_start = Some Timer6_Timebase_Start, ut_stop = Some Timer6_Timebase_Stop,
      ut_update_timestamp = Some Timer6_Timebase_UpdateTimestamp, ut_get_timestamp = Some Timer6_Timebase_GetTimestamp,
      ut_get_counter = Some Timer6_Timebase_GetCounter, ut_delta_to_us = Some Timer6_Timebase_DeltaToUs,
      ut_get_delta = Some Timer6_Timebase_GetDelta\<rparr>"

text \<open>The module: the bound table (NULL before \<open>UsTimer_Bind\<close>) and the driver behind it.\<close>

record us_dev =
  us_ops :: "us_timer us_timer_ops option"
  us_hw :: us_timer

definition us_call :: "(us_timer us_timer_ops \<Rightarrow> (us_timer \<Rightarrow> us_timer) option) \<Rightarrow> us_dev \<Rightarrow> us_dev" where
  "us_call op d =
     (case us_ops d of None \<Rightarrow> d
      | Some ops \<Rightarrow> (case op ops of None \<Rightarrow> d | Some f \<Rightarrow> d\<lparr>us_hw := f (us_hw d)\<rparr>))"

definition UsTimer_Bind :: "us_timer us_timer_ops option \<Rightarrow> us_dev \<Rightarrow> us_dev" where "UsTimer_Bind ops d = d\<lparr>us_ops := ops\<rparr>"
definition UsTimer_Init :: "us_dev \<Rightarrow> us_dev" where "UsTimer_Init = us_call ut_init"
definition UsTimer_Start :: "us_dev \<Rightarrow> us_dev" where "UsTimer_Start = us_call ut_start"
definition UsTimer_Stop :: "us_dev \<Rightarrow> us_dev" where "UsTimer_Stop = us_call ut_stop"
definition UsTimer_UpdateTimestamp :: "us_dev \<Rightarrow> us_dev" where "UsTimer_UpdateTimestamp = us_call ut_update_timestamp"

definition us_read :: "(us_timer us_timer_ops \<Rightarrow> (us_timer \<Rightarrow> 'a :: zero) option) \<Rightarrow> us_dev \<Rightarrow> 'a" where
  "us_read op d =
     (case us_ops d of None \<Rightarrow> 0 | Some ops \<Rightarrow> (case op ops of None \<Rightarrow> 0 | Some f \<Rightarrow> f (us_hw d)))"

definition UsTimer_GetTimestampUs :: "us_dev \<Rightarrow> u64" where "UsTimer_GetTimestampUs = us_read ut_get_timestamp"
definition UsTimer_GetCounter :: "us_dev \<Rightarrow> u32" where "UsTimer_GetCounter = us_read ut_get_counter"

definition UsTimer_DeltaToUs :: "us_dev \<Rightarrow> u32 \<Rightarrow> u32" where
  "UsTimer_DeltaToUs d cnt =
     (case us_ops d of None \<Rightarrow> 0 | Some ops \<Rightarrow> (case ut_delta_to_us ops of None \<Rightarrow> 0 | Some f \<Rightarrow> f (us_hw d) cnt))"

definition UsTimer_GetDelta :: "us_dev \<Rightarrow> u32 \<times> us_dev" where
  "UsTimer_GetDelta d =
     (case us_ops d of None \<Rightarrow> (0, d)
      | Some ops \<Rightarrow> (case ut_get_delta ops of None \<Rightarrow> (0, d)
          | Some f \<Rightarrow> let (v, hw) = f (us_hw d) in (v, d\<lparr>us_hw := hw\<rparr>)))"

section \<open>Measuring with a wrapping counter\<close>

text \<open>The hardware between two calls: the counter advances by \<open>n\<close> counts, modulo \<open>2 ^ 16\<close>.\<close>

definition tmr6_advance :: "nat \<Rightarrow> us_timer \<Rightarrow> us_timer" where
  "tmr6_advance n t = (if tmr6_running t then t\<lparr>tmr6_count := tmr6_count t + of_nat n\<rparr> else t)"

text \<open>A client alternates between letting the counter run and measuring.\<close>

fun measure_run :: "(nat \<Rightarrow> 's \<Rightarrow> 's) \<Rightarrow> ('s \<Rightarrow> nat \<times> 's) \<Rightarrow> nat list \<Rightarrow> 's \<Rightarrow> nat list \<times> 's" where
  "measure_run adv meas [] s = ([], s)"
| "measure_run adv meas (n # ns) s =
     (let (d, s1) = meas (adv n s); (ds, s2) = measure_run adv meas ns s1 in (d # ds, s2))"

locale us_counter =
  fixes count mark :: "'s \<Rightarrow> nat" and live :: "'s \<Rightarrow> bool"
    and adv :: "nat \<Rightarrow> 's \<Rightarrow> 's" and meas :: "'s \<Rightarrow> nat \<times> 's" and M :: nat
  assumes adv_count: "live s \<Longrightarrow> count (adv n s) = (count s + n) mod M"
    and adv_mark: "mark (adv n s) = mark s"
    and adv_live: "live s \<Longrightarrow> live (adv n s)"
    and meas_value: "live s \<Longrightarrow> fst (meas s) = (count s + (M - mark s)) mod M"
    and meas_mark: "live s \<Longrightarrow> mark (snd (meas s)) = count s"
    and meas_count: "live s \<Longrightarrow> count (snd (meas s)) = count s"
    and meas_live: "live s \<Longrightarrow> live (snd (meas s))"
    and count_bound: "live s \<Longrightarrow> count s < M"
begin

lemma measure_one:
  assumes "live s" and "mark s = count s" and "n < M"
  shows "fst (meas (adv n s)) = n"
proof -
  have c: "count s < M" by (rule count_bound [OF assms(1)])
  have "((count s + n) mod M + (M - count s)) mod M = n"
  proof (cases "count s + n < M")
    case True
    then have "(count s + n) mod M + (M - count s) = n + M" using c by simp
    then show ?thesis using assms(3) by simp
  next
    case False
    then have "(count s + n) mod M = count s + n - M" using c assms(3) by (simp add: le_mod_geq)
    then have "(count s + n) mod M + (M - count s) = n" using c False by simp
    then show ?thesis using assms(3) by simp
  qed
  then show ?thesis
    using assms(2) by (simp add: meas_value adv_live assms(1) adv_count adv_mark)
qed

text \<open>Every advance of less than one period is measured exactly, wraps included.\<close>

lemma measure_all:
  assumes "live s" and "mark s = count s" and "\<forall>n \<in> set ns. n < M"
  shows "fst (measure_run adv meas ns s) = ns \<and> live (snd (measure_run adv meas ns s))"
  using assms
proof (induction ns arbitrary: s)
  case (Cons n ns)
  let ?s = "snd (meas (adv n s))"
  have l: "live (adv n s)" using Cons.prems(1) by (rule adv_live)
  have "mark ?s = count ?s" "live ?s"
    by (simp_all add: meas_mark [OF l] meas_count [OF l] meas_live [OF l])
  with Cons have "fst (measure_run adv meas ns ?s) = ns \<and> live (snd (measure_run adv meas ns ?s))"
    by simp
  with measure_one [of s n] Cons.prems show ?case
    by (simp add: case_prod_beta Let_def)
qed simp

end

lemma word_of_nat_unat: "of_nat (unat w) = (w :: 'a :: len word)"
  by simp

lemma unat_ucast_up [simp]: "unat (ucast (x :: u16) :: u32) = unat x"
  by transfer (simp add: take_bit_int_eq_self)

lemma tmr6_bound [simp]: "unat (x :: u16) < 65536"
  using unat_u16_less [of x] by simp

lemma wrap_delta_nat:
  assumes "unat c < 65536" and "unat l < 65536"
  shows "unat (wrap_delta c l) = (unat c + (65536 - unat l)) mod 65536"
proof (cases "l \<le> c")
  case True
  then have "unat (c - l) = unat c - unat l" and "unat l \<le> unat c"
    by (simp_all add: unat_sub word_le_nat_alt)
  with True assms show ?thesis by (simp add: wrap_delta_def mod_if)
next
  case False
  then have lt: "unat c < unat l" by (simp add: word_le_nat_alt)
  have "unat (0x10000 - l) = 65536 - unat l"
    using assms(2) by (simp add: unat_sub word_le_nat_alt)
  then have "unat (0x10000 - l + c) = 65536 - unat l + unat c"
    using lt assms by (simp add: unat_plus_if')
  with False lt assms show ?thesis by (simp add: wrap_delta_def)
qed

definition delta_nat :: "us_timer \<Rightarrow> nat \<times> us_timer" where
  "delta_nat t = (let (d, t') = Timer6_Timebase_GetDelta t in (unat d, t'))"

interpretation pulses: us_counter "\<lambda>t. unat (tmr6_count t)" "\<lambda>t. unat (m_u32LastCounter t)"
  "\<lambda>t. tmr6_running t \<and> unat (m_u32LastCounter t) < 65536" tmr6_advance delta_nat 65536
  by unfold_locales
    (auto simp: tmr6_advance_def delta_nat_def Timer6_Timebase_GetDelta_def Timer6_Timebase_GetCounter_def Let_def
      unat_word_ariths unat_of_nat mod_simps wrap_delta_nat)

definition stamp_nat :: "us_timer \<Rightarrow> nat \<times> us_timer" where
  "stamp_nat t = (unat (wrap_delta (Timer6_Timebase_GetCounter t) (s_last_timer6_counter t)), Timer6_Timebase_UpdateTimestamp t)"

interpretation stamps: us_counter "\<lambda>t. unat (tmr6_count t)" "\<lambda>t. unat (s_last_timer6_counter t)"
  "\<lambda>t. tmr6_running t \<and> s_timestamp_initialized t \<noteq> 0 \<and> unat (s_last_timer6_counter t) < 65536" tmr6_advance stamp_nat 65536
  by unfold_locales
    (auto simp: tmr6_advance_def stamp_nat_def Timer6_Timebase_UpdateTimestamp_def Timer6_Timebase_GetCounter_def Let_def
      unat_word_ariths unat_of_nat mod_simps wrap_delta_nat)

section \<open>Properties\<close>

lemma stamp_elapsed:
  assumes "tmr6_running t" and "s_timestamp_initialized t \<noteq> 0" and "s_last_timer6_counter t = Timer6_Timebase_GetCounter t"
    and "n * 1000000 < 2 ^ 32" and "n < 65536" and "m_u32TimerFreq t \<noteq> 0"
  shows "s_total_elapsed_us (snd (stamp_nat (tmr6_advance n t))) =
     s_total_elapsed_us t + of_nat (n * 1000000 div unat (m_u32TimerFreq t))"
proof -
  let ?u = "tmr6_advance n t"
  have d: "unat (wrap_delta (Timer6_Timebase_GetCounter ?u) (s_last_timer6_counter ?u)) = n"
    using stamps.measure_one [of t n] assms by (simp add: stamp_nat_def Timer6_Timebase_GetCounter_def)
  then have w: "wrap_delta (Timer6_Timebase_GetCounter ?u) (s_last_timer6_counter ?u) = of_nat n"
    using word_of_nat_unat by metis
  have "unat (of_nat n * 1000000 :: u32) = n * 1000000"
    using assms(4) by (simp add: unat_word_ariths unat_of_nat mod_simps take_bit_nat_eq_self)
  then have c: "unat (Timer6_Timebase_DeltaToUs ?u (of_nat n)) = n * 1000000 div unat (m_u32TimerFreq t)"
    using assms(6) by (simp add: Timer6_Timebase_DeltaToUs_def tmr6_advance_def unat_div)
  have u: "(ucast (Timer6_Timebase_DeltaToUs ?u (of_nat n)) :: u64) = of_nat (n * 1000000 div unat (m_u32TimerFreq t))"
    by (simp add: c [symmetric])
  show ?thesis
    using assms(1,2) by (simp add: stamp_nat_def Timer6_Timebase_UpdateTimestamp_def w u Let_def)
       (simp add: tmr6_advance_def)
qed

text \<open>
  Pulse intervals: on the running timer, after one reading, successive calls of \<open>GetDelta\<close>
  return exactly the number of counts between them, whatever wraps of the 16-bit counter fall in
  between, as long as each interval is shorter than one period of the counter.
\<close>

theorem us_delta_exact:
  assumes "tmr6_running t" and "m_u32LastCounter t = Timer6_Timebase_GetCounter t" and "\<forall>n \<in> set ns. n < 65536"
  shows "fst (measure_run tmr6_advance delta_nat ns t) = ns"
  using pulses.measure_all [of t ns] assms by (simp add: Timer6_Timebase_GetCounter_def)

definition demo_us :: us_timer where
  "demo_us = Timer6_Timebase_Start (Timer6_Timebase_Init 200000000
     \<lparr>m_u32TimerFreq = 0, m_u32LastCounter = 9, m_u32DeltaCounter = 9, s_total_elapsed_us = 0, s_last_timer6_counter = 0,
      s_timestamp_initialized = 1, tmr6_count = 7, tmr6_running = False\<rparr>)"

theorem us_delta_exact_witness:
  "fst (measure_run tmr6_advance delta_nat [40000, 40000, 65535, 0, 3] demo_us) = [40000, 40000, 65535, 0, 3]"
  using us_delta_exact [of demo_us "[40000, 40000, 65535, 0, 3]"]
  by (simp add: demo_us_def Timer6_Timebase_Start_def Timer6_Timebase_Init_def Timer6_Timebase_GetCounter_def)

text \<open>
  The conversion of a count difference to microseconds is exact up to 4294 counts and wrong
  for every larger difference: the product with 1000000 wraps at 32 bits, and the result is
  always too small. At the 3.125 MHz of the timer that is 1.37 ms.
\<close>

theorem us_conversion_exact_iff:
  assumes "m_u32TimerFreq t \<noteq> 0"
  shows "if unat d \<le> 4294 then unat (Timer6_Timebase_DeltaToUs t d) = unat d * 1000000 div unat (m_u32TimerFreq t)
     else unat (Timer6_Timebase_DeltaToUs t d) < unat d * 1000000 div unat (m_u32TimerFreq t)"
proof -
  let ?f = "unat (m_u32TimerFreq t)" and ?p = "unat d * 1000000"
  have f: "0 < ?f" "?f < 2 ^ 32" using assms unsigned_less [of "m_u32TimerFreq t"] by (simp_all add: unat_gt_0)
  have v: "unat (Timer6_Timebase_DeltaToUs t d) = ?p mod 2 ^ 32 div ?f"
    using assms by (simp add: Timer6_Timebase_DeltaToUs_def unat_div unat_word_ariths)
  show ?thesis
  proof (cases "unat d \<le> 4294")
    case True
    then have "?p < 2 ^ 32" by simp
    then show ?thesis using True by (simp add: v)
  next
    case False
    then have big: "2 ^ 32 \<le> ?p" by simp
    then have "?p mod 2 ^ 32 \<le> ?p - 2 ^ 32" by (metis le_mod_geq mod_less_eq_dividend)
    then have "?p mod 2 ^ 32 + ?f \<le> ?p" using big f by linarith
    then have "(?p mod 2 ^ 32 + ?f) div ?f \<le> ?p div ?f" by (rule div_le_mono)
    then have "?p mod 2 ^ 32 div ?f < ?p div ?f"
      using div_add_self2 [of ?f "?p mod 2 ^ 32"] f(1) by linarith
    then show ?thesis using False by (simp add: v)
  qed
qed

theorem us_conversion_exact_iff_witness:
  "unat (Timer6_Timebase_DeltaToUs demo_us 4294) = 1374 \<and> unat (Timer6_Timebase_DeltaToUs demo_us 31250) < 10000"
proof -
  have f: "m_u32TimerFreq demo_us = 3125000"
    by (simp add: demo_us_def Timer6_Timebase_Start_def Timer6_Timebase_Init_def)
  show ?thesis
    using us_conversion_exact_iff [of demo_us 4294] us_conversion_exact_iff [of demo_us 31250] by (simp add: f)
qed

text \<open>
  The global timestamp: updated at intervals of at most 4294 counts, each update adds the
  elapsed whole microseconds of its interval, across wraps of the counter.
\<close>

theorem timestamp_accumulates:
  assumes "tmr6_running t" and "s_timestamp_initialized t \<noteq> 0" and "s_last_timer6_counter t = Timer6_Timebase_GetCounter t"
    and "m_u32TimerFreq t \<noteq> 0" and "\<forall>n \<in> set ns. n \<le> 4294"
  shows "s_total_elapsed_us (snd (measure_run tmr6_advance stamp_nat ns t)) =
     s_total_elapsed_us t + of_nat (\<Sum>n \<leftarrow> ns. n * 1000000 div unat (m_u32TimerFreq t))"
  using assms
proof (induction ns arbitrary: t)
  case (Cons n ns)
  let ?s = "snd (stamp_nat (tmr6_advance n t))"
  have step: "s_total_elapsed_us ?s = s_total_elapsed_us t + of_nat (n * 1000000 div unat (m_u32TimerFreq t))"
    using Cons.prems by (intro stamp_elapsed) auto
  have frame: "tmr6_running ?s" "s_timestamp_initialized ?s \<noteq> 0" "s_last_timer6_counter ?s = Timer6_Timebase_GetCounter ?s"
    "m_u32TimerFreq ?s = m_u32TimerFreq t"
    using Cons.prems(1,2)
    by (simp_all add: stamp_nat_def Timer6_Timebase_UpdateTimestamp_def tmr6_advance_def Timer6_Timebase_GetCounter_def Let_def)
  have "s_total_elapsed_us (snd (measure_run tmr6_advance stamp_nat ns ?s)) =
      s_total_elapsed_us ?s + of_nat (\<Sum>n \<leftarrow> ns. n * 1000000 div unat (m_u32TimerFreq t))"
    using Cons.IH [of ?s] Cons.prems frame by simp
  then show ?case by (simp add: step case_prod_beta Let_def)
qed simp

theorem timestamp_accumulates_witness:
  "s_total_elapsed_us (snd (measure_run tmr6_advance stamp_nat [3125, 3125, 4000]
      (snd (stamp_nat (demo_us\<lparr>tmr6_count := 65000\<rparr>))))) = 3280"
proof -
  let ?t = "snd (stamp_nat (demo_us\<lparr>tmr6_count := 65000\<rparr>))"
  have "tmr6_running ?t" "s_timestamp_initialized ?t = 1" "s_last_timer6_counter ?t = Timer6_Timebase_GetCounter ?t"
    "m_u32TimerFreq ?t = 3125000" "s_total_elapsed_us ?t = 0"
    by (simp_all add: demo_us_def Timer6_Timebase_Start_def Timer6_Timebase_Init_def Timer6_Timebase_GetCounter_def
        stamp_nat_def Timer6_Timebase_UpdateTimestamp_def)
  then show ?thesis using timestamp_accumulates [of ?t "[3125, 3125, 4000]"] by simp
qed

end
