(* ===== verification/Hall_Motor.thy ===== *)
theory Hall_Motor
  imports Us_Timer
begin

text \<open>
  The motor Hall device of \<^verbatim>\<open>Dev/dev_hall_motor/dev_hall_motor.c\<close>: the two edge interrupts
  (counting, interval measurement, direction from the level of A at the falling edge of B), the
  speed chain (interval average, RPM filter, stall detection), the sensor check, the periodic task
  with its signed pulse accumulation, and the query interface. The pin levels and the millisecond
  tick are arguments; the registration of the interrupts is the assignment of the two instance
  pointers. The two function-local static arrays are fields of the device state. The periodic
  print is left out.
\<close>

section \<open>Data\<close>

abbreviation MOTOR_HALL_MAX_AXIS_NUM :: nat where "MOTOR_HALL_MAX_AXIS_NUM \<equiv> 2"
abbreviation MOTOR_HALL_POLE_PAIRS :: u16 where "MOTOR_HALL_POLE_PAIRS \<equiv> 3"
abbreviation MOTOR_HALL_CUSTOM_PULSES_PER_REV :: u16 where "MOTOR_HALL_CUSTOM_PULSES_PER_REV \<equiv> 0"
abbreviation MOTOR_HALL_MIN_PULSE_INTERVAL_US :: u32 where "MOTOR_HALL_MIN_PULSE_INTERVAL_US \<equiv> 50"
abbreviation MOTOR_HALL_MAX_PULSE_INTERVAL_US :: u32 where "MOTOR_HALL_MAX_PULSE_INTERVAL_US \<equiv> 200000"
abbreviation MOTOR_HALL_STOP_DETECTION_MS :: u64 where "MOTOR_HALL_STOP_DETECTION_MS \<equiv> 50"
abbreviation MOTOR_HALL_STALL_DETECTION_MS :: u64 where "MOTOR_HALL_STALL_DETECTION_MS \<equiv> 500"
abbreviation MOTOR_HALL_RPM_WINDOW_SIZE :: nat where "MOTOR_HALL_RPM_WINDOW_SIZE \<equiv> 6"
abbreviation MOTOR_HALL_DIRECTION_CONFIRM_CNT :: u8 where "MOTOR_HALL_DIRECTION_CONFIRM_CNT \<equiv> 3"
abbreviation MOTOR_HALL_CHECK_INTERVAL_MS :: u32 where "MOTOR_HALL_CHECK_INTERVAL_MS \<equiv> 1000"
abbreviation MOTOR_HALL_WARNING_THRESHOLD :: u32 where "MOTOR_HALL_WARNING_THRESHOLD \<equiv> 10"
abbreviation MOTOR_HALL_TASK_PERIOD_MS :: u32 where "MOTOR_HALL_TASK_PERIOD_MS \<equiv> 10"
abbreviation MOTOR_HALL_ISR_AXIS :: nat where "MOTOR_HALL_ISR_AXIS \<equiv> 0"
abbreviation EXTINT_CH13 :: u32 where "EXTINT_CH13 \<equiv> 0x2000"
abbreviation EXTINT_CH14 :: u32 where "EXTINT_CH14 \<equiv> 0x4000"

datatype MotorHallDir_t = MOTOR_HALL_DIR_NONE | MOTOR_HALL_DIR_FORWARD | MOTOR_HALL_DIR_REVERSE | MOTOR_HALL_DIR_STOP

datatype MotorHallStatus_t =
  MOTOR_HALL_STATUS_NONE | MOTOR_HALL_STATUS_A_ONLY | MOTOR_HALL_STATUS_B_ONLY | MOTOR_HALL_STATUS_BOTH | MOTOR_HALL_STATUS_ERROR

record MotorHallInst_t =
  mh_valid :: u8
  mh_id :: u8
  last_pulse_interval :: u32
  last_pulse_time_us :: u64
  pulse_counter :: u32
  speed_data_ready :: u8
  current_rpm :: f32
  filtered_rpm :: f32
  hall_a_pulses :: u32
  hall_b_pulses :: u32
  active_hall_count :: u8
  current_direction :: MotorHallDir_t
  last_valid_direction :: MotorHallDir_t
  direction_confidence :: u8
  direction_confirm_count :: u8
  direction_data_ready :: u8
  direction_changed :: u8
  hall_a_last_second_count :: u32
  hall_b_last_second_count :: u32
  hall_status :: MotorHallStatus_t
  stalled :: u8
  is_running :: u8
  measurement_valid :: u8
  total_measurements :: u32
  mh_error_count :: u32
  rpm_window :: "f32 list"
  write_index :: u8
  valid_count :: u8
  interval_history :: "u32 list"
  interval_idx :: u8
  interval_valid_count :: u8
  rpm_last_ms :: u32
  check_last_ms :: u32
  last_total :: u32
  first_run :: u8
  pulse_accum :: i32

record hall_motor =
  s_inst :: "MotorHallInst_t list"
  s_hw_ready :: u8
  g_mothall_invert_dir :: u8
  s_isr_a :: "nat option"
  s_isr_b :: "nat option"
  hall_b_last :: "u8 list"
  last_check_time :: "u32 list"
  g_mothall_dbg_delta :: i32
  g_mothall_dbg_rpm_x10 :: u32
  g_mothall_dbg_dir :: MotorHallDir_t
  g_mothall_dbg_status :: MotorHallStatus_t

section \<open>Interrupts\<close>

text \<open>The part the two handlers share: the interval since the last edge, if it is plausible.\<close>

definition hall_interval :: "us_dev \<Rightarrow> MotorHallInst_t \<Rightarrow> MotorHallInst_t \<times> us_dev" where
  "hall_interval us inst =
     (let (cnt, us') = UsTimer_GetDelta us; iv = UsTimer_DeltaToUs us' cnt in
      (if MOTOR_HALL_MIN_PULSE_INTERVAL_US \<le> iv \<and> iv \<le> MOTOR_HALL_MAX_PULSE_INTERVAL_US
       then inst\<lparr>last_pulse_interval := iv, last_pulse_time_us := UsTimer_GetTimestampUs us',
                 pulse_counter := pulse_counter inst + 1, stalled := 0, speed_data_ready := 1\<rparr>
       else inst, us'))"

definition Hall_A_IrqCallback :: "hall_motor \<times> us_dev \<Rightarrow> hall_motor \<times> us_dev" where
  "Hall_A_IrqCallback = (\<lambda>(h, us).
     case s_isr_a h of
       None \<Rightarrow> (h, us)
     | Some i \<Rightarrow>
         let inst = s_inst h ! i in
         if mh_valid inst = 0 then (h, us)
         else
           let (inst', us') = hall_interval us (inst\<lparr>hall_a_pulses := hall_a_pulses inst + 1\<rparr>)
           in (h\<lparr>s_inst := (s_inst h)[i := inst']\<rparr>, us'))"

text \<open>The confirmation of a detected direction.\<close>

definition hall_direction :: "MotorHallDir_t \<Rightarrow> MotorHallInst_t \<Rightarrow> MotorHallInst_t" where
  "hall_direction detected inst =
     (if current_direction inst \<noteq> detected then
        let n = direction_confirm_count inst + 1 in
        if n \<ge> MOTOR_HALL_DIRECTION_CONFIRM_CNT
        then inst\<lparr>current_direction := detected, direction_confidence := 100, last_valid_direction := detected,
                  direction_confirm_count := 0, direction_changed := 1\<rparr>
        else inst\<lparr>direction_confirm_count := n\<rparr>
      else inst\<lparr>direction_confirm_count := 0\<rparr>)"

definition Hall_B_IrqCallback :: "bool \<Rightarrow> bool \<Rightarrow> hall_motor \<times> us_dev \<Rightarrow> hall_motor \<times> us_dev" where
  "Hall_B_IrqCallback pin_a pin_b = (\<lambda>(h, us).
     case s_isr_b h of
       None \<Rightarrow> (h, us)
     | Some i \<Rightarrow>
         let inst = s_inst h ! i in
         if mh_valid inst = 0 then (h, us)
         else
           let (inst1, us') = hall_interval us (inst\<lparr>hall_b_pulses := hall_b_pulses inst + 1\<rparr>);
               inst2 = inst1\<lparr>direction_data_ready := 1\<rparr>;
               k = unat (mh_id inst);
               last = hall_b_last h ! k;
               now = (if pin_b then 1 else 0);
               detected = (if g_mothall_invert_dir h \<noteq> 0 then (if pin_a then MOTOR_HALL_DIR_REVERSE else MOTOR_HALL_DIR_FORWARD)
                           else (if pin_a then MOTOR_HALL_DIR_FORWARD else MOTOR_HALL_DIR_REVERSE));
               inst3 = (if last = 1 \<and> now = 0 \<and> \<not> feq (current_rpm inst2) F_ZERO then hall_direction detected inst2 else inst2)
           in (h\<lparr>s_inst := (s_inst h)[i := inst3], hall_b_last := (hall_b_last h)[k := now]\<rparr>, us'))"

definition MotorHall_RegisterIrq :: "u8 \<Rightarrow> hall_motor \<Rightarrow> hall_motor" where
  "MotorHall_RegisterIrq is_hall_a h =
     (if is_hall_a \<noteq> 0 then h\<lparr>s_isr_a := Some MOTOR_HALL_ISR_AXIS\<rparr> else h\<lparr>s_isr_b := Some MOTOR_HALL_ISR_AXIS\<rparr>)"

section \<open>The speed chain\<close>

definition MotorHall_CalcActiveHalls :: u8 where
  "MotorHall_CalcActiveHalls = (if EXTINT_CH13 \<noteq> 0 then 1 else 0) + (if EXTINT_CH14 \<noteq> 0 then 1 else 0)"

definition MotorHall_UpdateRpmFilter :: "f32 \<Rightarrow> MotorHallInst_t \<Rightarrow> MotorHallInst_t" where
  "MotorHall_UpdateRpmFilter new_rpm inst =
     (let w = (rpm_window inst)[unat (write_index inst) := new_rpm];
          n = (if valid_count inst < of_nat MOTOR_HALL_RPM_WINDOW_SIZE then valid_count inst + 1 else valid_count inst);
          sum = foldl fadd F_ZERO (take (unat n) w)
      in inst\<lparr>rpm_window := w, write_index := of_nat ((unat (write_index inst) + 1) mod MOTOR_HALL_RPM_WINDOW_SIZE),
              valid_count := n, filtered_rpm := fdiv sum (f_of_int (uint n))\<rparr>)"

definition MotorHall_AverageInterval :: "MotorHallInst_t \<Rightarrow> f32 \<times> MotorHallInst_t" where
  "MotorHall_AverageInterval inst0 =
     (let iv = last_pulse_interval inst0;
          inst = (if MOTOR_HALL_MIN_PULSE_INTERVAL_US \<le> iv \<and> iv \<le> MOTOR_HALL_MAX_PULSE_INTERVAL_US
            then inst0\<lparr>interval_history := (interval_history inst0)[unat (interval_idx inst0) := iv],
                       interval_idx := of_nat ((unat (interval_idx inst0) + 1) mod 6),
                       interval_valid_count := (if interval_valid_count inst0 < 6 then interval_valid_count inst0 + 1 else interval_valid_count inst0),
                       measurement_valid := 1\<rparr>
            else inst0);
          n = interval_valid_count inst
      in if n < 2 then (F_ZERO, inst)
         else (fdiv (f_of_int (uint (sum_list (take (unat n) (interval_history inst))))) (f_of_int (uint n)), inst))"

definition MotorHall_IntervalToRpm :: "u32 \<Rightarrow> f32" where
  "MotorHall_IntervalToRpm interval_us =
     (if interval_us = 0 \<or> interval_us > MOTOR_HALL_MAX_PULSE_INTERVAL_US then F_ZERO
      else if MOTOR_HALL_CUSTOM_PULSES_PER_REV = 0 \<and> MotorHall_CalcActiveHalls = 0 then F_ZERO
      else
        let ppr = (if MOTOR_HALL_CUSTOM_PULSES_PER_REV > 0 then MOTOR_HALL_CUSTOM_PULSES_PER_REV
                   else MOTOR_HALL_POLE_PAIRS * 2 * ucast MotorHall_CalcActiveHalls);
            rpm = fdiv (f_lit 60000000 1) (fmul (f_of_int (uint interval_us)) (f_of_int (uint ppr)))
        in if fgt rpm (f_lit 1000000 1) then f_lit 1000000 1 else rpm)"

definition MotorHall_CalculateRpm :: "MotorHallInst_t \<Rightarrow> MotorHallInst_t" where
  "MotorHall_CalculateRpm inst0 =
     (let (avg, inst) = MotorHall_AverageInterval inst0 in
      if feq avg F_ZERO then inst\<lparr>current_rpm := F_ZERO, filtered_rpm := F_ZERO\<rparr>
      else
        let raw = MotorHall_IntervalToRpm (f_to_u32 avg) in
        if fgt raw F_ZERO then
          let inst1 = MotorHall_UpdateRpmFilter raw (inst\<lparr>current_rpm := raw\<rparr>)
          in inst1\<lparr>total_measurements := total_measurements inst1 + 1\<rparr>
        else inst\<lparr>current_rpm := F_ZERO, filtered_rpm := F_ZERO\<rparr>)"

definition MotorHall_PerformStallDetection :: "u64 \<Rightarrow> MotorHallInst_t \<Rightarrow> MotorHallInst_t" where
  "MotorHall_PerformStallDetection now_us inst0 =
     (let since = now_us - last_pulse_time_us inst0;
          inst =
            (if fgt (current_rpm inst0) F_ZERO \<and> since > MOTOR_HALL_STOP_DETECTION_MS * 1000 then
               (if current_direction inst0 \<noteq> MOTOR_HALL_DIR_STOP
                then inst0\<lparr>current_direction := MOTOR_HALL_DIR_STOP, direction_confidence := 0,
                           direction_confirm_count := 0, direction_changed := 1\<rparr>
                else inst0)\<lparr>is_running := 0\<rparr>
             else if fgt (current_rpm inst0) F_ZERO then inst0\<lparr>is_running := 1\<rparr>
             else inst0)
      in if since > MOTOR_HALL_STALL_DETECTION_MS * 1000
         then inst\<lparr>stalled := 1, current_rpm := F_ZERO, filtered_rpm := F_ZERO, is_running := 0\<rparr> else inst)"

section \<open>The sensor check\<close>

definition hall_status_of :: "u32 \<Rightarrow> u32 \<Rightarrow> MotorHallStatus_t" where
  "hall_status_of a b =
     (if a = 0 \<and> b = 0 then MOTOR_HALL_STATUS_NONE
      else if a > 0 \<and> b = 0 then MOTOR_HALL_STATUS_A_ONLY
      else if a = 0 \<and> b > 0 then MOTOR_HALL_STATUS_B_ONLY
      else
        let total = a + b; diff = (if a > b then a - b else b - a) in
        if total > 0 \<and> diff * 100 div total > MOTOR_HALL_WARNING_THRESHOLD then MOTOR_HALL_STATUS_ERROR
        else MOTOR_HALL_STATUS_BOTH)"

definition hall_active_of :: "MotorHallStatus_t \<Rightarrow> u8 \<Rightarrow> u8" where
  "hall_active_of st old =
     (case st of MOTOR_HALL_STATUS_A_ONLY \<Rightarrow> 1 | MOTOR_HALL_STATUS_B_ONLY \<Rightarrow> 1 | MOTOR_HALL_STATUS_BOTH \<Rightarrow> 2 | _ \<Rightarrow> old)"

text \<open>The static array of the last check times is threaded beside the instance.\<close>

definition MotorHall_CheckHallStatus :: "u32 \<Rightarrow> MotorHallInst_t \<times> u32 list \<Rightarrow> MotorHallInst_t \<times> u32 list" where
  "MotorHall_CheckHallStatus now = (\<lambda>(inst, lct).
     if now - lct ! unat (mh_id inst) < MOTOR_HALL_CHECK_INTERVAL_MS then (inst, lct)
     else
       let st = hall_status_of (hall_a_pulses inst) (hall_b_pulses inst) in
       (inst\<lparr>hall_a_last_second_count := hall_a_pulses inst, hall_b_last_second_count := hall_b_pulses inst,
             hall_status := st, active_hall_count := hall_active_of st (active_hall_count inst)\<rparr>,
        lct[unat (mh_id inst) := now]))"

section \<open>Initialisation and the periodic task\<close>

definition hall_reset :: "u32 \<Rightarrow> nat \<Rightarrow> MotorHallInst_t" where
  "hall_reset now i =
     \<lparr>mh_valid = (if i = MOTOR_HALL_ISR_AXIS then 1 else 0), mh_id = of_nat i,
      last_pulse_interval = 0, last_pulse_time_us = 0, pulse_counter = 0, speed_data_ready = 0,
      current_rpm = F_ZERO, filtered_rpm = F_ZERO, hall_a_pulses = 0, hall_b_pulses = 0,
      active_hall_count = MotorHall_CalcActiveHalls, current_direction = MOTOR_HALL_DIR_NONE,
      last_valid_direction = MOTOR_HALL_DIR_NONE, direction_confidence = 0, direction_confirm_count = 0,
      direction_data_ready = 0, direction_changed = 0, hall_a_last_second_count = 0, hall_b_last_second_count = 0,
      hall_status = MOTOR_HALL_STATUS_NONE, stalled = 0, is_running = 0, measurement_valid = 0,
      total_measurements = 0, mh_error_count = 0, rpm_window = replicate MOTOR_HALL_RPM_WINDOW_SIZE F_ZERO,
      write_index = 0, valid_count = 0, interval_history = replicate 6 0, interval_idx = 0, interval_valid_count = 0,
      rpm_last_ms = now, check_last_ms = now, last_total = 0, first_run = 1, pulse_accum = 0\<rparr>"

definition MotorHall_Init :: "u32 \<Rightarrow> hall_motor \<Rightarrow> hall_motor" where
  "MotorHall_Init now h0 =
     (let h = h0\<lparr>s_inst := map (hall_reset now) [0..<MOTOR_HALL_MAX_AXIS_NUM]\<rparr>
      in if s_hw_ready h = 0 then (MotorHall_RegisterIrq 0 (MotorHall_RegisterIrq 1 h))\<lparr>s_hw_ready := 1\<rparr> else h)"

text \<open>The pulse accumulation of one instance.\<close>

definition hall_eff_dir :: "MotorHallInst_t \<Rightarrow> MotorHallDir_t" where
  "hall_eff_dir inst =
     (if current_direction inst = MOTOR_HALL_DIR_STOP \<or> current_direction inst = MOTOR_HALL_DIR_NONE
      then last_valid_direction inst else current_direction inst)"

definition hall_accumulate :: "MotorHallInst_t \<Rightarrow> MotorHallInst_t" where
  "hall_accumulate inst0 =
     (let total = hall_a_pulses inst0 + hall_b_pulses inst0;
          inst = (if first_run inst0 \<noteq> 0 then inst0\<lparr>last_total := total, first_run := 0\<rparr> else inst0)
      in if total = last_total inst then inst
         else
           let delta = (if total > last_total inst then total - last_total inst else last_total inst - total);
               acc = (case hall_eff_dir inst of
                        MOTOR_HALL_DIR_FORWARD \<Rightarrow> pulse_accum inst + delta
                      | MOTOR_HALL_DIR_REVERSE \<Rightarrow> pulse_accum inst - delta
                      | _ \<Rightarrow> pulse_accum inst)
           in inst\<lparr>pulse_accum := acc, last_total := total\<rparr>)"

text \<open>The speed chain and the sensor check of one instance, each when its period has elapsed.\<close>

definition hall_measure :: "u32 \<Rightarrow> us_dev \<Rightarrow> MotorHallInst_t \<times> u32 list \<Rightarrow> MotorHallInst_t \<times> u32 list" where
  "hall_measure now us = (\<lambda>(inst, lct0).
     let inst1 = (if now - rpm_last_ms inst \<ge> MOTOR_HALL_TASK_PERIOD_MS
           then (MotorHall_PerformStallDetection (UsTimer_GetTimestampUs us) (MotorHall_CalculateRpm inst))\<lparr>rpm_last_ms := now\<rparr>
           else inst)
     in if now - check_last_ms inst1 \<ge> MOTOR_HALL_CHECK_INTERVAL_MS
        then (let (x, l) = MotorHall_CheckHallStatus now (inst1, lct0) in (x\<lparr>check_last_ms := now\<rparr>, l))
        else (inst1, lct0))"

definition hall_watch :: "nat \<Rightarrow> MotorHallInst_t \<Rightarrow> hall_motor \<Rightarrow> hall_motor" where
  "hall_watch i inst h =
     (if i = MOTOR_HALL_ISR_AXIS
      then h\<lparr>g_mothall_dbg_delta := pulse_accum inst, g_mothall_dbg_rpm_x10 := f_to_u32 (fmul (filtered_rpm inst) (f_lit 10 1)),
             g_mothall_dbg_dir := current_direction inst, g_mothall_dbg_status := hall_status inst\<rparr>
      else h)"

definition hall_task_inst :: "u32 \<Rightarrow> nat \<Rightarrow> hall_motor \<times> us_dev \<Rightarrow> hall_motor \<times> us_dev" where
  "hall_task_inst now i = (\<lambda>(h, us0).
     let inst = s_inst h ! i in
     if mh_valid inst = 0 then (h, us0)
     else
       let us = UsTimer_UpdateTimestamp us0;
           (inst2, lct) = hall_measure now us (inst, last_check_time h);
           inst3 = hall_accumulate inst2
       in (hall_watch i inst3 (h\<lparr>s_inst := (s_inst h)[i := inst3], last_check_time := lct\<rparr>), us))"

definition MotorHall_Task :: "u32 \<Rightarrow> hall_motor \<times> us_dev \<Rightarrow> hall_motor \<times> us_dev" where
  "MotorHall_Task now = hall_task_inst now 1 \<circ> hall_task_inst now 0"

section \<open>Queries\<close>

definition MotorHall_GetDeltaPulses :: "nat \<Rightarrow> hall_motor \<Rightarrow> i32 \<times> hall_motor" where
  "MotorHall_GetDeltaPulses a h =
     (if a \<ge> MOTOR_HALL_MAX_AXIS_NUM then (0, h)
      else (pulse_accum (s_inst h ! a), h\<lparr>s_inst := (s_inst h)[a := (s_inst h ! a)\<lparr>pulse_accum := 0\<rparr>]\<rparr>))"

definition MotorHall_GetRpm :: "nat \<Rightarrow> hall_motor \<Rightarrow> f32" where
  "MotorHall_GetRpm a h =
     (if a \<ge> MOTOR_HALL_MAX_AXIS_NUM \<or> is_running (s_inst h ! a) = 0 then F_ZERO else filtered_rpm (s_inst h ! a))"

definition MotorHall_GetRpmRaw :: "nat \<Rightarrow> hall_motor \<Rightarrow> f32" where
  "MotorHall_GetRpmRaw a h =
     (if a \<ge> MOTOR_HALL_MAX_AXIS_NUM \<or> is_running (s_inst h ! a) = 0 then F_ZERO else current_rpm (s_inst h ! a))"

definition MotorHall_GetPulseIntervalUs :: "nat \<Rightarrow> hall_motor \<Rightarrow> u32" where
  "MotorHall_GetPulseIntervalUs a h = (if a \<ge> MOTOR_HALL_MAX_AXIS_NUM then 0 else last_pulse_interval (s_inst h ! a))"

definition MotorHall_GetDirection :: "nat \<Rightarrow> hall_motor \<Rightarrow> MotorHallDir_t" where
  "MotorHall_GetDirection a h =
     (if a \<ge> MOTOR_HALL_MAX_AXIS_NUM then MOTOR_HALL_DIR_NONE
      else if feq (current_rpm (s_inst h ! a)) F_ZERO then MOTOR_HALL_DIR_STOP
      else if direction_confidence (s_inst h ! a) > 50 then current_direction (s_inst h ! a)
      else MOTOR_HALL_DIR_NONE)"

definition MotorHall_GetDirectionConfidence :: "nat \<Rightarrow> hall_motor \<Rightarrow> u8" where
  "MotorHall_GetDirectionConfidence a h = (if a \<ge> MOTOR_HALL_MAX_AXIS_NUM then 0 else direction_confidence (s_inst h ! a))"

definition MotorHall_IsDirectionChanged :: "nat \<Rightarrow> hall_motor \<Rightarrow> u8 \<times> hall_motor" where
  "MotorHall_IsDirectionChanged a h =
     (if a \<ge> MOTOR_HALL_MAX_AXIS_NUM then (0, h)
      else (direction_changed (s_inst h ! a), h\<lparr>s_inst := (s_inst h)[a := (s_inst h ! a)\<lparr>direction_changed := 0\<rparr>]\<rparr>))"

definition MotorHall_GetHallACount :: "nat \<Rightarrow> hall_motor \<Rightarrow> u32" where
  "MotorHall_GetHallACount a h = (if a \<ge> MOTOR_HALL_MAX_AXIS_NUM then 0 else hall_a_pulses (s_inst h ! a))"

definition MotorHall_GetHallBCount :: "nat \<Rightarrow> hall_motor \<Rightarrow> u32" where
  "MotorHall_GetHallBCount a h = (if a \<ge> MOTOR_HALL_MAX_AXIS_NUM then 0 else hall_b_pulses (s_inst h ! a))"

definition MotorHall_GetTotalPulseCount :: "nat \<Rightarrow> hall_motor \<Rightarrow> u32" where
  "MotorHall_GetTotalPulseCount a h =
     (if a \<ge> MOTOR_HALL_MAX_AXIS_NUM then 0 else hall_a_pulses (s_inst h ! a) + hall_b_pulses (s_inst h ! a))"

definition MotorHall_ResetCounts :: "nat \<Rightarrow> hall_motor \<Rightarrow> hall_motor" where
  "MotorHall_ResetCounts a h =
     (if a \<ge> MOTOR_HALL_MAX_AXIS_NUM then h
      else h\<lparr>s_inst := (s_inst h)[a := (s_inst h ! a)\<lparr>hall_a_pulses := 0, hall_b_pulses := 0, pulse_counter := 0,
          hall_a_last_second_count := 0, hall_b_last_second_count := 0, hall_status := MOTOR_HALL_STATUS_NONE,
          last_total := 0, first_run := 1\<rparr>]\<rparr>)"

definition MotorHall_GetStatus :: "nat \<Rightarrow> hall_motor \<Rightarrow> MotorHallStatus_t" where
  "MotorHall_GetStatus a h = (if a \<ge> MOTOR_HALL_MAX_AXIS_NUM then MOTOR_HALL_STATUS_NONE else hall_status (s_inst h ! a))"

definition MotorHall_GetActiveHallCount :: "nat \<Rightarrow> hall_motor \<Rightarrow> u8" where
  "MotorHall_GetActiveHallCount a h = (if a \<ge> MOTOR_HALL_MAX_AXIS_NUM then 0 else active_hall_count (s_inst h ! a))"

definition MotorHall_GetPulsesPerRev :: "nat \<Rightarrow> hall_motor \<Rightarrow> u16" where
  "MotorHall_GetPulsesPerRev a h =
     (if a \<ge> MOTOR_HALL_MAX_AXIS_NUM then 0
      else if MOTOR_HALL_CUSTOM_PULSES_PER_REV > 0 then MOTOR_HALL_CUSTOM_PULSES_PER_REV
      else MOTOR_HALL_POLE_PAIRS * 2 * ucast (active_hall_count (s_inst h ! a)))"

definition MotorHall_IsRunning :: "us_dev \<Rightarrow> nat \<Rightarrow> hall_motor \<Rightarrow> u8" where
  "MotorHall_IsRunning us a h =
     (if a \<ge> MOTOR_HALL_MAX_AXIS_NUM then 0
      else if UsTimer_GetTimestampUs us - last_pulse_time_us (s_inst h ! a) \<le> MOTOR_HALL_STOP_DETECTION_MS * 1000 then 1 else 0)"

definition MotorHall_IsStalled :: "nat \<Rightarrow> hall_motor \<Rightarrow> u8" where
  "MotorHall_IsStalled a h = (if a \<ge> MOTOR_HALL_MAX_AXIS_NUM then 1 else stalled (s_inst h ! a))"

end
