(* ===== verification/Ring.thy ===== *)
theory Ring
  imports Prelude
begin

text \<open>
  The ring buffers of the drivers: an array with a write index that runs modulo its size. The
  abstraction is the history of everything written, newest first; \<open>ring_ok\<close> relates the two, and
  the two lemmas below are all the clients need of it.
\<close>

definition ring_ok :: "nat \<Rightarrow> 'a list \<Rightarrow> nat \<Rightarrow> 'a list \<Rightarrow> bool" where
  "ring_ok N buf idx hist \<longleftrightarrow> 0 < N \<and> length buf = N \<and> idx = length hist mod N \<and>
     (\<forall>j < min N (length hist). buf ! ((length hist - 1 - j) mod N) = hist ! j)"

lemma ring_start: "0 < N \<Longrightarrow> length buf = N \<Longrightarrow> ring_ok N buf 0 []"
  by (simp add: ring_ok_def)

lemma mod_distinct:
  assumes "j < k" and "k < (N :: nat)" and "N \<le> L + N" and "k \<le> L"
  shows "(L - k) mod N \<noteq> (L - j) mod N"
proof
  assume "(L - k) mod N = (L - j) mod N"
  then have "N dvd (L - j) - (L - k)" using assms(1,4) by (metis diff_le_mono2 less_imp_le mod_eq_dvd_iff_nat)
  moreover have "(L - j) - (L - k) = k - j" using assms(1,4) by simp
  ultimately have "N dvd k - j" by simp
  then have "N \<le> k - j" using assms(1) by (intro dvd_imp_le) auto
  then show False using assms(2) by simp
qed

lemma ring_push:
  assumes "ring_ok N buf idx hist"
  shows "ring_ok N (buf[idx := v]) ((idx + 1) mod N) (v # hist)"
proof -
  let ?L = "length hist"
  have N: "0 < N" "length buf = N" "idx = ?L mod N"
    and b: "\<And>j. j < min N ?L \<Longrightarrow> buf ! ((?L - 1 - j) mod N) = hist ! j"
    using assms by (auto simp: ring_ok_def)
  have "buf[idx := v] ! ((length (v # hist) - 1 - j) mod N) = (v # hist) ! j" if "j < min N (length (v # hist))" for j
  proof (cases j)
    case 0
    then show ?thesis using N by simp
  next
    case (Suc i)
    then have i: "i < ?L" "i < N" "Suc i < N" "Suc i \<le> ?L" using that by auto
    have "(?L - Suc i) mod N \<noteq> (?L - 0) mod N" using i by (intro mod_distinct) auto
    then have "buf[idx := v] ! ((?L - Suc i) mod N) = buf ! ((?L - Suc i) mod N)" using N(3) by simp
    also have "?L - Suc i = ?L - 1 - i" by simp
    finally show ?thesis using Suc b [of i] i by simp
  qed
  then show ?thesis using N by (auto simp: ring_ok_def mod_Suc_eq)
qed

text \<open>The entry the next write replaces, once the ring is full, is the oldest one kept.\<close>

lemma ring_oldest:
  assumes "ring_ok N buf idx hist" and "N \<le> length hist"
  shows "buf ! idx = hist ! (N - 1)"
proof -
  have N: "0 < N" "idx = length hist mod N" using assms(1) by (auto simp: ring_ok_def)
  have "\<forall>j < min N (length hist). buf ! ((length hist - 1 - j) mod N) = hist ! j" using assms(1) by (simp add: ring_ok_def)
  then have "buf ! ((length hist - 1 - (N - 1)) mod N) = hist ! (N - 1)"
    using N(1) assms(2) by (metis diff_less min.absorb1 zero_less_one)
  moreover have "(length hist - 1 - (N - 1)) mod N = length hist mod N"
    using N(1) assms(2) by (metis One_nat_def Suc_pred diff_diff_left le_mod_geq plus_1_eq_Suc)
  ultimately show ?thesis using N(2) by simp
qed

text \<open>Reading backwards from the write index, as the drivers do.\<close>

lemma ring_read:
  assumes "ring_ok N buf idx hist" and "j < N" and "j < length hist"
  shows "buf ! ((idx + N - 1 - j) mod N) = hist ! j"
proof -
  have N: "0 < N" "idx = length hist mod N" using assms(1) by (auto simp: ring_ok_def)
  have "(length hist mod N + (N - 1 - j)) mod N = (length hist + (N - 1 - j)) mod N" by (simp add: mod_simps)
  also have "length hist + (N - 1 - j) = (length hist - 1 - j) + N" using assms(2,3) by simp
  finally have "(idx + N - 1 - j) mod N = (length hist - 1 - j) mod N"
    using N(2) assms(2) by simp
  then show ?thesis using assms by (simp add: ring_ok_def)
qed

end
