(* ===== verification/Adc.thy ===== *)
theory Adc
  imports Ring Float32
begin

text \<open>
  The analogue inputs: the driver of \<^verbatim>\<open>Adp/hc32_drv_adc.c\<close> (end-of-conversion interrupt, ring
  buffer of engineering values, sliding mean of raw values) and the device layer of
  \<^verbatim>\<open>Dev/dev_adc/dev_adc.c\<close>, which reaches it through an operation table. The converter results
  are an argument of the interrupt; clock, pin and trigger configuration is left out. The
  per-channel callback is NULL in every table the code builds and is left out.
\<close>

section \<open>Driver\<close>

abbreviation ADC_DRV_RING_SIZE :: nat where "ADC_DRV_RING_SIZE \<equiv> 256"
abbreviation ADC_MEAN_WINDOW_SAMPLES :: nat where "ADC_MEAN_WINDOW_SAMPLES \<equiv> 20"
abbreviation HC32_ADC_MAX_INST :: nat where "HC32_ADC_MAX_INST \<equiv> 4"
abbreviation ADC_DRV_VOLT_CH :: u8 where "ADC_DRV_VOLT_CH \<equiv> 4"
abbreviation ADC_DRV_CUR_CH :: u8 where "ADC_DRV_CUR_CH \<equiv> 6"

record adc_drv_ch_t =
  u8Channel :: u8
  u8Port :: u8
  u16Pin :: u16
  fGain :: f32
  fOffset :: f32
  bAbs :: bool

record adc_drv_inst_t =
  u8Id :: u8
  stcCh :: adc_drv_ch_t
  afRing :: "f32 list"
  u16WriteIdx :: u16
  u16Count :: u16
  fLatest :: f32
  u16LatestRaw :: u16
  u32SampleCount :: u32
  pu32MeanWin :: "u32 list option"
  u32MeanSum :: u32
  u16MeanIdx :: u16
  u16MeanCnt :: u16

record adc_drv =
  s_pstcInsts :: "adc_drv_inst_t list"
  s_u8InstNum :: nat
  s_bInitialized :: bool
  adc_trigger_running :: bool

text \<open>The conversion of a raw value to an engineering value: reference voltage 3.3 V, 12 bits.\<close>

definition adc_convert :: "adc_drv_ch_t \<Rightarrow> u16 \<Rightarrow> f32" where
  "adc_convert ch raw =
     (let v = fadd (fmul (fdiv (fmul (f_of_int (uint raw)) (f_lit 33 10)) (f_lit 4096 1)) (fGain ch)) (fOffset ch)
      in if bAbs ch \<and> flt v F_ZERO then fneg v else v)"

definition mean_push :: "u16 \<Rightarrow> adc_drv_inst_t \<Rightarrow> adc_drv_inst_t" where
  "mean_push raw p =
     (case pu32MeanWin p of
        None \<Rightarrow> p
      | Some win \<Rightarrow>
          let i = unat (u16MeanIdx p); i' = of_nat ((i + 1) mod ADC_MEAN_WINDOW_SAMPLES); win' = win[i := ucast raw] in
          if u16MeanCnt p < of_nat ADC_MEAN_WINDOW_SAMPLES
          then p\<lparr>u32MeanSum := u32MeanSum p + ucast raw, pu32MeanWin := Some win', u16MeanIdx := i', u16MeanCnt := u16MeanCnt p + 1\<rparr>
          else p\<lparr>u32MeanSum := u32MeanSum p - win ! i + ucast raw, pu32MeanWin := Some win', u16MeanIdx := i'\<rparr>)"

definition adc_sample :: "u16 \<Rightarrow> adc_drv_inst_t \<Rightarrow> adc_drv_inst_t" where
  "adc_sample raw p =
     (let v = adc_convert (stcCh p) raw; w = unat (u16WriteIdx p) in
      mean_push raw (p\<lparr>u16LatestRaw := raw, u32SampleCount := u32SampleCount p + 1, fLatest := v, afRing := (afRing p)[w := v],
        u16WriteIdx := of_nat ((w + 1) mod ADC_DRV_RING_SIZE),
        u16Count := (if u16Count p < of_nat ADC_DRV_RING_SIZE then u16Count p + 1 else u16Count p)\<rparr>))"

definition AdcDrv_ADC1_IRQHandler :: "(u8 \<Rightarrow> u16) \<Rightarrow> adc_drv \<Rightarrow> adc_drv" where
  "AdcDrv_ADC1_IRQHandler adc_value d =
     d\<lparr>s_pstcInsts := map (\<lambda>p. adc_sample (adc_value (u8Channel (stcCh p))) p) (take (s_u8InstNum d) (s_pstcInsts d))
        @ drop (s_u8InstNum d) (s_pstcInsts d)\<rparr>"

definition adc_inst_zero :: "nat \<Rightarrow> adc_drv_ch_t \<Rightarrow> u32 list \<Rightarrow> adc_drv_inst_t" where
  "adc_inst_zero i ch win =
     \<lparr>u8Id = of_nat i, stcCh = ch, afRing = replicate ADC_DRV_RING_SIZE F_ZERO, u16WriteIdx = 0, u16Count = 0, fLatest = F_ZERO,
      u16LatestRaw = 0, u32SampleCount = 0, pu32MeanWin = Some win, u32MeanSum = 0, u16MeanIdx = 0, u16MeanCnt = 0\<rparr>"

text \<open>The instance array has room for all channels; its first entries are set up.\<close>

definition AdcDrv_Init :: "adc_drv_ch_t list option \<Rightarrow> nat \<Rightarrow> adc_drv \<Rightarrow> int \<times> adc_drv" where
  "AdcDrv_Init table num d =
     (case table of
        None \<Rightarrow> (- 1, d)
      | Some chs \<Rightarrow>
          if num = 0 then (- 1, d)
          else if s_bInitialized d then (0, d)
          else (0, d\<lparr>s_pstcInsts := map (\<lambda>i. adc_inst_zero i (chs ! i) (replicate ADC_MEAN_WINDOW_SAMPLES 0)) [0..<num],
                     s_u8InstNum := num, s_bInitialized := True\<rparr>))"

definition AdcDrv_Start :: "adc_drv \<Rightarrow> adc_drv" where
  "AdcDrv_Start d = (if s_bInitialized d then d\<lparr>adc_trigger_running := True\<rparr> else d)"

definition AdcDrv_Stop :: "adc_drv \<Rightarrow> adc_drv" where "AdcDrv_Stop d = d\<lparr>adc_trigger_running := False\<rparr>"

definition AdcDrv_GetLatestRaw :: "nat \<Rightarrow> adc_drv \<Rightarrow> u16" where
  "AdcDrv_GetLatestRaw i d = (if i \<ge> s_u8InstNum d then 0 else u16LatestRaw (s_pstcInsts d ! i))"

definition AdcDrv_GetLatest :: "nat \<Rightarrow> adc_drv \<Rightarrow> f32" where
  "AdcDrv_GetLatest i d = (if i \<ge> s_u8InstNum d then F_ZERO else fLatest (s_pstcInsts d ! i))"

definition AdcDrv_GetMean :: "nat \<Rightarrow> adc_drv \<Rightarrow> f32" where
  "AdcDrv_GetMean i d =
     (if i \<ge> s_u8InstNum d then F_ZERO
      else
        let p = s_pstcInsts d ! i in
        if u16MeanCnt p = 0 then F_ZERO
        else adc_convert (stcCh p) (ucast (u32MeanSum p div ucast (u16MeanCnt p))))"

text \<open>The values written to the caller's buffer, newest first; their number is the result of the call.\<close>

definition AdcDrv_ReadRing :: "nat \<Rightarrow> nat \<Rightarrow> adc_drv \<Rightarrow> f32 list" where
  "AdcDrv_ReadRing i u16Max d =
     (if i \<ge> s_u8InstNum d \<or> u16Max = 0 then []
      else
        let p = s_pstcInsts d ! i; n = min (unat (u16Count p)) u16Max
        in map (\<lambda>k. afRing p ! ((unat (u16WriteIdx p) + ADC_DRV_RING_SIZE - 1 - k) mod ADC_DRV_RING_SIZE)) [0..<n])"

section \<open>The operation table\<close>

record dev_adc_ch_cfg_t =
  ch_channel :: u8
  ch_gain :: f32
  ch_offset :: f32
  ch_abs :: bool

text \<open>Channel number to converter channel, port and pin; port A, pins 4 and 6.\<close>

definition s_hc32_adc_ch_map :: "(u8 \<times> u8 \<times> u8 \<times> u16) list" where
  "s_hc32_adc_ch_map = [(ADC_DRV_VOLT_CH, 4, 0, 0x10), (ADC_DRV_CUR_CH, 6, 0, 0x40)]"

fun hc32_adc_chs :: "dev_adc_ch_cfg_t list \<Rightarrow> adc_drv_ch_t list option" where
  "hc32_adc_chs [] = Some []"
| "hc32_adc_chs (c # cs) =
     (case List.find (\<lambda>(ch, _). ch = ch_channel c) s_hc32_adc_ch_map of
        None \<Rightarrow> None
      | Some (_, ddl, port, pin) \<Rightarrow>
          (case hc32_adc_chs cs of
             None \<Rightarrow> None
           | Some r \<Rightarrow> Some (\<lparr>u8Channel = ddl, u8Port = port, u16Pin = pin, fGain = ch_gain c, fOffset = ch_offset c, bAbs = ch_abs c\<rparr> # r)))"

definition hc32_adc_init :: "dev_adc_ch_cfg_t list option \<Rightarrow> nat \<Rightarrow> adc_drv \<Rightarrow> int \<times> adc_drv" where
  "hc32_adc_init table num d =
     (case table of
        None \<Rightarrow> (- 1, d)
      | Some t \<Rightarrow>
          if num = 0 \<or> num > HC32_ADC_MAX_INST then (- 1, d)
          else (case hc32_adc_chs (take num t) of None \<Rightarrow> (- 2, d) | Some chs \<Rightarrow> AdcDrv_Init (Some chs) num d))"

record dev_adc_ops =
  ao_init :: "(dev_adc_ch_cfg_t list option \<Rightarrow> nat \<Rightarrow> adc_drv \<Rightarrow> int \<times> adc_drv) option"
  ao_start :: "(adc_drv \<Rightarrow> adc_drv) option"
  ao_stop :: "(adc_drv \<Rightarrow> adc_drv) option"
  ao_get_latest :: "(nat \<Rightarrow> adc_drv \<Rightarrow> int \<times> f32) option"
  ao_get_raw :: "(nat \<Rightarrow> adc_drv \<Rightarrow> int \<times> u16) option"
  ao_read_ring :: "(nat \<Rightarrow> nat \<Rightarrow> adc_drv \<Rightarrow> f32 list) option"
  ao_get_mean :: "(nat \<Rightarrow> adc_drv \<Rightarrow> int \<times> f32) option"

definition hc32_adc_ops :: dev_adc_ops where
  "hc32_adc_ops =
     \<lparr>ao_init = Some hc32_adc_init, ao_start = Some AdcDrv_Start, ao_stop = Some AdcDrv_Stop,
      ao_get_latest = Some (\<lambda>i d. (0, AdcDrv_GetLatest i d)), ao_get_raw = Some (\<lambda>i d. (0, AdcDrv_GetLatestRaw i d)),
      ao_read_ring = Some AdcDrv_ReadRing, ao_get_mean = Some (\<lambda>i d. (0, AdcDrv_GetMean i d))\<rparr>"

section \<open>Device layer\<close>

record adc_dev =
  g_adc_ops :: "dev_adc_ops option"
  adc_hw :: adc_drv

definition s_astcChTable :: "dev_adc_ch_cfg_t list" where
  "s_astcChTable =
     [\<lparr>ch_channel = ADC_DRV_VOLT_CH, ch_gain = f_lit 313 10, ch_offset = F_ZERO, ch_abs = False\<rparr>,
      \<lparr>ch_channel = ADC_DRV_CUR_CH, ch_gain = f_lit 1 1, ch_offset = F_ZERO, ch_abs = False\<rparr>]"

definition Dev_Adc_Bind :: "dev_adc_ops option \<Rightarrow> adc_dev \<Rightarrow> adc_dev" where "Dev_Adc_Bind ops d = d\<lparr>g_adc_ops := ops\<rparr>"

definition adc_op :: "(dev_adc_ops \<Rightarrow> 'f option) \<Rightarrow> adc_dev \<Rightarrow> 'f option" where
  "adc_op sel d = (case g_adc_ops d of None \<Rightarrow> None | Some ops \<Rightarrow> sel ops)"

definition Dev_Adc_Init :: "adc_dev \<Rightarrow> adc_dev" where
  "Dev_Adc_Init d =
     (case adc_op ao_init d of
        Some f \<Rightarrow> d\<lparr>adc_hw := snd (f (Some s_astcChTable) (length s_astcChTable) (adc_hw d))\<rparr> | None \<Rightarrow> d)"

definition Dev_Adc_Start :: "adc_dev \<Rightarrow> adc_dev" where
  "Dev_Adc_Start d = (case adc_op ao_start d of Some f \<Rightarrow> d\<lparr>adc_hw := f (adc_hw d)\<rparr> | None \<Rightarrow> d)"

definition Dev_Adc_Stop :: "adc_dev \<Rightarrow> adc_dev" where
  "Dev_Adc_Stop d = (case adc_op ao_stop d of Some f \<Rightarrow> d\<lparr>adc_hw := f (adc_hw d)\<rparr> | None \<Rightarrow> d)"

definition Dev_Adc_GetLatest :: "adc_dev \<Rightarrow> (f32 \<times> f32) option" where
  "Dev_Adc_GetLatest d =
     (case adc_op ao_get_latest d of Some f \<Rightarrow> Some (snd (f 0 (adc_hw d)), snd (f 1 (adc_hw d))) | None \<Rightarrow> None)"

definition Dev_Adc_ReadRing :: "nat \<Rightarrow> nat \<Rightarrow> adc_dev \<Rightarrow> f32 list" where
  "Dev_Adc_ReadRing i n d =
     (if n = 0 then [] else case adc_op ao_read_ring d of Some f \<Rightarrow> f i n (adc_hw d) | None \<Rightarrow> [])"

definition Dev_Adc_GetRaw :: "nat \<Rightarrow> adc_dev \<Rightarrow> u16 option" where
  "Dev_Adc_GetRaw i d = (case adc_op ao_get_raw d of Some f \<Rightarrow> Some (snd (f i (adc_hw d))) | None \<Rightarrow> None)"

text \<open>The mean as the power devices read it; \<open>None\<close> is the error return, which leaves the caller's variable alone.\<close>

definition Dev_Adc_GetMean :: "nat \<Rightarrow> adc_dev \<Rightarrow> f32 option" where
  "Dev_Adc_GetMean i d = (case adc_op ao_get_mean d of Some f \<Rightarrow> Some (snd (f i (adc_hw d))) | None \<Rightarrow> None)"

end
