(* ===== verification/Task_Set.thy ===== *)
theory Task_Set
  imports Prelude
begin

text \<open>
  The task table of \<^verbatim>\<open>Task/task_set.c\<close>: creation of the application threads with their limits,
  the heartbeat table and the check for starved threads, and the supervision of the thread stacks
  by their fill pattern. The kernel's part is an argument: the handle \<open>rt_thread_create\<close> returns
  (\<open>None\<close> for NULL), the result of \<open>rt_thread_startup\<close>, the running thread and the tick. Log lines
  are results: the threads a check names.
\<close>

section \<open>Heartbeats\<close>

abbreviation TASK_SET_BEAT_SLOTS :: u8 where "TASK_SET_BEAT_SLOTS \<equiv> 12"
abbreviation TASK_SET_BEAT_TIMEOUT_MS :: u32 where "TASK_SET_BEAT_TIMEOUT_MS \<equiv> 5000"
abbreviation TASK_STACK_MIN :: u32 where "TASK_STACK_MIN \<equiv> 256"
abbreviation RT_THREAD_PRIORITY_MAX :: u8 where "RT_THREAD_PRIORITY_MAX \<equiv> 32"

record TaskBeatItem_t =
  bi_name :: string
  bi_tcb :: nat
  bi_prio :: u8
  beat_ms :: u32
  last_beat :: u32

record task_set =
  s_beat :: "TaskBeatItem_t list"
  s_beat_num :: u8

text \<open>
  What the kernel answers: the handle of a thread created under a name, and the result of starting it.
\<close>

record task_kernel =
  k_create :: "string \<Rightarrow> nat option"
  k_startup :: "nat \<Rightarrow> rt_err_t"

definition k_started :: "task_kernel \<Rightarrow> string \<Rightarrow> rt_err_t" where
  "k_started K name = (case k_create K name of None \<Rightarrow> RT_EOK | Some t \<Rightarrow> k_startup K t)"

definition Task_Set_Create ::
  "string option \<Rightarrow> bool \<Rightarrow> u32 \<Rightarrow> u8 \<Rightarrow> u32 \<Rightarrow> nat option \<Rightarrow> rt_err_t \<Rightarrow> u32 \<Rightarrow> task_set \<Rightarrow> nat option \<times> task_set" where
  "Task_Set_Create name entry stack prio beat created started tick ts =
     (case name of
        None \<Rightarrow> (None, ts)
      | Some nm \<Rightarrow>
          if \<not> entry \<or> stack < TASK_STACK_MIN \<or> prio = 0 \<or> prio \<ge> RT_THREAD_PRIORITY_MAX - 1 then (None, ts)
          else
            (case created of
               None \<Rightarrow> (None, ts)
             | Some t \<Rightarrow>
                 if started \<noteq> RT_EOK then (None, ts)
                 else if s_beat_num ts < TASK_SET_BEAT_SLOTS then
                   (Some t, ts\<lparr>s_beat := (s_beat ts)[unat (s_beat_num ts) :=
                        \<lparr>bi_name = nm, bi_tcb = t, bi_prio = prio, beat_ms = beat, last_beat = tick\<rparr>],
                      s_beat_num := s_beat_num ts + 1\<rparr>)
                 else (Some t, ts)))"

fun beat_slots :: "nat \<Rightarrow> u32 \<Rightarrow> TaskBeatItem_t list \<Rightarrow> TaskBeatItem_t list" where
  "beat_slots self tick [] = []"
| "beat_slots self tick (b # bs) = (if bi_tcb b = self then b\<lparr>last_beat := tick\<rparr> # bs else b # beat_slots self tick bs)"

definition Task_Set_Beat :: "nat \<Rightarrow> u32 \<Rightarrow> task_set \<Rightarrow> task_set" where
  "Task_Set_Beat self tick ts =
     (let n = unat (s_beat_num ts) in ts\<lparr>s_beat := beat_slots self tick (take n (s_beat ts)) @ drop n (s_beat ts)\<rparr>)"

definition beat_stale :: "u32 \<Rightarrow> TaskBeatItem_t \<Rightarrow> bool" where
  "beat_stale tick b \<longleftrightarrow> beat_ms b \<noteq> 0 \<and> last_beat b \<noteq> 0 \<and> tick - last_beat b > TASK_SET_BEAT_TIMEOUT_MS"

text \<open>The lines of the check: name, priority, time since the last beat, nominal period.\<close>

definition Task_Set_StarvationCheck :: "u32 \<Rightarrow> task_set \<Rightarrow> (string \<times> u8 \<times> u32 \<times> u32) list" where
  "Task_Set_StarvationCheck tick ts =
     map (\<lambda>b. (bi_name b, bi_prio b, tick - last_beat b, beat_ms b)) (filter (beat_stale tick) (take (unat (s_beat_num ts)) (s_beat ts)))"

definition Task_Set_Start :: "nat option \<Rightarrow> rt_err_t \<Rightarrow> u32 \<Rightarrow> task_set \<Rightarrow> task_set" where
  "Task_Set_Start created started tick ts = snd (Task_Set_Create (Some ''canary'') True 256 2 500 created started tick ts)"

section \<open>Stacks\<close>

record TaskStackItem_t =
  si_name :: string
  si_stack :: u32
  min_free :: u32
  tracked :: u8

definition stack_item :: "string \<Rightarrow> u32 \<Rightarrow> TaskStackItem_t" where
  "stack_item name stack = \<lparr>si_name = name, si_stack = stack, min_free = 0xFFFFFFFF, tracked = 0\<rparr>"

definition s_task_stack :: "TaskStackItem_t list" where
  "s_task_stack =
     [stack_item ''main'' 4096, stack_item ''sys_sm'' 1024, stack_item ''dev'' 512, stack_item ''rod'' 2048, stack_item ''di'' 2048,
      stack_item ''act'' 2048, stack_item ''pwm'' 1024, stack_item ''arbtst'' 1024, stack_item ''led'' 256, stack_item ''tshell'' 1024,
      stack_item ''tidle0'' 256, stack_item ''sys workq'' 256, stack_item ''timer'' 512, stack_item ''canary'' 256]"

text \<open>What the supervision reads of a thread: \<open>th_mem i\<close> is the byte at offset \<open>i\<close> of its stack.\<close>

record rt_thread =
  th_name :: string
  th_stat :: u8
  stack_addr :: bool   \<comment> \<open>not NULL\<close>
  stack_size :: u32
  th_mem :: "nat \<Rightarrow> u8"

definition Task_Stack_Find :: "string option \<Rightarrow> TaskStackItem_t list \<Rightarrow> nat option" where
  "Task_Stack_Find name tbl = (case name of None \<Rightarrow> None | Some nm \<Rightarrow> List.find (\<lambda>i. si_name (tbl ! i) = nm) [0 ..< length tbl])"

definition item_lower :: "u32 \<Rightarrow> TaskStackItem_t \<Rightarrow> TaskStackItem_t" where
  "item_lower free it =
     (if tracked it = 0 then it\<lparr>min_free := free, tracked := 1\<rparr>
      else if min_free it > free then it\<lparr>min_free := free, tracked := 1\<rparr>
      else it\<lparr>tracked := 1\<rparr>)"

definition Task_Stack_UpdateWatermark :: "rt_thread option \<Rightarrow> u32 \<Rightarrow> TaskStackItem_t list \<Rightarrow> nat option \<times> TaskStackItem_t list" where
  "Task_Stack_UpdateWatermark thr free tbl =
     (case thr of
        None \<Rightarrow> (None, tbl)
      | Some t \<Rightarrow>
          if \<not> stack_addr t \<or> stack_size t = 0 then (None, tbl)
          else (case Task_Stack_Find (Some (th_name t)) tbl of
                  None \<Rightarrow> (None, tbl)
                | Some i \<Rightarrow> (Some i, tbl[i := item_lower free (tbl ! i)])))"

function stack_scan :: "(nat \<Rightarrow> u8) \<Rightarrow> nat \<Rightarrow> nat \<Rightarrow> nat" where
  "stack_scan mem n i = (if i < n \<and> mem i = 0x23 then stack_scan mem n (i + 1) else i)"
  by pat_completeness auto
termination by (relation "measure (\<lambda>(mem, n, i). n - i)") auto

declare stack_scan.simps [simp del]

definition Task_Stack_Free :: "rt_thread option \<Rightarrow> u32" where
  "Task_Stack_Free thr =
     (case thr of
        None \<Rightarrow> 0
      | Some t \<Rightarrow> if \<not> stack_addr t \<or> stack_size t = 0 then 0 else of_nat (stack_scan (th_mem t) (unat (stack_size t)) 0))"

definition Task_Stack_Used :: "u32 \<Rightarrow> u32 \<Rightarrow> u32" where
  "Task_Stack_Used sz free = (if sz > free then sz - free else 0)"

abbreviation RT_THREAD_STAT_MASK :: u8 where "RT_THREAD_STAT_MASK \<equiv> 0x07"
abbreviation RT_THREAD_INIT :: u8 where "RT_THREAD_INIT \<equiv> 0"
abbreviation TASK_STACK_WARN_PCT :: u32 where "TASK_STACK_WARN_PCT \<equiv> 90"

definition thread_skipped :: "rt_thread \<Rightarrow> bool" where
  "thread_skipped t \<longleftrightarrow> th_stat t AND RT_THREAD_STAT_MASK = RT_THREAD_INIT \<or> stack_size t = 0"

definition stack_pct :: "rt_thread \<Rightarrow> u32" where
  "stack_pct t = Task_Stack_Used (stack_size t) (Task_Stack_Free (Some t)) * 100 div stack_size t"

text \<open>The pass over the kernel's list of threads; the result names the threads warned about.\<close>

fun Task_Stack_Monitor :: "rt_thread list \<Rightarrow> TaskStackItem_t list \<Rightarrow> string list \<times> TaskStackItem_t list" where
  "Task_Stack_Monitor [] tbl = ([], tbl)"
| "Task_Stack_Monitor (t # ts) tbl =
     (if thread_skipped t then Task_Stack_Monitor ts tbl
      else
        let tbl1 = snd (Task_Stack_UpdateWatermark (Some t) (Task_Stack_Free (Some t)) tbl);
            (ws, tbl2) = Task_Stack_Monitor ts tbl1
        in (if stack_pct t \<ge> TASK_STACK_WARN_PCT then th_name t # ws else ws, tbl2))"

end
