(* ===== verification/System.thy ===== *)
theory System
  imports State_Engine Motor_Output Polarity Rod Hall_Motor Adc Task_Set
begin

text \<open>
  The system layer: the device registry (\<^verbatim>\<open>Dev/dev_registry.c\<close>), the system object
  (\<^verbatim>\<open>Dev/dev_mgr/dev_model.c\<close>), the system state machine and its event dispatcher
  (\<^verbatim>\<open>dev_state.c\<close>) and its thread (\<^verbatim>\<open>dev_sm_thread.c\<close>). The world is the global data the state
  machine and the tasks reach: the system object, the arbitration module with the two-pin driver
  and the current sensor behind it, the polarity, supply, converter and Hall devices, the time
  base, the watch record of the monitor and the supervision limits. The registered modules are an
  argument, because their entries are functions on the world; the millisecond tick is the field
  \<open>now\<close>. Log output is left out.
\<close>

section \<open>Registry\<close>

abbreviation MAX_REG_MODULES :: nat where "MAX_REG_MODULES \<equiv> 16"

record 'w SysModule_t =
  mod_name :: string
  mod_init :: "('w \<Rightarrow> 'w) option"
  mod_task :: "('w \<Rightarrow> 'w) option"
  period_ms :: u16
  mod_thread :: bool   \<comment> \<open>\<open>thread_entry\<close> is not NULL\<close>
  thread_stack :: u16
  mod_prio :: u8
  mod_last_tick :: u32
  mod_enabled :: u8

definition SYS_MODULE_REGISTER :: "string \<Rightarrow> ('w \<Rightarrow> 'w) option \<Rightarrow> ('w \<Rightarrow> 'w) option \<Rightarrow> u8 \<Rightarrow> u16 \<Rightarrow> 'w SysModule_t" where
  "SYS_MODULE_REGISTER name init task prio period =
     \<lparr>mod_name = name, mod_init = init, mod_task = task, period_ms = period, mod_thread = False, thread_stack = 0, mod_prio = prio, mod_last_tick = 0, mod_enabled = 1\<rparr>"

definition SYS_MODULE_REGISTER_THREAD :: "string \<Rightarrow> ('w \<Rightarrow> 'w) option \<Rightarrow> u8 \<Rightarrow> u16 \<Rightarrow> 'w SysModule_t" where
  "SYS_MODULE_REGISTER_THREAD name init prio stack =
     \<lparr>mod_name = name, mod_init = init, mod_task = None, period_ms = 0, mod_thread = True, thread_stack = stack, mod_prio = prio, mod_last_tick = 0, mod_enabled = 1\<rparr>"

text \<open>
  Registration: refused when the table is full or the name is taken; else stored and initialised,
  and its thread is created when it has one. The kernel and the tick are arguments.
\<close>

definition Dev_Registry_Add ::
  "task_kernel \<Rightarrow> u32 \<Rightarrow> 'w SysModule_t option \<Rightarrow> 'w SysModule_t list \<times> task_set \<times> 'w \<Rightarrow> int \<times> 'w SysModule_t list \<times> task_set \<times> 'w" where
  "Dev_Registry_Add K tick module = (\<lambda>(mods, ts, w).
     case module of
       None \<Rightarrow> (- 1, mods, ts, w)
     | Some m \<Rightarrow>
         if length mods \<ge> MAX_REG_MODULES \<or> mod_name m \<in> set (map mod_name mods) then (- 1, mods, ts, w)
         else (0, mods @ [m],
               if mod_thread m then snd (Task_Set_Create (Some (mod_name m)) True (ucast (thread_stack m)) (mod_prio m) 0
                                           (k_create K (mod_name m)) (k_started K (mod_name m)) tick ts)
               else ts,
               case mod_init m of Some f \<Rightarrow> f w | None \<Rightarrow> w))"

fun Dev_Registry_InitAll :: "'w SysModule_t list \<Rightarrow> 'w \<Rightarrow> 'w" where
  "Dev_Registry_InitAll [] w = w"
| "Dev_Registry_InitAll (m # ms) w = Dev_Registry_InitAll ms (case mod_init m of Some f \<Rightarrow> f w | None \<Rightarrow> w)"

fun Dev_Registry_UpdateAll :: "u32 \<Rightarrow> 'w SysModule_t list \<Rightarrow> 'w \<Rightarrow> 'w SysModule_t list \<times> 'w" where
  "Dev_Registry_UpdateAll tick [] w = ([], w)"
| "Dev_Registry_UpdateAll tick (m # ms) w =
     (let (m1, w1) =
        (case mod_task m of
           None \<Rightarrow> (m, w)
         | Some f \<Rightarrow>
             if mod_enabled m = 0 then (m, w)
             else if period_ms m = 0 \<or> tick - mod_last_tick m \<ge> ucast (period_ms m)
             then (m\<lparr>mod_last_tick := tick\<rparr>, f w) else (m, w));
        (ms1, w2) = Dev_Registry_UpdateAll tick ms w1
      in (m1 # ms1, w2))"

section \<open>The system object\<close>

abbreviation MAX_AXIS_NUM :: nat where "MAX_AXIS_NUM \<equiv> 2"

datatype AxisDir_t = ACT_DIR_NONE | ACT_DIR_COMBINE_IS_MOVE_OUT | ACT_DIR_COMBINE_IS_MOVE_IN

abbreviation SYS_STATE_INIT :: State_t where "SYS_STATE_INIT \<equiv> 0"
abbreviation SYS_STATE_IDLE :: State_t where "SYS_STATE_IDLE \<equiv> 1"
abbreviation SYS_STATE_RUN :: State_t where "SYS_STATE_RUN \<equiv> 2"
abbreviation SYS_STATE_FAULT :: State_t where "SYS_STATE_FAULT \<equiv> 3"
abbreviation SYS_STATE_EMERGENCY :: State_t where "SYS_STATE_EMERGENCY \<equiv> 4"
abbreviation SYS_STATE_STOP :: State_t where "SYS_STATE_STOP \<equiv> 5"

abbreviation SYS_ERR_NONE :: u32 where "SYS_ERR_NONE \<equiv> 0"
abbreviation SYS_ERR_OVER_CURRENT :: u32 where "SYS_ERR_OVER_CURRENT \<equiv> 1"
abbreviation SYS_ERR_VOLT_OVER :: u32 where "SYS_ERR_VOLT_OVER \<equiv> 2"
abbreviation SYS_ERR_VOLT_UNDER :: u32 where "SYS_ERR_VOLT_UNDER \<equiv> 3"
abbreviation SYS_ERR_ROD_LIMIT :: u32 where "SYS_ERR_ROD_LIMIT \<equiv> 4"

record Axis_t =
  ax_id :: u8
  ax_dir :: AxisDir_t
  sm_act :: StateMachine_t
  evt_act :: "u32 option"
  position :: RodPosition_t
  rod_state :: RodStateCtx_t

text \<open>The watch record \<open>g_monitor\<close>; its two pointers to the configurations are left out.\<close>

record Monitor_t =
  mon_sys_state :: State_t
  mon_error_code :: u32
  mon_sys_events :: u32
  mon_uptime_ms :: u32
  adc_raw_v :: u16
  adc_raw_i :: u16
  adc_mean_v :: f32
  adc_mean_i :: f32
  mon_bus_volt :: f32
  volt_status :: u8
  mon_cur_ma :: f32
  cur_status :: u8
  cur_over_ms :: u16
  mon_polarity :: PolarityState_t
  mon_rod_state :: u8
  rod_pos_mm :: f32
  rod_calibrated :: u8
  mon_volt_over_th :: f32
  mon_volt_under_th :: f32
  mon_volt_hyst :: f32
  mon_volt_recover_ms :: u32
  mon_cur_over_th :: f32
  mon_cur_over_window :: u16
  di_running :: u8
  di_period_ms :: u16
  led_running :: u8
  led_state :: u8
  led_period_ms :: u16

record sys_world =
  sys_sm :: StateMachine_t
  sys_evt :: "u32 option"
  error_code :: u32
  fault_bits :: u32
  sys_prev_state :: State_t
  axis :: "Axis_t list"
  sys_arb :: "gpio_motor arb_mod"
  pol :: polarity
  bv :: bus_voltage
  s_arb_cmd_send_fail_count :: u32
  s_overcur_dir :: PolarityState_t
  s_rod_save_pending :: u8
  s_rod_save_wait :: u8
  s_hw_started :: u8
  now :: u32
  isr_1ms_on :: bool
  adc :: adc_dev
  hm :: hall_motor
  us :: us_dev
  mon :: Monitor_t
  g_volt_cfg :: VoltCfg_t
  g_cur_cfg :: CurCfg_t
  led_pin :: bool

definition sys_ptr :: "sys_world sm_ptr" where
  "sys_ptr = \<lparr>sm_get = sys_sm, sm_put = (\<lambda>s w. w\<lparr>sys_sm := s\<rparr>)\<rparr>"

interpretation sys: sm_place sys_ptr
  by unfold_locales (simp_all add: sys_ptr_def)

definition Sys_Event_Send :: "u32 \<Rightarrow> sys_world \<Rightarrow> sys_world" where
  "Sys_Event_Send bits w =
     (case sys_evt w of Some ev \<Rightarrow> w\<lparr>sys_evt := Some (snd (rt_event_send ev bits))\<rparr> | None \<Rightarrow> w)"

definition axis_event :: "u32 \<Rightarrow> Axis_t \<Rightarrow> Axis_t" where
  "axis_event bits ax = (case evt_act ax of Some ev \<Rightarrow> ax\<lparr>evt_act := Some (snd (rt_event_send ev bits))\<rparr> | None \<Rightarrow> ax)"

definition Act_Event_Send :: "u32 \<Rightarrow> sys_world \<Rightarrow> sys_world" where
  "Act_Event_Send bits w = w\<lparr>axis := map (axis_event bits) (axis w)\<rparr>"

text \<open>\<open>Dev_Param_RodSaveRequest\<close> of \<^verbatim>\<open>dev_param_rod.c\<close>.\<close>

definition Dev_Param_RodSaveRequest :: "sys_world \<Rightarrow> sys_world" where
  "Dev_Param_RodSaveRequest w =
     (if s_rod_save_pending w = 0 then w\<lparr>s_rod_save_pending := 1, s_rod_save_wait := 0\<rparr> else w)"

section \<open>State entry functions\<close>

definition Sys_State_ArbSendCommand :: "u8 \<Rightarrow> u8 \<Rightarrow> u8 \<Rightarrow> u8 \<Rightarrow> u8 \<Rightarrow> bool \<Rightarrow> sys_world \<Rightarrow> sys_world" where
  "Sys_State_ArbSendCommand axis_id dev prio c duty urgent w =
     (let (ret, m) = Arb_SendCommand axis_id dev prio c duty urgent (now w) (sys_arb w); w1 = w\<lparr>sys_arb := m\<rparr>
      in if ret \<noteq> RT_EOK then w1\<lparr>s_arb_cmd_send_fail_count := s_arb_cmd_send_fail_count w + 1\<rparr> else w1)"

definition Sys_State_SetArbEnable :: "u8 \<Rightarrow> bool \<Rightarrow> sys_world \<Rightarrow> sys_world" where
  "Sys_State_SetArbEnable axis_id en w = w\<lparr>sys_arb := snd (Arb_SetEnable axis_id en (sys_arb w))\<rparr>"

definition Sys_State_ResyncActFromFault :: "sys_world \<Rightarrow> sys_world" where
  "Sys_State_ResyncActFromFault w0 =
     (let p = Polarity_GetState (pol w0);
          w = Sys_State_SetArbEnable 1 True (Sys_State_SetArbEnable 0 True w0)
      in if p = POLARITY_FWD then
           Sys_State_ArbSendCommand POLARITY_ARB_AXIS_ID DEV_ID_POWER_POS PRIO_POWER CMD_TYPE_RUN_FWD POLARITY_ARB_RUN_DUTY_PCT False w
         else if p = POLARITY_REV then
           Sys_State_ArbSendCommand POLARITY_ARB_AXIS_ID DEV_ID_POWER_NEG PRIO_POWER CMD_TYPE_RUN_REV POLARITY_ARB_RUN_DUTY_PCT False w
         else
           Sys_State_ArbSendCommand POLARITY_ARB_AXIS_ID DEV_ID_POWER_POS PRIO_POWER CMD_TYPE_CLEAR_ALLOW_REV 0 False
             (Sys_State_ArbSendCommand POLARITY_ARB_AXIS_ID DEV_ID_POWER_POS PRIO_POWER CMD_TYPE_CLEAR_ALLOW_FWD 0 False w))"

text \<open>The log line of a state entry first brings the timestamp up to date.\<close>

definition sys_state_log_enter :: "sys_world \<Rightarrow> sys_world" where
  "sys_state_log_enter w = w\<lparr>us := UsTimer_UpdateTimestamp (us w)\<rparr>"

text \<open>The start of the 1 ms heartbeat with \<open>Dev_Power_Isr1ms\<close> as its callback.\<close>

definition HcDrv_Timer_Start1ms :: "sys_world \<Rightarrow> sys_world" where
  "HcDrv_Timer_Start1ms w = w\<lparr>isr_1ms_on := True\<rparr>"

definition sys_enter_init :: "sys_world \<Rightarrow> sys_world" where "sys_enter_init w = sys_state_log_enter w"

definition sys_enter_idle :: "sys_world SysModule_t list \<Rightarrow> sys_world \<Rightarrow> sys_world" where
  "sys_enter_idle mods w0 =
     (let w = Dev_Registry_InitAll mods (sys_state_log_enter w0)
      in if s_hw_started w = 0
         then let w1 = HcDrv_Timer_Start1ms w in w1\<lparr>adc := Dev_Adc_Start (adc w1), s_hw_started := 1\<rparr>
         else w)"

definition sys_enter_run :: "sys_world \<Rightarrow> sys_world" where
  "sys_enter_run w0 =
     (let w1 = sys_state_log_enter w0;
          w = (if previous_state (sys_sm w1) = SYS_STATE_FAULT then Sys_State_ResyncActFromFault w1 else w1)
      in w\<lparr>axis := map (\<lambda>ax. if ax_dir ax \<noteq> ACT_DIR_NONE then axis_event EVT_ACT_WORK_ENABLE ax else ax) (axis w)\<rparr>)"

definition sys_enter_stop :: "sys_world \<Rightarrow> sys_world" where
  "sys_enter_stop w0 = (let w = sys_state_log_enter w0 in w\<lparr>axis := map (axis_event EVT_ACT_WORK_DISABLE) (axis w)\<rparr>)"

text \<open>The two emergency loops, one iteration each; they run over the axes 0 and 1.\<close>

definition fault_axis :: "u8 \<Rightarrow> sys_world \<Rightarrow> sys_world" where
  "fault_axis i w = Sys_State_ArbSendCommand i DEV_ID_EMERGENCY PRIO_EMERGENCY CMD_TYPE_EMERGENCY_STOP 0 True
     (Sys_State_SetArbEnable i False w)"

definition sys_enter_fault :: "sys_world \<Rightarrow> sys_world" where
  "sys_enter_fault w = fault_axis 1 (fault_axis 0 (sys_state_log_enter w))"

definition hold_axis :: "u8 \<Rightarrow> sys_world \<Rightarrow> sys_world" where
  "hold_axis i w = Sys_State_ArbSendCommand i DEV_ID_EMERGENCY PRIO_EMERGENCY CMD_TYPE_EMERGENCY_STOP 0 True
     (w\<lparr>axis := (axis w)[unat i := axis_event EVT_ACT_HOLD (axis w ! unat i)]\<rparr>)"

definition sys_enter_emergency :: "(Event_t \<Rightarrow> sys_world \<Rightarrow> sys_world) \<Rightarrow> sys_world \<Rightarrow> sys_world" where
  "sys_enter_emergency send w = send EVT_SYS_FAULT (hold_axis 1 (hold_axis 0 (sys_state_log_enter w)))"

section \<open>The tables\<close>

definition sys_jump :: "StateJumpTable_t list" where
  "sys_jump =
    [jump_row SYS_STATE_INIT EVT_SYS_INIT_DONE SYS_STATE_IDLE,
     jump_row SYS_STATE_IDLE EVT_SYS_CMD_WORK_ENABLE SYS_STATE_RUN,
     jump_row SYS_STATE_IDLE EVT_SYS_FAULT SYS_STATE_FAULT,
     jump_row SYS_STATE_IDLE EVT_SYS_EMERGENCY SYS_STATE_EMERGENCY,
     jump_row SYS_STATE_IDLE EVT_SYS_ST_WORK_ERROR SYS_STATE_STOP,
     jump_row SYS_STATE_IDLE EVT_SYS_VOLT_OVER SYS_STATE_EMERGENCY,
     jump_row SYS_STATE_IDLE EVT_SYS_VOLT_UNDER SYS_STATE_EMERGENCY,
     jump_row SYS_STATE_IDLE EVT_SYS_OVER_CURRENT SYS_STATE_EMERGENCY,
     jump_row SYS_STATE_IDLE EVT_SYS_ROD_LIMIT_FAULT SYS_STATE_EMERGENCY,
     jump_row SYS_STATE_RUN EVT_SYS_FAULT SYS_STATE_FAULT,
     jump_row SYS_STATE_RUN EVT_SYS_EMERGENCY SYS_STATE_EMERGENCY,
     jump_row SYS_STATE_RUN EVT_SYS_ST_WORK_ERROR SYS_STATE_STOP,
     jump_row SYS_STATE_RUN EVT_SYS_VOLT_OVER SYS_STATE_EMERGENCY,
     jump_row SYS_STATE_RUN EVT_SYS_VOLT_UNDER SYS_STATE_EMERGENCY,
     jump_row SYS_STATE_RUN EVT_SYS_OVER_CURRENT SYS_STATE_EMERGENCY,
     jump_row SYS_STATE_RUN EVT_SYS_ROD_LIMIT_FAULT SYS_STATE_EMERGENCY,
     jump_row SYS_STATE_STOP EVT_SYS_CMD_WORK_ENABLE SYS_STATE_RUN,
     jump_row SYS_STATE_STOP EVT_SYS_RECOVERY SYS_STATE_IDLE,
     jump_row SYS_STATE_FAULT EVT_SYS_RECOVERY SYS_STATE_IDLE,
     jump_row SYS_STATE_EMERGENCY EVT_SYS_FAULT SYS_STATE_FAULT,
     jump_row SYS_STATE_EMERGENCY EVT_SYS_RECOVERY SYS_STATE_IDLE]"

definition sys_func :: "sys_world SysModule_t list \<Rightarrow> (Event_t \<Rightarrow> sys_world \<Rightarrow> sys_world) \<Rightarrow> sys_world StateFuncTable_t list" where
  "sys_func mods send =
    [func_row SYS_STATE_INIT (Some sys_enter_init) None,
     func_row SYS_STATE_IDLE (Some (sys_enter_idle mods)) None,
     func_row SYS_STATE_RUN (Some sys_enter_run) None,
     func_row SYS_STATE_STOP (Some sys_enter_stop) None,
     func_row SYS_STATE_FAULT (Some sys_enter_fault) None,
     func_row SYS_STATE_EMERGENCY (Some (sys_enter_emergency send)) None]"

text \<open>
  \<open>StateMachine_SendEvent (&mySystem.sys_sm, event)\<close>. The entry function of EMERGENCY sends
  another event, so the call is recursive through the table; the depth is bounded by the first
  argument, and two levels are enough.
\<close>

fun sys_send :: "nat \<Rightarrow> sys_world SysModule_t list \<Rightarrow> Event_t \<Rightarrow> sys_world \<Rightarrow> sys_world" where
  "sys_send 0 mods event w = w"
| "sys_send (Suc n) mods event w = StateMachine_SendEvent (Some sys_ptr) (sys_func mods (sys_send n mods)) event w"

abbreviation SYS_DEPTH :: nat where "SYS_DEPTH \<equiv> 2"

definition Sys_Send :: "sys_world SysModule_t list \<Rightarrow> Event_t \<Rightarrow> sys_world \<Rightarrow> sys_world" where
  "Sys_Send mods event w = sys_send SYS_DEPTH mods event w"

definition Sys_State_Init :: "sys_world \<Rightarrow> sys_world" where
  "Sys_State_Init w = StateMachine_Init (Some sys_ptr) (w\<lparr>sys_sm := (sys_sm w)\<lparr>jump_table := sys_jump, init_state := SYS_STATE_INIT\<rparr>\<rparr>)"

section \<open>The dispatcher\<close>

abbreviation FB_OVER_CURRENT :: u32 where "FB_OVER_CURRENT \<equiv> 1"
abbreviation FB_VOLT_OVER :: u32 where "FB_VOLT_OVER \<equiv> 2"
abbreviation FB_VOLT_UNDER :: u32 where "FB_VOLT_UNDER \<equiv> 4"
abbreviation FB_ROD_LIMIT :: u32 where "FB_ROD_LIMIT \<equiv> 8"

definition save_prev :: "sys_world \<Rightarrow> sys_world" where
  "save_prev w = (if fault_bits w = 0 then w\<lparr>sys_prev_state := StateMachine_GetState (Some sys_ptr) w\<rparr> else w)"

definition disp_over_current :: "sys_world SysModule_t list \<Rightarrow> sys_world \<Rightarrow> sys_world" where
  "disp_over_current mods w0 =
     (let (r, ctx) = RodCalib_OnOverCurrent (sys_arb w0) (position (axis w0 ! 0)) (rod_state (axis w0 ! 0));
          w = w0\<lparr>axis := (axis w0)[0 := (axis w0 ! 0)\<lparr>rod_state := ctx\<rparr>]\<rparr>
      in case r of
           ROD_CALIB_CALIB_MAX \<Rightarrow>
             Sys_State_ArbSendCommand POLARITY_ARB_AXIS_ID DEV_ID_POWER_POS PRIO_POWER CMD_TYPE_CLEAR_ALLOW_FWD 0 True w
         | ROD_CALIB_CALIB_MIN \<Rightarrow>
             Sys_State_ArbSendCommand POLARITY_ARB_AXIS_ID DEV_ID_POWER_POS PRIO_POWER CMD_TYPE_CLEAR_ALLOW_REV 0 True w
         | ROD_CALIB_IGNORED \<Rightarrow> w
         | _ \<Rightarrow>
             let w1 = save_prev (w\<lparr>s_overcur_dir := (if r = ROD_CALIB_FAULT_FWD then POLARITY_FWD else POLARITY_REV),
                   error_code := SYS_ERR_OVER_CURRENT\<rparr>)
             in Sys_Send mods EVT_SYS_OVER_CURRENT (w1\<lparr>fault_bits := fault_bits w1 OR FB_OVER_CURRENT\<rparr>))"

definition disp_rod_limit :: "sys_world SysModule_t list \<Rightarrow> sys_world \<Rightarrow> sys_world" where
  "disp_rod_limit mods w =
     Sys_Send mods EVT_SYS_ROD_LIMIT_FAULT (w\<lparr>error_code := SYS_ERR_ROD_LIMIT, fault_bits := fault_bits w OR FB_ROD_LIMIT\<rparr>)"

definition disp_volt_over :: "sys_world SysModule_t list \<Rightarrow> sys_world \<Rightarrow> sys_world" where
  "disp_volt_over mods w0 =
     (let w = save_prev (w0\<lparr>error_code := SYS_ERR_VOLT_OVER\<rparr>)
      in Sys_Send mods EVT_SYS_VOLT_OVER (w\<lparr>fault_bits := fault_bits w OR FB_VOLT_OVER\<rparr>))"

definition disp_volt_under :: "sys_world SysModule_t list \<Rightarrow> sys_world \<Rightarrow> sys_world" where
  "disp_volt_under mods w0 =
     (let w = save_prev (w0\<lparr>error_code := SYS_ERR_VOLT_UNDER\<rparr>);
          w1 = w\<lparr>fault_bits := fault_bits w OR FB_VOLT_UNDER\<rparr>;
          w2 = (if BusVoltage_HasSeenValid (bv w1) \<noteq> 0 then Dev_Param_RodSaveRequest w1 else w1)
      in Sys_Send mods EVT_SYS_VOLT_UNDER w2)"

definition disp_recovery :: "sys_world SysModule_t list \<Rightarrow> sys_world \<Rightarrow> sys_world" where
  "disp_recovery mods w = Sys_Send mods EVT_SYS_RECOVERY (w\<lparr>error_code := SYS_ERR_NONE, fault_bits := 0\<rparr>)"

text \<open>Recovery once no fault is left, back to RUN if that was the state before the fault.\<close>

definition auto_recover :: "sys_world SysModule_t list \<Rightarrow> sys_world \<Rightarrow> sys_world" where
  "auto_recover mods w0 =
     (let w = Sys_Send mods EVT_SYS_RECOVERY (w0\<lparr>error_code := SYS_ERR_NONE\<rparr>)
      in if sys_prev_state w = SYS_STATE_RUN then Sys_Send mods EVT_SYS_CMD_WORK_ENABLE w else w)"

definition disp_volt_normal :: "sys_world SysModule_t list \<Rightarrow> sys_world \<Rightarrow> sys_world" where
  "disp_volt_normal mods w0 =
     (let w = w0\<lparr>fault_bits := fault_bits w0 AND NOT (FB_VOLT_OVER OR FB_VOLT_UNDER)\<rparr>
      in if fault_bits w = 0 then auto_recover mods w else w)"

definition disp_polarity :: "sys_world SysModule_t list \<Rightarrow> sys_world \<Rightarrow> sys_world" where
  "disp_polarity mods w0 =
     (let cur = Polarity_GetState (pol w0) in
      if fault_bits w0 AND FB_OVER_CURRENT \<noteq> 0 \<and> s_overcur_dir w0 \<noteq> POLARITY_UNKNOWN \<and> cur \<noteq> s_overcur_dir w0 then
        let w = w0\<lparr>fault_bits := fault_bits w0 AND NOT FB_OVER_CURRENT\<rparr>
        in if fault_bits w = 0 then auto_recover mods w else w
      else w0)"

definition when_bit :: "u32 \<Rightarrow> u32 \<Rightarrow> (sys_world \<Rightarrow> sys_world) \<Rightarrow> sys_world \<Rightarrow> sys_world" where
  "when_bit bits e f w = (if bits AND e \<noteq> 0 then f w else w)"

definition Sys_State_Dispatch :: "sys_world SysModule_t list \<Rightarrow> u32 \<Rightarrow> sys_world \<Rightarrow> sys_world" where
  "Sys_State_Dispatch mods bits w0 =
     (let w1 = when_bit bits EVT_SYS_OVER_CURRENT (disp_over_current mods) w0;
          w2 = when_bit bits EVT_SYS_ROD_LIMIT_FAULT (disp_rod_limit mods) w1;
          w3 = when_bit bits EVT_SYS_VOLT_OVER (disp_volt_over mods) w2;
          w4 = when_bit bits EVT_SYS_VOLT_UNDER (disp_volt_under mods) w3;
          w5 = when_bit bits EVT_SYS_FAULT (Sys_Send mods EVT_SYS_FAULT) w4;
          w6 = when_bit bits EVT_SYS_EMERGENCY (Sys_Send mods EVT_SYS_EMERGENCY) w5;
          w7 = when_bit bits EVT_SYS_RECOVERY (disp_recovery mods) w6;
          w8 = when_bit bits EVT_SYS_VOLT_NORMAL (disp_volt_normal mods) w7;
          w9 = when_bit bits EVT_SYS_POLARITY_CHG (disp_polarity mods) w8;
          w10 = when_bit bits EVT_SYS_INIT_DONE (Sys_Send mods EVT_SYS_INIT_DONE) w9;
          w11 = when_bit bits EVT_SYS_CMD_WORK_ENABLE (Sys_Send mods EVT_SYS_CMD_WORK_ENABLE) w10
      in when_bit bits EVT_SYS_ST_WORK_ERROR (Sys_Send mods EVT_SYS_ST_WORK_ERROR) w11)"

definition Sys_State_Recover :: "sys_world \<Rightarrow> sys_world" where
  "Sys_State_Recover w0 =
     (let w = Sys_Event_Send EVT_SYS_RECOVERY (w0\<lparr>error_code := SYS_ERR_NONE, fault_bits := 0\<rparr>)
      in if sys_prev_state w = SYS_STATE_RUN then Sys_Event_Send EVT_SYS_CMD_WORK_ENABLE w else w)"

text \<open>One round of the thread; \<open>None\<close> while no awaited event is pending.\<close>

definition sys_sm_thread_step :: "sys_world SysModule_t list \<Rightarrow> sys_world \<Rightarrow> sys_world option" where
  "sys_sm_thread_step mods w =
     (case sys_evt w of
        None \<Rightarrow> None
      | Some ev \<Rightarrow>
          (case rt_event_recv_or_clear ev SYS_SM_WAIT_EVENTS of
             None \<Rightarrow> None
           | Some (e, ev') \<Rightarrow> Some (Sys_State_Dispatch mods e (w\<lparr>sys_evt := Some ev'\<rparr>))))"

end
