(* ===== verification/Flash.thy ===== *)
theory Flash
  imports Prelude
begin

text \<open>
  The on-chip flash: the driver \<^verbatim>\<open>Adp/hc32_drv_flash.c\<close> and the functions of the vendor's
  \<^verbatim>\<open>hc32_ll_efm.c\<close> it calls. The state is the flash array, one word per word address, and the
  registers of the flash controller the code writes. What the controller itself does (on a store
  into the array, between two reads of the status register, on a write to the clear register) and
  the clock frequency are arguments; the locale \<open>flash_part\<close> names the documented behaviour, and
  the theory \<open>Flash_Laws\<close> interprets it. Log output is left out.
\<close>

section \<open>The controller\<close>

record efm =
  fl_mem :: "u32 \<Rightarrow> u32"
  FSR :: u32
  FAPRT_open :: bool
  PEMODE :: bool
  PEMOD :: u32
  BUSHLDCTL :: u32
  FRMC :: u32

record efm_hw =
  hw_store :: "efm \<Rightarrow> u32 \<Rightarrow> u32 \<Rightarrow> efm"
  hw_poll :: "efm \<Rightarrow> efm"
  hw_fsclr :: "u32 \<Rightarrow> u32 \<Rightarrow> u32"
  hclk :: nat

abbreviation LL_OK :: int where "LL_OK \<equiv> 0"
abbreviation LL_ERR :: int where "LL_ERR \<equiv> - 1"
abbreviation LL_ERR_NOT_RDY :: int where "LL_ERR_NOT_RDY \<equiv> - 5"
abbreviation LL_ERR_TIMEOUT :: int where "LL_ERR_TIMEOUT \<equiv> - 8"

abbreviation EFM_FLAG_PEWERR :: u32 where "EFM_FLAG_PEWERR \<equiv> 0x01"
abbreviation EFM_FLAG_PEPRTERR :: u32 where "EFM_FLAG_PEPRTERR \<equiv> 0x02"
abbreviation EFM_FLAG_PGSZERR :: u32 where "EFM_FLAG_PGSZERR \<equiv> 0x04"
abbreviation EFM_FLAG_PGMISMTCH :: u32 where "EFM_FLAG_PGMISMTCH \<equiv> 0x08"
abbreviation EFM_FLAG_OPTEND :: u32 where "EFM_FLAG_OPTEND \<equiv> 0x10"
abbreviation EFM_FLAG_COLERR :: u32 where "EFM_FLAG_COLERR \<equiv> 0x20"
abbreviation EFM_FLAG_RDY :: u32 where "EFM_FLAG_RDY \<equiv> 0x100"
abbreviation EFM_FLAG_ALL :: u32 where "EFM_FLAG_ALL \<equiv> 0x13F"

abbreviation EFM_MD_READONLY :: u32 where "EFM_MD_READONLY \<equiv> 0x00"
abbreviation EFM_MD_PGM_SINGLE :: u32 where "EFM_MD_PGM_SINGLE \<equiv> 0x10"
abbreviation EFM_MD_PGM_READBACK :: u32 where "EFM_MD_PGM_READBACK \<equiv> 0x20"
abbreviation EFM_MD_ERASE_SECTOR :: u32 where "EFM_MD_ERASE_SECTOR \<equiv> 0x40"
abbreviation EFM_BUS_HOLD :: u32 where "EFM_BUS_HOLD \<equiv> 0"
abbreviation EFM_CACHE_ALL :: u32 where "EFM_CACHE_ALL \<equiv> 0x01010000"

section \<open>Vendor functions\<close>

definition EFM_GetStatus :: "u32 \<Rightarrow> efm \<Rightarrow> bool" where
  "EFM_GetStatus flag e \<longleftrightarrow> flag = FSR e AND flag"

definition EFM_ClearStatus :: "efm_hw \<Rightarrow> u32 \<Rightarrow> efm \<Rightarrow> efm" where
  "EFM_ClearStatus H flag e = e\<lparr>FSR := hw_fsclr H (FSR e) flag\<rparr>"

definition EFM_SetBusStatus :: "u32 \<Rightarrow> efm \<Rightarrow> efm" where "EFM_SetBusStatus status e = e\<lparr>BUSHLDCTL := status\<rparr>"
definition EFM_FWMC_Cmd :: "bool \<Rightarrow> efm \<Rightarrow> efm" where "EFM_FWMC_Cmd state e = e\<lparr>PEMODE := state\<rparr>"
definition EFM_REG_Unlock :: "efm \<Rightarrow> efm" where "EFM_REG_Unlock e = e\<lparr>FAPRT_open := True\<rparr>"
definition EFM_REG_Lock :: "efm \<Rightarrow> efm" where "EFM_REG_Lock e = e\<lparr>FAPRT_open := False\<rparr>"

text \<open>
  The polling loop; its last argument counts down the polls left, so the call with \<open>u32Time\<close>
  gives up on the poll after \<open>u32Time\<close> unsuccessful ones.
\<close>

fun EFM_WaitFlag :: "efm_hw \<Rightarrow> u32 \<Rightarrow> nat \<Rightarrow> efm \<Rightarrow> int \<times> efm" where
  "EFM_WaitFlag H flag 0 e = (if EFM_GetStatus flag e then LL_OK else LL_ERR_TIMEOUT, e)"
| "EFM_WaitFlag H flag (Suc n) e =
     (if EFM_GetStatus flag e then (LL_OK, e) else EFM_WaitFlag H flag n (hw_poll H e))"

text \<open>
  The common frame of the three operations: clear the flags, switch the cache off, set the mode,
  store, wait for the ready flag; and the tail that returns to read-only mode with the cache back.
\<close>

definition efm_start :: "efm_hw \<Rightarrow> u32 \<Rightarrow> u32 \<Rightarrow> u32 \<Rightarrow> nat \<Rightarrow> efm \<Rightarrow> int \<times> efm" where
  "efm_start H md addr data time e0 =
     (let e1 = EFM_ClearStatus H EFM_FLAG_ALL e0;
          e2 = e1\<lparr>FRMC := FRMC e1 AND NOT EFM_CACHE_ALL, PEMOD := md\<rparr>;
          (ret, e3) = EFM_WaitFlag H EFM_FLAG_RDY time (hw_store H e2 addr data)
      in (if ret = LL_ERR_TIMEOUT then LL_ERR_NOT_RDY else LL_OK, e3))"

definition efm_finish :: "efm_hw \<Rightarrow> u32 \<Rightarrow> efm \<Rightarrow> efm" where
  "efm_finish H cache e0 =
     (let e = EFM_ClearStatus H EFM_FLAG_OPTEND e0
      in e\<lparr>PEMOD := EFM_MD_READONLY, FRMC := (FRMC e AND NOT EFM_CACHE_ALL) OR (cache AND EFM_CACHE_ALL)\<rparr>)"

definition EFM_ProgramWord :: "efm_hw \<Rightarrow> u32 \<Rightarrow> u32 \<Rightarrow> efm \<Rightarrow> int \<times> efm" where
  "EFM_ProgramWord H addr data e0 =
     (let (ret, e) = efm_start H EFM_MD_PGM_SINGLE addr data (hclk H div 20000) e0
      in (ret, efm_finish H (FRMC e0 AND EFM_CACHE_ALL) e))"

definition EFM_ProgramWordReadBack :: "efm_hw \<Rightarrow> u32 \<Rightarrow> u32 \<Rightarrow> efm \<Rightarrow> int \<times> efm" where
  "EFM_ProgramWordReadBack H addr data e0 =
     (let (ret0, e) = efm_start H EFM_MD_PGM_READBACK addr data (hclk H div 20000) e0;
          (ret, e1) = (if EFM_GetStatus EFM_FLAG_PGMISMTCH e then (LL_ERR, EFM_ClearStatus H EFM_FLAG_PGMISMTCH e) else (ret0, e))
      in (ret, efm_finish H (FRMC e0 AND EFM_CACHE_ALL) e1))"

definition EFM_SectorErase :: "efm_hw \<Rightarrow> u32 \<Rightarrow> efm \<Rightarrow> int \<times> efm" where
  "EFM_SectorErase H addr e0 =
     (let (ret, e) = efm_start H EFM_MD_ERASE_SECTOR addr 0 (hclk H div 50) e0
      in (ret, efm_finish H (FRMC e0 AND EFM_CACHE_ALL) e))"

section \<open>The driver\<close>

datatype HC32FLASH_STATUS =
  HC32FLASH_OK | HC32FLASH_BUSY | HC32FLASH_COLERR | HC32FLASH_PGMISMTCH | HC32FLASH_PGAERR | HC32FLASH_WPRERR | HC32FLASH_PEWERR

definition MapEFMStatusToHC32 :: "int \<Rightarrow> efm \<Rightarrow> HC32FLASH_STATUS" where
  "MapEFMStatusToHC32 efmStatus e =
     (if efmStatus = LL_OK then HC32FLASH_OK
      else if efmStatus = LL_ERR_NOT_RDY then HC32FLASH_BUSY
      else if efmStatus = LL_ERR_TIMEOUT then HC32FLASH_BUSY
      else if EFM_GetStatus EFM_FLAG_PEPRTERR e then HC32FLASH_WPRERR
      else if EFM_GetStatus EFM_FLAG_PGSZERR e then HC32FLASH_PGAERR
      else if EFM_GetStatus EFM_FLAG_PEWERR e then HC32FLASH_PEWERR
      else if EFM_GetStatus EFM_FLAG_COLERR e then HC32FLASH_COLERR
      else if EFM_GetStatus EFM_FLAG_PGMISMTCH e then HC32FLASH_PGMISMTCH
      else HC32FLASH_OK)"

definition HC32FLASH_GetStatus :: "efm \<Rightarrow> HC32FLASH_STATUS" where
  "HC32FLASH_GetStatus e =
     (if \<not> EFM_GetStatus EFM_FLAG_RDY e then HC32FLASH_BUSY
      else if EFM_GetStatus EFM_FLAG_PEPRTERR e then HC32FLASH_WPRERR
      else if EFM_GetStatus EFM_FLAG_PGSZERR e then HC32FLASH_PGAERR
      else if EFM_GetStatus EFM_FLAG_PEWERR e then HC32FLASH_PEWERR
      else if EFM_GetStatus EFM_FLAG_COLERR e then HC32FLASH_COLERR
      else if EFM_GetStatus EFM_FLAG_PGMISMTCH e then HC32FLASH_PGMISMTCH
      else HC32FLASH_OK)"

definition HC32FLASH_Unlock :: "efm \<Rightarrow> efm" where
  "HC32FLASH_Unlock e = EFM_SetBusStatus EFM_BUS_HOLD (EFM_FWMC_Cmd True (EFM_REG_Unlock e))"

definition HC32FLASH_Lock :: "efm \<Rightarrow> efm" where
  "HC32FLASH_Lock e = EFM_REG_Lock (EFM_FWMC_Cmd False e)"

definition HC32FLASH_EraseSector :: "efm_hw \<Rightarrow> u32 \<Rightarrow> efm \<Rightarrow> HC32FLASH_STATUS \<times> efm" where
  "HC32FLASH_EraseSector H addr e0 =
     (let (ret, e) = EFM_SectorErase H addr (EFM_ClearStatus H EFM_FLAG_ALL (HC32FLASH_Unlock e0));
          status = MapEFMStatusToHC32 ret e
      in (status, HC32FLASH_Lock (EFM_ClearStatus H EFM_FLAG_ALL e)))"

definition HC32FLASH_WritedWord_NoCheck :: "efm_hw \<Rightarrow> u32 \<Rightarrow> u32 \<Rightarrow> efm \<Rightarrow> HC32FLASH_STATUS \<times> efm" where
  "HC32FLASH_WritedWord_NoCheck H addr data e0 =
     (let (ret, e) = EFM_ProgramWord H addr data (EFM_ClearStatus H EFM_FLAG_ALL (HC32FLASH_Unlock e0));
          status = MapEFMStatusToHC32 ret e
      in (status, HC32FLASH_Lock (EFM_ClearStatus H EFM_FLAG_ALL e)))"

definition HC32FLASH_ReaddWord :: "u32 \<Rightarrow> efm \<Rightarrow> u32" where "HC32FLASH_ReaddWord addr e = fl_mem e addr"

definition HC32FLASH_WritedWord_Check :: "efm_hw \<Rightarrow> u32 \<Rightarrow> u32 \<Rightarrow> efm \<Rightarrow> HC32FLASH_STATUS \<times> efm" where
  "HC32FLASH_WritedWord_Check H addr data e0 =
     (let (ret, e) = EFM_ProgramWordReadBack H addr data (EFM_ClearStatus H EFM_FLAG_ALL (HC32FLASH_Unlock e0));
          status0 = MapEFMStatusToHC32 ret e;
          status = (if status0 = HC32FLASH_OK \<and> HC32FLASH_ReaddWord addr e \<noteq> data then HC32FLASH_PGMISMTCH else status0)
      in (status, HC32FLASH_Lock (EFM_ClearStatus H EFM_FLAG_ALL e)))"

end
