(* ===== verification/Crc.thy ===== *)
theory Crc
  imports Prelude
begin

text \<open>
  The checksum of the parameter records, \<open>CalcParamCRC\<close> of \<^verbatim>\<open>Utils/param_manager.c\<close>: a reflected
  CRC computed bit by bit. It is shown to be the remainder of the polynomial division that defines
  CRC-32/ISO-HDLC, and to tell apart any two records that differ in one word.
\<close>

section \<open>The code\<close>

definition crc_bit :: "u32 \<Rightarrow> u32" where
  "crc_bit crc = drop_bit 1 crc XOR (0xEDB88320 AND (0 - (crc AND 1)))"

definition crc_byte :: "u8 \<Rightarrow> u32 \<Rightarrow> u32" where
  "crc_byte b crc = (crc_bit ^^ 8) (crc XOR ucast b)"

text \<open>The bytes of a word in memory order: the core is little-endian.\<close>

definition le_bytes :: "u32 \<Rightarrow> u8 list" where
  "le_bytes w = [ucast w, ucast (drop_bit 8 w), ucast (drop_bit 16 w), ucast (drop_bit 24 w)]"

definition bytes_of :: "u32 list \<Rightarrow> u8 list" where "bytes_of ws = concat (map le_bytes ws)"

definition CalcParamCRC :: "u32 list option \<Rightarrow> u32 \<Rightarrow> u32 \<Rightarrow> u32" where
  "CalcParamCRC pBuf paramSize checksumOffset =
     (case pBuf of
        None \<Rightarrow> 0
      | Some buf \<Rightarrow>
          if checksumOffset > paramSize then 0
          else fold crc_byte (take (unat checksumOffset) (bytes_of buf)) 0xFFFFFFFF XOR 0xFFFFFFFF)"

section \<open>The shift register\<close>

lemma and_neg_lsb: "P AND (0 - (c AND 1)) = (if bit c 0 then P else 0)" for c P :: u32
  by (cases "bit c 0") (simp_all add: and_one_eq bit_0 even_iff_mod_2_eq_zero)

lemma crc_bit_alt: "crc_bit c = drop_bit 1 c XOR (if bit c 0 then 0xEDB88320 else 0)"
  by (simp only: crc_bit_def and_neg_lsb)

lemma crc_bit_xor: "crc_bit (x XOR y) = crc_bit x XOR crc_bit y"
  by (auto simp: crc_bit_alt bit_xor_iff drop_bit_xor xor.assoc xor.left_commute xor.commute)

lemma crc_bit_top: "bit (crc_bit x) 31 = bit x 0"
proof -
  have "\<not> bit x 32" by (auto dest: bit_imp_le_length)
  then show ?thesis by (simp add: crc_bit_alt bit_xor_iff bit_drop_bit_eq)
qed

lemma crc_bit_zero:
  assumes "crc_bit x = 0"
  shows "x = 0"
proof (rule bit_word_eqI)
  fix n
  have e: "\<not> bit x 0" using crc_bit_top [of x] assms by simp
  then have "drop_bit 1 x = 0" using assms by (simp add: crc_bit_alt)
  then have "\<not> bit (drop_bit 1 x) m" for m by simp
  then show "bit x n = bit 0 n" using e by (cases n) (simp_all add: bit_drop_bit_eq)
qed

lemma crc_pow_xor: "(crc_bit ^^ n) (x XOR y) = (crc_bit ^^ n) x XOR (crc_bit ^^ n) y"
  by (induction n) (simp_all add: crc_bit_xor)

lemma crc_pow_zero: "(crc_bit ^^ n) x = 0 \<Longrightarrow> x = 0"
  by (induction n) (auto dest: crc_bit_zero)

lemma xor_zero_eq: "x XOR y = 0 \<Longrightarrow> x = y" for x y :: u32
proof -
  assume "x XOR y = 0"
  moreover have "x = (x XOR y) XOR y" by (simp add: xor.assoc)
  ultimately show "x = y" by simp
qed

lemma xor_cancel_right: "x XOR z = y XOR z \<Longrightarrow> x = y" for x y z :: u32
  by (metis xor.assoc xor.right_neutral xor_self_eq)

lemma crc_pow_inj: "(crc_bit ^^ n) x = (crc_bit ^^ n) y \<longleftrightarrow> x = y"
  using crc_pow_zero [of n "x XOR y"] xor_zero_eq [of x y] by (auto simp: crc_pow_xor)

text \<open>Feeding the bits of a word one by one is the same as feeding them at once.\<close>

definition crc_in :: "bool \<Rightarrow> u32 \<Rightarrow> u32" where
  "crc_in b c = crc_bit (c XOR of_bool b)"

lemma crc_bit_push: "n < 31 \<Longrightarrow> crc_bit (push_bit (Suc n) (of_bool b)) = push_bit n (of_bool b)"
  by (rule bit_word_eqI) (auto simp: crc_bit_alt bit_simps)

lemma crc_pow_push: "n < 32 \<Longrightarrow> (crc_bit ^^ n) (push_bit n (of_bool b)) = of_bool b"
proof (induction n)
  case (Suc n)
  have "(crc_bit ^^ Suc n) (push_bit (Suc n) (of_bool b)) = (crc_bit ^^ n) (crc_bit (push_bit (Suc n) (of_bool b)))"
    by (simp only: funpow_Suc_right o_apply)
  also have "\<dots> = (crc_bit ^^ n) (push_bit n (of_bool b))"
    using Suc.prems by (simp only: crc_bit_push)
  finally show ?case using Suc by simp
qed simp

lemma take_bit_Suc_xor: "take_bit (Suc n) x = take_bit n x XOR push_bit n (of_bool (bit x n))" for x :: u32
  by (rule bit_word_eqI) (auto simp: bit_simps less_Suc_eq)

lemma crc_bits: "n \<le> 32 \<Longrightarrow> fold crc_in (map (bit x) [0..<n]) c = (crc_bit ^^ n) (c XOR take_bit n x)" for x :: u32
proof (induction n)
  case (Suc n)
  have "fold crc_in (map (bit x) [0..<Suc n]) c = crc_in (bit x n) ((crc_bit ^^ n) (c XOR take_bit n x))"
    using Suc by simp
  also have "\<dots> = crc_bit ((crc_bit ^^ n) (c XOR take_bit n x) XOR (crc_bit ^^ n) (push_bit n (of_bool (bit x n))))"
    using Suc.prems by (simp only: crc_in_def crc_pow_push)
  also have "\<dots> = (crc_bit ^^ Suc n) (c XOR take_bit (Suc n) x)"
    by (simp add: crc_pow_xor [symmetric] take_bit_Suc_xor xor.assoc)
  finally show ?case .
qed simp

section \<open>Bytes and words\<close>

definition bits8 :: "u8 \<Rightarrow> bool list" where "bits8 b = map (bit b) [0..<8]"

lemma crc_byte_bits: "crc_byte b c = fold crc_in (bits8 b) c"
proof -
  have "take_bit 8 (ucast b :: u32) = ucast b"
    by (rule bit_word_eqI) (auto simp: bit_simps dest: bit_imp_le_length)
  moreover have "bits8 b = map (bit (ucast b :: u32)) [0..<8]"
    by (auto simp: bits8_def bit_simps)
  ultimately show ?thesis using crc_bits [of 8 "ucast b" c] by (simp add: crc_byte_def)
qed

lemma crc_bytes_bits: "fold crc_byte bs c = fold crc_in (concat (map bits8 bs)) c"
  by (induction bs arbitrary: c) (simp_all add: crc_byte_bits)

lemma le_bytes_bits: "concat (map bits8 (le_bytes w)) = map (bit w) [0..<32]"
proof -
  have "bits8 (ucast (drop_bit k w)) = map (bit w) [k..<k + 8]" if "k \<le> 24" for k
    using that by (intro nth_equalityI) (auto simp: bits8_def bit_simps add.commute)
  from this [of 0] this [of 8] this [of 16] this [of 24] show ?thesis
    by (simp add: le_bytes_def upt_conv_Cons numeral_eq_Suc)
qed

definition crc_word :: "u32 \<Rightarrow> u32 \<Rightarrow> u32" where "crc_word w c = (crc_bit ^^ 32) (c XOR w)"

lemma crc_le_bytes: "fold crc_byte (le_bytes w) c = crc_word w c"
  using crc_bits [of 32 w c] by (simp add: crc_bytes_bits le_bytes_bits crc_word_def take_bit_word_eq_self)

lemma bytes_of_simps [simp]: "bytes_of [] = []" "bytes_of (w # ws) = le_bytes w @ bytes_of ws"
  by (simp_all add: bytes_of_def)

lemma length_le_bytes [simp]: "length (le_bytes w) = 4" by (simp add: le_bytes_def)

lemma length_bytes_of [simp]: "length (bytes_of ws) = 4 * length ws"
  by (induction ws) simp_all

lemma take_bytes_of: "take (4 * n) (bytes_of ws) = bytes_of (take n ws)"
proof (induction ws arbitrary: n)
  case (Cons w ws)
  show ?case by (cases n) (simp_all add: Cons)
qed simp

lemma crc_words: "fold crc_byte (bytes_of ws) c = fold crc_word ws c"
  by (induction ws arbitrary: c) (simp_all add: crc_le_bytes)

lemma CalcParamCRC_words:
  "off \<le> sz \<Longrightarrow> unat off = 4 * n \<Longrightarrow> CalcParamCRC (Some buf) sz off = fold crc_word (take n buf) 0xFFFFFFFF XOR 0xFFFFFFFF"
  by (auto simp: CalcParamCRC_def take_bytes_of crc_words)

section \<open>Polynomial division\<close>

text \<open>
  The reference: a polynomial over the field of two elements is the list of its coefficients,
  highest first. One step of the long division removes the leading coefficient, subtracting the
  generator when it is one. The generator is that of CRC-32, \<open>0x104C11DB7\<close>, without its leading
  coefficient.
\<close>

fun xor_pre :: "bool list \<Rightarrow> bool list \<Rightarrow> bool list" where
  "xor_pre (r # rs) (x # xs) = (r \<noteq> x) # xor_pre rs xs"
| "xor_pre _ xs = xs"

definition crc32_gen :: "bool list" where
  "crc32_gen = map (\<lambda>i. bit (0x04C11DB7 :: u32) (31 - i)) [0..<32]"

fun poly_mod :: "nat \<Rightarrow> bool list \<Rightarrow> bool list" where
  "poly_mod 0 xs = xs"
| "poly_mod (Suc n) [] = []"
| "poly_mod (Suc n) (b # xs) = poly_mod n (if b then xor_pre crc32_gen xs else xs)"

text \<open>The register as a list of coefficients: bit 0 is the highest.\<close>

definition reg_bits :: "u32 \<Rightarrow> bool list" where "reg_bits c = map (bit c) [0..<32]"

lemma length_xor_pre [simp]: "length (xor_pre rs xs) = length xs"
  by (induction rs xs rule: xor_pre.induct) auto

lemma nth_xor_pre: "i < length xs \<Longrightarrow> xor_pre rs xs ! i = (if i < length rs then rs ! i \<noteq> xs ! i else xs ! i)"
  by (induction rs xs arbitrary: i rule: xor_pre.induct) (auto simp: nth_Cons split: nat.splits)

lemma crc32_gen_reg: "crc32_gen = reg_bits 0xEDB88320"
  by code_simp

lemma gen_nth: "i < 32 \<Longrightarrow> crc32_gen ! i = bit (0xEDB88320 :: u32) i"
  by (simp only: crc32_gen_reg reg_bits_def nth_map length_upt nth_upt) simp

lemma length_gen [simp]: "length crc32_gen = 32" by (simp add: crc32_gen_def)

lemma length_reg_bits [simp]: "length (reg_bits c) = 32" by (simp add: reg_bits_def)

lemma nth_reg_bits: "i < 32 \<Longrightarrow> reg_bits c ! i = bit c i" by (simp add: reg_bits_def)

lemma reg_step:
  assumes "32 \<le> length xs"
  shows "(if hd (reg_bits c) \<noteq> b then xor_pre crc32_gen (xor_pre (tl (reg_bits c)) xs) else xor_pre (tl (reg_bits c)) xs)
       = xor_pre (reg_bits (crc_in b c)) xs"
proof -
  have hd: "hd (reg_bits c) = bit c 0" by (simp add: hd_conv_nth nth_reg_bits flip: length_greater_0_conv)
  have tl: "tl (reg_bits c) ! i = bit c (Suc i)" if "i < 31" for i
    using that by (simp add: nth_tl nth_reg_bits)
  have step: "bit (crc_in b c) i = ((i < 31 \<and> bit c (Suc i)) \<noteq> ((bit c 0 \<noteq> b) \<and> bit (0xEDB88320 :: u32) i))" if "i < 32" for i
  proof -
    have "bit c (Suc i) \<Longrightarrow> i < 31" by (auto dest: bit_imp_le_length)
    then show ?thesis
      using that unfolding crc_in_def crc_bit_alt by (auto simp: bit_xor_iff bit_drop_bit_eq bit_of_bool_iff)
  qed
  show ?thesis
  proof (rule nth_equalityI)
    fix i assume "i < length (if hd (reg_bits c) \<noteq> b then xor_pre crc32_gen (xor_pre (tl (reg_bits c)) xs) else xor_pre (tl (reg_bits c)) xs)"
    then have i: "i < length xs" by (simp split: if_splits)
    consider "i < 31" | "i = 31" | "32 \<le> i" by linarith
    then show "(if hd (reg_bits c) \<noteq> b then xor_pre crc32_gen (xor_pre (tl (reg_bits c)) xs) else xor_pre (tl (reg_bits c)) xs) ! i
      = xor_pre (reg_bits (crc_in b c)) xs ! i"
      using i by cases (auto simp: nth_xor_pre hd tl gen_nth nth_reg_bits step)
  qed simp
qed

lemma division_register:
  "poly_mod (length m) (xor_pre (reg_bits c) (m @ replicate 32 False)) = reg_bits (fold crc_in m c)"
proof (induction m arbitrary: c)
  case Nil
  show ?case by (simp, rule nth_equalityI) (simp_all add: nth_xor_pre reg_bits_def)
next
  case (Cons b m)
  have "xor_pre (reg_bits c) ((b # m) @ replicate 32 False) =
    (hd (reg_bits c) \<noteq> b) # xor_pre (tl (reg_bits c)) (m @ replicate 32 False)"
    by (simp add: reg_bits_def upt_conv_Cons)
  then show ?case
    using reg_step [of "m @ replicate 32 False" c b] Cons.IH [of "crc_in b c"] by simp
qed

lemma reg_bits_ones: "reg_bits 0xFFFFFFFF = replicate 32 True"
  by code_simp

lemma reg_bits_compl: "reg_bits (c XOR 0xFFFFFFFF) = map Not (reg_bits c)"
proof -
  have "bit (0xFFFFFFFF :: u32) i" if "i < 32" for i
    using that nth_reg_bits [OF that, of "0xFFFFFFFF"] by (simp only: reg_bits_ones nth_replicate)
  then show ?thesis by (auto simp: reg_bits_def bit_xor_iff)
qed

section \<open>Properties of the checksum\<close>

text \<open>
  C31. The checksum is CRC-32/ISO-HDLC: its bits are the complement of the remainder of dividing,
  by the CRC-32 polynomial, the bits of the covered bytes (least significant bit of each byte
  first) followed by 32 zeros, with the first 32 of them complemented.
\<close>

theorem crc_is_polynomial_remainder:
  assumes "off \<le> sz" and "unat off \<le> 4 * length buf"
  shows "reg_bits (CalcParamCRC (Some buf) sz off) =
    map Not (poly_mod (8 * unat off)
      (xor_pre (replicate 32 True) (concat (map bits8 (take (unat off) (bytes_of buf))) @ replicate 32 False)))"
proof -
  let ?m = "concat (map bits8 (take (unat off) (bytes_of buf)))"
  have len: "length ?m = 8 * unat off"
    using assms(2) by (simp add: length_concat bits8_def comp_def sum_list_triv min_absorb2)
  show ?thesis
    using division_register [where m = ?m and c = "0xFFFFFFFF"] leD [OF assms(1)]
    by (simp add: CalcParamCRC_def crc_bytes_bits reg_bits_compl len reg_bits_ones)
qed

theorem crc_is_polynomial_remainder_witness:
  "(16 :: u32) \<le> 24 \<and>
   reg_bits (CalcParamCRC (Some [0x66AA66AA, 2, 1, 0x41480000, 0, 0xAA66AA66]) 24 16) =
    map Not (poly_mod (8 * unat (16 :: u32))
      (xor_pre (replicate 32 True)
        (concat (map bits8 (take (unat (16 :: u32)) (bytes_of [0x66AA66AA, 2, 1, 0x41480000, 0, 0xAA66AA66]))) @ replicate 32 False)))"
  by (intro conjI crc_is_polynomial_remainder) simp_all

lemma fold_crc_word_inj: "fold crc_word ws c = fold crc_word ws d \<longleftrightarrow> c = d"
proof (induction ws arbitrary: c d)
  case (Cons w ws)
  have "crc_word w c = crc_word w d \<longleftrightarrow> c = d"
    by (auto simp: crc_word_def crc_pow_inj dest: xor_cancel_right)
  then show ?case by (simp add: Cons)
qed simp

lemma crc_word_neq: "v \<noteq> w \<Longrightarrow> crc_word v c \<noteq> crc_word w c"
  using xor_cancel_right [of v c w] by (auto simp: crc_word_def crc_pow_inj xor.commute)

lemma fold_crc_word_update:
  assumes "i < length ws" "v \<noteq> ws ! i"
  shows "fold crc_word (ws[i := v]) c \<noteq> fold crc_word ws c"
proof -
  have a: "ws = take i ws @ ws ! i # drop (Suc i) ws" using assms(1) by (simp add: id_take_nth_drop)
  have b: "ws[i := v] = take i ws @ v # drop (Suc i) ws" using assms(1) by (simp add: upd_conv_take_nth_drop)
  have "fold crc_word (take i ws @ v # drop (Suc i) ws) c \<noteq> fold crc_word (take i ws @ ws ! i # drop (Suc i) ws) c"
    using crc_word_neq [OF assms(2)] by (simp add: fold_crc_word_inj)
  then show ?thesis using a b by simp
qed

lemma crc_detects_list:
  assumes "off \<le> sz" and "unat off = 4 * n" and "i < n" and "n \<le> length buf" and "v \<noteq> buf ! i"
  shows "CalcParamCRC (Some (buf[i := v])) sz off \<noteq> CalcParamCRC (Some buf) sz off"
proof -
  have "fold crc_word ((take n buf)[i := v]) 0xFFFFFFFF \<noteq> fold crc_word (take n buf) 0xFFFFFFFF"
    using assms by (intro fold_crc_word_update) simp_all
  then show ?thesis
    using assms by (auto simp: CalcParamCRC_words take_update_swap dest: xor_cancel_right)
qed

text \<open>
  The checksum detects every corruption of a single word: two records that differ in exactly
  one word before the checksum field have different checksums.
\<close>

theorem crc_detects_word_corruption:
  assumes "off \<le> sz" and "unat off = 4 * n" and "i < n" and "n \<le> length buf" and "v \<noteq> buf ! i"
  shows "CalcParamCRC (Some (buf[i := v])) sz off \<noteq> CalcParamCRC (Some buf) sz off"
  by (rule crc_detects_list [OF assms])

theorem crc_detects_word_corruption_witness:
  "(16 :: u32) \<le> 24 \<and>
   CalcParamCRC (Some ([0x66AA66AA, 2, 1, 0x41480000, 0, 0xAA66AA66][1 := 3])) 24 16 \<noteq>
   CalcParamCRC (Some [0x66AA66AA, 2, 1, 0x41480000, 0, 0xAA66AA66]) 24 16"
  by (rule conjI, simp, rule crc_detects_word_corruption [where n = 4]) simp_all

end
