(* ===== verification/Param_Store.thy ===== *)
theory Param_Store
  imports Flash Crc
begin

text \<open>
  The parameter store \<^verbatim>\<open>Utils/param_manager.c\<close>: records appended to flash sectors, found again at
  power-up by their magic words and checksum, newest first by sequence number. A store instance is
  the flash, the RAM buffer the configuration points to (as words; the offsets of the
  configuration are offsets of words of it), the runtime record and whatever else the
  default-value callback changes. Whether the pointers to the buffer, the runtime record and the
  callback are null is explicit; the configuration itself is passed by value, since \<open>Param_Init\<close>
  reads it before it tests the pointer. Masking interrupts around a flash access has no effect
  here, and log output is left out.
\<close>

abbreviation PARAM_OK :: int where "PARAM_OK \<equiv> 0"
abbreviation PARAM_ERR :: int where "PARAM_ERR \<equiv> - 1"
abbreviation PARAM_ERR_INVD_PARAM :: int where "PARAM_ERR_INVD_PARAM \<equiv> - 3"
abbreviation PARAM_ERR_NOT_RDY :: int where "PARAM_ERR_NOT_RDY \<equiv> - 5"
abbreviation PARAM_SECTOR_SIZE :: u32 where "PARAM_SECTOR_SIZE \<equiv> 0x2000"
abbreviation PARAM_MAX_RECORD_SIZE :: u32 where "PARAM_MAX_RECORD_SIZE \<equiv> 256"
abbreviation MAX_ERASE_LIFE :: u32 where "MAX_ERASE_LIFE \<equiv> 10000"
abbreviation MAX_WRITE_RETRY :: nat where "MAX_WRITE_RETRY \<equiv> 7"

record Param_Runtime_t =
  curr_sec :: u16
  curr_addr :: u32
  save_count :: u32
  last_res :: int

record Param_Config_t =
  pParamBuf :: bool
  paramSize :: u32
  magicHead :: u32
  magicTail :: u32
  checksumOffset :: u32
  seqOffset :: u32
  eraseCntOffset :: u32
  secStart :: u8
  secEnd :: u8

text \<open>One instance: \<open>ps_buf\<close> is what \<open>pParamBuf\<close> points to, \<open>ps_rt\<close> what \<open>pRuntime\<close> points to.\<close>

record 'c pstore =
  ps_flash :: efm
  ps_buf :: "u32 list"
  ps_rt :: Param_Runtime_t
  ps_client :: 'c

section \<open>Fields and runtime record\<close>

definition GetField32 :: "u32 list \<Rightarrow> u32 \<Rightarrow> u32" where "GetField32 buf offset = buf ! (unat offset div 4)"

definition SetField32 :: "u32 list \<Rightarrow> u32 \<Rightarrow> u32 \<Rightarrow> u32 list" where
  "SetField32 buf offset value = buf[unat offset div 4 := value]"

definition UpdateRuntime :: "int \<Rightarrow> Param_Runtime_t \<Rightarrow> Param_Runtime_t" where
  "UpdateRuntime res r = (let r1 = r\<lparr>last_res := res\<rparr> in if res = PARAM_OK then r1\<lparr>save_count := save_count r1 + 1\<rparr> else r1)"

section \<open>Flash access\<close>

definition Internal_Erase :: "efm_hw \<Rightarrow> u32 \<Rightarrow> efm \<Rightarrow> int \<times> efm" where
  "Internal_Erase H address e =
     (let (status, e1) = HC32FLASH_EraseSector H address e in (if status = HC32FLASH_OK then PARAM_OK else PARAM_ERR, e1))"

definition Internal_ReadWord :: "u32 \<Rightarrow> efm \<Rightarrow> u32" where "Internal_ReadWord addr e = HC32FLASH_ReaddWord addr e"

definition Internal_WriteWord :: "efm_hw \<Rightarrow> u32 \<Rightarrow> u32 \<Rightarrow> efm \<Rightarrow> int \<times> efm" where
  "Internal_WriteWord H addr data e =
     (let (status, e1) = HC32FLASH_WritedWord_Check H addr data e in (if status = HC32FLASH_OK then PARAM_OK else PARAM_ERR, e1))"

fun Internal_WriteBuffer :: "efm_hw \<Rightarrow> u32 \<Rightarrow> u32 list \<Rightarrow> efm \<Rightarrow> int \<times> efm" where
  "Internal_WriteBuffer H addr [] e = (PARAM_OK, e)"
| "Internal_WriteBuffer H addr (w # ws) e =
     (let (r, e1) = Internal_WriteWord H addr w e
      in if r \<noteq> PARAM_OK then (PARAM_ERR, e1) else Internal_WriteBuffer H (addr + 4) ws e1)"

fun Internal_VerifyBuffer :: "u32 \<Rightarrow> u32 list \<Rightarrow> efm \<Rightarrow> bool" where
  "Internal_VerifyBuffer addr [] e = True"
| "Internal_VerifyBuffer addr (w # ws) e =
     (if Internal_ReadWord addr e \<noteq> w then False else Internal_VerifyBuffer (addr + 4) ws e)"

definition read_words :: "u32 \<Rightarrow> nat \<Rightarrow> efm \<Rightarrow> u32 list" where
  "read_words addr n e = map (\<lambda>i. Internal_ReadWord (addr + of_nat i * 4) e) [0..<n]"

definition paramWords :: "Param_Config_t \<Rightarrow> nat" where "paramWords cfg = unat (paramSize cfg) div 4"

section \<open>Saving\<close>

definition sec_addr :: "u16 \<Rightarrow> u32" where "sec_addr s = ucast s * PARAM_SECTOR_SIZE"

text \<open>
  Where the record goes: the current position, or, when it would overrun the sector, the start of
  the sector after an erase, or of the next sector when this one is worn out. \<open>None\<close> stands for
  the early \<open>continue\<close> after a failed erase.
\<close>

definition save_place :: "efm_hw \<Rightarrow> Param_Config_t \<Rightarrow> 'c pstore \<Rightarrow> u32 option \<times> 'c pstore" where
  "save_place H cfg s =
     (let r = ps_rt s; write_addr = curr_addr r in
      if write_addr + paramSize cfg > (ucast (curr_sec r) + 1) * PARAM_SECTOR_SIZE then
        let eraseCnt = GetField32 (ps_buf s) (eraseCntOffset cfg) in
        if eraseCnt < MAX_ERASE_LIFE then
          let (res, e) = Internal_Erase H (sec_addr (curr_sec r)) (ps_flash s); s1 = s\<lparr>ps_flash := e\<rparr> in
          if res = PARAM_OK then
            (Some (sec_addr (curr_sec r)), s1\<lparr>ps_buf := SetField32 (ps_buf s) (eraseCntOffset cfg) (eraseCnt + 1)\<rparr>)
          else (None, s1)
        else
          let sec = (if curr_sec r \<le> ucast (secEnd cfg) then ucast (secStart cfg) else curr_sec r - 1);
              (_, e) = Internal_Erase H (sec_addr sec) (ps_flash s)
          in (Some (sec_addr sec),
              s\<lparr>ps_flash := e, ps_rt := r\<lparr>curr_sec := sec\<rparr>, ps_buf := SetField32 (ps_buf s) (eraseCntOffset cfg) 1\<rparr>)
      else (Some write_addr, s))"

text \<open>The sequence number and the checksum of the record that is about to be written.\<close>

definition save_stamp :: "Param_Config_t \<Rightarrow> u32 list \<Rightarrow> u32 list" where
  "save_stamp cfg buf =
     (let b1 = SetField32 buf (seqOffset cfg) (GetField32 buf (seqOffset cfg) + 1)
      in SetField32 b1 (checksumOffset cfg) (CalcParamCRC (Some b1) (paramSize cfg) (checksumOffset cfg)))"

definition save_attempt :: "efm_hw \<Rightarrow> Param_Config_t \<Rightarrow> 'c pstore \<Rightarrow> bool \<times> 'c pstore" where
  "save_attempt H cfg s0 =
     (case save_place H cfg s0 of
        (None, s) \<Rightarrow> (False, s)
      | (Some write_addr, s) \<Rightarrow>
          let s1 = s\<lparr>ps_buf := save_stamp cfg (ps_buf s)\<rparr>; ws = take (paramWords cfg) (ps_buf s1);
              (res, e) = Internal_WriteBuffer H write_addr ws (ps_flash s1);
              s2 = s1\<lparr>ps_flash := e, ps_rt := (ps_rt s1)\<lparr>curr_addr := write_addr + paramSize cfg\<rparr>\<rparr>
          in (res = PARAM_OK \<and> Internal_VerifyBuffer write_addr ws e, s2))"

fun save_loop :: "efm_hw \<Rightarrow> Param_Config_t \<Rightarrow> nat \<Rightarrow> 'c pstore \<Rightarrow> int \<times> 'c pstore" where
  "save_loop H cfg 0 s = (PARAM_ERR, s\<lparr>ps_rt := UpdateRuntime PARAM_ERR (ps_rt s)\<rparr>)"
| "save_loop H cfg (Suc n) s =
     (let (done, s1) = save_attempt H cfg s
      in if done then (PARAM_OK, s1\<lparr>ps_rt := UpdateRuntime PARAM_OK (ps_rt s1)\<rparr>) else save_loop H cfg n s1)"

definition Param_Save :: "efm_hw \<Rightarrow> Param_Config_t \<Rightarrow> bool \<Rightarrow> 'c pstore \<Rightarrow> int \<times> 'c pstore" where
  "Param_Save H cfg pRuntime s =
     (if \<not> pParamBuf cfg \<or> \<not> pRuntime then (PARAM_ERR_INVD_PARAM, s) else save_loop H cfg MAX_WRITE_RETRY s)"

section \<open>Loading\<close>

text \<open>
  The scan of a sector. Addresses are natural numbers here: a sector number is a byte, so every
  address is below \<open>2 ^ 22\<close>. The positive size is checked by \<open>Param_Init\<close> before the scan. The
  result is the best record so far, as its sequence number, address and sector.
\<close>

definition record_valid :: "Param_Config_t \<Rightarrow> nat \<Rightarrow> efm \<Rightarrow> bool" where
  "record_valid cfg addr e \<longleftrightarrow>
     Internal_ReadWord (of_nat addr + paramSize cfg - 4) e = magicTail cfg \<and>
     (let buf = read_words (of_nat addr) (paramWords cfg) e
      in CalcParamCRC (Some buf) (paramSize cfg) (checksumOffset cfg) = GetField32 buf (checksumOffset cfg))"

definition scan_take :: "Param_Config_t \<Rightarrow> efm \<Rightarrow> nat \<Rightarrow> nat \<Rightarrow> (u32 \<times> nat \<times> nat) option \<Rightarrow> (u32 \<times> nat \<times> nat) option" where
  "scan_take cfg e sec addr best =
     (if record_valid cfg addr e then
        let seq = Internal_ReadWord (of_nat addr + seqOffset cfg) e in
        case best of
          None \<Rightarrow> Some (seq, addr, sec)
        | Some (max_seq, _) \<Rightarrow> if seq > max_seq then Some (seq, addr, sec) else best
      else best)"

function scan_sector :: "Param_Config_t \<Rightarrow> efm \<Rightarrow> nat \<Rightarrow> nat \<Rightarrow> (u32 \<times> nat \<times> nat) option \<Rightarrow> (u32 \<times> nat \<times> nat) option" where
  "scan_sector cfg e sec addr best =
     (if 0 < unat (paramSize cfg) \<and> addr + unat (paramSize cfg) \<le> (sec + 1) * 0x2000 then
        let headMagic = Internal_ReadWord (of_nat addr) e in
        if headMagic = magicHead cfg then
          scan_sector cfg e sec (addr + unat (paramSize cfg)) (scan_take cfg e sec addr best)
        else if headMagic = 0xFFFFFFFF then best
        else scan_sector cfg e sec (addr + 4) best
      else best)"
  by pat_completeness auto
termination
  by (relation "measure (\<lambda>(cfg, e, sec, addr, best). (sec + 1) * 0x2000 - addr)") auto

declare scan_sector.simps [simp del]

text \<open>The sectors from \<open>secStart\<close> down to \<open>secEnd\<close>.\<close>

definition sectors :: "Param_Config_t \<Rightarrow> nat list" where
  "sectors cfg = rev [unat (secEnd cfg)..<unat (secStart cfg) + 1]"

definition scan_all :: "Param_Config_t \<Rightarrow> efm \<Rightarrow> (u32 \<times> nat \<times> nat) option" where
  "scan_all cfg e = fold (\<lambda>s best. scan_sector cfg e s (s * 0x2000) best) (sectors cfg) None"

definition size_valid :: "Param_Config_t \<Rightarrow> bool" where
  "size_valid cfg \<longleftrightarrow> \<not> (paramSize cfg = 0 \<or> paramSize cfg > PARAM_MAX_RECORD_SIZE \<or> paramSize cfg mod 4 \<noteq> 0)"

text \<open>The RAM image of the loaded record: the words of the record replace those of the buffer.\<close>

definition load_buf :: "u32 list \<Rightarrow> u32 list \<Rightarrow> u32 list" where
  "load_buf ws buf = ws @ drop (length ws) buf"

definition init_load :: "Param_Config_t \<Rightarrow> nat \<Rightarrow> nat \<Rightarrow> 'c pstore \<Rightarrow> 'c pstore" where
  "init_load cfg addr sec s =
     s\<lparr>ps_buf := load_buf (read_words (of_nat addr) (paramWords cfg) (ps_flash s)) (ps_buf s),
       ps_rt := (ps_rt s)\<lparr>curr_sec := of_nat sec, curr_addr := of_nat addr\<rparr>\<rparr>"

definition init_defaults :: "efm_hw \<Rightarrow> Param_Config_t \<Rightarrow> ('c pstore \<Rightarrow> 'c pstore) \<Rightarrow> 'c pstore \<Rightarrow> 'c pstore" where
  "init_defaults H cfg pSetDefaults s0 =
     (let s = pSetDefaults s0; s1 = s\<lparr>ps_flash := snd (Internal_Erase H (sec_addr (ucast (secStart cfg))) (ps_flash s))\<rparr>;
          s2 = s1\<lparr>ps_rt := (ps_rt s1)\<lparr>curr_sec := ucast (secStart cfg), curr_addr := sec_addr (ucast (secStart cfg))\<rparr>,
                  ps_buf := SetField32 (SetField32 (ps_buf s1) (seqOffset cfg) 0) (eraseCntOffset cfg) 1\<rparr>
      in snd (Param_Save H cfg True s2))"

definition Param_Init :: "efm_hw \<Rightarrow> Param_Config_t \<Rightarrow> bool \<Rightarrow> ('c pstore \<Rightarrow> 'c pstore) option \<Rightarrow> 'c pstore \<Rightarrow> int \<times> 'c pstore" where
  "Param_Init H cfg pRuntime pSetDefaults s =
     (case pSetDefaults of
        None \<Rightarrow> (PARAM_ERR_INVD_PARAM, s)
      | Some defaults \<Rightarrow>
          if \<not> pParamBuf cfg \<or> \<not> pRuntime then (PARAM_ERR_INVD_PARAM, s)
          else if \<not> size_valid cfg then (PARAM_ERR_INVD_PARAM, s)
          else
            let s1 = (case scan_all cfg (ps_flash s) of
                        Some (_, best_addr, best_sec) \<Rightarrow> init_load cfg best_addr best_sec s
                      | None \<Rightarrow> init_defaults H cfg defaults s)
            in (PARAM_OK, s1\<lparr>ps_rt := UpdateRuntime PARAM_OK (ps_rt s1)\<rparr>))"

fun erase_sectors :: "efm_hw \<Rightarrow> nat list \<Rightarrow> efm \<Rightarrow> efm" where
  "erase_sectors H [] e = e"
| "erase_sectors H (s # ss) e = erase_sectors H ss (snd (Internal_Erase H (of_nat s * PARAM_SECTOR_SIZE) e))"

definition Param_Debug_EraseAll ::
  "efm_hw \<Rightarrow> Param_Config_t \<Rightarrow> bool \<Rightarrow> ('c pstore \<Rightarrow> 'c pstore) option \<Rightarrow> 'c pstore \<Rightarrow> 'c pstore" where
  "Param_Debug_EraseAll H cfg pRuntime pSetDefaults s =
     snd (Param_Init H cfg pRuntime pSetDefaults (s\<lparr>ps_flash := erase_sectors H (sectors cfg) (ps_flash s)\<rparr>))"

definition Param_EraseSector :: "efm_hw \<Rightarrow> u32 \<Rightarrow> efm \<Rightarrow> int \<times> efm" where
  "Param_EraseSector H address e = Internal_Erase H address e"

end
