(* ===== verification/Flash_Laws.thy ===== *)
theory Flash_Laws
  imports Flash
begin

text \<open>
  What the flash driver does on a part that behaves as its manual says. The locale \<open>flash_part\<close>
  holds the documented laws of the controller: a store in a programming mode only clears bits of
  the addressed word, a store in erase mode sets the sector to ones, both within the polling
  budget, and a write to the clear register clears the flags it names. Words in \<open>bad\<close> may program
  incorrectly. The laws are discharged for \<open>nor_hw\<close>, a controller over a NOR array in which the
  words of a given list are stuck.
\<close>

definition same_sector :: "u32 \<Rightarrow> u32 \<Rightarrow> bool" where
  "same_sector a x \<longleftrightarrow> a div 0x2000 = x div 0x2000"

section \<open>Facts that hold for every controller\<close>

named_theorems efm_simps \<open>the flash array under register writes\<close>

lemma mem_regs [simp, efm_simps]:
  "fl_mem (EFM_ClearStatus H f e) = fl_mem e" "fl_mem (EFM_SetBusStatus s e) = fl_mem e" "fl_mem (EFM_FWMC_Cmd b e) = fl_mem e"
  "fl_mem (EFM_REG_Unlock e) = fl_mem e" "fl_mem (EFM_REG_Lock e) = fl_mem e" "fl_mem (HC32FLASH_Unlock e) = fl_mem e"
  "fl_mem (HC32FLASH_Lock e) = fl_mem e" "fl_mem (efm_finish H c e) = fl_mem e"
  by (simp_all add: EFM_ClearStatus_def EFM_SetBusStatus_def EFM_FWMC_Cmd_def EFM_REG_Unlock_def EFM_REG_Lock_def
      HC32FLASH_Unlock_def HC32FLASH_Lock_def efm_finish_def Let_def)

lemma efm_start_ret: "fst (efm_start H md a d t e) \<in> {LL_OK, LL_ERR_NOT_RDY}"
  by (simp add: efm_start_def Let_def split: prod.split)

lemma map_status_start:
  "r \<in> {LL_OK, LL_ERR_NOT_RDY} \<Longrightarrow> MapEFMStatusToHC32 r e \<in> {HC32FLASH_OK, HC32FLASH_BUSY}"
  by (auto simp: MapEFMStatusToHC32_def)

lemma erase_status: "fst (HC32FLASH_EraseSector H a e) \<in> {HC32FLASH_OK, HC32FLASH_BUSY}"
  unfolding HC32FLASH_EraseSector_def EFM_SectorErase_def Let_def
  using map_status_start [OF efm_start_ret] by (simp add: case_prod_unfold)

lemma no_check_status: "fst (HC32FLASH_WritedWord_NoCheck H a d e) \<in> {HC32FLASH_OK, HC32FLASH_BUSY}"
  unfolding HC32FLASH_WritedWord_NoCheck_def EFM_ProgramWord_def Let_def
  using map_status_start [OF efm_start_ret] by (simp add: case_prod_unfold)

lemma write_check_sound:
  "fst (HC32FLASH_WritedWord_Check H a d e) = HC32FLASH_OK \<Longrightarrow> fl_mem (snd (HC32FLASH_WritedWord_Check H a d e)) a = d"
  unfolding HC32FLASH_WritedWord_Check_def HC32FLASH_ReaddWord_def Let_def
  by (simp add: case_prod_unfold split: if_splits)

section \<open>The documented controller\<close>

locale flash_part =
  fixes H :: efm_hw and bad :: "u32 set"
  assumes program_other: "FAPRT_open e \<Longrightarrow> PEMODE e \<Longrightarrow> PEMOD e \<in> {EFM_MD_PGM_SINGLE, EFM_MD_PGM_READBACK} \<Longrightarrow>
      x \<noteq> a \<Longrightarrow> fl_mem (hw_store H e a d) x = fl_mem e x"
    and program_good: "FAPRT_open e \<Longrightarrow> PEMODE e \<Longrightarrow> PEMOD e \<in> {EFM_MD_PGM_SINGLE, EFM_MD_PGM_READBACK} \<Longrightarrow>
      a \<notin> bad \<Longrightarrow> fl_mem (hw_store H e a d) a = fl_mem e a AND d"
    and program_ready: "FAPRT_open e \<Longrightarrow> PEMODE e \<Longrightarrow> PEMOD e \<in> {EFM_MD_PGM_SINGLE, EFM_MD_PGM_READBACK} \<Longrightarrow>
      \<exists>k \<le> hclk H div 20000. EFM_GetStatus EFM_FLAG_RDY ((hw_poll H ^^ k) (hw_store H e a d))"
    and readback_match: "FAPRT_open e \<Longrightarrow> PEMODE e \<Longrightarrow> PEMOD e = EFM_MD_PGM_READBACK \<Longrightarrow> a \<notin> bad \<Longrightarrow>
      fl_mem e a AND d = d \<Longrightarrow> \<not> EFM_GetStatus EFM_FLAG_PGMISMTCH e \<Longrightarrow>
      \<not> EFM_GetStatus EFM_FLAG_PGMISMTCH ((hw_poll H ^^ k) (hw_store H e a d))"
    and erase_sector: "FAPRT_open e \<Longrightarrow> PEMODE e \<Longrightarrow> PEMOD e = EFM_MD_ERASE_SECTOR \<Longrightarrow>
      fl_mem (hw_store H e a d) = (\<lambda>x. if same_sector a x then 0xFFFFFFFF else fl_mem e x)"
    and erase_ready: "FAPRT_open e \<Longrightarrow> PEMODE e \<Longrightarrow> PEMOD e = EFM_MD_ERASE_SECTOR \<Longrightarrow>
      \<exists>k \<le> hclk H div 50. EFM_GetStatus EFM_FLAG_RDY ((hw_poll H ^^ k) (hw_store H e a d))"
    and poll_mem: "fl_mem (hw_poll H e) = fl_mem e"
    and clear_flags: "hw_fsclr H s f = s AND NOT (f AND 0x3F)"
begin

lemma poll_pow_mem: "fl_mem ((hw_poll H ^^ k) e) = fl_mem e"
  by (induction k) (simp_all add: poll_mem)

text \<open>The polling loop returns within its budget when the flag comes up within it.\<close>

lemma wait_flag:
  "\<exists>k \<le> t. EFM_GetStatus f ((hw_poll H ^^ k) e) \<Longrightarrow>
   \<exists>k \<le> t. EFM_WaitFlag H f t e = (LL_OK, (hw_poll H ^^ k) e)"
proof (induction t arbitrary: e)
  case (Suc t)
  then obtain k where k: "k \<le> Suc t" "EFM_GetStatus f ((hw_poll H ^^ k) e)" by blast
  show ?case
  proof (cases "EFM_GetStatus f e")
    case True
    then show ?thesis by (auto intro!: exI [of _ 0])
  next
    case False
    then obtain j where j: "k = Suc j" using k by (cases k) auto
    then have "\<exists>i \<le> t. EFM_GetStatus f ((hw_poll H ^^ i) (hw_poll H e))"
      using k by (auto simp: funpow_swap1)
    then obtain i where "i \<le> t" "EFM_WaitFlag H f t (hw_poll H e) = (LL_OK, (hw_poll H ^^ i) (hw_poll H e))"
      using Suc.IH by blast
    then show ?thesis using False by (auto intro!: exI [of _ "Suc i"] simp: funpow_swap1)
  qed
qed auto

lemma wait_mem: "fl_mem (snd (EFM_WaitFlag H f t e)) = fl_mem e"
  by (induction t arbitrary: e) (auto simp: poll_mem)

lemma mismatch_cleared: "\<not> EFM_GetStatus EFM_FLAG_PGMISMTCH (EFM_ClearStatus H EFM_FLAG_ALL e)"
  by (simp add: EFM_GetStatus_def EFM_ClearStatus_def clear_flags and.assoc)

text \<open>The three operations between unlocking and locking, on the array.\<close>

lemma start_state:
  assumes "e1 = EFM_ClearStatus H EFM_FLAG_ALL e" "e2 = e1\<lparr>FRMC := FRMC e1 AND NOT EFM_CACHE_ALL, PEMOD := md\<rparr>"
    "FAPRT_open e" "PEMODE e"
  shows "FAPRT_open e2" "PEMODE e2" "PEMOD e2 = md" "fl_mem e2 = fl_mem e" "\<not> EFM_GetStatus EFM_FLAG_PGMISMTCH e2"
  using assms mismatch_cleared [of e] by (simp_all add: EFM_ClearStatus_def EFM_GetStatus_def)

lemma start_erase:
  assumes "FAPRT_open e" "PEMODE e"
  obtains e' where "efm_start H EFM_MD_ERASE_SECTOR a d (hclk H div 50) e = (LL_OK, e')"
    "fl_mem e' = (\<lambda>x. if same_sector a x then 0xFFFFFFFF else fl_mem e x)"
proof -
  define e1 where "e1 = EFM_ClearStatus H EFM_FLAG_ALL e"
  define e2 where "e2 = e1\<lparr>FRMC := FRMC e1 AND NOT EFM_CACHE_ALL, PEMOD := EFM_MD_ERASE_SECTOR\<rparr>"
  note st = start_state [OF e1_def e2_def assms]
  obtain k where k: "EFM_WaitFlag H EFM_FLAG_RDY (hclk H div 50) (hw_store H e2 a d) = (LL_OK, (hw_poll H ^^ k) (hw_store H e2 a d))"
    using wait_flag [OF erase_ready [OF st(1-3)]] by blast
  show ?thesis
  proof (rule that [of "(hw_poll H ^^ k) (hw_store H e2 a d)"])
    show "efm_start H EFM_MD_ERASE_SECTOR a d (hclk H div 50) e = (LL_OK, (hw_poll H ^^ k) (hw_store H e2 a d))"
      unfolding efm_start_def Let_def e1_def [symmetric] e2_def [symmetric] k by simp
  qed (simp add: poll_pow_mem erase_sector [OF st(1-3)] st(4) cong: if_cong)
qed

lemma start_program:
  assumes "FAPRT_open e" "PEMODE e"
  obtains e' where "efm_start H EFM_MD_PGM_READBACK a d (hclk H div 20000) e = (LL_OK, e')"
    "\<And>x. x \<noteq> a \<Longrightarrow> fl_mem e' x = fl_mem e x"
    "a \<notin> bad \<Longrightarrow> fl_mem e' a = fl_mem e a AND d"
    "a \<notin> bad \<Longrightarrow> fl_mem e a AND d = d \<Longrightarrow> \<not> EFM_GetStatus EFM_FLAG_PGMISMTCH e'"
proof -
  define e1 where "e1 = EFM_ClearStatus H EFM_FLAG_ALL e"
  define e2 where "e2 = e1\<lparr>FRMC := FRMC e1 AND NOT EFM_CACHE_ALL, PEMOD := EFM_MD_PGM_READBACK\<rparr>"
  note st = start_state [OF e1_def e2_def assms]
  have md: "PEMOD e2 \<in> {EFM_MD_PGM_SINGLE, EFM_MD_PGM_READBACK}" using st(3) by simp
  obtain k where k: "EFM_WaitFlag H EFM_FLAG_RDY (hclk H div 20000) (hw_store H e2 a d) = (LL_OK, (hw_poll H ^^ k) (hw_store H e2 a d))"
    using wait_flag [OF program_ready [OF st(1,2) md]] by blast
  show ?thesis
  proof (rule that [of "(hw_poll H ^^ k) (hw_store H e2 a d)"])
    show "efm_start H EFM_MD_PGM_READBACK a d (hclk H div 20000) e = (LL_OK, (hw_poll H ^^ k) (hw_store H e2 a d))"
      unfolding efm_start_def Let_def e1_def [symmetric] e2_def [symmetric] k by simp
  qed (simp_all add: poll_pow_mem program_other [OF st(1,2) md] program_good [OF st(1,2) md] readback_match [OF st(1-3)] st(4,5))
qed

lemma unlocked:
  "FAPRT_open (EFM_ClearStatus H f (HC32FLASH_Unlock e))" "PEMODE (EFM_ClearStatus H f (HC32FLASH_Unlock e))"
  by (simp_all add: EFM_ClearStatus_def HC32FLASH_Unlock_def EFM_SetBusStatus_def EFM_FWMC_Cmd_def EFM_REG_Unlock_def)

text \<open>The driver: a sector erase always succeeds, and a checked write succeeds on a good word exactly
  when it only clears bits; either way no other word changes.\<close>

lemma erase_ok:
  "fst (HC32FLASH_EraseSector H a e) = HC32FLASH_OK"
  "fl_mem (snd (HC32FLASH_EraseSector H a e)) = (\<lambda>x. if same_sector a x then 0xFFFFFFFF else fl_mem e x)"
proof -
  obtain e' where "efm_start H EFM_MD_ERASE_SECTOR a 0 (hclk H div 50) (EFM_ClearStatus H EFM_FLAG_ALL (HC32FLASH_Unlock e)) = (LL_OK, e')"
    "fl_mem e' = (\<lambda>x. if same_sector a x then 0xFFFFFFFF else fl_mem e x)"
    by (rule start_erase [OF unlocked [of EFM_FLAG_ALL e], where a = a and d = 0]) (simp cong: if_cong)
  then show "fst (HC32FLASH_EraseSector H a e) = HC32FLASH_OK"
    "fl_mem (snd (HC32FLASH_EraseSector H a e)) = (\<lambda>x. if same_sector a x then 0xFFFFFFFF else fl_mem e x)"
    by (simp_all add: HC32FLASH_EraseSector_def EFM_SectorErase_def Let_def MapEFMStatusToHC32_def)
qed

lemma write_check:
  "x \<noteq> a \<Longrightarrow> fl_mem (snd (HC32FLASH_WritedWord_Check H a d e)) x = fl_mem e x"
  "a \<notin> bad \<Longrightarrow> fl_mem (snd (HC32FLASH_WritedWord_Check H a d e)) a = fl_mem e a AND d"
  "a \<notin> bad \<Longrightarrow> fst (HC32FLASH_WritedWord_Check H a d e) = HC32FLASH_OK \<longleftrightarrow> fl_mem e a AND d = d"
proof -
  obtain e' where e': "efm_start H EFM_MD_PGM_READBACK a d (hclk H div 20000) (EFM_ClearStatus H EFM_FLAG_ALL (HC32FLASH_Unlock e)) = (LL_OK, e')"
    "\<And>x. x \<noteq> a \<Longrightarrow> fl_mem e' x = fl_mem e x"
    "a \<notin> bad \<Longrightarrow> fl_mem e' a = fl_mem e a AND d"
    "a \<notin> bad \<Longrightarrow> fl_mem e a AND d = d \<Longrightarrow> \<not> EFM_GetStatus EFM_FLAG_PGMISMTCH e'"
    by (rule start_program [OF unlocked [of EFM_FLAG_ALL e], where a = a and d = d]) simp
  show "x \<noteq> a \<Longrightarrow> fl_mem (snd (HC32FLASH_WritedWord_Check H a d e)) x = fl_mem e x"
    by (simp add: HC32FLASH_WritedWord_Check_def EFM_ProgramWordReadBack_def Let_def e' split: prod.split)
  show good: "a \<notin> bad \<Longrightarrow> fl_mem (snd (HC32FLASH_WritedWord_Check H a d e)) a = fl_mem e a AND d"
    by (simp add: HC32FLASH_WritedWord_Check_def EFM_ProgramWordReadBack_def Let_def e' split: prod.split)
  assume a: "a \<notin> bad"
  show "fst (HC32FLASH_WritedWord_Check H a d e) = HC32FLASH_OK \<longleftrightarrow> fl_mem e a AND d = d"
  proof
    assume "fst (HC32FLASH_WritedWord_Check H a d e) = HC32FLASH_OK"
    then show "fl_mem e a AND d = d" using write_check_sound good [OF a] by metis
  next
    assume "fl_mem e a AND d = d"
    then show "fst (HC32FLASH_WritedWord_Check H a d e) = HC32FLASH_OK"
      using e' a by (simp add: HC32FLASH_WritedWord_Check_def EFM_ProgramWordReadBack_def Let_def MapEFMStatusToHC32_def HC32FLASH_ReaddWord_def)
  qed
qed

end

section \<open>A NOR array\<close>

definition nor_store :: "u32 list \<Rightarrow> efm \<Rightarrow> u32 \<Rightarrow> u32 \<Rightarrow> efm" where
  "nor_store stuck e a d =
     (if \<not> (FAPRT_open e \<and> PEMODE e) then e\<lparr>FSR := FSR e OR EFM_FLAG_PEWERR\<rparr>
      else if PEMOD e = EFM_MD_ERASE_SECTOR then
        e\<lparr>fl_mem := (\<lambda>x. if same_sector a x then 0xFFFFFFFF else fl_mem e x), FSR := FSR e AND NOT EFM_FLAG_RDY\<rparr>
      else if PEMOD e = EFM_MD_PGM_SINGLE \<or> PEMOD e = EFM_MD_PGM_READBACK then
        let v = (if a \<in> set stuck then fl_mem e a else fl_mem e a AND d);
            s = (if v \<noteq> d \<and> PEMOD e = EFM_MD_PGM_READBACK then EFM_FLAG_PGMISMTCH else 0)
        in e\<lparr>fl_mem := (fl_mem e)(a := v), FSR := (FSR e AND NOT EFM_FLAG_RDY) OR s\<rparr>
      else e\<lparr>FSR := FSR e OR EFM_FLAG_PEWERR\<rparr>)"

definition nor_hw :: "u32 list \<Rightarrow> efm_hw" where
  "nor_hw stuck =
     \<lparr>hw_store = nor_store stuck, hw_poll = (\<lambda>e. e\<lparr>FSR := FSR e OR (EFM_FLAG_RDY OR EFM_FLAG_OPTEND)\<rparr>),
      hw_fsclr = (\<lambda>s f. s AND NOT (f AND 0x3F)), hclk = 200000000\<rparr>"

lemma flag3_bit: "bit (8 :: u32) n \<longleftrightarrow> n = 3"
  using bit_exp_iff [of 3 n, where 'a = u32] by auto

lemma flag8_bit: "bit (0x100 :: u32) n \<longleftrightarrow> n = 8"
  using bit_exp_iff [of 8 n, where 'a = u32] by auto

lemma mismatch_bit: "EFM_GetStatus EFM_FLAG_PGMISMTCH e \<longleftrightarrow> bit (FSR e) 3"
  unfolding EFM_GetStatus_def bit_eq_iff [where ?'a = u32] bit_and_iff flag3_bit by (auto dest: spec [of _ 3])

lemma ready_bit: "EFM_GetStatus EFM_FLAG_RDY e \<longleftrightarrow> bit (FSR e) 8"
  unfolding EFM_GetStatus_def bit_eq_iff [where ?'a = u32] bit_and_iff flag8_bit by (auto dest: spec [of _ 8])

lemma nor_poll_bits: "bit (FSR ((hw_poll (nor_hw st) ^^ k) e)) 3 = bit (FSR e) 3"
  by (induction k) (simp_all add: nor_hw_def bit_or_iff)

interpretation nor: flash_part "nor_hw stuck" "set stuck" for stuck
proof unfold_locales
  show "\<exists>k \<le> hclk (nor_hw stuck) div 20000. EFM_GetStatus EFM_FLAG_RDY ((hw_poll (nor_hw stuck) ^^ k) (hw_store (nor_hw stuck) e a d))" for e a d
    by (rule exI [of _ 1]) (simp add: ready_bit nor_hw_def bit_or_iff)
  show "\<exists>k \<le> hclk (nor_hw stuck) div 50. EFM_GetStatus EFM_FLAG_RDY ((hw_poll (nor_hw stuck) ^^ k) (hw_store (nor_hw stuck) e a d))" for e a d
    by (rule exI [of _ 1]) (simp add: ready_bit nor_hw_def bit_or_iff)
qed (auto simp: mismatch_bit nor_poll_bits, auto simp: nor_hw_def nor_store_def Let_def bit_simps flag3_bit flag8_bit split: if_splits)

section \<open>Properties of the driver\<close>

text \<open>
  The driver loses the error flags of the controller: whatever the controller does, an erase
  and an unchecked write report only success or busy, never the protection, size, mode or collision
  errors the status type has, since the vendor functions return their error code only for a
  read-back mismatch. The checked write is sound all the same: when it reports success, the array
  holds the word.
\<close>

theorem flash_status_reports:
  "fst (HC32FLASH_EraseSector H a e) \<in> {HC32FLASH_OK, HC32FLASH_BUSY} \<and>
   fst (HC32FLASH_WritedWord_NoCheck H a d e) \<in> {HC32FLASH_OK, HC32FLASH_BUSY} \<and>
   (fst (HC32FLASH_WritedWord_Check H a d e) \<noteq> HC32FLASH_OK \<or> fl_mem (snd (HC32FLASH_WritedWord_Check H a d e)) a = d)"
  using erase_status no_check_status write_check_sound by blast

theorem flash_status_reports_witness:
  "(let e = \<lparr>fl_mem = \<lambda>_. 0xFFFFFFFF, FSR = EFM_FLAG_RDY, FAPRT_open = False, PEMODE = False, PEMOD = 0, BUSHLDCTL = 0, FRMC = 0\<rparr>
    in fst (HC32FLASH_WritedWord_Check (nor_hw [16]) 8 5 e) = HC32FLASH_OK \<and> fl_mem (snd (HC32FLASH_WritedWord_Check (nor_hw [16]) 8 5 e)) 8 = 5)"
proof -
  let ?e = "\<lparr>fl_mem = \<lambda>_. 0xFFFFFFFF, FSR = EFM_FLAG_RDY, FAPRT_open = False, PEMODE = False, PEMOD = 0, BUSHLDCTL = 0, FRMC = 0\<rparr>"
  have "fst (HC32FLASH_WritedWord_Check (nor_hw [16]) 8 5 ?e) = HC32FLASH_OK"
    by (simp add: nor.write_check(3))
  then show ?thesis using flash_status_reports [of "nor_hw [16]" 8 ?e 5] by (simp add: Let_def)
qed

end
