(* ===== verification/Param_Scan.thy ===== *)
theory Param_Scan
  imports Param_Store Flash_Laws
begin

text \<open>
  The scan at power-up. The addresses it visits are listed by \<open>hits\<close>; over that list the loop
  keeps the valid record with the greatest sequence number, the first one when several have it.
  What the scan of a sector sees depends on the words of that sector only.
\<close>

section \<open>The visited records\<close>

definition rd :: "efm \<Rightarrow> nat \<Rightarrow> u32" where "rd e x = fl_mem e (of_nat x)"

definition psize :: "Param_Config_t \<Rightarrow> nat" where "psize cfg = unat (paramSize cfg)"

function hits :: "Param_Config_t \<Rightarrow> efm \<Rightarrow> nat \<Rightarrow> nat \<Rightarrow> nat list" where
  "hits cfg e sec addr =
     (if 0 < psize cfg \<and> addr + psize cfg \<le> (sec + 1) * 0x2000 then
        if rd e addr = magicHead cfg then addr # hits cfg e sec (addr + psize cfg)
        else if rd e addr = 0xFFFFFFFF then []
        else hits cfg e sec (addr + 4)
      else [])"
  by pat_completeness auto
termination
  by (relation "measure (\<lambda>(cfg, e, sec, addr). (sec + 1) * 0x2000 - addr)") auto

declare hits.simps [simp del]

definition fits :: "Param_Config_t \<Rightarrow> nat \<Rightarrow> nat \<Rightarrow> bool" where
  "fits cfg sec addr \<longleftrightarrow> 0 < psize cfg \<and> addr + psize cfg \<le> (sec + 1) * 0x2000"

lemma hits_end: "\<not> fits cfg sec addr \<Longrightarrow> hits cfg e sec addr = []"
  and hits_magic: "fits cfg sec addr \<Longrightarrow> rd e addr = magicHead cfg \<Longrightarrow> hits cfg e sec addr = addr # hits cfg e sec (addr + psize cfg)"
  and hits_blank: "fits cfg sec addr \<Longrightarrow> rd e addr \<noteq> magicHead cfg \<Longrightarrow> rd e addr = 0xFFFFFFFF \<Longrightarrow> hits cfg e sec addr = []"
  and hits_skip: "fits cfg sec addr \<Longrightarrow> rd e addr \<noteq> magicHead cfg \<Longrightarrow> rd e addr \<noteq> 0xFFFFFFFF \<Longrightarrow>
    hits cfg e sec addr = hits cfg e sec (addr + 4)"
  by (auto simp: hits.simps [of cfg e sec addr] fits_def)

lemma hits_cases [case_names none magic blank skip]:
  obtains "\<not> fits cfg sec addr"
  | "fits cfg sec addr" "rd e addr = magicHead cfg"
  | "fits cfg sec addr" "rd e addr \<noteq> magicHead cfg" "rd e addr = 0xFFFFFFFF"
  | "fits cfg sec addr" "rd e addr \<noteq> magicHead cfg" "rd e addr \<noteq> 0xFFFFFFFF"
  by blast

lemma read_rd: "Internal_ReadWord (of_nat x) e = rd e x"
  by (simp add: Internal_ReadWord_def HC32FLASH_ReaddWord_def rd_def)

lemma scan_sector_hits: "scan_sector cfg e sec addr best = fold (scan_take cfg e sec) (hits cfg e sec addr) best"
proof (induction cfg e sec addr best rule: scan_sector.induct)
  case (1 cfg e sec addr best)
  show ?case
    using 1 by (subst scan_sector.simps, subst hits.simps) (auto simp: Let_def read_rd psize_def)
qed

text \<open>The records in the order the scan meets them, as pairs of sector and address.\<close>

definition all_hits :: "Param_Config_t \<Rightarrow> efm \<Rightarrow> (nat \<times> nat) list" where
  "all_hits cfg e = concat (map (\<lambda>s. map (Pair s) (hits cfg e s (s * 0x2000))) (sectors cfg))"

definition take_hit :: "Param_Config_t \<Rightarrow> efm \<Rightarrow> nat \<times> nat \<Rightarrow> (u32 \<times> nat \<times> nat) option \<Rightarrow> (u32 \<times> nat \<times> nat) option" where
  "take_hit cfg e = (\<lambda>(sec, addr). scan_take cfg e sec addr)"

lemma scan_all_hits: "scan_all cfg e = fold (take_hit cfg e) (all_hits cfg e) None"
proof -
  have "fold (\<lambda>s best. scan_sector cfg e s (s * 0x2000) best) ss b =
      fold (take_hit cfg e) (concat (map (\<lambda>s. map (Pair s) (hits cfg e s (s * 0x2000))) ss)) b" for ss b
    by (induction ss arbitrary: b) (simp_all add: scan_sector_hits fold_map comp_def take_hit_def)
  then show ?thesis by (simp add: scan_all_def all_hits_def)
qed

section \<open>The newest record\<close>

definition seq_at :: "Param_Config_t \<Rightarrow> efm \<Rightarrow> nat \<Rightarrow> u32" where
  "seq_at cfg e addr = Internal_ReadWord (of_nat addr + seqOffset cfg) e"

text \<open>The reference: the valid record with the greatest sequence number, the first of them.\<close>

fun newest :: "Param_Config_t \<Rightarrow> efm \<Rightarrow> (nat \<times> nat) list \<Rightarrow> (nat \<times> nat) option" where
  "newest cfg e [] = None"
| "newest cfg e ((sec, a) # hs) =
     (case newest cfg e hs of
        None \<Rightarrow> if record_valid cfg a e then Some (sec, a) else None
      | Some (sec', a') \<Rightarrow>
          if record_valid cfg a e \<and> seq_at cfg e a' \<le> seq_at cfg e a then Some (sec, a) else Some (sec', a'))"

definition better :: "(u32 \<times> nat \<times> nat) option \<Rightarrow> (u32 \<times> nat \<times> nat) option \<Rightarrow> (u32 \<times> nat \<times> nat) option" where
  "better x y = (case y of None \<Rightarrow> x | Some (q, _) \<Rightarrow> (case x of None \<Rightarrow> y | Some (p, _) \<Rightarrow> if q > p then y else x))"

definition tag :: "Param_Config_t \<Rightarrow> efm \<Rightarrow> nat \<times> nat \<Rightarrow> u32 \<times> nat \<times> nat" where
  "tag cfg e = (\<lambda>(sec, a). (seq_at cfg e a, a, sec))"

lemma take_hit_better:
  "take_hit cfg e (sec, a) best = better best (if record_valid cfg a e then Some (tag cfg e (sec, a)) else None)"
  by (auto simp: take_hit_def scan_take_def better_def tag_def seq_at_def Let_def split: option.splits)

lemma better_assoc: "better (better x y) z = better x (better y z)"
  by (auto simp: better_def split: option.splits)

lemma newest_better:
  "map_option (tag cfg e) (newest cfg e ((sec, a) # hs)) =
     better (if record_valid cfg a e then Some (tag cfg e (sec, a)) else None) (map_option (tag cfg e) (newest cfg e hs))"
  by (auto simp: better_def tag_def split: option.splits)

lemma fold_take_hit: "fold (take_hit cfg e) hs best = better best (map_option (tag cfg e) (newest cfg e hs))"
proof (induction hs arbitrary: best)
  case Nil
  show ?case by (simp add: better_def)
next
  case (Cons h hs)
  obtain sec a where h: "h = (sec, a)" by fastforce
  show ?case unfolding h fold_Cons o_apply Cons.IH take_hit_better better_assoc newest_better ..
qed

lemma scan_all_newest: "scan_all cfg e = map_option (tag cfg e) (newest cfg e (all_hits cfg e))"
  by (simp add: scan_all_hits fold_take_hit better_def split: option.splits)

lemma newest_None: "newest cfg e hs = None \<longleftrightarrow> (\<forall>(sec, a) \<in> set hs. \<not> record_valid cfg a e)"
  by (induction hs) (auto split: option.splits if_splits)

lemma newest_Some:
  "newest cfg e hs = Some (sec, a) \<Longrightarrow>
   (sec, a) \<in> set hs \<and> record_valid cfg a e \<and> (\<forall>(s, b) \<in> set hs. record_valid cfg b e \<longrightarrow> seq_at cfg e b \<le> seq_at cfg e a)"
proof (induction hs arbitrary: sec a)
  case (Cons h hs)
  obtain s b where h: "h = (s, b)" by fastforce
  show ?case
  proof (cases "newest cfg e hs")
    case None
    then have "\<forall>(sec, a) \<in> set hs. \<not> record_valid cfg a e" by (simp only: newest_None)
    then show ?thesis using None Cons.prems by (auto simp: h split: if_splits)
  next
    case (Some p)
    obtain s' b' where p: "p = (s', b')" by fastforce
    have IH: "(s', b') \<in> set hs" "record_valid cfg b' e"
      "\<And>t c. (t, c) \<in> set hs \<Longrightarrow> record_valid cfg c e \<Longrightarrow> seq_at cfg e c \<le> seq_at cfg e b'"
      using Cons.IH [of s' b'] Some p by auto
    show ?thesis
    proof (cases "record_valid cfg b e \<and> seq_at cfg e b' \<le> seq_at cfg e b")
      case True
      then have "sec = s" "a = b" using Cons.prems Some p h by auto
      then show ?thesis using True IH by (auto simp: h intro: order_trans)
    next
      case False
      then have "sec = s'" "a = b'" using Cons.prems Some p h by auto
      then show ?thesis using False IH by (auto simp: h)
    qed
  qed
qed simp

text \<open>A record whose sequence number is above all others is the newest.\<close>

lemma newest_unique:
  assumes "(sec, a) \<in> set hs" "record_valid cfg a e"
    and "\<And>s b. (s, b) \<in> set hs \<Longrightarrow> record_valid cfg b e \<Longrightarrow> (s, b) \<noteq> (sec, a) \<Longrightarrow> seq_at cfg e b < seq_at cfg e a"
  shows "newest cfg e hs = Some (sec, a)"
proof -
  obtain s b where sb: "newest cfg e hs = Some (s, b)"
    using assms(1,2) newest_None [of cfg e hs] by (cases "newest cfg e hs") auto
  from newest_Some [OF sb] assms show ?thesis using sb by (metis (no_types, lifting) case_prodD leD)
qed

section \<open>A sector of slots\<close>

definition slot :: "Param_Config_t \<Rightarrow> nat \<Rightarrow> nat \<Rightarrow> nat" where "slot cfg sec i = sec * 0x2000 + i * psize cfg"

text \<open>The first \<open>n\<close> slots of the sector start with the head magic, and the rest is erased.\<close>

definition layout :: "Param_Config_t \<Rightarrow> efm \<Rightarrow> nat \<Rightarrow> nat \<Rightarrow> bool" where
  "layout cfg e sec n \<longleftrightarrow>
     slot cfg sec n \<le> (sec + 1) * 0x2000 \<and> (\<forall>i < n. rd e (slot cfg sec i) = magicHead cfg) \<and>
     (\<forall>x. slot cfg sec n \<le> x \<and> x < (sec + 1) * 0x2000 \<longrightarrow> rd e x = 0xFFFFFFFF)"

lemma slot_Suc: "slot cfg sec (Suc i) = slot cfg sec i + psize cfg"
  by (simp add: slot_def)

lemma slot_le: "i \<le> n \<Longrightarrow> slot cfg sec i \<le> slot cfg sec n"
  by (simp add: slot_def)

lemma hits_slots:
  assumes "layout cfg e sec n" "0 < psize cfg" "magicHead cfg \<noteq> 0xFFFFFFFF"
  shows "k \<le> n \<Longrightarrow> hits cfg e sec (slot cfg sec k) = map (slot cfg sec) [k..<n]"
proof (induction "n - k" arbitrary: k)
  case 0
  then have "k = n" by simp
  then show ?case using assms by (subst hits.simps) (auto simp: layout_def)
next
  case (Suc d)
  then have k: "k < n" by simp
  have "slot cfg sec (Suc k) \<le> slot cfg sec n" using k by (intro slot_le) simp
  also have "\<dots> \<le> (sec + 1) * 0x2000" using assms(1) by (simp add: layout_def)
  finally have "slot cfg sec k + psize cfg \<le> (sec + 1) * 0x2000" by (simp add: slot_Suc)
  then have "hits cfg e sec (slot cfg sec k) = slot cfg sec k # hits cfg e sec (slot cfg sec (Suc k))"
    using assms k by (subst hits.simps) (simp add: layout_def slot_Suc)
  then show ?case using Suc k by (simp add: upt_conv_Cons)
qed

text \<open>A hit lies in its sector with its whole record, and depends on that sector only.\<close>

lemma hits_range: "a \<in> set (hits cfg e sec addr) \<Longrightarrow> addr \<le> a \<and> a + psize cfg \<le> (sec + 1) * 0x2000"
proof (induction cfg e sec addr rule: hits.induct)
  case (1 cfg e sec addr)
  show ?case
  proof (cases rule: hits_cases [where cfg = cfg and sec = sec and addr = addr and e = e])
    case none
    then show ?thesis using 1(3) by (simp add: hits_end)
  next
    case magic
    then show ?thesis using 1 by (auto simp: hits_magic fits_def)
  next
    case blank
    then show ?thesis using 1(3) by (simp add: hits_blank)
  next
    case skip
    then show ?thesis using 1 by (auto simp: hits_skip fits_def)
  qed
qed

lemma hits_head: "a \<in> set (hits cfg e sec addr) \<Longrightarrow> rd e a = magicHead cfg"
proof (induction cfg e sec addr rule: hits.induct)
  case (1 cfg e sec addr)
  show ?case
  proof (cases rule: hits_cases [where cfg = cfg and sec = sec and addr = addr and e = e])
    case none
    then show ?thesis using 1(3) by (simp add: hits_end)
  next
    case magic
    then show ?thesis using 1 by (auto simp: hits_magic fits_def)
  next
    case blank
    then show ?thesis using 1(3) by (simp add: hits_blank)
  next
    case skip
    then show ?thesis using 1 by (auto simp: hits_skip fits_def)
  qed
qed

lemma hits_cong:
  assumes "\<And>x. sec * 0x2000 \<le> x \<Longrightarrow> x < (sec + 1) * 0x2000 \<Longrightarrow> rd e' x = rd e x"
  shows "sec * 0x2000 \<le> addr \<Longrightarrow> hits cfg e' sec addr = hits cfg e sec addr"
  using assms
proof (induction cfg e sec addr rule: hits.induct)
  case (1 cfg e sec addr)
  have eq: "fits cfg sec addr \<Longrightarrow> rd e' addr = rd e addr" using 1(3,4) by (auto simp: fits_def)
  show ?case
  proof (cases rule: hits_cases [where cfg = cfg and sec = sec and addr = addr and e = e])
    case none
    then show ?thesis by (simp add: hits_end)
  next
    case magic
    then show ?thesis using 1 eq by (simp add: hits_magic fits_def)
  next
    case blank
    then show ?thesis using eq by (simp add: hits_blank)
  next
    case skip
    then show ?thesis using 1 eq by (simp add: hits_skip fits_def)
  qed
qed

end
