(* ===== verification/Param_Laws.thy ===== *)
theory Param_Laws
  imports Param_Scan
begin

text \<open>
  The parameter store on a flash part that behaves as documented. The locale \<open>record_layout\<close> says
  what a configuration promises about its record (word-aligned, distinct header fields in front of
  the checksum); \<open>param_engine\<close> joins it to \<open>flash_part\<close>. Inside it the invariant \<open>store_ok\<close> is
  shown to hold after every save and every restart, and with it that a restart loads the record of
  the last save. Some facts need no law of the part at all, and come first.
\<close>

section \<open>Whatever the part does\<close>

lemma verify_read:
  "Internal_VerifyBuffer a ws e \<longleftrightarrow> (\<forall>i < length ws. Internal_ReadWord (a + of_nat i * 4) e = ws ! i)"
proof (induction ws arbitrary: a)
  case (Cons w ws)
  have "(\<forall>i < length (w # ws). Internal_ReadWord (a + of_nat i * 4) e = (w # ws) ! i) \<longleftrightarrow>
      Internal_ReadWord a e = w \<and> (\<forall>i < length ws. Internal_ReadWord (a + 4 + of_nat i * 4) e = ws ! i)"
    by (auto simp: less_Suc_eq_0_disj add.assoc distrib_right)
  then show ?case using Cons [of "a + 4"] by simp
qed simp

lemma verify_read_words: "Internal_VerifyBuffer a ws e \<longleftrightarrow> read_words a (length ws) e = ws"
  unfolding verify_read read_words_def list_eq_iff_nth_eq [where ?'a = u32] by (simp only: length_map length_upt nth_map nth_upt) simp

lemma attempt_stored:
  assumes "save_attempt H cfg s = (True, s')"
  shows "read_words (curr_addr (ps_rt s') - paramSize cfg) (length (take (paramWords cfg) (ps_buf s'))) (ps_flash s')
    = take (paramWords cfg) (ps_buf s')"
  using assms unfolding save_attempt_def
  by (auto simp: Let_def verify_read_words split: prod.splits option.splits)

lemma loop_stored:
  "save_loop H cfg n s = (PARAM_OK, s') \<Longrightarrow>
   read_words (curr_addr (ps_rt s') - paramSize cfg) (length (take (paramWords cfg) (ps_buf s'))) (ps_flash s')
    = take (paramWords cfg) (ps_buf s')"
proof (induction n arbitrary: s)
  case (Suc n)
  obtain ok s1 where a: "save_attempt H cfg s = (ok, s1)" by fastforce
  show ?case
  proof (cases ok)
    case True
    then show ?thesis using Suc.prems a attempt_stored [of H cfg s s1] by (auto simp: UpdateRuntime_def Let_def)
  next
    case False
    then show ?thesis using Suc a by simp
  qed
qed simp

definition words_at :: "efm \<Rightarrow> nat \<Rightarrow> nat \<Rightarrow> u32 list" where "words_at e a n = map (\<lambda>i. rd e (a + 4 * i)) [0..<n]"

lemma read_words_at: "read_words (of_nat a) n e = words_at e a n"
proof -
  have "Internal_ReadWord (of_nat a + of_nat i * 4) e = rd e (a + 4 * i)" for i
    using read_rd [of "a + 4 * i" e] by (simp add: mult.commute)
  then show ?thesis by (simp add: read_words_def words_at_def)
qed

lemma length_words_at [simp]: "length (words_at e a n) = n" by (simp add: words_at_def)

lemma nth_words_at: "i < n \<Longrightarrow> words_at e a n ! i = rd e (a + 4 * i)" by (simp add: words_at_def)

section \<open>What a configuration promises\<close>

definition qi :: "Param_Config_t \<Rightarrow> nat" where "qi cfg = unat (seqOffset cfg) div 4"
definition ei :: "Param_Config_t \<Rightarrow> nat" where "ei cfg = unat (eraseCntOffset cfg) div 4"
definition ci :: "Param_Config_t \<Rightarrow> nat" where "ci cfg = unat (checksumOffset cfg) div 4"

locale record_layout =
  fixes cfg :: Param_Config_t
  assumes buffer_given: "pParamBuf cfg"
    and size_fine: "size_valid cfg"
    and aligned: "unat (seqOffset cfg) = 4 * qi cfg" "unat (eraseCntOffset cfg) = 4 * ei cfg" "unat (checksumOffset cfg) = 4 * ci cfg"
    and fields: "0 < qi cfg" "0 < ei cfg" "qi cfg \<noteq> ei cfg" "qi cfg < ci cfg" "ei cfg < ci cfg" "ci cfg + 1 < paramWords cfg"
    and sector_range: "secEnd cfg \<le> secStart cfg"
    and head_not_blank: "magicHead cfg \<noteq> 0xFFFFFFFF"
begin

abbreviation W :: nat where "W \<equiv> paramWords cfg"

lemma size_words: "psize cfg = 4 * W" "unat (paramSize cfg) = 4 * W" "W \<le> 64"
proof -
  have "unat (paramSize cfg mod 4) = 0" "paramSize cfg \<le> 256" using size_fine by (auto simp: size_valid_def)
  then have "unat (paramSize cfg) mod 4 = 0" "unat (paramSize cfg) \<le> 256" by (simp_all add: unat_mod_distrib word_le_nat_alt)
  then show "psize cfg = 4 * W" "unat (paramSize cfg) = 4 * W" "W \<le> 64"
    by (auto simp: psize_def paramWords_def)
qed

lemma size_of_nat: "paramSize cfg = of_nat (4 * W)"
  by (simp flip: size_words(2))

lemma valid_words:
  "record_valid cfg a e \<longleftrightarrow> words_at e a W ! (W - 1) = magicTail cfg \<and>
   CalcParamCRC (Some (words_at e a W)) (paramSize cfg) (checksumOffset cfg) = words_at e a W ! ci cfg"
proof -
  have "(of_nat a :: u32) + paramSize cfg - 4 = of_nat (a + 4 * (W - 1))"
    using fields(6) by (simp add: size_of_nat of_nat_diff algebra_simps)
  then have "Internal_ReadWord (of_nat a + paramSize cfg - 4) e = words_at e a W ! (W - 1)"
    using fields(6) by (simp only: read_rd nth_words_at diff_less zero_less_one)
  then show ?thesis by (simp add: record_valid_def Let_def read_words_at GetField32_def ci_def)
qed

lemma seq_words: "seq_at cfg e a = words_at e a W ! qi cfg"
proof -
  have "seqOffset cfg = of_nat (4 * qi cfg)" by (simp flip: aligned(1))
  then have "(of_nat a :: u32) + seqOffset cfg = of_nat (a + 4 * qi cfg)" by simp
  then show ?thesis using fields by (simp only: seq_at_def read_rd nth_words_at)
qed

text \<open>A buffer with its magic words in place, and a complete record.\<close>

definition buf_ok :: "u32 list \<Rightarrow> bool" where
  "buf_ok b \<longleftrightarrow> length b = W \<and> b ! 0 = magicHead cfg \<and> b ! (W - 1) = magicTail cfg"

definition record_ok :: "u32 list \<Rightarrow> bool" where
  "record_ok b \<longleftrightarrow> buf_ok b \<and> CalcParamCRC (Some b) (paramSize cfg) (checksumOffset cfg) = b ! ci cfg"

lemma checksum_le_size: "checksumOffset cfg \<le> paramSize cfg"
  using fields by (simp add: word_le_nat_alt aligned(3) size_words(2))

lemma crc_cong: "take (ci cfg) b = take (ci cfg) b' \<Longrightarrow>
  CalcParamCRC (Some b) (paramSize cfg) (checksumOffset cfg) = CalcParamCRC (Some b') (paramSize cfg) (checksumOffset cfg)"
  using CalcParamCRC_words [OF checksum_le_size aligned(3)] by simp

lemma set_field: "SetField32 b (seqOffset cfg) v = b[qi cfg := v]" "SetField32 b (eraseCntOffset cfg) v = b[ei cfg := v]"
  "SetField32 b (checksumOffset cfg) v = b[ci cfg := v]"
  by (simp_all add: SetField32_def qi_def ei_def ci_def)

lemma get_field: "GetField32 b (seqOffset cfg) = b ! qi cfg" "GetField32 b (eraseCntOffset cfg) = b ! ei cfg"
  by (simp_all add: GetField32_def qi_def ei_def)

lemma stamp_alt: "save_stamp cfg b = (let b1 = b[qi cfg := b ! qi cfg + 1]
    in b1[ci cfg := CalcParamCRC (Some b1) (paramSize cfg) (checksumOffset cfg)])"
  by (simp add: save_stamp_def set_field get_field)

lemma stamp_ok:
  assumes "buf_ok b"
  shows "record_ok (save_stamp cfg b)" "save_stamp cfg b ! qi cfg = b ! qi cfg + 1"
    "\<And>i. i \<noteq> qi cfg \<Longrightarrow> i \<noteq> ci cfg \<Longrightarrow> save_stamp cfg b ! i = b ! i"
proof -
  show "\<And>i. i \<noteq> qi cfg \<Longrightarrow> i \<noteq> ci cfg \<Longrightarrow> save_stamp cfg b ! i = b ! i" by (simp add: stamp_alt Let_def)
  show "save_stamp cfg b ! qi cfg = b ! qi cfg + 1"
    using assms fields by (simp add: stamp_alt Let_def buf_ok_def)
  have "buf_ok (save_stamp cfg b)" using assms fields by (simp add: stamp_alt Let_def buf_ok_def)
  moreover have "CalcParamCRC (Some (save_stamp cfg b)) (paramSize cfg) (checksumOffset cfg) = save_stamp cfg b ! ci cfg"
    using assms fields crc_cong [of "save_stamp cfg b" "b[qi cfg := b ! qi cfg + 1]"] by (simp add: stamp_alt Let_def buf_ok_def)
  ultimately show "record_ok (save_stamp cfg b)" by (simp add: record_ok_def)
qed

lemma stored_valid: "record_ok b \<Longrightarrow> words_at e a W = b \<Longrightarrow> record_valid cfg a e \<and> seq_at cfg e a = b ! qi cfg"
  by (simp add: record_ok_def buf_ok_def valid_words seq_words)

lemma erase_field_ok: "buf_ok b \<Longrightarrow> buf_ok (b[ei cfg := v])" "(b[ei cfg := v]) ! qi cfg = b ! qi cfg"
  using fields by (simp_all add: buf_ok_def)

end

section \<open>Writing words at natural addresses\<close>

lemma of_nat_u32_eq:
  assumes "x < 2 ^ 32" "y < 2 ^ 32"
  shows "(of_nat x :: u32) = of_nat y \<longleftrightarrow> x = y"
proof
  assume "(of_nat x :: u32) = of_nat y"
  then have "unat (of_nat x :: u32) = unat (of_nat y :: u32)" by (rule arg_cong)
  moreover have "unat (of_nat x :: u32) = x" "unat (of_nat y :: u32) = y"
    by (rule unat_less_of_nat, use assms in simp)+
  ultimately show "x = y" by (simp only:)
qed simp

lemma ones_and [simp]: "0xFFFFFFFF AND w = w" for w :: u32
proof -
  have "(0xFFFFFFFF :: u32) = - 1" by simp
  then show ?thesis by (simp only: and.left_neutral)
qed

lemma same_sector_nat:
  assumes "a < 2 ^ 32" "x < 2 ^ 32"
  shows "same_sector (of_nat a) (of_nat x) \<longleftrightarrow> a div 0x2000 = x div 0x2000"
proof -
  have u: "unat (of_nat y div 0x2000 :: u32) = y div 0x2000" if "y < 2 ^ 32" for y
    using that by (simp add: unat_div_distrib unat_less_of_nat)
  show ?thesis unfolding same_sector_def using u [OF assms(1)] u [OF assms(2)] by (metis word_unat_eq_iff)
qed

locale param_engine = flash_part H "{}" + record_layout cfg for H :: efm_hw and cfg :: Param_Config_t
begin

lemma write_word:
  assumes "x < 2 ^ 32"
  shows "fst (Internal_WriteWord H (of_nat x) d e) = PARAM_OK \<longleftrightarrow> rd e x AND d = d"
    "y < 2 ^ 32 \<Longrightarrow> rd (snd (Internal_WriteWord H (of_nat x) d e)) y = (if y = x then rd e x AND d else rd e y)"
  using assms write_check [where a = "of_nat x" and d = d and e = e]
  by (auto simp: Internal_WriteWord_def rd_def Let_def of_nat_u32_eq split: prod.splits)

definition pgm :: "nat \<Rightarrow> u32 \<Rightarrow> efm \<Rightarrow> efm" where "pgm x d e = snd (Internal_WriteWord H (of_nat x) d e)"

lemma rd_pgm: "x < 2 ^ 32 \<Longrightarrow> y < 2 ^ 32 \<Longrightarrow> rd (pgm x d e) y = (if y = x then rd e x AND d else rd e y)"
  using write_word(2) by (simp add: pgm_def)

lemma write_buffer_Cons:
  assumes "a < 2 ^ 32"
  shows "Internal_WriteBuffer H (of_nat a) (w # ws) e =
    (if rd e a AND w = w then Internal_WriteBuffer H (of_nat (a + 4)) ws (pgm a w e) else (PARAM_ERR, pgm a w e))"
  using write_word(1) [OF assms, of w e] by (auto simp: pgm_def Let_def add.commute split: prod.splits)

declare Internal_WriteBuffer.simps(2) [simp del]

lemma write_frame:
  "a + 4 * length ws \<le> 2 ^ 32 \<Longrightarrow> y < 2 ^ 32 \<Longrightarrow> (\<And>i. i < length ws \<Longrightarrow> y \<noteq> a + 4 * i) \<Longrightarrow>
   rd (snd (Internal_WriteBuffer H (of_nat a) ws e)) y = rd e y"
proof (induction ws arbitrary: a e)
  case (Cons w ws)
  have a: "a < 2 ^ 32" "y \<noteq> a" using Cons.prems(1) Cons.prems(3) [of 0] by auto
  have "y \<noteq> a + 4 + 4 * i" if "i < length ws" for i using Cons.prems(3) [of "Suc i"] that by simp
  then have "rd (snd (Internal_WriteBuffer H (of_nat (a + 4)) ws (pgm a w e))) y = rd (pgm a w e) y"
    using Cons.IH [of "a + 4" "pgm a w e"] Cons.prems by simp
  then show ?case using a Cons.prems(2) by (simp add: write_buffer_Cons rd_pgm)
qed simp

lemma write_ok_iff:
  "a + 4 * length ws \<le> 2 ^ 32 \<Longrightarrow>
   fst (Internal_WriteBuffer H (of_nat a) ws e) = PARAM_OK \<longleftrightarrow> (\<forall>i < length ws. rd e (a + 4 * i) AND ws ! i = ws ! i)"
proof (induction ws arbitrary: a e)
  case (Cons w ws)
  have a: "a < 2 ^ 32" using Cons.prems by simp
  have later: "rd (pgm a w e) (a + 4 + 4 * i) = rd e (a + 4 * Suc i)" if "i < length ws" for i
    using Cons.prems that a by (simp add: rd_pgm add.assoc)
  have "(\<forall>i < length (w # ws). rd e (a + 4 * i) AND (w # ws) ! i = (w # ws) ! i) \<longleftrightarrow>
      rd e a AND w = w \<and> (\<forall>i < length ws. rd e (a + 4 * Suc i) AND ws ! i = ws ! i)"
    by (auto simp: less_Suc_eq_0_disj)
  moreover have "fst (Internal_WriteBuffer H (of_nat (a + 4)) ws (pgm a w e)) = PARAM_OK \<longleftrightarrow>
      (\<forall>i < length ws. rd e (a + 4 * Suc i) AND ws ! i = ws ! i)"
    using Cons.IH [of "a + 4" "pgm a w e"] Cons.prems later by simp
  ultimately show ?case using write_buffer_Cons [OF a, of w ws e] by simp
qed simp

lemma write_words:
  "a + 4 * length ws \<le> 2 ^ 32 \<Longrightarrow> i < length ws \<Longrightarrow>
   rd (snd (Internal_WriteBuffer H (of_nat a) ws e)) (a + 4 * i) \<in> {rd e (a + 4 * i), rd e (a + 4 * i) AND ws ! i}"
proof (induction ws arbitrary: a e i)
  case (Cons w ws)
  have a: "a < 2 ^ 32" using Cons.prems by simp
  show ?case
  proof (cases i)
    case 0
    have "rd (snd (Internal_WriteBuffer H (of_nat (a + 4)) ws (pgm a w e))) a = rd (pgm a w e) a"
      using Cons.prems by (intro write_frame) auto
    then show ?thesis using 0 a by (simp add: write_buffer_Cons rd_pgm)
  next
    case (Suc j)
    then have j: "a + 4 * i = a + 4 + 4 * j" "j < length ws" using Cons.prems by auto
    then have "rd (pgm a w e) (a + 4 * i) = rd e (a + 4 * i)" using Cons.prems a by (simp add: rd_pgm)
    moreover have "rd (snd (Internal_WriteBuffer H (of_nat (a + 4)) ws (pgm a w e))) (a + 4 * i)
        \<in> {rd (pgm a w e) (a + 4 * i), rd (pgm a w e) (a + 4 * i) AND ws ! j}"
      using Cons.IH [of "a + 4" j "pgm a w e"] Cons.prems j by (simp add: add.assoc)
    ultimately show ?thesis using a Suc by (simp add: write_buffer_Cons)
  qed
qed simp

lemma write_stored:
  "a + 4 * length ws \<le> 2 ^ 32 \<Longrightarrow> (\<forall>i < length ws. rd e (a + 4 * i) AND ws ! i = ws ! i) \<Longrightarrow> i < length ws \<Longrightarrow>
   rd (snd (Internal_WriteBuffer H (of_nat a) ws e)) (a + 4 * i) = ws ! i"
proof (induction ws arbitrary: a e i)
  case (Cons w ws)
  have a: "a < 2 ^ 32" using Cons.prems by simp
  have w: "rd e a AND w = w" using Cons.prems(2) by auto
  have rest: "\<forall>i < length ws. rd (pgm a w e) (a + 4 + 4 * i) AND ws ! i = ws ! i"
  proof (intro allI impI)
    fix i assume "i < length ws"
    then show "rd (pgm a w e) (a + 4 + 4 * i) AND ws ! i = ws ! i"
      using Cons.prems(1) Cons.prems(2) [rule_format, of "Suc i"] a by (simp add: rd_pgm add.assoc)
  qed
  show ?case
  proof (cases i)
    case 0
    have "rd (snd (Internal_WriteBuffer H (of_nat (a + 4)) ws (pgm a w e))) a = rd (pgm a w e) a"
      using Cons.prems by (intro write_frame) auto
    then show ?thesis using 0 a w by (simp add: write_buffer_Cons rd_pgm)
  next
    case (Suc j)
    then show ?thesis using Cons.IH [of "a + 4" "pgm a w e" j] Cons.prems rest a w by (simp add: write_buffer_Cons add.assoc)
  qed
qed simp

lemma erase_rd:
  assumes "sec < 2 ^ 16"
  shows "fst (Internal_Erase H (of_nat (sec * 0x2000)) e) = PARAM_OK"
    "x < 2 ^ 32 \<Longrightarrow> rd (snd (Internal_Erase H (of_nat (sec * 0x2000)) e)) x =
      (if sec * 0x2000 \<le> x \<and> x < (sec + 1) * 0x2000 then 0xFFFFFFFF else rd e x)"
proof -
  show "fst (Internal_Erase H (of_nat (sec * 0x2000)) e) = PARAM_OK"
    using erase_ok(1) [of "of_nat (sec * 0x2000)" e] by (simp add: Internal_Erase_def case_prod_unfold)
  assume x: "x < 2 ^ 32"
  have "sec * 0x2000 div 0x2000 = x div 0x2000 \<longleftrightarrow> sec * 0x2000 \<le> x \<and> x < (sec + 1) * 0x2000" by auto
  then have ss: "same_sector (of_nat (sec * 0x2000)) (of_nat x) \<longleftrightarrow> sec * 0x2000 \<le> x \<and> x < (sec + 1) * 0x2000"
    by (subst same_sector_nat) (use x assms in simp_all)
  have "rd (snd (Internal_Erase H (of_nat (sec * 0x2000)) e)) x =
      (if same_sector (of_nat (sec * 0x2000)) (of_nat x) then 0xFFFFFFFF else rd e x)"
    using erase_ok(2) [of "of_nat (sec * 0x2000)" e] by (simp add: Internal_Erase_def rd_def case_prod_unfold Let_def)
  then show "rd (snd (Internal_Erase H (of_nat (sec * 0x2000)) e)) x =
      (if sec * 0x2000 \<le> x \<and> x < (sec + 1) * 0x2000 then 0xFFFFFFFF else rd e x)"
    unfolding ss .
qed

end

end
