(* ===== verification/Param_Power.thy ===== *)
theory Param_Power
  imports Param_Laws
begin

text \<open>
  The parameter store across saves and restarts. \<open>intact s ws\<close> says that the flash holds the
  record \<open>ws\<close> in the last used slot of the current sector, that every other valid record the scan
  can reach is older, and that the write position is behind it (after a save) or at it (after a
  restart). Every save succeeds and re-establishes it, and a restart loads \<open>ws\<close>.
\<close>

lemma all_hits_iff: "(s, a) \<in> set (all_hits cfg e) \<longleftrightarrow> s \<in> set (sectors cfg) \<and> a \<in> set (hits cfg e s (s * 0x2000))"
  by (auto simp: all_hits_def)

lemma sector_less: "s \<in> set (sectors cfg) \<Longrightarrow> s < 256"
proof -
  have "unat (secStart cfg) < 256" using unsigned_less [of "secStart cfg"] by simp
  then show "s \<in> set (sectors cfg) \<Longrightarrow> s < 256" by (auto simp: sectors_def)
qed

context record_layout
begin

lemma psize_pos: "0 < psize cfg"
  using fields(6) by (simp add: size_words(1))

lemma slots_hits: "layout cfg e sec n \<Longrightarrow> hits cfg e sec (sec * 0x2000) = map (slot cfg sec) [0..<n]"
  using hits_slots [of cfg e sec n 0] psize_pos head_not_blank by (simp add: slot_def)

lemma slot_end: "layout cfg e sec n \<Longrightarrow> slot cfg sec n \<le> (sec + 1) * 0x2000"
  by (simp add: layout_def)

lemma slot_inj: "slot cfg sec i = slot cfg sec j \<longleftrightarrow> i = j"
  using psize_pos by (auto simp: slot_def)

text \<open>A change confined to one sector leaves the records of the others as they are.\<close>

lemma other_sector:
  assumes frame: "\<And>x. x < 2 ^ 32 \<Longrightarrow> \<not> (sec * 0x2000 \<le> x \<and> x < (sec + 1) * 0x2000) \<Longrightarrow> rd e' x = rd e x"
    and s: "s < 256" "s \<noteq> sec"
  shows "hits cfg e' s (s * 0x2000) = hits cfg e s (s * 0x2000)"
    "a \<in> set (hits cfg e s (s * 0x2000)) \<Longrightarrow> words_at e' a W = words_at e a W"
proof -
  have same: "rd e' x = rd e x" if "s * 0x2000 \<le> x" "x < (s + 1) * 0x2000" for x
  proof (rule frame)
    show "x < 2 ^ 32" using that s by simp
    show "\<not> (sec * 0x2000 \<le> x \<and> x < (sec + 1) * 0x2000)" using that s(2) by (cases "s < sec") auto
  qed
  show "hits cfg e' s (s * 0x2000) = hits cfg e s (s * 0x2000)" using same by (intro hits_cong) auto
  assume "a \<in> set (hits cfg e s (s * 0x2000))"
  then have "s * 0x2000 \<le> a" "a + 4 * W \<le> (s + 1) * 0x2000" using hits_range size_words(1) by metis+
  then show "words_at e' a W = words_at e a W" using same by (auto simp: words_at_def)
qed

definition hits_le :: "efm \<Rightarrow> u32 \<Rightarrow> bool" where
  "hits_le e q \<longleftrightarrow> (\<forall>s a. (s, a) \<in> set (all_hits cfg e) \<longrightarrow> record_valid cfg a e \<longrightarrow> seq_at cfg e a \<le> q)"

lemma hit_elsewhere:
  assumes "\<And>x. x < 2 ^ 32 \<Longrightarrow> \<not> (sec * 0x2000 \<le> x \<and> x < (sec + 1) * 0x2000) \<Longrightarrow> rd e' x = rd e x"
    and "hits_le e q" "(s, a) \<in> set (all_hits cfg e')" "record_valid cfg a e'" "s \<noteq> sec"
  shows "seq_at cfg e' a \<le> q"
proof -
  have s: "s < 256" using assms(3) sector_less by (auto simp: all_hits_iff)
  have a: "a \<in> set (hits cfg e s (s * 0x2000))" using assms(3) other_sector(1) [OF assms(1) s assms(5)] by (simp add: all_hits_iff)
  then have "(s, a) \<in> set (all_hits cfg e)" using assms(3) by (simp add: all_hits_iff)
  then show ?thesis
    using assms(2,4) other_sector(2) [OF assms(1) s assms(5) a] by (auto simp: hits_le_def valid_words seq_words)
qed

definition intact :: "'c pstore \<Rightarrow> u32 list \<Rightarrow> bool" where
  "intact s ws \<longleftrightarrow> (\<exists>sec n.
     sec \<in> set (sectors cfg) \<and> curr_sec (ps_rt s) = of_nat sec \<and> layout cfg (ps_flash s) sec (Suc n) \<and>
     curr_addr (ps_rt s) \<in> {of_nat (slot cfg sec n), of_nat (slot cfg sec (Suc n))} \<and>
     words_at (ps_flash s) (slot cfg sec n) W = ws \<and> record_ok ws \<and> buf_ok (ps_buf s) \<and> ps_buf s ! qi cfg = ws ! qi cfg \<and>
     (\<forall>t a. (t, a) \<in> set (all_hits cfg (ps_flash s)) \<longrightarrow> record_valid cfg a (ps_flash s) \<longrightarrow>
        (t, a) \<noteq> (sec, slot cfg sec n) \<longrightarrow> seq_at cfg (ps_flash s) a < ws ! qi cfg))"

text \<open>The write position is at erased space, and no valid record is newer than the buffer.\<close>

definition ready :: "nat \<Rightarrow> nat \<Rightarrow> 'c pstore \<Rightarrow> bool" where
  "ready sec n s \<longleftrightarrow>
     sec \<in> set (sectors cfg) \<and> curr_sec (ps_rt s) = of_nat sec \<and> layout cfg (ps_flash s) sec n \<and>
     curr_addr (ps_rt s) = of_nat (slot cfg sec n) \<and> buf_ok (ps_buf s) \<and> hits_le (ps_flash s) (ps_buf s ! qi cfg)"

end

context param_engine
begin

lemma slot_bound:
  assumes "sec \<in> set (sectors cfg)" "slot cfg sec (Suc n) \<le> (sec + 1) * 0x2000" "length ws = W"
  shows "slot cfg sec n + 4 * length ws \<le> 2 ^ 32"
  using assms(2,3) sector_less [OF assms(1)] by (simp add: slot_Suc size_words(1))

text \<open>Writing into a slot changes nothing below it, behind it or in another sector.\<close>

lemma slot_frame:
  fixes e :: efm
  assumes sec: "sec \<in> set (sectors cfg)" and room: "slot cfg sec (Suc n) \<le> (sec + 1) * 0x2000" and len: "length ws = W"
  defines "e' \<equiv> snd (Internal_WriteBuffer H (of_nat (slot cfg sec n)) ws e)"
  shows "\<And>x. x < 2 ^ 32 \<Longrightarrow> x < slot cfg sec n \<or> slot cfg sec (Suc n) \<le> x \<Longrightarrow> rd e' x = rd e x"
    "\<And>i. i < n \<Longrightarrow> words_at e' (slot cfg sec i) W = words_at e (slot cfg sec i) W"
    "\<And>x. x < 2 ^ 32 \<Longrightarrow> \<not> (sec * 0x2000 \<le> x \<and> x < (sec + 1) * 0x2000) \<Longrightarrow> rd e' x = rd e x"
    "\<And>i. i < n \<Longrightarrow> rd e' (slot cfg sec i) = rd e (slot cfg sec i)"
proof -
  let ?a = "slot cfg sec n"
  have top: "?a + 4 * W \<le> (sec + 1) * 0x2000" using room by (simp add: slot_Suc size_words(1))
  note bound = slot_bound [OF sec room len]
  show frame: "rd e' x = rd e x" if "x < 2 ^ 32" "x < ?a \<or> slot cfg sec (Suc n) \<le> x" for x
    using write_frame [OF bound that(1)] that(2) by (auto simp: e'_def len slot_Suc size_words(1))
  have low: "slot cfg sec i + 4 * W \<le> ?a" if "i < n" for i
    using slot_le [of "Suc i" n cfg sec] that by (simp add: slot_Suc size_words(1))
  have small: "?a < 2 ^ 32" using top sector_less [OF sec] by simp
  show words: "words_at e' (slot cfg sec i) W = words_at e (slot cfg sec i) W" if "i < n" for i
    using low [OF that] small by (intro nth_equalityI) (simp_all add: nth_words_at frame)
  show "rd e' x = rd e x" if "x < 2 ^ 32" "\<not> (sec * 0x2000 \<le> x \<and> x < (sec + 1) * 0x2000)" for x
    using that room by (intro frame) (auto simp: slot_def)
  show "rd e' (slot cfg sec i) = rd e (slot cfg sec i)" if "i < n" for i
    using low [OF that] small fields(6) by (intro frame) auto
qed

lemma layout_after:
  assumes sec: "sec \<in> set (sectors cfg)" and lay: "layout cfg e sec m" "m \<in> {n, Suc n}"
    and room: "slot cfg sec (Suc n) \<le> (sec + 1) * 0x2000" and len: "length ws = W"
  defines "e' \<equiv> snd (Internal_WriteBuffer H (of_nat (slot cfg sec n)) ws e)"
  assumes head: "rd e' (slot cfg sec n) = magicHead cfg"
  shows "layout cfg e' sec (Suc n)"
proof -
  note f = slot_frame [where e = e, OF sec room len, folded e'_def]
  have "rd e' (slot cfg sec i) = magicHead cfg" if "i < Suc n" for i
    using that head f(4) [of i] lay by (cases "i = n") (auto simp: layout_def)
  moreover have "rd e' x = 0xFFFFFFFF" if "slot cfg sec (Suc n) \<le> x" "x < (sec + 1) * 0x2000" for x
  proof -
    have "slot cfg sec m \<le> x" using that(1) lay(2) slot_le [of m "Suc n" cfg sec] by auto
    then have "rd e x = 0xFFFFFFFF" using lay(1) that(2) by (simp add: layout_def)
    then show ?thesis using f(1) [of x] that sector_less [OF sec] by simp
  qed
  ultimately show ?thesis using room by (simp add: layout_def)
qed

text \<open>A stamped record goes into the first erased slot.\<close>

lemma write_slot:
  assumes sec: "sec \<in> set (sectors cfg)" and lay: "layout cfg e sec n" and room: "slot cfg sec (Suc n) \<le> (sec + 1) * 0x2000"
    and ws: "record_ok ws"
  defines "e' \<equiv> snd (Internal_WriteBuffer H (of_nat (slot cfg sec n)) ws e)"
  shows "fst (Internal_WriteBuffer H (of_nat (slot cfg sec n)) ws e) = PARAM_OK"
    "words_at e' (slot cfg sec n) W = ws" "layout cfg e' sec (Suc n)"
proof -
  let ?a = "slot cfg sec n"
  have len: "length ws = W" using ws by (simp add: record_ok_def buf_ok_def)
  note bound = slot_bound [OF sec room len]
  have "rd e (?a + 4 * i) = 0xFFFFFFFF" if "i < length ws" for i
    using lay room that by (simp add: layout_def len slot_Suc size_words(1))
  then have able: "\<forall>i < length ws. rd e (?a + 4 * i) AND ws ! i = ws ! i" by simp
  show "fst (Internal_WriteBuffer H (of_nat ?a) ws e) = PARAM_OK" using able write_ok_iff [OF bound] by simp
  have stored: "rd e' (?a + 4 * i) = ws ! i" if "i < W" for i
    using write_stored [OF bound able] that by (simp add: e'_def len)
  then show "words_at e' ?a W = ws" by (intro nth_equalityI) (simp_all add: len nth_words_at)
  show "layout cfg e' sec (Suc n)"
    unfolding e'_def
  proof (rule layout_after [OF sec lay _ room len])
    show "rd (snd (Internal_WriteBuffer H (of_nat ?a) ws e)) ?a = magicHead cfg"
      using stored [of 0] ws fields(6) by (simp add: e'_def record_ok_def buf_ok_def)
  qed simp
qed

text \<open>The sector after an erase: no record, and the other sectors unchanged.\<close>

lemma sector_erased:
  assumes sec: "sec \<in> set (sectors cfg)" and le: "hits_le e q"
  defines "e' \<equiv> snd (Internal_Erase H (of_nat (sec * 0x2000)) e)"
  shows "layout cfg e' sec 0" "hits_le e' q"
proof -
  have s: "sec < 2 ^ 16" "(sec + 1) * 0x2000 < 2 ^ 32" using sector_less [OF sec] by simp_all
  show lay: "layout cfg e' sec 0" using erase_rd(2) [OF s(1)] s(2) by (simp add: layout_def slot_def e'_def)
  have frame: "rd e' x = rd e x" if "x < 2 ^ 32" "\<not> (sec * 0x2000 \<le> x \<and> x < (sec + 1) * 0x2000)" for x
    unfolding e'_def erase_rd(2) [OF s(1) that(1)] using that(2) by (simp only: if_False)
  show "hits_le e' q"
    unfolding hits_le_def
  proof (intro allI impI)
    fix t a assume h: "(t, a) \<in> set (all_hits cfg e')" "record_valid cfg a e'"
    have "t \<noteq> sec" using h(1) slots_hits [OF lay] by (auto simp: all_hits_iff)
    then show "seq_at cfg e' a \<le> q" using hit_elsewhere [OF frame le h] by simp
  qed
qed

lemma ucast_of_sec: "sec < 256 \<Longrightarrow> (ucast (of_nat sec :: u16) :: u32) = of_nat sec"
proof -
  assume "sec < 256"
  then have "unat (of_nat sec :: u16) = sec" by (intro unat_less_of_nat) simp
  then show ?thesis by (metis of_nat_unat)
qed

lemma sec_addr_nat: "sec < 256 \<Longrightarrow> sec_addr (of_nat sec) = of_nat (sec * 0x2000)"
  by (simp add: sec_addr_def ucast_of_sec)

lemma ucast_sec: "(ucast (b :: u8) :: u16) = of_nat (unat b)"
  by simp

lemma next_sector:
  assumes "sec \<in> set (sectors cfg)"
  obtains t where "t \<in> set (sectors cfg)"
    "(if (of_nat sec :: u16) \<le> ucast (secEnd cfg) then ucast (secStart cfg) else of_nat sec - 1) = (of_nat t :: u16)"
proof (cases "(of_nat sec :: u16) \<le> ucast (secEnd cfg)")
  case True
  then show ?thesis
    using that [of "unat (secStart cfg)"] sector_range by (simp add: sectors_def word_le_nat_alt)
next
  case False
  have s: "unat (of_nat sec :: u16) = sec" using sector_less [OF assms] by (intro unat_less_of_nat) simp
  have "unat (secEnd cfg) < 256" using unsigned_less [of "secEnd cfg"] by simp
  then have "unat (ucast (secEnd cfg) :: u16) = unat (secEnd cfg)"
    by (subst of_nat_unat [symmetric], intro unat_less_of_nat) simp
  then have lt: "unat (secEnd cfg) < sec" using False s by (simp add: word_le_nat_alt)
  have "sec - 1 \<in> set (sectors cfg)" using assms lt by (auto simp: sectors_def)
  moreover have "(of_nat sec - 1 :: u16) = of_nat (sec - 1)" using lt by (simp add: of_nat_diff)
  ultimately show ?thesis using that [of "sec - 1"] False by simp
qed

lemma overflow_addr:
  assumes "sec < 256" "a \<le> (sec + 1) * 0x2000"
  shows "of_nat a + paramSize cfg > (ucast (of_nat sec :: u16) + 1) * PARAM_SECTOR_SIZE \<longleftrightarrow> a + psize cfg > (sec + 1) * 0x2000"
proof -
  have e: "(ucast (of_nat sec :: u16) + 1) * PARAM_SECTOR_SIZE = (of_nat ((sec + 1) * 0x2000) :: u32)"
    by (simp add: ucast_of_sec [OF assms(1)] distrib_right)
  have a: "of_nat a + paramSize cfg = (of_nat (a + psize cfg) :: u32)" by (simp add: size_of_nat size_words(1))
  have b: "unat (of_nat ((sec + 1) * 0x2000) :: u32) = (sec + 1) * 0x2000" using assms(1) by (intro unat_less_of_nat) simp
  have c: "unat (of_nat (a + psize cfg) :: u32) = a + psize cfg"
    using assms size_words(3) by (intro unat_less_of_nat) (simp add: size_words(1))
  show ?thesis unfolding e a word_less_nat_alt b c ..
qed

lemma overflow_nat:
  assumes "sec < 256" "slot cfg sec n \<le> (sec + 1) * 0x2000"
  shows "of_nat (slot cfg sec n) + paramSize cfg > (ucast (of_nat sec :: u16) + 1) * PARAM_SECTOR_SIZE \<longleftrightarrow>
    slot cfg sec (Suc n) > (sec + 1) * 0x2000"
  using overflow_addr [OF assms] by (simp add: slot_Suc)

text \<open>Where the next record goes: a slot with room for it, in a sector of the region.\<close>

lemma place_ready:
  assumes r: "ready sec n s"
  obtains sec' n' s1 where "save_place H cfg s = (Some (of_nat (slot cfg sec' n')), s1)"
    "sec' \<in> set (sectors cfg)" "curr_sec (ps_rt s1) = of_nat sec'" "layout cfg (ps_flash s1) sec' n'"
    "slot cfg sec' (Suc n') \<le> (sec' + 1) * 0x2000" "hits_le (ps_flash s1) (ps_buf s ! qi cfg)"
    "ps_buf s1 = ps_buf s \<or> (\<exists>v. ps_buf s1 = (ps_buf s)[ei cfg := v])" "ps_client s1 = ps_client s"
proof -
  let ?e = "ps_flash s" and ?q = "ps_buf s ! qi cfg"
  have sec: "sec \<in> set (sectors cfg)" "curr_sec (ps_rt s) = of_nat sec" "layout cfg ?e sec n"
    "curr_addr (ps_rt s) = of_nat (slot cfg sec n)" "hits_le ?e ?q" using r by (simp_all add: ready_def)
  note lt = sector_less [OF sec(1)]
  have one: "slot cfg t (Suc 0) \<le> (t + 1) * 0x2000" for t using size_words by (simp add: slot_def)
  have start: "of_nat (slot cfg t 0) = sec_addr (of_nat t)" if "t < 256" for t using that by (simp add: slot_def sec_addr_nat)
  consider "slot cfg sec (Suc n) \<le> (sec + 1) * 0x2000"
    | "slot cfg sec (Suc n) > (sec + 1) * 0x2000" "ps_buf s ! ei cfg < MAX_ERASE_LIFE"
    | "slot cfg sec (Suc n) > (sec + 1) * 0x2000" "\<not> ps_buf s ! ei cfg < MAX_ERASE_LIFE" by linarith
  then show ?thesis
  proof cases
    case 1
    then have "save_place H cfg s = (Some (of_nat (slot cfg sec n)), s)"
      using overflow_nat [OF lt slot_end [OF sec(3)]] by (simp add: save_place_def Let_def sec(2,4))
    then show ?thesis using that [of sec n s] 1 sec by simp
  next
    case 2
    let ?e1 = "snd (Internal_Erase H (of_nat (sec * 0x2000)) ?e)"
    let ?s1 = "s\<lparr>ps_flash := ?e1, ps_buf := (ps_buf s)[ei cfg := ps_buf s ! ei cfg + 1]\<rparr>"
    have "save_place H cfg s = (Some (of_nat (slot cfg sec 0)), ?s1)"
      using overflow_nat [OF lt slot_end [OF sec(3)]] 2 erase_rd(1) [of sec ?e] lt
      by (simp add: save_place_def Let_def sec(2,4) get_field set_field sec_addr_nat start case_prod_unfold)
    then show ?thesis using that [of sec 0 ?s1] sector_erased [OF sec(1,5)] sec one by auto
  next
    case 3
    obtain t where t: "t \<in> set (sectors cfg)"
      "(if (of_nat sec :: u16) \<le> ucast (secEnd cfg) then ucast (secStart cfg) else of_nat sec - 1) = (of_nat t :: u16)"
      by (rule next_sector [OF sec(1)])
    note tl = sector_less [OF t(1)]
    let ?e1 = "snd (Internal_Erase H (of_nat (t * 0x2000)) ?e)"
    let ?s1 = "s\<lparr>ps_flash := ?e1, ps_rt := (ps_rt s)\<lparr>curr_sec := of_nat t\<rparr>, ps_buf := (ps_buf s)[ei cfg := 1]\<rparr>"
    have "save_place H cfg s = (Some (of_nat (slot cfg t 0)), ?s1)"
      using overflow_nat [OF lt slot_end [OF sec(3)]] 3
      by (simp only: save_place_def Let_def sec(2,4) t(2) get_field set_field sec_addr_nat [OF tl] start [OF tl] case_prod_unfold if_True if_False)
    then show ?thesis using that [of t 0 ?s1] sector_erased [OF t(1) sec(5)] t one by auto
  qed
qed

text \<open>An attempt at erased space stores the stamped buffer as the newest record.\<close>

lemma attempt_ready:
  assumes r: "ready sec n s" and q: "unat (ps_buf s ! qi cfg) + 1 < 2 ^ 32"
  obtains s' where "save_attempt H cfg s = (True, s')" "intact s' (ps_buf s')" "ps_buf s' ! qi cfg = ps_buf s ! qi cfg + 1"
    "\<And>i. i \<notin> {qi cfg, ei cfg, ci cfg} \<Longrightarrow> ps_buf s' ! i = ps_buf s ! i" "ps_client s' = ps_client s"
proof -
  obtain t m s1 where p: "save_place H cfg s = (Some (of_nat (slot cfg t m)), s1)"
    "t \<in> set (sectors cfg)" "curr_sec (ps_rt s1) = of_nat t" "layout cfg (ps_flash s1) t m"
    "slot cfg t (Suc m) \<le> (t + 1) * 0x2000" "hits_le (ps_flash s1) (ps_buf s ! qi cfg)"
    "ps_buf s1 = ps_buf s \<or> (\<exists>v. ps_buf s1 = (ps_buf s)[ei cfg := v])" "ps_client s1 = ps_client s"
    by (rule place_ready [OF r])
  let ?q = "ps_buf s ! qi cfg" and ?a = "slot cfg t m"
  have b: "buf_ok (ps_buf s1)" "ps_buf s1 ! qi cfg = ?q" "\<And>i. i \<noteq> ei cfg \<Longrightarrow> ps_buf s1 ! i = ps_buf s ! i"
    using p(7) r erase_field_ok by (auto simp: ready_def)
  define ws where "ws = save_stamp cfg (ps_buf s1)"
  note st = stamp_ok [OF b(1), folded ws_def]
  have len: "length ws = W" using st(1) by (simp add: record_ok_def buf_ok_def)
  define e' where "e' = snd (Internal_WriteBuffer H (of_nat ?a) ws (ps_flash s1))"
  note w = write_slot [OF p(2,4,5) st(1), folded e'_def]
  note f = slot_frame [where e = "ps_flash s1", OF p(2,5) len, folded e'_def]
  have wb: "Internal_WriteBuffer H (of_nat ?a) ws (ps_flash s1) = (PARAM_OK, e')" using w(1) by (simp add: e'_def prod_eq_iff)
  have ver: "Internal_VerifyBuffer (of_nat ?a) ws e'"
    unfolding verify_read_words read_words_at len by (rule w(2))
  let ?s' = "s1\<lparr>ps_buf := ws, ps_flash := e', ps_rt := (ps_rt s1)\<lparr>curr_addr := of_nat (slot cfg t (Suc m))\<rparr>\<rparr>"
  have "save_attempt H cfg s = (True, ?s')"
    using len ver by (simp add: save_attempt_def p(1) Let_def wb slot_Suc size_words(1) size_of_nat flip: ws_def)
  moreover have lt: "?q < ?q + 1" using q by (simp add: word_less_nat_alt unat_inc)
  have "seq_at cfg e' a < ws ! qi cfg" if h: "(u, a) \<in> set (all_hits cfg e')" "record_valid cfg a e'" "(u, a) \<noteq> (t, ?a)" for u a
  proof (cases "u = t")
    case True
    then obtain i where i: "i < m" "a = slot cfg t i"
      using h(1,3) slots_hits [OF w(3)] by (auto simp: all_hits_iff less_Suc_eq)
    have "(t, a) \<in> set (all_hits cfg (ps_flash s1))"
      using i slots_hits [OF p(4)] p(2) by (auto simp: all_hits_iff)
    moreover have "record_valid cfg a (ps_flash s1)" "seq_at cfg e' a = seq_at cfg (ps_flash s1) a"
      using h(2) f(2) [OF i(1)] i(2) by (simp_all add: valid_words seq_words)
    ultimately have "seq_at cfg e' a \<le> ?q" using p(6) by (auto simp: hits_le_def)
    then show ?thesis using lt st(2) b(2) by (simp add: le_less_trans)
  next
    case False
    then have "seq_at cfg e' a \<le> ?q" using hit_elsewhere [OF f(3) p(6) h(1,2)] by blast
    then show ?thesis using lt st(2) b(2) by (simp add: le_less_trans)
  qed
  then have "intact ?s' ws"
    unfolding intact_def using p(2,3) w(2,3) st(1) by (intro exI [of _ t] exI [of _ m]) (simp add: record_ok_def)
  ultimately show ?thesis
    using that [of ?s'] st(2,3) b(2,3) p(8) by simp
qed

text \<open>
  After a restart the write position is the record just loaded. The first attempt runs into the
  programmed words, fails at the sequence number, and moves the position behind the slot.
\<close>

lemma and_inc_neq: "unat (q :: u32) + 1 < 2 ^ 32 \<Longrightarrow> q AND (q + 1) \<noteq> q + 1"
proof
  assume u: "unat q + 1 < 2 ^ 32" and "q AND (q + 1) = q + 1"
  then have "q + 1 \<le> q" by (metis word_and_le2)
  then show False using u by (simp add: word_le_nat_alt unat_inc)
qed

lemma attempt_booted:
  assumes sec: "sec \<in> set (sectors cfg)" "curr_sec (ps_rt s) = of_nat sec" and lay: "layout cfg (ps_flash s) sec (Suc n)"
    and at: "curr_addr (ps_rt s) = of_nat (slot cfg sec n)" and b: "buf_ok (ps_buf s)"
    and seq: "seq_at cfg (ps_flash s) (slot cfg sec n) = ps_buf s ! qi cfg" and le: "hits_le (ps_flash s) (ps_buf s ! qi cfg)"
    and q: "unat (ps_buf s ! qi cfg) + 1 < 2 ^ 32"
  obtains s' where "save_attempt H cfg s = (False, s')" "ready sec (Suc n) s'" "ps_buf s' = save_stamp cfg (ps_buf s)"
    "ps_client s' = ps_client s"
proof -
  let ?q = "ps_buf s ! qi cfg" and ?a = "slot cfg sec n" and ?e = "ps_flash s"
  define ws where "ws = save_stamp cfg (ps_buf s)"
  note st = stamp_ok [OF b, folded ws_def]
  have len: "length ws = W" and ok: "buf_ok ws" using st(1) by (simp_all add: record_ok_def buf_ok_def)
  have room: "slot cfg sec (Suc n) \<le> (sec + 1) * 0x2000" using lay by (rule slot_end)
  define e' where "e' = snd (Internal_WriteBuffer H (of_nat ?a) ws ?e)"
  note bound = slot_bound [OF sec(1) room len]
  note f = slot_frame [where e = ?e, OF sec(1) room len, folded e'_def]
  have qW: "qi cfg < W" "0 < W" using fields by simp_all
  have rq: "rd ?e (?a + 4 * qi cfg) = ?q" using seq qW by (simp add: seq_words nth_words_at)
  have fail: "fst (Internal_WriteBuffer H (of_nat ?a) ws ?e) \<noteq> PARAM_OK"
    using write_ok_iff [OF bound] qW rq st(2) and_inc_neq [OF q] by (auto simp: len)
  have place: "save_place H cfg s = (Some (of_nat ?a), s)"
    using overflow_nat [of sec n] room sector_less [OF sec(1)] slot_le [of n "Suc n" cfg sec]
    by (simp add: save_place_def Let_def sec(2) at)
  let ?s' = "s\<lparr>ps_buf := ws, ps_flash := e', ps_rt := (ps_rt s)\<lparr>curr_addr := of_nat (slot cfg sec (Suc n))\<rparr>\<rparr>"
  have att: "save_attempt H cfg s = (False, ?s')"
    using len fail by (simp add: place save_attempt_def Let_def case_prod_unfold e'_def slot_Suc size_words(1) size_of_nat flip: ws_def)
  have head: "rd ?e ?a = magicHead cfg" using lay by (simp add: layout_def)
  have "rd e' ?a = magicHead cfg"
    using write_words [OF bound, of 0 ?e] qW head ok by (simp add: e'_def len buf_ok_def)
  then have lay': "layout cfg e' sec (Suc n)" unfolding e'_def by (intro layout_after [OF sec(1) lay _ room len]) simp_all
  have sq: "seq_at cfg e' ?a \<le> ?q"
    using write_words [OF bound, of "qi cfg" ?e] qW rq by (auto simp: e'_def len seq_words nth_words_at word_and_le2)
  have "seq_at cfg e' a \<le> ?q" if h: "(u, a) \<in> set (all_hits cfg e')" "record_valid cfg a e'" for u a
  proof (cases "u = sec")
    case True
    then obtain i where i: "i < Suc n" "a = slot cfg sec i" using h(1) slots_hits [OF lay'] by (auto simp: all_hits_iff simp del: upt_Suc)
    show ?thesis
    proof (cases "i = n")
      case True
      then show ?thesis using sq i by simp
    next
      case False
      then have "(sec, a) \<in> set (all_hits cfg ?e)" using i slots_hits [OF lay] sec(1) by (auto simp: all_hits_iff)
      then show ?thesis using le h(2) f(2) [of i] False i by (auto simp: hits_le_def valid_words seq_words)
    qed
  next
    case False
    then show ?thesis using hit_elsewhere [OF f(3) le h] by blast
  qed
  moreover have "?q \<le> ?q + 1" using q by (simp add: word_le_nat_alt unat_inc)
  ultimately have "hits_le e' (ws ! qi cfg)" using st(2) by (auto simp: hits_le_def intro: order_trans)
  then have "ready sec (Suc n) ?s'" using sec lay' ok by (simp add: ready_def)
  then show ?thesis using that [of ?s'] att by (simp add: ws_def)
qed

lemma intact_runtime [simp]: "intact (s\<lparr>ps_rt := UpdateRuntime r (ps_rt s)\<rparr>) ws = intact s ws"
  by (simp add: intact_def UpdateRuntime_def Let_def)

lemma intact_runtime2 [simp]: "intact (s\<lparr>ps_rt := UpdateRuntime r (UpdateRuntime r' (ps_rt s))\<rparr>) ws = intact s ws"
  by (simp add: intact_def UpdateRuntime_def Let_def)

lemma intact_hits_le: "intact s ws \<Longrightarrow> hits_le (ps_flash s) (ws ! qi cfg)"
proof -
  assume "intact s ws"
  then obtain sec n where i: "words_at (ps_flash s) (slot cfg sec n) W = ws"
    "\<And>t a. (t, a) \<in> set (all_hits cfg (ps_flash s)) \<Longrightarrow> record_valid cfg a (ps_flash s) \<Longrightarrow>
        (t, a) \<noteq> (sec, slot cfg sec n) \<Longrightarrow> seq_at cfg (ps_flash s) a < ws ! qi cfg"
    by (auto simp: intact_def)
  show ?thesis
    unfolding hits_le_def
  proof (intro allI impI)
    fix t a assume "(t, a) \<in> set (all_hits cfg (ps_flash s))" "record_valid cfg a (ps_flash s)"
    then show "seq_at cfg (ps_flash s) a \<le> ws ! qi cfg"
      using i(2) [of t a] i(1) by (cases "(t, a) = (sec, slot cfg sec n)") (auto simp: seq_words)
  qed
qed

lemma save_first:
  "save_attempt H cfg s = (True, s') \<Longrightarrow> Param_Save H cfg True s = (PARAM_OK, s'\<lparr>ps_rt := UpdateRuntime PARAM_OK (ps_rt s')\<rparr>)"
  by (simp add: Param_Save_def buffer_given eval_nat_numeral)

lemma save_second:
  "save_attempt H cfg s = (False, s1) \<Longrightarrow> save_attempt H cfg s1 = (True, s') \<Longrightarrow>
   Param_Save H cfg True s = (PARAM_OK, s'\<lparr>ps_rt := UpdateRuntime PARAM_OK (ps_rt s')\<rparr>)"
  by (simp add: Param_Save_def buffer_given eval_nat_numeral)

text \<open>Every save succeeds, within two attempts, and the saved record is the newest.\<close>

lemma save_intact:
  assumes i: "intact s ws" and q: "unat (ws ! qi cfg) + 2 < 2 ^ 32"
  obtains s' where "Param_Save H cfg True s = (PARAM_OK, s')" "intact s' (ps_buf s')"
    "\<And>i. i \<notin> {qi cfg, ei cfg, ci cfg} \<Longrightarrow> ps_buf s' ! i = ps_buf s ! i"
    "unat (ps_buf s' ! qi cfg) \<in> {unat (ws ! qi cfg) + 1, unat (ws ! qi cfg) + 2}" "ps_client s' = ps_client s"
proof -
  obtain sec n where j: "sec \<in> set (sectors cfg)" "curr_sec (ps_rt s) = of_nat sec" "layout cfg (ps_flash s) sec (Suc n)"
    "curr_addr (ps_rt s) \<in> {of_nat (slot cfg sec n), of_nat (slot cfg sec (Suc n))}"
    "words_at (ps_flash s) (slot cfg sec n) W = ws" "buf_ok (ps_buf s)" "ps_buf s ! qi cfg = ws ! qi cfg"
    using i unfolding intact_def by blast
  note le = intact_hits_le [OF i]
  from j(4) consider "curr_addr (ps_rt s) = of_nat (slot cfg sec (Suc n))" | "curr_addr (ps_rt s) = of_nat (slot cfg sec n)" by blast
  then show ?thesis
  proof cases
    case 1
    then have r: "ready sec (Suc n) s" using j le by (simp add: ready_def)
    obtain s' where a: "save_attempt H cfg s = (True, s')" "intact s' (ps_buf s')" "ps_buf s' ! qi cfg = ps_buf s ! qi cfg + 1"
      "\<And>i. i \<notin> {qi cfg, ei cfg, ci cfg} \<Longrightarrow> ps_buf s' ! i = ps_buf s ! i" "ps_client s' = ps_client s"
      using attempt_ready [OF r] q j(7) by auto
    show ?thesis
      using that [of "s'\<lparr>ps_rt := UpdateRuntime PARAM_OK (ps_rt s')\<rparr>"] a q j(7) by (simp add: save_first unat_inc)
  next
    case 2
    have "seq_at cfg (ps_flash s) (slot cfg sec n) = ps_buf s ! qi cfg" using j by (simp add: seq_words)
    then obtain s1 where b: "save_attempt H cfg s = (False, s1)" "ready sec (Suc n) s1" "ps_buf s1 = save_stamp cfg (ps_buf s)"
      "ps_client s1 = ps_client s"
      using attempt_booted [OF j(1,2,3) 2 j(6)] le q j(7) by auto
    note st = stamp_ok [OF j(6), folded b(3)]
    have q1: "unat (ps_buf s1 ! qi cfg) = unat (ws ! qi cfg) + 1" using st(2) q j(7) by (simp add: unat_inc)
    obtain s' where a: "save_attempt H cfg s1 = (True, s')" "intact s' (ps_buf s')" "ps_buf s' ! qi cfg = ps_buf s1 ! qi cfg + 1"
      "\<And>i. i \<notin> {qi cfg, ei cfg, ci cfg} \<Longrightarrow> ps_buf s' ! i = ps_buf s1 ! i" "ps_client s' = ps_client s1"
      using attempt_ready [OF b(2)] q q1 by auto
    have "unat (ps_buf s' ! qi cfg) = unat (ws ! qi cfg) + 2" using a(3) q q1 by (simp add: unat_inc)
    then show ?thesis
      using that [of "s'\<lparr>ps_rt := UpdateRuntime PARAM_OK (ps_rt s')\<rparr>"] a b st(3) by (simp add: save_second)
  qed
qed

text \<open>A restart, with whatever the RAM holds, loads the last record.\<close>

lemma reboot_intact:
  assumes i: "intact s ws" and fl: "ps_flash s0 = ps_flash s" and len: "length (ps_buf s0) = W"
  obtains s' where "Param_Init H cfg True (Some d) s0 = (PARAM_OK, s')" "intact s' ws" "ps_buf s' = ws" "ps_client s' = ps_client s0"
    "ps_flash s' = ps_flash s"
proof -
  let ?e = "ps_flash s"
  obtain sec n where j: "sec \<in> set (sectors cfg)" "layout cfg ?e sec (Suc n)" "words_at ?e (slot cfg sec n) W = ws" "record_ok ws"
    "\<And>t a. (t, a) \<in> set (all_hits cfg ?e) \<Longrightarrow> record_valid cfg a ?e \<Longrightarrow>
        (t, a) \<noteq> (sec, slot cfg sec n) \<Longrightarrow> seq_at cfg ?e a < ws ! qi cfg"
    using i by (auto simp: intact_def)
  have v: "record_valid cfg (slot cfg sec n) ?e" "seq_at cfg ?e (slot cfg sec n) = ws ! qi cfg"
    using stored_valid [OF j(4,3)] by simp_all
  have "(sec, slot cfg sec n) \<in> set (all_hits cfg ?e)" using j(1) slots_hits [OF j(2)] by (simp add: all_hits_iff)
  then have "newest cfg ?e (all_hits cfg ?e) = Some (sec, slot cfg sec n)" using v j(5) by (intro newest_unique) auto
  then have scan: "scan_all cfg (ps_flash s0) = Some (ws ! qi cfg, slot cfg sec n, sec)"
    by (simp add: scan_all_newest tag_def v(2) fl)
  have lw: "length ws = W" using j(4) by (simp add: record_ok_def buf_ok_def)
  define s' where "s' = init_load cfg (slot cfg sec n) sec s0"
  have buf: "ps_buf s' = ws" using len lw by (simp add: s'_def init_load_def load_buf_def read_words_at fl j(3))
  have "intact s' ws"
    unfolding intact_def using j buf
    by (intro exI [of _ sec] exI [of _ n]) (simp add: s'_def init_load_def fl record_ok_def)
  moreover have "Param_Init H cfg True (Some d) s0 = (PARAM_OK, s'\<lparr>ps_rt := UpdateRuntime PARAM_OK (ps_rt s')\<rparr>)"
    by (simp add: Param_Init_def buffer_given size_fine scan Let_def s'_def)
  moreover have "ps_client s' = ps_client s0" "ps_flash s' = ps_flash s" by (simp_all add: s'_def init_load_def fl)
  ultimately show ?thesis
    using that [of "s'\<lparr>ps_rt := UpdateRuntime PARAM_OK (ps_rt s')\<rparr>"] buf by simp
qed

text \<open>
  The first attempt after a restart programs over the record just loaded. When its sequence number
  is odd, the sequence word loses a bit, and the checksum exposes the record as invalid.
\<close>

lemma restart_overwrites:
  fixes d :: "'b pstore \<Rightarrow> 'b pstore"
  assumes scan: "scan_all cfg (ps_flash s) = Some (q, a, sec)" and qi1: "qi cfg = 1" and odd: "bit q 0" and q: "unat q + 1 < 2 ^ 32"
    and len: "length (ps_buf s) = W"
  defines "s1 \<equiv> snd (Param_Init H cfg True (Some d) s)"
  shows "record_valid cfg a (ps_flash s)" "fst (save_attempt H cfg s1) = False" "\<not> record_valid cfg a (ps_flash (snd (save_attempt H cfg s1)))"
proof -
  let ?e = "ps_flash s"
  define ws where "ws = words_at ?e a W"
  have n: "newest cfg ?e (all_hits cfg ?e) = Some (sec, a)" "q = seq_at cfg ?e a"
    using scan by (auto simp: scan_all_newest tag_def split: prod.splits)
  have hit: "sec \<in> set (sectors cfg)" "a \<in> set (hits cfg ?e sec (sec * 0x2000))" and valid: "record_valid cfg a ?e"
    using newest_Some [OF n(1)] by (auto simp: all_hits_iff)
  show "record_valid cfg a ?e" by (rule valid)
  have top: "a + 4 * W \<le> (sec + 1) * 0x2000" using hits_range [OF hit(2)] by (simp add: size_words(1))
  have lt: "sec < 256" by (rule sector_less [OF hit(1)])
  have W: "4 \<le> W" using fields by simp
  have head: "ws ! 0 = magicHead cfg" and q1: "ws ! 1 = q"
    using hits_head [OF hit(2)] W n(2) qi1 by (simp_all add: ws_def nth_words_at seq_words)
  have vw: "ws ! (W - 1) = magicTail cfg" "CalcParamCRC (Some ws) (paramSize cfg) (checksumOffset cfg) = ws ! ci cfg"
    using valid by (simp_all add: valid_words ws_def)
  have b: "buf_ok ws" using head vw by (simp add: buf_ok_def) (simp add: ws_def)
  have s1: "ps_buf s1 = ws" "ps_flash s1 = ?e" "curr_addr (ps_rt s1) = of_nat a" "curr_sec (ps_rt s1) = of_nat sec"
    using len by (simp_all add: s1_def Param_Init_def buffer_given size_fine scan Let_def init_load_def load_buf_def read_words_at ws_def
        UpdateRuntime_def)
  define v where "v = save_stamp cfg ws"
  note st = stamp_ok [OF b, folded v_def]
  have lv: "length v = W" and v0: "v ! 0 = magicHead cfg" and v1: "v ! 1 = q + 1"
    using st(1,2) qi1 q1 by (simp_all add: record_ok_def buf_ok_def)
  obtain vs where v: "v = v ! 0 # v ! 1 # vs" using lv W by (cases v; cases "tl v") auto
  let ?e' = "pgm (a + 4) (q + 1) (pgm a (magicHead cfg) ?e)"
  have bound: "a + 4 * W \<le> 2 ^ 32" using top lt by simp
  have r: "rd ?e a = magicHead cfg" "rd ?e (a + 4) = q" using head q1 W by (simp_all add: ws_def nth_words_at)
  have small: "a < 2 ^ 32" "a + 4 < 2 ^ 32" using bound W by simp_all
  have "Internal_WriteBuffer H (of_nat (a + 4)) ((q + 1) # vs) (pgm a (magicHead cfg) ?e) = (PARAM_ERR, ?e')"
    unfolding write_buffer_Cons [OF small(2)] using and_inc_neq [OF q] r(2) small by (simp add: rd_pgm)
  then have "Internal_WriteBuffer H (of_nat a) (magicHead cfg # (q + 1) # vs) ?e = (PARAM_ERR, ?e')"
    unfolding write_buffer_Cons [OF small(1)] r(1) by (simp only: and.idem if_True refl)
  then have "Internal_WriteBuffer H (of_nat a) v ?e = (PARAM_ERR, ?e')" using v v0 v1 by (simp only:)
  moreover have "save_place H cfg s1 = (Some (of_nat a), s1)"
    using overflow_addr [OF lt, of a] top by (simp add: save_place_def Let_def s1 size_words(1))
  ultimately have att: "fst (save_attempt H cfg s1) = False" "ps_flash (snd (save_attempt H cfg s1)) = ?e'"
    using lv by (simp_all add: save_attempt_def s1 flip: v_def)
  then show "fst (save_attempt H cfg s1) = False" by simp
  let ?x = "q AND (q + 1)"
  have x: "?x \<noteq> ws ! 1"
  proof
    assume "?x = ws ! 1"
    then have "bit (q AND (q + 1)) 0" using odd q1 by simp
    then show False using odd by (simp add: bit_0 even_and_iff)
  qed
  have new: "words_at ?e' a W = ws[1 := ?x]"
  proof (rule nth_equalityI)
    fix i assume "i < length (words_at ?e' a W)"
    then show "words_at ?e' a W ! i = ws[1 := ?x] ! i"
      using bound head q1 W by (cases "i = 0"; cases "i = 1") (auto simp: nth_words_at rd_pgm ws_def)
  qed (simp add: ws_def)
  have "CalcParamCRC (Some (ws[1 := ?x])) (paramSize cfg) (checksumOffset cfg) \<noteq> ws ! ci cfg"
    using crc_detects_list [OF checksum_le_size aligned(3), of 1 ws ?x] x vw(2) fields qi1 by (simp add: ws_def)
  then show "\<not> record_valid cfg a (ps_flash (snd (save_attempt H cfg s1)))"
    using fields qi1 by (simp add: valid_words att(2) new)
qed

lemma start_sector: "unat (secStart cfg) \<in> set (sectors cfg)"
  using sector_range by (simp add: sectors_def word_le_nat_alt)

text \<open>With no valid record anywhere, the first start writes the default values as the first record.\<close>

lemma format_intact:
  assumes none: "scan_all cfg (ps_flash s0) = None" and d: "ps_flash (d s0) = ps_flash s0" "buf_ok (ps_buf (d s0))"
  obtains s' where "Param_Init H cfg True (Some d) s0 = (PARAM_OK, s')" "intact s' (ps_buf s')" "ps_buf s' ! qi cfg = 1"
    "\<And>i. i \<notin> {qi cfg, ei cfg, ci cfg} \<Longrightarrow> ps_buf s' ! i = ps_buf (d s0) ! i" "ps_client s' = ps_client (d s0)"
proof -
  let ?sec = "unat (secStart cfg)"
  have lt: "?sec < 256" using sector_less [OF start_sector] .
  have "hits_le (ps_flash s0) 0" using none by (auto simp: scan_all_newest newest_None hits_le_def)
  note er = sector_erased [OF start_sector this]
  have addr: "sec_addr (ucast (secStart cfg)) = of_nat (?sec * 0x2000)" using sec_addr_nat [OF lt] by simp
  define b where "b = (ps_buf (d s0))[qi cfg := 0, ei cfg := 1]"
  define s2 where "s2 = (d s0)\<lparr>ps_flash := snd (Internal_Erase H (of_nat (?sec * 0x2000)) (ps_flash s0)),
    ps_rt := (ps_rt (d s0))\<lparr>curr_sec := ucast (secStart cfg), curr_addr := of_nat (?sec * 0x2000)\<rparr>, ps_buf := b\<rparr>"
  have b: "buf_ok b" "b ! qi cfg = 0" using d(2) fields by (simp_all add: b_def buf_ok_def)
  have r: "ready ?sec 0 s2" using start_sector er b by (simp add: ready_def s2_def slot_def)
  have low: "unat (ps_buf s2 ! qi cfg) + 1 < 2 ^ 32" using b(2) by (simp add: s2_def)
  obtain s' where a: "save_attempt H cfg s2 = (True, s')" "intact s' (ps_buf s')" "ps_buf s' ! qi cfg = ps_buf s2 ! qi cfg + 1"
    "\<And>i. i \<notin> {qi cfg, ei cfg, ci cfg} \<Longrightarrow> ps_buf s' ! i = ps_buf s2 ! i" "ps_client s' = ps_client s2"
    using attempt_ready [OF r low] by metis
  have "init_defaults H cfg d s0 = s'\<lparr>ps_rt := UpdateRuntime PARAM_OK (ps_rt s')\<rparr>" (is "_ = ?s1")
    unfolding init_defaults_def Let_def addr set_field
    using save_first [OF a(1)] by (simp add: s2_def b_def d(1))
  then have "Param_Init H cfg True (Some d) s0 = (PARAM_OK, ?s1\<lparr>ps_rt := UpdateRuntime PARAM_OK (ps_rt ?s1)\<rparr>)"
    by (simp only: Param_Init_def buffer_given size_fine none Let_def) simp
  then show ?thesis
    using that [of "?s1\<lparr>ps_rt := UpdateRuntime PARAM_OK (ps_rt ?s1)\<rparr>"] a b by (simp add: s2_def b_def)
qed

end

section \<open>Saves and restarts\<close>

text \<open>
  An application changes the fields between the header and the checksum and saves; a restart loses
  the RAM (its content is then arbitrary) and initialises the store again.
\<close>

definition payload_idx :: "Param_Config_t \<Rightarrow> nat list" where
  "payload_idx cfg = filter (\<lambda>i. i \<notin> {0, qi cfg, ei cfg, ci cfg, paramWords cfg - 1}) [0..<paramWords cfg]"

definition payload :: "Param_Config_t \<Rightarrow> u32 list \<Rightarrow> u32 list" where
  "payload cfg buf = map ((!) buf) (payload_idx cfg)"

definition set_payload :: "Param_Config_t \<Rightarrow> u32 list \<Rightarrow> u32 list \<Rightarrow> u32 list" where
  "set_payload cfg ws buf = map (\<lambda>i. if i \<in> set (payload_idx cfg) then ws ! i else buf ! i) [0..<length buf]"

datatype power_op = SaveOp "u32 list" | Restart "u32 list" Param_Runtime_t

fun run_op :: "efm_hw \<Rightarrow> Param_Config_t \<Rightarrow> ('c pstore \<Rightarrow> 'c pstore) \<Rightarrow> power_op \<Rightarrow> 'c pstore \<Rightarrow> int \<times> 'c pstore" where
  "run_op H cfg d (SaveOp ws) s = Param_Save H cfg True (s\<lparr>ps_buf := set_payload cfg ws (ps_buf s)\<rparr>)"
| "run_op H cfg d (Restart ram r) s = Param_Init H cfg True (Some d) (s\<lparr>ps_buf := ram, ps_rt := r\<rparr>)"

fun run_ops :: "efm_hw \<Rightarrow> Param_Config_t \<Rightarrow> ('c pstore \<Rightarrow> 'c pstore) \<Rightarrow> power_op list \<Rightarrow> 'c pstore \<Rightarrow> int list \<times> 'c pstore" where
  "run_ops H cfg d [] s = ([], s)"
| "run_ops H cfg d (p # ps) s = (let (r, s1) = run_op H cfg d p s; (rs, s2) = run_ops H cfg d ps s1 in (r # rs, s2))"

fun last_saved :: "Param_Config_t \<Rightarrow> power_op list \<Rightarrow> u32 list \<Rightarrow> u32 list" where
  "last_saved cfg [] p = p"
| "last_saved cfg (SaveOp ws # ps) p = last_saved cfg ps (payload cfg ws)"
| "last_saved cfg (Restart ram r # ps) p = last_saved cfg ps p"

definition op_fine :: "Param_Config_t \<Rightarrow> power_op \<Rightarrow> bool" where
  "op_fine cfg p = (case p of SaveOp ws \<Rightarrow> True | Restart ram r \<Rightarrow> length ram = paramWords cfg)"

definition magic_words :: "Param_Config_t \<Rightarrow> u32 list \<Rightarrow> bool" where
  "magic_words cfg b \<longleftrightarrow> length b = paramWords cfg \<and> b ! 0 = magicHead cfg \<and> b ! (paramWords cfg - 1) = magicTail cfg"

context param_engine
begin

lemma payload_cong: "(\<And>i. i \<notin> {qi cfg, ei cfg, ci cfg} \<Longrightarrow> b ! i = c ! i) \<Longrightarrow> payload cfg b = payload cfg c"
  by (simp add: payload_def payload_idx_def)

lemma set_payload_ok:
  assumes "buf_ok b"
  shows "buf_ok (set_payload cfg ws b)" "set_payload cfg ws b ! qi cfg = b ! qi cfg" "payload cfg (set_payload cfg ws b) = payload cfg ws"
  using assms fields by (auto simp: buf_ok_def set_payload_def payload_def payload_idx_def)

lemma op_intact:
  assumes i: "intact s ws" "payload cfg ws = p" and q: "unat (ws ! qi cfg) + 2 < 2 ^ 32" and f: "op_fine cfg x"
  obtains s' ws' where "run_op H cfg d x s = (PARAM_OK, s')" "intact s' ws'" "payload cfg ws' = last_saved cfg [x] p"
    "unat (ws' ! qi cfg) \<le> unat (ws ! qi cfg) + 2"
proof (cases x)
  case (SaveOp v)
  let ?s = "s\<lparr>ps_buf := set_payload cfg v (ps_buf s)\<rparr>"
  have b: "buf_ok (ps_buf s)" "ps_buf s ! qi cfg = ws ! qi cfg" using i(1) by (auto simp: intact_def)
  have "intact ?s ws" using i(1) set_payload_ok [OF b(1), of v] b(2) by (auto simp: intact_def)
  from save_intact [OF this q] obtain s' where s': "Param_Save H cfg True ?s = (PARAM_OK, s')" "intact s' (ps_buf s')"
    "\<And>i. i \<notin> {qi cfg, ei cfg, ci cfg} \<Longrightarrow> ps_buf s' ! i = ps_buf ?s ! i"
    "unat (ps_buf s' ! qi cfg) \<in> {unat (ws ! qi cfg) + 1, unat (ws ! qi cfg) + 2}" by metis
  have "payload cfg (ps_buf s') = payload cfg v"
    using payload_cong [OF s'(3)] set_payload_ok(3) [OF b(1), of v] by simp
  then show ?thesis using that [of s' "ps_buf s'"] s' SaveOp by auto
next
  case (Restart ram r)
  let ?s = "s\<lparr>ps_buf := ram, ps_rt := r\<rparr>"
  have "length (ps_buf ?s) = W" "ps_flash ?s = ps_flash s" using f Restart by (simp_all add: op_fine_def)
  from reboot_intact [OF i(1) this(2,1)] obtain s' where "Param_Init H cfg True (Some d) ?s = (PARAM_OK, s')" "intact s' ws"
    by metis
  then show ?thesis using that [of s' ws] i Restart by simp
qed

lemma run_intact:
  "intact s ws \<Longrightarrow> payload cfg ws = p \<Longrightarrow> unat (ws ! qi cfg) + 2 * length ops < 2 ^ 32 - 1 \<Longrightarrow> list_all (op_fine cfg) ops \<Longrightarrow>
   \<exists>s' ws'. run_ops H cfg d ops s = (replicate (length ops) PARAM_OK, s') \<and> intact s' ws' \<and> payload cfg ws' = last_saved cfg ops p"
proof (induction ops arbitrary: s ws p)
  case (Cons x ops)
  obtain s1 ws1 where x: "run_op H cfg d x s = (PARAM_OK, s1)" "intact s1 ws1" "payload cfg ws1 = last_saved cfg [x] p"
    "unat (ws1 ! qi cfg) \<le> unat (ws ! qi cfg) + 2"
    using op_intact [OF Cons.prems(1,2), of x d] Cons.prems(3,4) by auto
  have last: "last_saved cfg ops (last_saved cfg [x] p) = last_saved cfg (x # ops) p" by (cases x) simp_all
  obtain s' ws' where "run_ops H cfg d ops s1 = (replicate (length ops) PARAM_OK, s')" "intact s' ws'"
    "payload cfg ws' = last_saved cfg ops (last_saved cfg [x] p)"
    using Cons.IH [OF x(2,3)] Cons.prems(3,4) x(4) by auto
  then show ?case using x(1) last by auto
qed auto

end

end
