(* ===== verification/Dev_Param.thy ===== *)
theory Dev_Param
  imports System Param_Power
begin

text \<open>
  The two parameter blocks of the application (\<^verbatim>\<open>Dev/dev_param/dev_param.c\<close> and
  \<^verbatim>\<open>dev_param_rod.c\<close>), each an instance of the parameter store: block A, the configuration of the
  supervision and of the rod, and block B, the position of the rod saved at an under-voltage. The
  records are structures; the store sees them as words. The state is the pair of the world of
  \<open>System\<close> (device configurations, arbitration, rod, save request) and of the module's own data.
  Log output is left out; of the texts it formats, the conversion and its rotating buffers are kept.
\<close>

section \<open>Records and configurations\<close>

abbreviation PARAM_MAGIC_HEAD :: u32 where "PARAM_MAGIC_HEAD \<equiv> 0x55AA55AA"
abbreviation PARAM_MAGIC_TAIL :: u32 where "PARAM_MAGIC_TAIL \<equiv> 0xAA44AA44"
abbreviation PARAM_ROD_MAGIC_HEAD :: u32 where "PARAM_ROD_MAGIC_HEAD \<equiv> 0x66AA66AA"
abbreviation PARAM_ROD_MAGIC_TAIL :: u32 where "PARAM_ROD_MAGIC_TAIL \<equiv> 0xAA66AA66"

text \<open>\<open>rec_pad\<close> is the padding after the two bytes of the direction sequences.\<close>

record ParamRecord_t =
  head_magic :: u32
  sequence_id :: u32
  erase_count :: u32
  volt_over_th :: f32
  volt_under_th :: f32
  volt_hyst :: f32
  volt_recover_ms :: u32
  cur_over_th_ma :: f32
  cur_window_ms :: u16
  cur_block_ms :: u16
  hall_dir_seq :: u8
  motor_dir_seq :: u8
  rec_pad :: u16
  rod_calib_win_a :: f32
  rod_calib_win_b :: f32
  rod_calib_win_c :: f32
  rod_calib_win_d :: f32
  rod_stop_margin :: f32
  rod_stroke_mm :: f32
  rod_reduction_ratio :: f32
  rod_hall_pulses :: f32
  rod_screw_lead :: f32
  rec_checksum :: u32
  tail_magic :: u32

record ParamStrokeRecord_t =
  sr_head_magic :: u32
  sr_sequence_id :: u32
  sr_erase_count :: u32
  sr_position_mm :: f32
  sr_checksum :: u32
  sr_tail_magic :: u32

definition rec_words :: "ParamRecord_t \<Rightarrow> u32 list" where
  "rec_words r =
     [head_magic r, sequence_id r, erase_count r, volt_over_th r, volt_under_th r, volt_hyst r, volt_recover_ms r, cur_over_th_ma r,
      ucast (cur_window_ms r) OR push_bit 16 (ucast (cur_block_ms r)),
      ucast (hall_dir_seq r) OR push_bit 8 (ucast (motor_dir_seq r)) OR push_bit 16 (ucast (rec_pad r)),
      rod_calib_win_a r, rod_calib_win_b r, rod_calib_win_c r, rod_calib_win_d r, rod_stop_margin r,
      rod_stroke_mm r, rod_reduction_ratio r, rod_hall_pulses r, rod_screw_lead r, rec_checksum r, tail_magic r]"

definition words_rec :: "u32 list \<Rightarrow> ParamRecord_t" where
  "words_rec ws =
     \<lparr>head_magic = ws ! 0, sequence_id = ws ! 1, erase_count = ws ! 2, volt_over_th = ws ! 3, volt_under_th = ws ! 4,
      volt_hyst = ws ! 5, volt_recover_ms = ws ! 6, cur_over_th_ma = ws ! 7,
      cur_window_ms = ucast (ws ! 8), cur_block_ms = ucast (drop_bit 16 (ws ! 8)),
      hall_dir_seq = ucast (ws ! 9), motor_dir_seq = ucast (drop_bit 8 (ws ! 9)), rec_pad = ucast (drop_bit 16 (ws ! 9)),
      rod_calib_win_a = ws ! 10, rod_calib_win_b = ws ! 11, rod_calib_win_c = ws ! 12, rod_calib_win_d = ws ! 13,
      rod_stop_margin = ws ! 14, rod_stroke_mm = ws ! 15, rod_reduction_ratio = ws ! 16, rod_hall_pulses = ws ! 17,
      rod_screw_lead = ws ! 18, rec_checksum = ws ! 19, tail_magic = ws ! 20\<rparr>"

definition stroke_words :: "ParamStrokeRecord_t \<Rightarrow> u32 list" where
  "stroke_words r = [sr_head_magic r, sr_sequence_id r, sr_erase_count r, sr_position_mm r, sr_checksum r, sr_tail_magic r]"

definition words_stroke :: "u32 list \<Rightarrow> ParamStrokeRecord_t" where
  "words_stroke ws = \<lparr>sr_head_magic = ws ! 0, sr_sequence_id = ws ! 1, sr_erase_count = ws ! 2, sr_position_mm = ws ! 3,
     sr_checksum = ws ! 4, sr_tail_magic = ws ! 5\<rparr>"

definition s_param_config :: Param_Config_t where
  "s_param_config = \<lparr>pParamBuf = True, paramSize = 84, magicHead = PARAM_MAGIC_HEAD, magicTail = PARAM_MAGIC_TAIL,
     checksumOffset = 76, seqOffset = 4, eraseCntOffset = 8, secStart = 62, secEnd = 61\<rparr>"

definition s_rod_config :: Param_Config_t where
  "s_rod_config = \<lparr>pParamBuf = True, paramSize = 24, magicHead = PARAM_ROD_MAGIC_HEAD, magicTail = PARAM_ROD_MAGIC_TAIL,
     checksumOffset = 16, seqOffset = 4, eraseCntOffset = 8, secStart = 60, secEnd = 51\<rparr>"

record param_dev =
  pd_flash :: efm
  g_param_record :: ParamRecord_t
  s_param_runtime :: Param_Runtime_t
  s_param_inited :: u8
  s_rod_record :: ParamStrokeRecord_t
  s_rod_runtime :: Param_Runtime_t
  s_rod_inited :: u8
  s_rod_defaults_written :: u8
  s_rod_pos_ptr :: bool   \<comment> \<open>set: it points to the position of axis 0\<close>

text \<open>The two store instances, and their write-back.\<close>

definition slow_view :: "param_dev \<Rightarrow> unit pstore" where
  "slow_view p = \<lparr>ps_flash = pd_flash p, ps_buf = rec_words (g_param_record p), ps_rt = s_param_runtime p, ps_client = ()\<rparr>"

definition slow_put :: "unit pstore \<Rightarrow> param_dev \<Rightarrow> param_dev" where
  "slow_put s p = p\<lparr>pd_flash := ps_flash s, g_param_record := words_rec (ps_buf s), s_param_runtime := ps_rt s\<rparr>"

definition fast_view :: "param_dev \<Rightarrow> u8 pstore" where
  "fast_view p = \<lparr>ps_flash = pd_flash p, ps_buf = stroke_words (s_rod_record p), ps_rt = s_rod_runtime p, ps_client = s_rod_defaults_written p\<rparr>"

definition fast_put :: "u8 pstore \<Rightarrow> param_dev \<Rightarrow> param_dev" where
  "fast_put s p = p\<lparr>pd_flash := ps_flash s, s_rod_record := words_stroke (ps_buf s), s_rod_runtime := ps_rt s,
     s_rod_defaults_written := ps_client s\<rparr>"

section \<open>Texts\<close>

fun dec_str :: "nat \<Rightarrow> string" where
  "dec_str n = (if n < 10 then [char_of (48 + n)] else dec_str (n div 10) @ [char_of (48 + n mod 10)])"

declare dec_str.simps [simp del]

text \<open>The text of a voltage or a length with one decimal, cut to the size of the buffer.\<close>

definition Param_VoltFmt :: "f32 \<Rightarrow> nat \<Rightarrow> string" where
  "Param_VoltFmt v0 bufSize =
     (let neg = flt v0 F_ZERO; v = (if neg then fneg v0 else v0);
          x10 = f_to_u32 (fadd (fmul v (f_lit 10 1)) (f_lit 1 2))
      in take (bufSize - 1) ((if neg then ''-'' else '''') @ dec_str (unat (x10 div 10)) @ ''.'' @ dec_str (unat (x10 mod 10))))"

definition Rod_MmFmt :: "f32 \<Rightarrow> nat \<Rightarrow> string" where
  "Rod_MmFmt v0 bufSize =
     (let neg = flt v0 F_ZERO; v = (if neg then fneg v0 else v0);
          x10 = f_to_u32 (fadd (fmul v (f_lit 10 1)) (f_lit 1 2))
      in take (bufSize - 1) ((if neg then ''-'' else '''') @ dec_str (unat (x10 div 10)) @ ''.'' @ dec_str (unat (x10 mod 10))))"

text \<open>\<open>Dev_Param_MmFmtA\<close> hands out one of four static buffers in turn; a pointer is its index.\<close>

record mm_state =
  s_mm_buf :: "string list"
  s_mm_idx :: u8

definition Dev_Param_MmFmtA :: "f32 \<Rightarrow> mm_state \<Rightarrow> nat \<times> mm_state" where
  "Dev_Param_MmFmtA v st =
     (let i = unat (s_mm_idx st)
      in (i, st\<lparr>s_mm_idx := (s_mm_idx st + 1) mod 4, s_mm_buf := (s_mm_buf st)[i := Param_VoltFmt v 12]\<rparr>))"

section \<open>Block A: configuration\<close>

definition param_defaults :: ParamRecord_t where
  "param_defaults =
     \<lparr>head_magic = PARAM_MAGIC_HEAD, sequence_id = 0, erase_count = 0,
      volt_over_th = f_lit 26 1, volt_under_th = f_lit 20 1, volt_hyst = f_lit 1 1, volt_recover_ms = 500,
      cur_over_th_ma = f_lit 1000 1, cur_window_ms = 30, cur_block_ms = 30, hall_dir_seq = 0, motor_dir_seq = 0, rec_pad = 0,
      rod_calib_win_a = f_lit 1 1, rod_calib_win_b = f_lit 1 1, rod_calib_win_c = f_lit 24 1, rod_calib_win_d = f_lit 24 1,
      rod_stop_margin = f_lit 0 1, rod_stroke_mm = f_lit 25 1, rod_reduction_ratio = f_lit 3054 100, rod_hall_pulses = f_lit 12 1,
      rod_screw_lead = f_lit 3 1, rec_checksum = 0, tail_magic = PARAM_MAGIC_TAIL\<rparr>"

definition Param_SetDefaults :: "unit pstore \<Rightarrow> unit pstore" where
  "Param_SetDefaults s = s\<lparr>ps_buf := rec_words param_defaults\<rparr>"

definition Param_ApplyDirSeq :: "param_dev \<Rightarrow> sys_world \<Rightarrow> sys_world" where
  "Param_ApplyDirSeq p w =
     w\<lparr>hm := (hm w)\<lparr>g_mothall_invert_dir := hall_dir_seq (g_param_record p)\<rparr>,
       sys_arb := (sys_arb w)\<lparr>hw := Dev_MotorGpio_SetDirInvert (motor_dir_seq (g_param_record p)) (hw (sys_arb w))\<rparr>\<rparr>"

definition Param_ApplyToDevices :: "param_dev \<Rightarrow> sys_world \<Rightarrow> sys_world" where
  "Param_ApplyToDevices p w =
     (let r = g_param_record p in
      Param_ApplyDirSeq p
        (w\<lparr>g_volt_cfg := \<lparr>over_th = volt_over_th r, under_th = volt_under_th r, hyst = volt_hyst r, recover_ms = volt_recover_ms r\<rparr>,
           g_cur_cfg := \<lparr>over_th_ma = cur_over_th_ma r, window_ms = cur_window_ms r, block_ms = cur_block_ms r\<rparr>\<rparr>))"

definition axis_running :: "u8 \<Rightarrow> sys_world \<Rightarrow> bool" where
  "axis_running i w \<longleftrightarrow> (case Arb_GetData i False (sys_arb w) of Inr a \<Rightarrow> arb_state a = MS_RUNNING | Inl _ \<Rightarrow> False)"

definition Param_IsMotorRunning :: "sys_world \<Rightarrow> bool" where
  "Param_IsMotorRunning w \<longleftrightarrow> axis_running 0 w \<or> axis_running 1 w"

section \<open>Block B: rod position\<close>

definition Rod_SetDefaults :: "u8 pstore \<Rightarrow> u8 pstore" where
  "Rod_SetDefaults s = s\<lparr>ps_buf := stroke_words \<lparr>sr_head_magic = PARAM_ROD_MAGIC_HEAD, sr_sequence_id = 0, sr_erase_count = 0,
     sr_position_mm = F_ZERO, sr_checksum = 0, sr_tail_magic = PARAM_ROD_MAGIC_TAIL\<rparr>, ps_client := 1\<rparr>"

definition Dev_Param_RodInit :: "efm_hw \<Rightarrow> param_dev \<Rightarrow> int \<times> param_dev" where
  "Dev_Param_RodInit H p =
     (if s_rod_inited p \<noteq> 0 then (PARAM_OK, p)
      else
        let (res, s) = Param_Init H s_rod_config True (Some Rod_SetDefaults) (fast_view (p\<lparr>s_rod_defaults_written := 0\<rparr>))
        in (res, (fast_put s p)\<lparr>s_rod_inited := 1\<rparr>))"

definition Dev_Param_RodApply :: "RodPosition_t option \<Rightarrow> param_dev \<Rightarrow> RodPosition_t option \<times> param_dev" where
  "Dev_Param_RodApply pos p =
     (if s_rod_inited p = 0 then (pos, p)
      else case pos of
        None \<Rightarrow> (pos, p)
      | Some x0 \<Rightarrow>
          let r = g_param_record p; p1 = p\<lparr>s_rod_pos_ptr := True\<rparr>;
              x1 = x0\<lparr>calib_win_a := rod_calib_win_a r, calib_win_b := rod_calib_win_b r, calib_win_c := rod_calib_win_c r,
                      calib_win_d := rod_calib_win_d r, stop_margin_mm := rod_stop_margin r\<rparr>;
              x2 = RodPosition_SetParams (rod_stroke_mm r) (rod_reduction_ratio r) (rod_hall_pulses r) (rod_screw_lead r) x1
          in if s_rod_defaults_written p \<noteq> 0 then (Some x2, p1)
             else if sr_sequence_id (s_rod_record p) \<le> 1 then (Some x2, p1)
             else (Some (x2\<lparr>position_mm := sr_position_mm (s_rod_record p), calib_state := POSITION_CALIBRATED\<rparr>), p1))"

definition Dev_Param_RodSave :: "efm_hw \<Rightarrow> f32 \<Rightarrow> param_dev \<Rightarrow> int \<times> param_dev" where
  "Dev_Param_RodSave H mm p =
     (if s_rod_inited p = 0 then (PARAM_ERR_NOT_RDY, p)
      else
        let (res, s) = Param_Save H s_rod_config True (fast_view (p\<lparr>s_rod_record := (s_rod_record p)\<lparr>sr_position_mm := mm\<rparr>\<rparr>))
        in (res, fast_put s p))"

definition Dev_Param_RodPollSave :: "efm_hw \<Rightarrow> sys_world \<times> param_dev \<Rightarrow> sys_world \<times> param_dev" where
  "Dev_Param_RodPollSave H = (\<lambda>(w, p).
     if s_rod_save_pending w = 0 \<or> s_rod_inited p = 0 then (w, p)
     else
       let w1 = w\<lparr>s_rod_save_wait := s_rod_save_wait w + 1\<rparr> in
       if s_rod_save_wait w1 < 2 then (w1, p)
       else
         let w2 = w1\<lparr>s_rod_save_pending := 0, s_rod_save_wait := 0\<rparr> in
         if \<not> s_rod_pos_ptr p then (w2, p)
         else if \<not> RodPosition_IsCalibrated (position (axis w2 ! 0)) then (w2, p)
         else (w2, snd (Dev_Param_RodSave H (RodPosition_GetCurrent (position (axis w2 ! 0))) p)))"

definition Dev_Param_RodGet :: "bool \<Rightarrow> param_dev \<Rightarrow> int + f32" where
  "Dev_Param_RodGet pmm p =
     (if s_rod_inited p = 0 then Inl PARAM_ERR_NOT_RDY
      else if \<not> pmm then Inl PARAM_ERR_INVD_PARAM
      else Inr (sr_position_mm (s_rod_record p)))"

definition Dev_Param_RodEraseAll :: "efm_hw \<Rightarrow> param_dev \<Rightarrow> param_dev" where
  "Dev_Param_RodEraseAll H p =
     fast_put (Param_Debug_EraseAll H s_rod_config True (Some Rod_SetDefaults) (fast_view (p\<lparr>s_rod_defaults_written := 0\<rparr>))) p"

text \<open>
  The fill loops of the two test functions; the first argument is the number of records left of
  the safety limit (500 and 1000), the result the number of records saved.
\<close>

definition room_left :: "Param_Runtime_t \<Rightarrow> u32" where
  "room_left r = (ucast (curr_sec r) + 1) * PARAM_SECTOR_SIZE - curr_addr r"

fun rod_fill :: "efm_hw \<Rightarrow> f32 \<Rightarrow> nat \<Rightarrow> param_dev \<Rightarrow> nat \<times> param_dev" where
  "rod_fill H mm 0 p = (0, p)"
| "rod_fill H mm (Suc n) p =
     (if room_left (s_rod_runtime p) > 2 * 24 then
        let (res, p1) = Dev_Param_RodSave H mm p
        in if res \<noteq> PARAM_OK then (0, p1) else (let (c, p2) = rod_fill H mm n p1 in (c + 1, p2))
      else (0, p))"

definition Dev_Param_RodFillTest :: "efm_hw \<Rightarrow> f32 \<Rightarrow> param_dev \<Rightarrow> nat \<times> param_dev" where
  "Dev_Param_RodFillTest H mm p = rod_fill H mm 1000 p"

section \<open>Interface of block A\<close>

definition Dev_Param_Init :: "efm_hw \<Rightarrow> sys_world \<times> param_dev \<Rightarrow> int \<times> sys_world \<times> param_dev" where
  "Dev_Param_Init H = (\<lambda>(w, p).
     if s_param_inited p \<noteq> 0 then (PARAM_OK, w, p)
     else
       let (res, s) = Param_Init H s_param_config True (Some Param_SetDefaults) (slow_view p);
           p1 = slow_put s p;
           w1 = (if res = PARAM_OK then Param_ApplyToDevices p1 w else w);
           p2 = snd (Dev_Param_RodInit H p1)
       in (res, w1, p2\<lparr>s_param_inited := 1\<rparr>))"

definition sync_record :: "sys_world \<Rightarrow> ParamRecord_t \<Rightarrow> ParamRecord_t" where
  "sync_record w r = r\<lparr>volt_over_th := over_th (g_volt_cfg w), volt_under_th := under_th (g_volt_cfg w), volt_hyst := hyst (g_volt_cfg w),
     volt_recover_ms := recover_ms (g_volt_cfg w), cur_over_th_ma := over_th_ma (g_cur_cfg w),
     cur_window_ms := window_ms (g_cur_cfg w), cur_block_ms := block_ms (g_cur_cfg w)\<rparr>"

definition Dev_Param_Save :: "efm_hw \<Rightarrow> sys_world \<times> param_dev \<Rightarrow> int \<times> param_dev" where
  "Dev_Param_Save H = (\<lambda>(w, p).
     if s_param_inited p = 0 then (PARAM_ERR_NOT_RDY, p)
     else if Param_IsMotorRunning w then (PARAM_ERR, p)
     else
       let (res, s) = Param_Save H s_param_config True (slow_view (p\<lparr>g_param_record := sync_record w (g_param_record p)\<rparr>))
       in (res, slow_put s p))"

definition Dev_Param_EraseAll :: "efm_hw \<Rightarrow> sys_world \<times> param_dev \<Rightarrow> sys_world \<times> param_dev" where
  "Dev_Param_EraseAll H = (\<lambda>(w, p).
     if Param_IsMotorRunning w then (w, p)
     else
       let p1 = slow_put (Param_Debug_EraseAll H s_param_config True (Some Param_SetDefaults) (slow_view p)) p
       in (Param_ApplyToDevices p1 w, Dev_Param_RodEraseAll H p1))"

definition Dev_Param_SaveTest :: "efm_hw \<Rightarrow> sys_world \<times> param_dev \<Rightarrow> sys_world \<times> param_dev" where
  "Dev_Param_SaveTest H = (\<lambda>(w, p).
     let th = fadd (over_th (g_volt_cfg w)) (f_lit 1 2);
         w1 = w\<lparr>g_volt_cfg := (g_volt_cfg w)\<lparr>over_th := (if fge th (f_lit 27 1) then f_lit 23 1 else th)\<rparr>\<rparr>
     in (w1, snd (Dev_Param_Save H (w1, p))))"

fun slow_fill :: "efm_hw \<Rightarrow> sys_world \<Rightarrow> nat \<Rightarrow> param_dev \<Rightarrow> nat \<times> param_dev" where
  "slow_fill H w 0 p = (0, p)"
| "slow_fill H w (Suc n) p =
     (if room_left (s_param_runtime p) > 2 * 84 then
        let (res, p1) = Dev_Param_Save H (w, p)
        in if res \<noteq> PARAM_OK then (0, p1) else (let (c, p2) = slow_fill H w n p1 in (c + 1, p2))
      else (0, p))"

definition Dev_Param_FillTest :: "efm_hw \<Rightarrow> sys_world \<Rightarrow> param_dev \<Rightarrow> nat \<times> param_dev" where
  "Dev_Param_FillTest H w p = slow_fill H w 500 p"

text \<open>The shell command \<open>dir_set\<close>: the number of arguments and the values \<open>strtoul\<close> reads from them.\<close>

definition cmd_dir_set :: "efm_hw \<Rightarrow> nat \<Rightarrow> u32 \<Rightarrow> u32 \<Rightarrow> sys_world \<times> param_dev \<Rightarrow> sys_world \<times> param_dev" where
  "cmd_dir_set H argc hall mot = (\<lambda>(w, p).
     if argc \<noteq> 3 then (w, p)
     else if hall > 1 \<or> mot > 1 then (w, p)
     else
       let p1 = p\<lparr>g_param_record := (g_param_record p)\<lparr>hall_dir_seq := ucast hall, motor_dir_seq := ucast mot\<rparr>\<rparr>;
           w1 = Param_ApplyDirSeq p1 w
       in (w1, snd (Dev_Param_Save H (w1, p1))))"

end
