(* ===== verification/Dev_Param_Laws.thy ===== *)
theory Dev_Param_Laws
  imports Dev_Param
begin

text \<open>
  The parameter blocks over the store: the two configurations keep the promises of
  \<open>record_layout\<close>, so every fact of \<open>param_engine\<close> holds for both blocks on a documented part. The
  properties say what a saved value is worth: it survives restarts, the rod position comes back
  calibrated only if it was saved calibrated, and saves are refused when they would be unsafe.
\<close>

interpretation slow_rec: record_layout s_param_config
  by unfold_locales (simp_all add: s_param_config_def size_valid_def qi_def ei_def ci_def paramWords_def)

interpretation fast_rec: record_layout s_rod_config
  by unfold_locales (simp_all add: s_rod_config_def size_valid_def qi_def ei_def ci_def paramWords_def)

lemma nor_part: "flash_part (nor_hw []) {}"
  using nor.flash_part_axioms [of "[]"] by simp

interpretation slow: param_engine "nor_hw []" s_param_config
  by (intro param_engine.intro nor_part slow_rec.record_layout_axioms)

interpretation fast: param_engine "nor_hw []" s_rod_config
  by (intro param_engine.intro nor_part fast_rec.record_layout_axioms)

lemma fast_engine: "flash_part H {} \<Longrightarrow> param_engine H s_rod_config"
  by (intro param_engine.intro fast_rec.record_layout_axioms)

lemma engine: "flash_part H {} \<Longrightarrow> record_layout cfg \<Longrightarrow> param_engine H cfg"
  by (rule param_engine.intro)

text \<open>An unformatted part, the store on it, and the store after the first start and a first save.\<close>

definition blank_flash :: efm where
  "blank_flash = \<lparr>fl_mem = (\<lambda>_. 0xFFFFFFFF), FSR = EFM_FLAG_RDY, FAPRT_open = False, PEMODE = False, PEMOD = 0, BUSHLDCTL = 0, FRMC = 0\<rparr>"

definition demo_blank :: "u8 pstore" where
  "demo_blank = \<lparr>ps_flash = blank_flash, ps_buf = [0, 0, 0, 0, 0, 0],
     ps_rt = \<lparr>curr_sec = 0, curr_addr = 0, save_count = 0, last_res = 0\<rparr>, ps_client = 0\<rparr>"

definition demo_formatted :: "u8 pstore" where
  "demo_formatted = snd (Param_Init (nor_hw []) s_rod_config True (Some Rod_SetDefaults) demo_blank)"

definition demo_saved :: "u8 pstore" where
  "demo_saved = snd (Param_Save (nor_hw []) s_rod_config True demo_formatted)"

lemma blank_scan:
  assumes "record_layout cfg"
  shows "scan_all cfg blank_flash = None"
proof -
  have "layout cfg blank_flash sec 0" for sec by (simp add: layout_def slot_def rd_def blank_flash_def)
  from record_layout.slots_hits [OF assms this] have "all_hits cfg blank_flash = []" by (simp add: all_hits_def)
  then show ?thesis by (simp add: scan_all_newest)
qed

lemma rod_defaults_words: "magic_words s_rod_config (ps_buf (Rod_SetDefaults s))" "ps_flash (Rod_SetDefaults s) = ps_flash s"
  by (simp_all add: magic_words_def Rod_SetDefaults_def stroke_words_def s_rod_config_def paramWords_def)

lemma fast_buf_ok: "fast_rec.buf_ok b \<longleftrightarrow> magic_words s_rod_config b"
  by (simp add: fast_rec.buf_ok_def magic_words_def)

lemma rod_idx [simp]: "qi s_rod_config = 1" "ei s_rod_config = 2" "ci s_rod_config = 4" "paramWords s_rod_config = 6"
  by (simp_all add: qi_def ei_def ci_def paramWords_def s_rod_config_def)

lemma rod_payload: "payload_idx s_rod_config = [3]"
  by code_simp

lemma demo_formatted_ok:
  "Param_Init (nor_hw []) s_rod_config True (Some Rod_SetDefaults) demo_blank = (PARAM_OK, demo_formatted)"
  "fast_rec.intact demo_formatted (ps_buf demo_formatted)" "ps_buf demo_formatted ! 1 = 1"
proof -
  obtain s' where "Param_Init (nor_hw []) s_rod_config True (Some Rod_SetDefaults) demo_blank = (PARAM_OK, s')"
    "fast_rec.intact s' (ps_buf s')" "ps_buf s' ! qi s_rod_config = 1"
    using fast.format_intact [where d = Rod_SetDefaults, OF _ rod_defaults_words(2) fast_buf_ok [THEN iffD2, OF rod_defaults_words(1)], of demo_blank]
      blank_scan [OF fast_rec.record_layout_axioms] by (auto simp: demo_blank_def)
  then show "Param_Init (nor_hw []) s_rod_config True (Some Rod_SetDefaults) demo_blank = (PARAM_OK, demo_formatted)"
    "fast_rec.intact demo_formatted (ps_buf demo_formatted)" "ps_buf demo_formatted ! 1 = 1"
    by (simp_all add: demo_formatted_def)
qed

lemma demo_saved_ok:
  "Param_Save (nor_hw []) s_rod_config True demo_formatted = (PARAM_OK, demo_saved)"
  "fast_rec.intact demo_saved (ps_buf demo_saved)"
proof -
  obtain s' where "Param_Save (nor_hw []) s_rod_config True demo_formatted = (PARAM_OK, s')" "fast_rec.intact s' (ps_buf s')"
    using fast.save_intact [OF demo_formatted_ok(2)] demo_formatted_ok(3) by auto
  then show "Param_Save (nor_hw []) s_rod_config True demo_formatted = (PARAM_OK, demo_saved)"
    "fast_rec.intact demo_saved (ps_buf demo_saved)" by (simp_all add: demo_saved_def)
qed

section \<open>The store\<close>

text \<open>
  C30. A successful save is real, whatever the flash does: when \<open>Param_Save\<close> reports success, the
  words in front of the new write position are the words of the buffer.
\<close>

theorem param_save_stored:
  assumes "Param_Save H cfg True s = (PARAM_OK, s')"
  shows "read_words (curr_addr (ps_rt s') - paramSize cfg) (length (take (paramWords cfg) (ps_buf s'))) (ps_flash s')
    = take (paramWords cfg) (ps_buf s')"
  using assms loop_stored by (auto simp: Param_Save_def split: if_splits)

theorem param_save_stored_witness:
  "Param_Save (nor_hw []) s_rod_config True demo_formatted = (PARAM_OK, demo_saved) \<and>
   read_words (curr_addr (ps_rt demo_saved) - paramSize s_rod_config) (length (take (paramWords s_rod_config) (ps_buf demo_saved)))
     (ps_flash demo_saved) = take (paramWords s_rod_config) (ps_buf demo_saved)"
  by (intro conjI demo_saved_ok(1) param_save_stored [OF demo_saved_ok(1)])


lemma intact_hit:
  "fast_rec.intact s ws \<Longrightarrow> \<exists>sec a. (sec, a) \<in> set (all_hits s_rod_config (ps_flash s)) \<and> record_valid s_rod_config a (ps_flash s)"
  unfolding fast_rec.intact_def using fast_rec.slots_hits fast_rec.stored_valid by (fastforce simp: all_hits_iff)


text \<open>
  C4. What was saved last survives every power cycle: on a documented part with an unformatted
  region, after the first start (which stores the default values) and any sequence of saves and
  restarts, each of which succeeds, the next restart loads exactly the values of the last save.
  A restart may find anything in RAM.
\<close>

theorem power_cycle_roundtrip:
  assumes H: "flash_part H {}" and cfg: "record_layout cfg"
    and blank: "scan_all cfg (ps_flash s0) = None"
    and d: "ps_flash (d s0) = ps_flash s0" "magic_words cfg (ps_buf (d s0))"
    and ops: "list_all (op_fine cfg) ops" "length ops < 2 ^ 30" "length ram = paramWords cfg"
  shows "\<exists>s1 s'. Param_Init H cfg True (Some d) s0 = (PARAM_OK, s1) \<and>
    run_ops H cfg d (ops @ [Restart ram r]) s1 = (replicate (length ops + 1) PARAM_OK, s') \<and>
    payload cfg (ps_buf s') = last_saved cfg ops (payload cfg (ps_buf (d s0)))"
proof -
  note E = engine [OF H cfg]
  have "record_layout.buf_ok cfg (ps_buf (d s0))"
    using d(2) by (simp add: record_layout.buf_ok_def [OF cfg] magic_words_def)
  from param_engine.format_intact [where d = d, OF E blank d(1) this]
  obtain s1 where s1: "Param_Init H cfg True (Some d) s0 = (PARAM_OK, s1)" "record_layout.intact cfg s1 (ps_buf s1)"
    "ps_buf s1 ! qi cfg = 1" "\<And>i. i \<notin> {qi cfg, ei cfg, ci cfg} \<Longrightarrow> ps_buf s1 ! i = ps_buf (d s0) ! i" by metis
  have p: "payload cfg (ps_buf s1) = payload cfg (ps_buf (d s0))" by (rule param_engine.payload_cong [OF E s1(4)])
  obtain s2 ws where s2: "run_ops H cfg d ops s1 = (replicate (length ops) PARAM_OK, s2)" "record_layout.intact cfg s2 ws"
    "payload cfg ws = last_saved cfg ops (payload cfg (ps_buf (d s0)))"
    using param_engine.run_intact [OF E s1(2) p, of ops d] s1(3) ops(1,2) by auto
  let ?s = "s2\<lparr>ps_buf := ram, ps_rt := r\<rparr>"
  from param_engine.reboot_intact [OF E s2(2), of ?s d] ops(3)
  obtain s' where s': "Param_Init H cfg True (Some d) ?s = (PARAM_OK, s')" "ps_buf s' = ws" by auto
  have "run_ops H cfg d (xs @ ys) s = (let (r1, t) = run_ops H cfg d xs s; (r2, t') = run_ops H cfg d ys t in (r1 @ r2, t'))" for xs ys s
    by (induction xs arbitrary: s) (auto simp: Let_def split: prod.splits)
  then show ?thesis using s1(1) s2 s' by (simp add: replicate_append_same)
qed

definition demo_ops :: "power_op list" where
  "demo_ops = [SaveOp [0, 0, 0, f_lit 25 2, 0, 0], Restart [1, 2, 3, 4, 5, 6] \<lparr>curr_sec = 7, curr_addr = 8, save_count = 9, last_res = 0\<rparr>,
     SaveOp [0, 0, 0, f_lit 24 1, 0, 0]]"

theorem power_cycle_roundtrip_witness:
  "\<exists>s1 s'. Param_Init (nor_hw []) s_rod_config True (Some Rod_SetDefaults) demo_blank = (PARAM_OK, s1) \<and>
    run_ops (nor_hw []) s_rod_config Rod_SetDefaults
      (demo_ops @ [Restart [0, 0, 0, 0, 0, 0] \<lparr>curr_sec = 0, curr_addr = 0, save_count = 0, last_res = 0\<rparr>]) s1
      = (replicate (length demo_ops + 1) PARAM_OK, s') \<and>
    payload s_rod_config (ps_buf s') = last_saved s_rod_config demo_ops (payload s_rod_config (ps_buf (Rod_SetDefaults demo_blank))) \<and>
    last_saved s_rod_config demo_ops (payload s_rod_config (ps_buf (Rod_SetDefaults demo_blank))) = [f_lit 24 1]"
proof -
  have "\<exists>s1 s'. Param_Init (nor_hw []) s_rod_config True (Some Rod_SetDefaults) demo_blank = (PARAM_OK, s1) \<and>
    run_ops (nor_hw []) s_rod_config Rod_SetDefaults
      (demo_ops @ [Restart [0, 0, 0, 0, 0, 0] \<lparr>curr_sec = 0, curr_addr = 0, save_count = 0, last_res = 0\<rparr>]) s1
      = (replicate (length demo_ops + 1) PARAM_OK, s') \<and>
    payload s_rod_config (ps_buf s') = last_saved s_rod_config demo_ops (payload s_rod_config (ps_buf (Rod_SetDefaults demo_blank)))"
    by (rule power_cycle_roundtrip [OF nor_part fast_rec.record_layout_axioms _ rod_defaults_words(2,1)])
      (simp_all add: demo_blank_def blank_scan [OF fast_rec.record_layout_axioms] demo_ops_def op_fine_def)
  moreover have "last_saved s_rod_config demo_ops (payload s_rod_config (ps_buf (Rod_SetDefaults demo_blank))) = [f_lit 24 1]"
    by (simp add: demo_ops_def payload_def rod_payload)
  ultimately show ?thesis by blast
qed


lemma intact_scan:
  assumes "fast_rec.intact s ws"
  obtains a sec where "scan_all s_rod_config (ps_flash s) = Some (ws ! 1, a, sec)"
proof -
  let ?e = "ps_flash s"
  obtain sec n where j: "sec \<in> set (sectors s_rod_config)" "layout s_rod_config ?e sec (Suc n)"
    "words_at ?e (slot s_rod_config sec n) (paramWords s_rod_config) = ws" "fast_rec.record_ok ws"
    "\<And>t a. (t, a) \<in> set (all_hits s_rod_config ?e) \<Longrightarrow> record_valid s_rod_config a ?e \<Longrightarrow>
        (t, a) \<noteq> (sec, slot s_rod_config sec n) \<Longrightarrow> seq_at s_rod_config ?e a < ws ! qi s_rod_config"
    using assms unfolding fast_rec.intact_def by blast
  note v = fast_rec.stored_valid [OF j(4,3)]
  have "(sec, slot s_rod_config sec n) \<in> set (all_hits s_rod_config ?e)"
    using j(1) fast_rec.slots_hits [OF j(2)] by (simp add: all_hits_iff)
  then have "newest s_rod_config ?e (all_hits s_rod_config ?e) = Some (sec, slot s_rod_config sec n)"
    using v j(5) by (intro newest_unique) auto
  then show ?thesis using that v by (simp add: scan_all_newest tag_def)
qed


text \<open>
  A record behind an unprogrammed spot is lost: when the slots of a sector are in use up to one
  whose first word is still blank, the scan stops there, and no record behind it is ever loaded,
  valid or not. A save that fails on the first word of a slot leaves exactly such a spot, and its
  retry puts the record behind it.
\<close>

theorem blank_head_hides_records:
  assumes "record_layout cfg" and "\<And>i. i < n \<Longrightarrow> rd e (slot cfg sec i) = magicHead cfg" and "rd e (slot cfg sec n) = 0xFFFFFFFF"
    and "n < m" "slot cfg sec (Suc m) \<le> (sec + 1) * 0x2000"
  shows "(sec, slot cfg sec m) \<notin> set (all_hits cfg e) \<and> scan_all cfg e \<noteq> Some (q, slot cfg sec m, sec)"
proof -
  note R = record_layout.psize_pos [OF assms(1)] record_layout.head_not_blank [OF assms(1)] record_layout.slot_inj [OF assms(1)]
  have fit: "fits cfg sec (slot cfg sec k)" if "k \<le> n" for k
    using slot_le [of "Suc k" "Suc m" cfg sec] that assms(4,5) R(1) by (simp add: fits_def slot_Suc)
  have "k \<le> n \<Longrightarrow> hits cfg e sec (slot cfg sec k) = map (slot cfg sec) [k..<n]" for k
  proof (induction "n - k" arbitrary: k)
    case 0
    then show ?case using fit [of n] assms(3) R(2) by (simp add: hits_blank)
  next
    case (Suc j)
    then have "k < n" by simp
    then show ?case using Suc fit [of k] assms(2) [of k] by (simp add: hits_magic upt_conv_Cons slot_Suc [symmetric])
  qed
  from this [of 0] have hits: "hits cfg e sec (sec * 0x2000) = map (slot cfg sec) [0..<n]" by (simp add: slot_def)
  then have no: "(sec, slot cfg sec m) \<notin> set (all_hits cfg e)" using assms(4) R(3) by (auto simp: all_hits_iff)
  moreover have "scan_all cfg e \<noteq> Some (q, slot cfg sec m, sec)"
  proof
    assume "scan_all cfg e = Some (q, slot cfg sec m, sec)"
    then have "newest cfg e (all_hits cfg e) = Some (sec, slot cfg sec m)"
      by (auto simp: scan_all_newest tag_def split: prod.splits)
    then show False using newest_Some no by blast
  qed
  ultimately show ?thesis ..
qed

text \<open>A sector with records in the slots 0 and 2 and a blank slot 1 between them.\<close>

definition demo_gap :: efm where
  "demo_gap = blank_flash\<lparr>fl_mem := (\<lambda>_. 0xFFFFFFFF)(0x78000 := PARAM_ROD_MAGIC_HEAD, 0x78030 := PARAM_ROD_MAGIC_HEAD)\<rparr>"

theorem blank_head_hides_records_witness:
  "rd demo_gap (slot s_rod_config 60 0) = magicHead s_rod_config \<and> rd demo_gap (slot s_rod_config 60 1) = 0xFFFFFFFF \<and>
   rd demo_gap (slot s_rod_config 60 2) = magicHead s_rod_config \<and>
   (60, slot s_rod_config 60 2) \<notin> set (all_hits s_rod_config demo_gap) \<and> scan_all s_rod_config demo_gap \<noteq> Some (2, slot s_rod_config 60 2, 60)"
proof -
  have f: "rd demo_gap (slot s_rod_config 60 0) = magicHead s_rod_config" "rd demo_gap (slot s_rod_config 60 1) = 0xFFFFFFFF"
    "rd demo_gap (slot s_rod_config 60 2) = magicHead s_rod_config" "slot s_rod_config 60 (Suc 2) \<le> (60 + 1) * 0x2000"
    by (simp_all add: rd_def demo_gap_def slot_def psize_def s_rod_config_def)
  then show ?thesis
    using blank_head_hides_records [OF fast_rec.record_layout_axioms, of 1 demo_gap 60 2 2] by simp
qed

end
