(* ===== verification/Param_App.thy ===== *)
theory Param_App
  imports Dev_Param_Laws
begin

text \<open>
  What the parameter blocks mean to the application: the structures and their words correspond one
  to one, and the rod position saved last is restored as calibrated after any number of restarts while
  default records never are.
\<close>

section \<open>Structures and words\<close>

lemma pair16_low: "(ucast (ucast (a :: u16) OR push_bit 16 (ucast (b :: u16)) :: u32) :: u16) = a"
  by (rule bit_word_eqI) (auto simp: bit_simps)

lemma pair16_high: "(ucast (drop_bit 16 (ucast (a :: u16) OR push_bit 16 (ucast (b :: u16)) :: u32)) :: u16) = b"
  by (rule bit_word_eqI) (auto simp: bit_simps dest: bit_imp_le_length)

lemma pair16_join: "(ucast (ucast (w :: u32) :: u16) OR push_bit 16 (ucast (ucast (drop_bit 16 w) :: u16)) :: u32) = w"
  by (rule bit_word_eqI) (auto simp: bit_simps)

lemma quad_fields:
  fixes a b :: u8 and c :: u16
  defines "w \<equiv> (ucast a OR push_bit 8 (ucast b) OR push_bit 16 (ucast c) :: u32)"
  shows "ucast w = a" "ucast (drop_bit 8 w) = b" "ucast (drop_bit 16 w) = c"
  unfolding w_def by (rule bit_word_eqI; auto simp: bit_simps dest: bit_imp_le_length)+

lemma quad_join:
  "(ucast (ucast (w :: u32) :: u8) OR push_bit 8 (ucast (ucast (drop_bit 8 w) :: u8)) OR push_bit 16 (ucast (ucast (drop_bit 16 w) :: u16)) :: u32) = w"
  (is "?j = w")
proof (rule bit_word_eqI)
  fix n assume "n < LENGTH(32)"
  then show "bit ?j n = bit w n" by (cases "n < 8"; cases "n < 16") (auto simp: bit_simps)
qed

lemma list21:
  "length ws = 21 \<Longrightarrow> [ws ! 0, ws ! 1, ws ! 2, ws ! 3, ws ! 4, ws ! 5, ws ! 6, ws ! 7, ws ! 8, ws ! 9, ws ! 10, ws ! 11, ws ! 12,
     ws ! 13, ws ! 14, ws ! 15, ws ! 16, ws ! 17, ws ! 18, ws ! 19, ws ! 20] = ws"
  by (rule nth_equalityI) (auto simp: less_Suc_eq numeral_eq_Suc)



lemma stroke_words_inverse [simp]: "words_stroke (stroke_words r) = r"
  by (simp add: words_stroke_def stroke_words_def)

lemma words_stroke_inverse: "length ws = 6 \<Longrightarrow> stroke_words (words_stroke ws) = ws"
  by (rule nth_equalityI)
    (auto simp: stroke_words_def words_stroke_def less_Suc_eq numeral_eq_Suc nth_Cons split: nat.splits)

section \<open>The rod position across restarts\<close>

lemma fast_put_view: "length (ps_buf s) = 6 \<Longrightarrow> fast_view (fast_put s p) = s"
  by (simp add: fast_view_def fast_put_def words_stroke_inverse)

lemma intact_length: "fast_rec.intact s ws \<Longrightarrow> length (ps_buf s) = 6 \<and> length ws = 6"
  by (auto simp: fast_rec.intact_def fast_rec.buf_ok_def fast_rec.record_ok_def)

lemma rod_save_block:
  assumes H: "flash_part H {}" and p: "fast_rec.intact (fast_view p) ws" "s_rod_inited p \<noteq> 0" and q: "unat (ws ! 1) + 2 < 2 ^ 32"
  obtains p' ws' where "Dev_Param_RodSave H mm p = (PARAM_OK, p')" "fast_rec.intact (fast_view p') ws'" "ws' ! 3 = mm"
    "unat (ws' ! 1) \<in> {unat (ws ! 1) + 1, unat (ws ! 1) + 2}" "s_rod_inited p' = s_rod_inited p"
proof -
  let ?s = "fast_view (p\<lparr>s_rod_record := (s_rod_record p)\<lparr>sr_position_mm := mm\<rparr>\<rparr>)"
  have "fast_rec.intact ?s ws"
    using p(1) by (simp add: fast_rec.intact_def fast_rec.buf_ok_def fast_view_def stroke_words_def)
  from param_engine.save_intact [OF fast_engine [OF H] this] q
  obtain s' where s': "Param_Save H s_rod_config True ?s = (PARAM_OK, s')" "fast_rec.intact s' (ps_buf s')"
    "\<And>i. i \<notin> {qi s_rod_config, ei s_rod_config, ci s_rod_config} \<Longrightarrow> ps_buf s' ! i = ps_buf ?s ! i"
    "unat (ps_buf s' ! qi s_rod_config) \<in> {unat (ws ! qi s_rod_config) + 1, unat (ws ! qi s_rod_config) + 2}" by auto
  have "ps_buf s' ! 3 = mm" using s'(3) [of 3] by (simp add: fast_view_def stroke_words_def)
  then show ?thesis
    using that [of "fast_put s' p" "ps_buf s'"] s' p(2) intact_length [OF s'(2)]
    by (simp add: Dev_Param_RodSave_def fast_put_view) (simp add: fast_put_def)
qed

lemma rod_restart_block:
  assumes H: "flash_part H {}" and p: "fast_rec.intact (fast_view p) ws" and p0: "pd_flash p0 = pd_flash p" "s_rod_inited p0 = 0"
  obtains p' where "Dev_Param_RodInit H p0 = (PARAM_OK, p')" "fast_rec.intact (fast_view p') ws" "s_rod_record p' = words_stroke ws"
    "s_rod_inited p' = 1" "s_rod_defaults_written p' = 0"
proof -
  let ?s = "fast_view (p0\<lparr>s_rod_defaults_written := 0\<rparr>)"
  have "ps_flash ?s = ps_flash (fast_view p)" "length (ps_buf ?s) = paramWords s_rod_config"
    using p0 by (simp_all add: fast_view_def stroke_words_def)
  from param_engine.reboot_intact [where d = Rod_SetDefaults, OF fast_engine [OF H] p this]
  obtain s' where s': "Param_Init H s_rod_config True (Some Rod_SetDefaults) ?s = (PARAM_OK, s')" "fast_rec.intact s' ws" "ps_buf s' = ws"
    "ps_client s' = ps_client ?s" by metis
  have "fast_view ((fast_put s' p0)\<lparr>s_rod_inited := 1\<rparr>) = s'"
    using intact_length [OF s'(2)] fast_put_view [of s' p0] by (simp add: fast_view_def)
  then show ?thesis
    using that [of "(fast_put s' p0)\<lparr>s_rod_inited := 1\<rparr>"] s' p0(2)
    by (simp add: Dev_Param_RodInit_def fast_put_def fast_view_def)
qed

text \<open>
  Saves of a position and restarts. A restart keeps the flash only; the rest of the module's memory
  is whatever the argument holds, except that the flag of initialisation is clear.
\<close>

datatype rod_op = RodSaveOp f32 | RodRestart param_dev

definition reset_dev :: "param_dev \<Rightarrow> efm \<Rightarrow> param_dev" where
  "reset_dev ram fl = ram\<lparr>pd_flash := fl, s_rod_inited := 0\<rparr>"

fun rod_run :: "efm_hw \<Rightarrow> rod_op list \<Rightarrow> param_dev \<Rightarrow> param_dev" where
  "rod_run H [] p = p"
| "rod_run H (RodSaveOp mm # ops) p = rod_run H ops (snd (Dev_Param_RodSave H mm p))"
| "rod_run H (RodRestart ram # ops) p = rod_run H ops (snd (Dev_Param_RodInit H (reset_dev ram (pd_flash p))))"

fun last_mm :: "rod_op list \<Rightarrow> f32 option \<Rightarrow> f32 option" where
  "last_mm [] m = m"
| "last_mm (RodSaveOp mm # ops) m = last_mm ops (Some mm)"
| "last_mm (RodRestart ram # ops) m = last_mm ops m"

text \<open>Block B with \<open>m\<close> saved last: a real record has a sequence number above that of the default record.\<close>

definition rod_block :: "param_dev \<Rightarrow> f32 option \<Rightarrow> nat \<Rightarrow> bool" where
  "rod_block p m k \<longleftrightarrow> (\<exists>ws. fast_rec.intact (fast_view p) ws \<and> s_rod_inited p \<noteq> 0 \<and> 1 \<le> unat (ws ! 1) \<and> unat (ws ! 1) \<le> k \<and>
     (case m of None \<Rightarrow> ws ! 1 = 1 | Some mm \<Rightarrow> 2 \<le> unat (ws ! 1) \<and> ws ! 3 = mm))"

lemma rod_run_block:
  assumes H: "flash_part H {}"
  shows "rod_block p m k \<Longrightarrow> k + 2 * length ops < 2 ^ 32 - 1 \<Longrightarrow> rod_block (rod_run H ops p) (last_mm ops m) (k + 2 * length ops)"
proof (induction ops arbitrary: p m k)
  case (Cons x ops)
  obtain ws where ws: "fast_rec.intact (fast_view p) ws" "s_rod_inited p \<noteq> 0" "1 \<le> unat (ws ! 1)" "unat (ws ! 1) \<le> k"
    "case m of None \<Rightarrow> ws ! 1 = 1 | Some mm \<Rightarrow> 2 \<le> unat (ws ! 1) \<and> ws ! 3 = mm"
    using Cons.prems(1) by (auto simp: rod_block_def)
  show ?case
  proof (cases x)
    case (RodSaveOp mm)
    have q: "unat (ws ! 1) + 2 < 2 ^ 32" using ws(4) Cons.prems(2) by simp
    obtain p' ws' where "Dev_Param_RodSave H mm p = (PARAM_OK, p')" "fast_rec.intact (fast_view p') ws'" "ws' ! 3 = mm"
      "unat (ws' ! 1) \<in> {unat (ws ! 1) + 1, unat (ws ! 1) + 2}" "s_rod_inited p' = s_rod_inited p"
      using rod_save_block [OF H ws(1,2) q] by metis
    then have "rod_block p' (Some mm) (k + 2)" "Dev_Param_RodSave H mm p = (PARAM_OK, p')" using ws by (auto simp: rod_block_def)
    then show ?thesis using Cons.IH [of p' "Some mm" "k + 2"] Cons.prems(2) RodSaveOp by simp
  next
    case (RodRestart ram)
    let ?p0 = "reset_dev ram (pd_flash p)"
    obtain p' where "Dev_Param_RodInit H ?p0 = (PARAM_OK, p')" "fast_rec.intact (fast_view p') ws" "s_rod_inited p' = 1"
      using rod_restart_block [OF H ws(1), of ?p0] by (auto simp: reset_dev_def)
    then have "rod_block p' m (k + 2)" "Dev_Param_RodInit H ?p0 = (PARAM_OK, p')"
      using ws by (auto simp: rod_block_def intro!: exI [of _ ws] split: option.splits)
    then show ?thesis using Cons.IH [of p' m "k + 2"] Cons.prems(2) RodRestart by simp
  qed
qed simp

lemma rod_first_start:
  assumes H: "flash_part H {}" and b: "scan_all s_rod_config (pd_flash p) = None" "s_rod_inited p = 0"
  shows "rod_block (snd (Dev_Param_RodInit H p)) None 1"
proof -
  let ?s = "fast_view (p\<lparr>s_rod_defaults_written := 0\<rparr>)"
  have fl: "ps_flash ?s = pd_flash p" by (simp add: fast_view_def)
  obtain s' where s': "Param_Init H s_rod_config True (Some Rod_SetDefaults) ?s = (PARAM_OK, s')"
    "fast_rec.intact s' (ps_buf s')" "ps_buf s' ! qi s_rod_config = 1"
    using param_engine.format_intact [where d = Rod_SetDefaults and ?s0.0 = ?s, OF fast_engine [OF H] _ rod_defaults_words(2)
        fast_buf_ok [THEN iffD2, OF rod_defaults_words(1)]] b(1) fl by metis
  have "fast_view ((fast_put s' p)\<lparr>s_rod_inited := 1\<rparr>) = s'"
    using intact_length [OF s'(2)] fast_put_view [of s' p] by (simp add: fast_view_def)
  then have "rod_block ((fast_put s' p)\<lparr>s_rod_inited := 1\<rparr>) None 1"
    unfolding rod_block_def using s'(2,3) by (intro exI [of _ "ps_buf s'"]) simp
  then show ?thesis using s'(1) b(2) by (simp add: Dev_Param_RodInit_def)
qed

text \<open>
  C9. The rod position across power cycles: on a documented part with unformatted block B, after the
  first start and any sequence of saved positions and restarts, the restoration at the next power-up
  sets the position of the last save and marks the rod calibrated; if no position was ever saved,
  the default record does not restore anything, and position and calibration state stay as they were.
\<close>

theorem rod_position_survives:
  assumes "flash_part H {}" "scan_all s_rod_config (pd_flash p) = None" "s_rod_inited p = 0" "length ops < 2 ^ 30"
  defines "p1 \<equiv> rod_run H ops (snd (Dev_Param_RodInit H p))"
  shows "\<exists>y p2. Dev_Param_RodApply (Some x) (snd (Dev_Param_RodInit H (reset_dev ram (pd_flash p1)))) = (Some y, p2) \<and>
    (case last_mm ops None of
       Some mm \<Rightarrow> position_mm y = mm \<and> calib_state y = POSITION_CALIBRATED
     | None \<Rightarrow> position_mm y = position_mm x \<and> calib_state y = calib_state x)"
proof -
  have "rod_block p1 (last_mm ops None) (1 + 2 * length ops)"
    unfolding p1_def using rod_run_block [OF assms(1) rod_first_start [OF assms(1-3)]] assms(4) by simp
  then obtain ws where ws: "fast_rec.intact (fast_view p1) ws"
    "case last_mm ops None of None \<Rightarrow> ws ! 1 = 1 | Some mm \<Rightarrow> 2 \<le> unat (ws ! 1) \<and> ws ! 3 = mm"
    by (auto simp: rod_block_def)
  let ?p0 = "reset_dev ram (pd_flash p1)"
  obtain p' where p': "Dev_Param_RodInit H ?p0 = (PARAM_OK, p')" "s_rod_record p' = words_stroke ws" "s_rod_inited p' = 1"
    "s_rod_defaults_written p' = 0"
    using rod_restart_block [OF assms(1) ws(1), of ?p0] by (auto simp: reset_dev_def)
  then show ?thesis
    using ws(2) by (cases "last_mm ops None")
      (auto simp: Dev_Param_RodApply_def Let_def words_stroke_def RodPosition_SetParams_def word_le_nat_alt)
qed

definition demo_dev :: param_dev where
  "demo_dev = \<lparr>pd_flash = blank_flash, g_param_record = param_defaults,
     s_param_runtime = \<lparr>curr_sec = 0, curr_addr = 0, save_count = 0, last_res = 0\<rparr>, s_param_inited = 0,
     s_rod_record = words_stroke [0, 0, 0, 0, 0, 0],
     s_rod_runtime = \<lparr>curr_sec = 0, curr_addr = 0, save_count = 0, last_res = 0\<rparr>, s_rod_inited = 0, s_rod_defaults_written = 0,
     s_rod_pos_ptr = False\<rparr>"

definition demo_rod_pos :: RodPosition_t where
  "demo_rod_pos = RodPosition_Init \<lparr>position_mm = 0, calib_state = POSITION_NOT_CALIBRATED, calib_pending = False, calib_allowed = False,
     in_calib_zone_min = False, in_calib_zone_max = False, min_limit_triggered = False, max_limit_triggered = False, stroke_mm = 0,
     reduction_ratio = 0, pulse_to_mm = 0, calib_win_a = 0, calib_win_b = 0, calib_win_c = 0, calib_win_d = 0, stop_margin_mm = 0\<rparr>"

theorem rod_position_survives_witness:
  "\<exists>y p2. Dev_Param_RodApply (Some demo_rod_pos) (snd (Dev_Param_RodInit (nor_hw []) (reset_dev demo_dev (pd_flash
       (rod_run (nor_hw []) [RodSaveOp (f_lit 25 2), RodRestart demo_dev, RodSaveOp (f_lit 7 1), RodRestart demo_dev]
          (snd (Dev_Param_RodInit (nor_hw []) demo_dev))))))) = (Some y, p2) \<and>
     position_mm y = f_lit 7 1 \<and> calib_state y = POSITION_CALIBRATED"
  using rod_position_survives [OF nor_part, of demo_dev "[RodSaveOp (f_lit 25 2), RodRestart demo_dev, RodSaveOp (f_lit 7 1), RodRestart demo_dev]"
      demo_rod_pos demo_dev]
    blank_scan [OF fast_rec.record_layout_axioms] by (simp add: demo_dev_def)

end
