(* ===== verification/System_Laws.thy ===== *)
theory System_Laws
  imports System
begin

text \<open>
  Facts on the system state machine that hold for every registry whose initialisation functions
  leave the system object alone; that is the contract \<open>registry_client\<close> between the registry and
  the state machine, and the library below is proved once inside it: what an event does to the
  machine, that the recursive send of the emergency entry ends in FAULT, and what entering FAULT
  does to the arbitration module.
\<close>

section \<open>Frame of the system object\<close>

definition core :: "sys_world \<Rightarrow> StateMachine_t \<times> u32 \<times> u32 \<times> State_t \<times> PolarityState_t" where
  "core w = (sys_sm w, error_code w, fault_bits w, sys_prev_state w, s_overcur_dir w)"

lemma core_fields:
  "core w = core v \<Longrightarrow> sys_sm w = sys_sm v" "core w = core v \<Longrightarrow> error_code w = error_code v"
  "core w = core v \<Longrightarrow> fault_bits w = fault_bits v" "core w = core v \<Longrightarrow> sys_prev_state w = sys_prev_state v"
  "core w = core v \<Longrightarrow> s_overcur_dir w = s_overcur_dir v"
  by (simp_all add: core_def)

lemma core_ops [sys_simps]:
  "core (sys_state_log_enter w) = core w" "core (Sys_State_ArbSendCommand a d p c u b w) = core w"
  "core (Sys_State_SetArbEnable a e w) = core w" "core (HcDrv_Timer_Start1ms w) = core w"
  "core (w\<lparr>axis := x\<rparr>) = core w" "core (w\<lparr>adc := y\<rparr>) = core w" "core (w\<lparr>s_hw_started := n\<rparr>) = core w"
  by (simp_all add: core_def sys_state_log_enter_def Sys_State_ArbSendCommand_def Sys_State_SetArbEnable_def
      HcDrv_Timer_Start1ms_def Let_def case_prod_beta)

lemma core_resync [sys_simps]: "core (Sys_State_ResyncActFromFault w) = core w"
  by (simp add: Sys_State_ResyncActFromFault_def Let_def sys_simps)

lemma core_axes [sys_simps]: "core (fault_axis i w) = core w" "core (hold_axis i w) = core w"
  by (simp_all add: fault_axis_def hold_axis_def sys_simps)

lemma core_enter [sys_simps]:
  "core (sys_enter_init w) = core w" "core (sys_enter_run w) = core w" "core (sys_enter_stop w) = core w"
  "core (sys_enter_fault w) = core w"
  by (simp_all add: sys_enter_init_def sys_enter_run_def sys_enter_stop_def sys_enter_fault_def Let_def sys_simps)

lemma init_all_core:
  "\<forall>m \<in> set ms. \<forall>f. mod_init m = Some f \<longrightarrow> (\<forall>w. core (f w) = core w) \<Longrightarrow> core (Dev_Registry_InitAll ms w) = core w"
  by (induction ms w rule: Dev_Registry_InitAll.induct) (auto split: option.split)

section \<open>The table\<close>

text \<open>Where an event leads, the transit through EMERGENCY included.\<close>

definition sm_after :: "StateMachine_t \<Rightarrow> Event_t \<Rightarrow> StateMachine_t" where
  "sm_after sm e =
     (let t = jump_scan sys_jump (cur_state sm) e in
      if t = cur_state sm then sm
      else if t = SYS_STATE_EMERGENCY then sm\<lparr>previous_state := SYS_STATE_EMERGENCY, cur_state := SYS_STATE_FAULT\<rparr>
      else sm\<lparr>previous_state := cur_state sm, cur_state := t\<rparr>)"

definition sm_inv :: "StateMachine_t \<Rightarrow> bool" where
  "sm_inv sm \<longleftrightarrow> jump_table sm = sys_jump \<and>
     cur_state sm \<in> {SYS_STATE_INIT, SYS_STATE_IDLE, SYS_STATE_RUN, SYS_STATE_FAULT, SYS_STATE_STOP} \<and>
     (cur_state sm = SYS_STATE_RUN \<longrightarrow> previous_state sm \<in> {SYS_STATE_IDLE, SYS_STATE_STOP})"

lemma sm_inv_after: "sm_inv sm \<Longrightarrow> sm_inv (sm_after sm e)"
  unfolding sm_inv_def by (elim conjE insertE emptyE) (simp_all add: sm_after_def Let_def sys_jump_def jump_row_def)

lemma fault_is_stable: "cur_state sm = SYS_STATE_FAULT \<Longrightarrow> e \<noteq> EVT_SYS_RECOVERY \<Longrightarrow> sm_after sm e = sm"
  by (simp add: sm_after_def Let_def sys_jump_def jump_row_def)

definition stop_events :: "u32 list" where
  "stop_events = [EVT_SYS_OVER_CURRENT, EVT_SYS_ROD_LIMIT_FAULT, EVT_SYS_VOLT_OVER, EVT_SYS_VOLT_UNDER, EVT_SYS_FAULT, EVT_SYS_EMERGENCY]"

lemma stop_events_stop:
  assumes "e \<in> set stop_events" and "cur_state sm \<in> {SYS_STATE_IDLE, SYS_STATE_RUN}"
  shows "cur_state (sm_after sm e) = SYS_STATE_FAULT"
proof -
  have "jump_scan sys_jump s e \<in> {SYS_STATE_FAULT, SYS_STATE_EMERGENCY}" if "s = SYS_STATE_IDLE \<or> s = SYS_STATE_RUN" for s
    using assms(1) that unfolding stop_events_def sys_jump_def jump_row_def
    by (elim disjE) (simp_all, (elim disjE, simp_all)+)
  then have "jump_scan sys_jump (cur_state sm) e \<in> {SYS_STATE_FAULT, SYS_STATE_EMERGENCY}" using assms(2) by simp
  then show ?thesis using assms(2) by (auto simp: sm_after_def Let_def)
qed

section \<open>The arbitration module behind the entries\<close>

text \<open>
  The module as it is in operation: well formed, its mutexes free, the two-pin driver bound and the
  message queue created; and its state in FAULT: both axes disabled and a message pending, so that
  the arbitration thread wakes up.
\<close>

definition arb_ok :: "gpio_motor arb_mod \<Rightarrow> bool" where
  "arb_ok m \<longleftrightarrow> mod_inv m \<and> mutex_take m 0 = RT_EOK \<and> mutex_take m 1 = RT_EOK \<and>
     (\<exists>cfg. s_arb_output_ops m = Some (s_gpio_out_ops cfg)) \<and> (\<exists>q. s_arb_mq m = Some q \<and> 0 < mq_blocks q)"

definition axes_off :: "'h arb_mod \<Rightarrow> bool" where
  "axes_off m \<longleftrightarrow> enable (get_arb 0 m) = 0 \<and> enable (get_arb 1 m) = 0"

definition msg_pending :: "'h arb_mod \<Rightarrow> bool" where
  "msg_pending m \<longleftrightarrow> (\<exists>q. s_arb_mq m = Some q \<and> mq_msgs q \<noteq> [])"

lemma Arb_SendCommand_frame [simp]:
  "s_arb_axis (snd (Arb_SendCommand a d p c u b t m)) = s_arb_axis m"
  "mutex_take (snd (Arb_SendCommand a d p c u b t m)) = mutex_take m"
  "s_arb_output_ops (snd (Arb_SendCommand a d p c u b t m)) = s_arb_output_ops m"
  by (simp_all add: Arb_SendCommand_def Let_def case_prod_beta split: option.split)

lemma Arb_SendCommand_queue:
  "s_arb_mq m = Some q \<Longrightarrow> \<exists>q'. s_arb_mq (snd (Arb_SendCommand a d p c u b t m)) = Some q' \<and> mq_blocks q' = mq_blocks q \<and>
     (mq_msgs q \<noteq> [] \<longrightarrow> mq_msgs q' \<noteq> [])"
  by (simp add: Arb_SendCommand_def Let_def case_prod_beta rt_mq_urgent_def rt_mq_send_def)

lemma sys_arb_send [simp]:
  "sys_arb (Sys_State_ArbSendCommand a d p c u b w) = snd (Arb_SendCommand a d p c u b (now w) (sys_arb w))"
  by (simp add: Sys_State_ArbSendCommand_def Let_def case_prod_beta)

lemma get_arb_send [simp]: "get_arb k (snd (Arb_SendCommand a d p c u b t m)) = get_arb k m"
  by (simp add: get_arb_def)

lemma axes_off_send [simp]: "axes_off (snd (Arb_SendCommand a d p c u b t m)) = axes_off m"
  by (simp add: axes_off_def)

lemma arb_ok_send: "arb_ok m \<Longrightarrow> arb_ok (snd (Arb_SendCommand a d p c u b t m))"
proof -
  assume ok: "arb_ok m"
  then obtain q where q: "s_arb_mq m = Some q" "0 < mq_blocks q" by (auto simp: arb_ok_def)
  show ?thesis using Arb_SendCommand_queue [OF q(1), of a d p c u b t] q(2) ok Arb_SendCommand_inv by (auto simp: arb_ok_def)
qed

lemma msg_pending_send: "msg_pending m \<Longrightarrow> msg_pending (snd (Arb_SendCommand a d p c u b t m))"
  using Arb_SendCommand_queue by (fastforce simp: msg_pending_def)

text \<open>An emergency stop leaves a message pending: its own, or those of a full queue.\<close>

lemma msg_pending_emergency:
  "arb_ok m \<Longrightarrow> i \<in> {0, 1} \<Longrightarrow>
     msg_pending (snd (Arb_SendCommand i DEV_ID_EMERGENCY PRIO_EMERGENCY CMD_TYPE_EMERGENCY_STOP 0 True t m))"
  by (auto simp: arb_ok_def msg_pending_def Arb_SendCommand_def Let_def rt_mq_urgent_def cmd_type_known_def word_le_nat_alt)

lemma sys_arb_log [simp]: "sys_arb (sys_state_log_enter w) = sys_arb w"
  by (simp add: sys_state_log_enter_def)

lemma set_enable_off:
  assumes "arb_ok m" and "i \<in> {0, 1}"
  shows "arb_ok (snd (Arb_SetEnable i False m))" "enable (get_arb (unat i) (snd (Arb_SetEnable i False m))) = 0"
    "get_arb (1 - unat i) (snd (Arb_SetEnable i False m)) = get_arb (1 - unat i) m"
proof -
  have len: "length (s_arb_axis m) = 2" using assms(1) by (simp add: arb_ok_def mod_inv_def)
  have "mod_inv (snd (Arb_SetEnable i False m))"
    using assms(1) by (intro arb_step_inv [OF arb_step.enable]) (simp add: arb_ok_def)
  then show "arb_ok (snd (Arb_SetEnable i False m))"
    using assms by (auto simp: Arb_SetEnable_def arb_ok_def Let_def word_le_nat_alt)
  show "enable (get_arb (unat i) (snd (Arb_SetEnable i False m))) = 0"
    "get_arb (1 - unat i) (snd (Arb_SetEnable i False m)) = get_arb (1 - unat i) m"
    using assms len by (auto simp: Arb_SetEnable_def arb_ok_def Let_def word_le_nat_alt)
qed

lemma fault_axis_arb:
  assumes "arb_ok (sys_arb w)" and "i \<in> {0, 1}"
  shows "arb_ok (sys_arb (fault_axis i w))" "enable (get_arb (unat i) (sys_arb (fault_axis i w))) = 0"
    "get_arb (1 - unat i) (sys_arb (fault_axis i w)) = get_arb (1 - unat i) (sys_arb w)" "msg_pending (sys_arb (fault_axis i w))"
  using set_enable_off [OF assms] assms(2)
  by (simp_all add: fault_axis_def Sys_State_SetArbEnable_def arb_ok_send msg_pending_emergency)

lemma sys_enter_fault_off:
  assumes "arb_ok (sys_arb w)"
  shows "axes_off (sys_arb (sys_enter_fault w)) \<and> arb_ok (sys_arb (sys_enter_fault w)) \<and> msg_pending (sys_arb (sys_enter_fault w))"
proof -
  let ?w0 = "fault_axis 0 (sys_state_log_enter w)"
  have w0: "arb_ok (sys_arb ?w0)" "enable (get_arb 0 (sys_arb ?w0)) = 0"
    using fault_axis_arb [of "sys_state_log_enter w" 0] assms by simp_all
  then show ?thesis using fault_axis_arb [of ?w0 1] by (simp add: sys_enter_fault_def axes_off_def)
qed

lemma hold_axis_arb: "arb_ok (sys_arb w) \<Longrightarrow> arb_ok (sys_arb (hold_axis i w))"
  by (simp add: hold_axis_def arb_ok_send)

section \<open>Events sent to the machine\<close>

text \<open>One level of the send, by the state it leads to.\<close>

definition moved :: "State_t \<Rightarrow> sys_world \<Rightarrow> sys_world" where
  "moved t w = w\<lparr>sys_sm := (sys_sm w)\<lparr>previous_state := cur_state (sys_sm w), cur_state := t\<rparr>\<rparr>"

lemma send_step:
  assumes "jump_table (sys_sm w) = sys_jump"
  shows "StateMachine_SendEvent (Some sys_ptr) (sys_func mods send) e w =
     (let t = jump_scan sys_jump (cur_state (sys_sm w)) e in
      if t = cur_state (sys_sm w) then w else run_enter (sys_func mods send) t (moved t w))"
proof -
  have ex: "\<forall>r \<in> set (sys_func mods send). ft_exit r = None" by (simp add: sys_func_def func_row_def)
  show ?thesis
    using sys.send_fixed [of w e "sys_func mods send"] sys.send_jump [OF _ _ ex, of w e] assms
    by (auto simp: Let_def sys_ptr_def moved_def)
qed

lemma sys_func_enter:
  "run_enter (sys_func mods send) SYS_STATE_INIT w = sys_enter_init w"
  "run_enter (sys_func mods send) SYS_STATE_IDLE w = sys_enter_idle mods w"
  "run_enter (sys_func mods send) SYS_STATE_RUN w = sys_enter_run w"
  "run_enter (sys_func mods send) SYS_STATE_STOP w = sys_enter_stop w"
  "run_enter (sys_func mods send) SYS_STATE_FAULT w = sys_enter_fault w"
  "run_enter (sys_func mods send) SYS_STATE_EMERGENCY w = sys_enter_emergency send w"
  by (simp_all add: sys_func_def func_row_def)

lemma jump_targets:
  "jump_scan sys_jump s e \<in> {s, SYS_STATE_IDLE, SYS_STATE_RUN, SYS_STATE_STOP, SYS_STATE_FAULT, SYS_STATE_EMERGENCY}"
proof (cases "jump_scan sys_jump s e = s")
  case False
  from jump_scan_listed [OF this] obtain r where "r \<in> set sys_jump" "jt_target_state r = jump_scan sys_jump s e" by auto
  then show ?thesis by (auto simp: sys_jump_def jump_row_def)
qed simp

lemma jump_emergency: "jump_scan sys_jump SYS_STATE_EMERGENCY EVT_SYS_FAULT = SYS_STATE_FAULT"
  by (simp add: sys_jump_def jump_row_def)

lemma jump_fault: "e \<noteq> EVT_SYS_RECOVERY \<Longrightarrow> jump_scan sys_jump SYS_STATE_FAULT e = SYS_STATE_FAULT"
  by (simp add: sys_jump_def jump_row_def)

text \<open>The emergency entry: everything before the nested event, which then enters FAULT.\<close>

definition hold_all :: "sys_world \<Rightarrow> sys_world" where
  "hold_all w = hold_axis 1 (hold_axis 0 (sys_state_log_enter (moved SYS_STATE_EMERGENCY w)))"

lemma sys_sm_moved [simp]:
  "jump_table (sys_sm (moved t w)) = jump_table (sys_sm w)" "cur_state (sys_sm (moved t w)) = t"
  "sys_sm (hold_all w) = sys_sm (moved SYS_STATE_EMERGENCY w)"
  using core_fields(1) [of "hold_all w" "moved SYS_STATE_EMERGENCY w"]
  by (simp_all add: hold_all_def sys_simps) (simp_all add: moved_def)

locale registry_client =
  fixes mods :: "sys_world SysModule_t list"
  assumes init_core: "m \<in> set mods \<Longrightarrow> mod_init m = Some f \<Longrightarrow> core (f w) = core w"
begin

lemma enter_idle_core: "core (sys_enter_idle mods w) = core w"
  using init_all_core [of mods] init_core by (simp add: sys_enter_idle_def Let_def sys_simps)

text \<open>The send, unfolded: its result does not depend on the depth beyond the second level.\<close>

lemma sys_send_emergency:
  assumes "jump_table (sys_sm w) = sys_jump"
  shows "sys_enter_emergency (sys_send (Suc n) mods) (moved SYS_STATE_EMERGENCY w) = sys_enter_fault (moved SYS_STATE_FAULT (hold_all w))"
proof -
  have j: "jump_table (sys_sm (hold_all w)) = sys_jump" "cur_state (sys_sm (hold_all w)) = SYS_STATE_EMERGENCY"
    using assms by simp_all
  have "sys_send (Suc n) mods EVT_SYS_FAULT (hold_all w) = sys_enter_fault (moved SYS_STATE_FAULT (hold_all w))"
    using send_step [OF j(1)] j(2) by (simp add: jump_emergency sys_func_enter)
  then show ?thesis by (simp add: sys_enter_emergency_def hold_all_def)
qed

lemma sys_send_unfold:
  assumes "jump_table (sys_sm w) = sys_jump"
  shows "sys_send (Suc (Suc n)) mods e w =
     (let t = jump_scan sys_jump (cur_state (sys_sm w)) e in
      if t = cur_state (sys_sm w) then w
      else if t = SYS_STATE_EMERGENCY then sys_enter_fault (moved SYS_STATE_FAULT (hold_all w))
      else if t = SYS_STATE_FAULT then sys_enter_fault (moved t w)
      else if t = SYS_STATE_IDLE then sys_enter_idle mods (moved t w)
      else if t = SYS_STATE_RUN then sys_enter_run (moved t w)
      else sys_enter_stop (moved t w))"
proof -
  let ?t = "jump_scan sys_jump (cur_state (sys_sm w)) e"
  have step: "sys_send (Suc (Suc n)) mods e w =
      (if ?t = cur_state (sys_sm w) then w else run_enter (sys_func mods (sys_send (Suc n) mods)) ?t (moved ?t w))"
    using send_step [OF assms] by (simp add: Let_def)
  consider "?t = cur_state (sys_sm w)" | "?t \<in> {SYS_STATE_IDLE, SYS_STATE_RUN, SYS_STATE_STOP, SYS_STATE_FAULT, SYS_STATE_EMERGENCY}"
    using jump_targets [of "cur_state (sys_sm w)" e] by blast
  then show ?thesis
    unfolding step by cases (auto simp: Let_def sys_func_enter sys_send_emergency [OF assms])
qed

lemma depth_suffices:
  "jump_table (sys_sm w) = sys_jump \<Longrightarrow> sys_send (SYS_DEPTH + k) mods e w = Sys_Send mods e w"
  using sys_send_unfold [of w k e] sys_send_unfold [of w 0 e] by (simp add: Sys_Send_def numeral_2_eq_2)

lemma Sys_Send_unfold:
  assumes "jump_table (sys_sm w) = sys_jump"
  shows "Sys_Send mods e w =
     (let t = jump_scan sys_jump (cur_state (sys_sm w)) e in
      if t = cur_state (sys_sm w) then w
      else if t = SYS_STATE_EMERGENCY then sys_enter_fault (moved SYS_STATE_FAULT (hold_all w))
      else if t = SYS_STATE_FAULT then sys_enter_fault (moved t w)
      else if t = SYS_STATE_IDLE then sys_enter_idle mods (moved t w)
      else if t = SYS_STATE_RUN then sys_enter_run (moved t w)
      else sys_enter_stop (moved t w))"
  unfolding Sys_Send_def numeral_2_eq_2 by (rule sys_send_unfold [OF assms])

text \<open>The system object after an event.\<close>

lemma Sys_Send_core:
  assumes "jump_table (sys_sm w) = sys_jump"
  shows "core (Sys_Send mods e w) = (sm_after (sys_sm w) e, error_code w, fault_bits w, sys_prev_state w, s_overcur_dir w)"
proof -
  have mv: "core (moved t w) = ((sys_sm w)\<lparr>previous_state := cur_state (sys_sm w), cur_state := t\<rparr>, error_code w, fault_bits w, sys_prev_state w, s_overcur_dir w)" for t
    by (simp add: core_def moved_def)
  have hold: "core (hold_all w) = core (moved SYS_STATE_EMERGENCY w)" by (simp add: hold_all_def sys_simps)
  have em: "core (moved SYS_STATE_FAULT (hold_all w)) = ((sys_sm w)\<lparr>previous_state := SYS_STATE_EMERGENCY, cur_state := SYS_STATE_FAULT\<rparr>,
      error_code w, fault_bits w, sys_prev_state w, s_overcur_dir w)"
    using hold by (simp add: core_def moved_def)
  show ?thesis
    unfolding Sys_Send_unfold [OF assms] sm_after_def Let_def
    by (simp add: mv em sys_simps enter_idle_core) (simp add: core_def)
qed

lemma Sys_Send_fields:
  assumes "jump_table (sys_sm w) = sys_jump"
  shows "sys_sm (Sys_Send mods e w) = sm_after (sys_sm w) e" "error_code (Sys_Send mods e w) = error_code w"
    "fault_bits (Sys_Send mods e w) = fault_bits w" "sys_prev_state (Sys_Send mods e w) = sys_prev_state w"
    "s_overcur_dir (Sys_Send mods e w) = s_overcur_dir w"
  using Sys_Send_core [OF assms, of e] by (simp_all add: core_def)

lemma Sys_Send_inv: "sm_inv (sys_sm w) \<Longrightarrow> sm_inv (sys_sm (Sys_Send mods e w))"
  using Sys_Send_fields(1) [of w e] sm_inv_after by (simp add: sm_inv_def [of "sys_sm w"])

text \<open>In FAULT every event but a recovery is ignored.\<close>

lemma Sys_Send_fault:
  "jump_table (sys_sm w) = sys_jump \<Longrightarrow> cur_state (sys_sm w) = SYS_STATE_FAULT \<Longrightarrow> e \<noteq> EVT_SYS_RECOVERY \<Longrightarrow> Sys_Send mods e w = w"
  by (simp add: Sys_Send_unfold jump_fault)

lemma hold_all_arb: "arb_ok (sys_arb w) \<Longrightarrow> arb_ok (sys_arb (hold_all w))"
  by (simp add: hold_all_def hold_axis_arb moved_def)

lemma moved_arb [simp]: "sys_arb (moved t w) = sys_arb w"
  by (simp add: moved_def)

lemma Sys_Send_stops:
  assumes "jump_table (sys_sm w) = sys_jump" and "cur_state (sys_sm w) \<in> {SYS_STATE_IDLE, SYS_STATE_RUN}"
    and "e \<in> set stop_events" and "arb_ok (sys_arb w)"
  shows "axes_off (sys_arb (Sys_Send mods e w)) \<and> arb_ok (sys_arb (Sys_Send mods e w)) \<and> msg_pending (sys_arb (Sys_Send mods e w))"
proof -
  have "cur_state (sm_after (sys_sm w) e) = SYS_STATE_FAULT" by (rule stop_events_stop [OF assms(3,2)])
  then have t: "jump_scan sys_jump (cur_state (sys_sm w)) e \<in> {SYS_STATE_EMERGENCY, SYS_STATE_FAULT}"
    using assms(2) by (auto simp: sm_after_def Let_def split: if_splits)
  have ne: "jump_scan sys_jump (cur_state (sys_sm w)) e \<noteq> cur_state (sys_sm w)" using t assms(2) by auto
  have "Sys_Send mods e w \<in> {sys_enter_fault (moved SYS_STATE_FAULT w), sys_enter_fault (moved SYS_STATE_FAULT (hold_all w))}"
    using t ne by (auto simp add: Sys_Send_unfold [OF assms(1)] Let_def)
  then obtain v where v: "Sys_Send mods e w = sys_enter_fault (moved SYS_STATE_FAULT v)" "v = w \<or> v = hold_all w" by blast
  then have "arb_ok (sys_arb (moved SYS_STATE_FAULT v))" using assms(4) hold_all_arb [OF assms(4)] by auto
  from sys_enter_fault_off [OF this] show ?thesis by (simp only: v(1))
qed

end

end
