(* ===== verification/Dispatch_Laws.thy ===== *)
theory Dispatch_Laws
  imports System_Laws
begin

text \<open>
  The dispatcher of the system thread, branch by branch, for any registry that keeps its contract:
  what each branch does to the machine, to the fault bits and to the arbitration module, and how
  the branches compose over the bits of one wake-up.
\<close>

section \<open>What precedes the event of a branch\<close>

definition jt_ok :: "sys_world \<Rightarrow> bool" where "jt_ok w \<longleftrightarrow> jump_table (sys_sm w) = sys_jump"

lemma save_prev_frame [simp]:
  "sys_sm (save_prev w) = sys_sm w" "sys_arb (save_prev w) = sys_arb w" "fault_bits (save_prev w) = fault_bits w"
  "error_code (save_prev w) = error_code w" "s_overcur_dir (save_prev w) = s_overcur_dir w"
  by (simp_all add: save_prev_def)

lemma RodSaveRequest_frame [simp]:
  "sys_sm (Dev_Param_RodSaveRequest w) = sys_sm w" "sys_arb (Dev_Param_RodSaveRequest w) = sys_arb w"
  "fault_bits (Dev_Param_RodSaveRequest w) = fault_bits w" "error_code (Dev_Param_RodSaveRequest w) = error_code w"
  "sys_prev_state (Dev_Param_RodSaveRequest w) = sys_prev_state w"
  by (simp_all add: Dev_Param_RodSaveRequest_def)

lemma ArbSend_core [simp]:
  "sys_sm (Sys_State_ArbSendCommand a d p c u b w) = sys_sm w" "fault_bits (Sys_State_ArbSendCommand a d p c u b w) = fault_bits w"
  "sys_prev_state (Sys_State_ArbSendCommand a d p c u b w) = sys_prev_state w"
  "error_code (Sys_State_ArbSendCommand a d p c u b w) = error_code w"
  using core_ops(2) [of a d p c u b w] by (simp_all add: core_def)

text \<open>The world a fault branch has prepared when it sends its event.\<close>

definition oc_ready :: "sys_world \<Rightarrow> sys_world" where
  "oc_ready w0 =
     (let (r, ctx) = RodCalib_OnOverCurrent (sys_arb w0) (position (axis w0 ! 0)) (rod_state (axis w0 ! 0));
          w1 = save_prev (w0\<lparr>axis := (axis w0)[0 := (axis w0 ! 0)\<lparr>rod_state := ctx\<rparr>],
            s_overcur_dir := (if r = ROD_CALIB_FAULT_FWD then POLARITY_FWD else POLARITY_REV), error_code := SYS_ERR_OVER_CURRENT\<rparr>)
      in w1\<lparr>fault_bits := fault_bits w1 OR FB_OVER_CURRENT\<rparr>)"

definition oc_result :: "sys_world \<Rightarrow> RodCalibResult_t" where
  "oc_result w = fst (RodCalib_OnOverCurrent (sys_arb w) (position (axis w ! 0)) (rod_state (axis w ! 0)))"

definition oc_fault :: "sys_world \<Rightarrow> bool" where
  "oc_fault w \<longleftrightarrow> oc_result w \<in> {ROD_CALIB_FAULT_FWD, ROD_CALIB_FAULT_REV}"

lemma disp_over_current_fault:
  "oc_fault w \<Longrightarrow> disp_over_current mods w = Sys_Send mods EVT_SYS_OVER_CURRENT (oc_ready w)"
  by (auto simp: oc_fault_def oc_result_def disp_over_current_def oc_ready_def Let_def case_prod_beta)

text \<open>Otherwise the machine, the fault bits and the enables stay.\<close>

lemma disp_over_current_calib:
  assumes "\<not> oc_fault w"
  shows "sys_sm (disp_over_current mods w) = sys_sm w" "fault_bits (disp_over_current mods w) = fault_bits w"
    "arb_ok (sys_arb w) \<Longrightarrow> arb_ok (sys_arb (disp_over_current mods w))" "axes_off (sys_arb (disp_over_current mods w)) = axes_off (sys_arb w)"
    "msg_pending (sys_arb w) \<Longrightarrow> msg_pending (sys_arb (disp_over_current mods w))"
    "sys_prev_state (disp_over_current mods w) = sys_prev_state w" "error_code (disp_over_current mods w) = error_code w"
  using assms
  by (auto simp: oc_fault_def oc_result_def disp_over_current_def Let_def case_prod_beta arb_ok_send msg_pending_send
      split: RodCalibResult_t.splits)

lemma oc_ready_frame [simp]:
  "sys_sm (oc_ready w) = sys_sm w" "sys_arb (oc_ready w) = sys_arb w" "fault_bits (oc_ready w) = fault_bits w OR FB_OVER_CURRENT"
  by (simp_all add: oc_ready_def Let_def case_prod_beta)

lemma or_bit_nonzero [simp]:
  "(x :: u32) OR FB_OVER_CURRENT \<noteq> 0" "x OR FB_VOLT_OVER \<noteq> 0" "x OR FB_VOLT_UNDER \<noteq> 0" "x OR FB_ROD_LIMIT \<noteq> 0"
proof -
  have "x OR push_bit n 1 \<noteq> 0" if "n < 32" for n
  proof
    assume "x OR push_bit n 1 = 0"
    then have "bit (x OR push_bit n 1) n = bit (0 :: u32) n" by simp
    then show False using that by (simp add: bit_simps)
  qed
  from this [of 0] this [of 1] this [of 2] this [of 3]
  show "x OR FB_OVER_CURRENT \<noteq> 0" "x OR FB_VOLT_OVER \<noteq> 0" "x OR FB_VOLT_UNDER \<noteq> 0" "x OR FB_ROD_LIMIT \<noteq> 0"
    by (simp_all add: push_bit_eq_mult)
qed

section \<open>Composition over the bits\<close>

text \<open>A property of the world that every branch keeps is kept by the dispatcher.\<close>

lemma Dispatch_induct:
  assumes "P w"
    and "\<And>w. P w \<Longrightarrow> bits AND EVT_SYS_OVER_CURRENT \<noteq> 0 \<Longrightarrow> P (disp_over_current mods w)"
    and "\<And>w. P w \<Longrightarrow> bits AND EVT_SYS_ROD_LIMIT_FAULT \<noteq> 0 \<Longrightarrow> P (disp_rod_limit mods w)"
    and "\<And>w. P w \<Longrightarrow> bits AND EVT_SYS_VOLT_OVER \<noteq> 0 \<Longrightarrow> P (disp_volt_over mods w)"
    and "\<And>w. P w \<Longrightarrow> bits AND EVT_SYS_VOLT_UNDER \<noteq> 0 \<Longrightarrow> P (disp_volt_under mods w)"
    and "\<And>w e. P w \<Longrightarrow> e \<in> {EVT_SYS_FAULT, EVT_SYS_EMERGENCY, EVT_SYS_INIT_DONE, EVT_SYS_CMD_WORK_ENABLE, EVT_SYS_ST_WORK_ERROR} \<Longrightarrow>
      bits AND e \<noteq> 0 \<Longrightarrow> P (Sys_Send mods e w)"
    and "\<And>w. P w \<Longrightarrow> bits AND EVT_SYS_RECOVERY \<noteq> 0 \<Longrightarrow> P (disp_recovery mods w)"
    and "\<And>w. P w \<Longrightarrow> bits AND EVT_SYS_VOLT_NORMAL \<noteq> 0 \<Longrightarrow> P (disp_volt_normal mods w)"
    and "\<And>w. P w \<Longrightarrow> bits AND EVT_SYS_POLARITY_CHG \<noteq> 0 \<Longrightarrow> P (disp_polarity mods w)"
  shows "P (Sys_State_Dispatch mods bits w)"
proof -
  have b: "P (when_bit bits e f v)" if "P v" "P v \<Longrightarrow> bits AND e \<noteq> 0 \<Longrightarrow> P (f v)" for e f v
    using that by (simp add: when_bit_def)
  show ?thesis
    unfolding Sys_State_Dispatch_def Let_def
    by (intro b) (use assms in auto)
qed

text \<open>The halted system, and the states from which a fault halts it.\<close>

definition halted :: "sys_world \<Rightarrow> bool" where
  "halted w \<longleftrightarrow> jt_ok w \<and> cur_state (sys_sm w) = SYS_STATE_FAULT \<and> arb_ok (sys_arb w) \<and> axes_off (sys_arb w) \<and> msg_pending (sys_arb w) \<and> fault_bits w \<noteq> 0"

definition stoppable :: "sys_world \<Rightarrow> bool" where
  "stoppable w \<longleftrightarrow> jt_ok w \<and> cur_state (sys_sm w) \<in> {SYS_STATE_IDLE, SYS_STATE_RUN} \<and> arb_ok (sys_arb w)"

definition faulty_or_clear :: "sys_world \<Rightarrow> bool" where
  "faulty_or_clear w \<longleftrightarrow> jt_ok w \<and> (cur_state (sys_sm w) = SYS_STATE_FAULT \<or> fault_bits w = 0)"

definition in_fault :: "sys_world \<Rightarrow> bool" where
  "in_fault w \<longleftrightarrow> jt_ok w \<and> cur_state (sys_sm w) = SYS_STATE_FAULT"

context registry_client
begin

section \<open>Every branch keeps the machine well formed\<close>

lemma auto_recover_inv: "sm_inv (sys_sm w) \<Longrightarrow> sm_inv (sys_sm (auto_recover mods w))"
  by (simp add: auto_recover_def Let_def Sys_Send_inv)

lemma disp_inv:
  assumes "sm_inv (sys_sm w)"
  shows "sm_inv (sys_sm (disp_over_current mods w))" "sm_inv (sys_sm (disp_rod_limit mods w))" "sm_inv (sys_sm (disp_volt_over mods w))"
    "sm_inv (sys_sm (disp_volt_under mods w))" "sm_inv (sys_sm (disp_recovery mods w))" "sm_inv (sys_sm (disp_volt_normal mods w))"
    "sm_inv (sys_sm (disp_polarity mods w))"
proof -
  show "sm_inv (sys_sm (disp_over_current mods w))"
    using assms by (cases "oc_fault w") (simp_all add: disp_over_current_fault disp_over_current_calib Sys_Send_inv)
qed (use assms in \<open>simp_all add: disp_rod_limit_def disp_volt_over_def disp_volt_under_def disp_recovery_def disp_volt_normal_def
      disp_polarity_def Let_def Sys_Send_inv auto_recover_inv\<close>)

lemma dispatch_inv: "sm_inv (sys_sm w) \<Longrightarrow> sm_inv (sys_sm (Sys_State_Dispatch mods bits w))"
  by (rule Dispatch_induct [where P = "\<lambda>w. sm_inv (sys_sm w)"]) (simp_all add: disp_inv Sys_Send_inv)

section \<open>Faults\<close>

lemma halted_send: "halted w \<Longrightarrow> e \<noteq> EVT_SYS_RECOVERY \<Longrightarrow> Sys_Send mods e w = w"
  by (simp add: halted_def jt_ok_def Sys_Send_fault)

lemma stoppable_send:
  assumes "stoppable w" and "e \<in> set stop_events" and "fault_bits w \<noteq> 0"
  shows "halted (Sys_Send mods e w)"
proof -
  have j: "jump_table (sys_sm w) = sys_jump" using assms(1) by (simp add: stoppable_def jt_ok_def)
  have "jump_table (sm_after sm e) = jump_table sm" for sm by (simp add: sm_after_def Let_def)
  then show ?thesis
    using assms Sys_Send_stops [of w e] stop_events_stop [of e "sys_sm w"] Sys_Send_fields [OF j, of e] j
    by (simp add: halted_def stoppable_def jt_ok_def)
qed

text \<open>A branch that prepares \<open>v\<close> from \<open>w\<close> and sends \<open>e\<close>.\<close>

lemma branch_halts:
  assumes "stoppable w \<or> halted w" and "e \<in> set stop_events" and "sys_sm v = sys_sm w" and "sys_arb v = sys_arb w" and "fault_bits v \<noteq> 0"
  shows "halted (Sys_Send mods e v)"
proof -
  have "e \<noteq> EVT_SYS_RECOVERY" using assms(2) by (auto simp: stop_events_def)
  moreover have "stoppable v \<or> halted v" using assms by (auto simp: stoppable_def halted_def jt_ok_def)
  ultimately show ?thesis using stoppable_send [OF _ assms(2,5)] halted_send [of v e] by auto
qed

lemma disp_halts:
  assumes "stoppable w \<or> halted w"
  shows "halted (disp_rod_limit mods w)" "halted (disp_volt_over mods w)" "halted (disp_volt_under mods w)"
    "oc_fault w \<Longrightarrow> halted (disp_over_current mods w)"
  by (auto simp: disp_rod_limit_def disp_volt_over_def disp_volt_under_def disp_over_current_fault Let_def stop_events_def
      intro!: branch_halts [OF assms])

lemma disp_over_current_keeps:
  assumes "stoppable w \<or> halted w"
  shows "stoppable (disp_over_current mods w) \<or> halted (disp_over_current mods w)" "halted w \<Longrightarrow> halted (disp_over_current mods w)"
  using assms disp_halts(4) [OF assms] disp_over_current_calib [of w mods]
  by (cases "oc_fault w"; auto simp: stoppable_def halted_def jt_ok_def)+

lemma halted_dispatch:
  assumes "halted w" and "\<forall>e \<in> {EVT_SYS_RECOVERY, EVT_SYS_VOLT_NORMAL, EVT_SYS_POLARITY_CHG}. bits AND e = 0"
  shows "halted (Sys_State_Dispatch mods bits w)"
  by (rule Dispatch_induct [where P = halted])
    (use assms in \<open>auto simp: disp_halts disp_over_current_keeps(2) halted_send\<close>)

text \<open>A wake-up with a voltage or limit fault and no recovery event halts a system that idles or runs.\<close>

lemma fault_dispatch_halts:
  assumes "stoppable w" and "\<exists>e \<in> {EVT_SYS_ROD_LIMIT_FAULT, EVT_SYS_VOLT_OVER, EVT_SYS_VOLT_UNDER}. bits AND e \<noteq> 0"
    and "\<forall>e \<in> {EVT_SYS_RECOVERY, EVT_SYS_VOLT_NORMAL, EVT_SYS_POLARITY_CHG}. bits AND e = 0"
  shows "halted (Sys_State_Dispatch mods bits w)"
proof -
  let ?P = "\<lambda>w. stoppable w \<or> halted w"
  let ?w1 = "when_bit bits EVT_SYS_OVER_CURRENT (disp_over_current mods) w"
  let ?w2 = "when_bit bits EVT_SYS_ROD_LIMIT_FAULT (disp_rod_limit mods) ?w1"
  let ?w3 = "when_bit bits EVT_SYS_VOLT_OVER (disp_volt_over mods) ?w2"
  let ?w4 = "when_bit bits EVT_SYS_VOLT_UNDER (disp_volt_under mods) ?w3"
  have w1: "?P ?w1" using assms(1) disp_over_current_keeps(1) [of w] by (auto simp: when_bit_def)
  have w2: "?P ?w2" "bits AND EVT_SYS_ROD_LIMIT_FAULT \<noteq> 0 \<Longrightarrow> halted ?w2" using w1 disp_halts(1) [OF w1] by (auto simp: when_bit_def)
  have w3: "?P ?w3" "bits AND EVT_SYS_ROD_LIMIT_FAULT \<noteq> 0 \<or> bits AND EVT_SYS_VOLT_OVER \<noteq> 0 \<Longrightarrow> halted ?w3"
    using w2 disp_halts(2) [OF w2(1)] by (auto simp: when_bit_def)
  have w4: "halted ?w4" using w3 disp_halts(3) [OF w3(1)] assms(2) by (auto simp: when_bit_def)
  have keep: "halted (when_bit bits e (Sys_Send mods e) v)" if "halted v" "e \<noteq> EVT_SYS_RECOVERY" for e v
    using that halted_send by (simp add: when_bit_def)
  have skip: "when_bit bits e f v = v" if "e \<in> {EVT_SYS_RECOVERY, EVT_SYS_VOLT_NORMAL, EVT_SYS_POLARITY_CHG}" for e f v
    using assms(3) that by (auto simp: when_bit_def)
  show ?thesis
    unfolding Sys_State_Dispatch_def Let_def by (simp add: skip) (intro keep; use w4 in simp)
qed

section \<open>Recovery\<close>

text \<open>Leaving FAULT: through IDLE, and on to RUN when the machine ran before the fault.\<close>

definition idled :: "sys_world \<Rightarrow> sys_world" where "idled w = sys_enter_idle mods (moved SYS_STATE_IDLE w)"

lemma fault_recovery:
  assumes "jt_ok w" and "cur_state (sys_sm w) = SYS_STATE_FAULT"
  shows "Sys_Send mods EVT_SYS_RECOVERY w = idled w"
  using assms by (simp add: jt_ok_def Sys_Send_unfold idled_def) (simp add: sys_jump_def jump_row_def)

lemma idled_core:
  "sys_sm (idled w) = (sys_sm w)\<lparr>previous_state := cur_state (sys_sm w), cur_state := SYS_STATE_IDLE\<rparr>"
  "fault_bits (idled w) = fault_bits w" "error_code (idled w) = error_code w" "sys_prev_state (idled w) = sys_prev_state w"
  using enter_idle_core [of "moved SYS_STATE_IDLE w"] by (simp_all add: idled_def core_def moved_def)

lemma idle_work_enable:
  assumes "jt_ok w" and "cur_state (sys_sm w) = SYS_STATE_IDLE"
  shows "Sys_Send mods EVT_SYS_CMD_WORK_ENABLE w = sys_enter_run (moved SYS_STATE_RUN w)"
  using assms by (simp add: jt_ok_def Sys_Send_unfold) (simp add: sys_jump_def jump_row_def)

lemma auto_recover_fault:
  assumes "jt_ok w" and "cur_state (sys_sm w) = SYS_STATE_FAULT"
  shows "auto_recover mods w =
     (let v = idled (w\<lparr>error_code := SYS_ERR_NONE\<rparr>)
      in if sys_prev_state w = SYS_STATE_RUN then sys_enter_run (moved SYS_STATE_RUN v) else v)"
proof -
  have "jt_ok (w\<lparr>error_code := SYS_ERR_NONE\<rparr>)" using assms(1) by (simp add: jt_ok_def)
  then have r: "Sys_Send mods EVT_SYS_RECOVERY (w\<lparr>error_code := SYS_ERR_NONE\<rparr>) = idled (w\<lparr>error_code := SYS_ERR_NONE\<rparr>)"
    using assms(2) by (intro fault_recovery) simp_all
  have v: "jt_ok (idled (w\<lparr>error_code := SYS_ERR_NONE\<rparr>))" "cur_state (sys_sm (idled (w\<lparr>error_code := SYS_ERR_NONE\<rparr>))) = SYS_STATE_IDLE"
    using assms(1) by (simp_all add: jt_ok_def idled_core)
  show ?thesis by (simp add: auto_recover_def r idle_work_enable [OF v] Let_def idled_core)
qed

text \<open>Without a recovery command, FAULT is left only with every fault bit clear.\<close>

lemma auto_recover_keeps_bits:
  "jt_ok w \<Longrightarrow> jt_ok (auto_recover mods w) \<and> fault_bits (auto_recover mods w) = fault_bits w"
proof -
  assume j: "jt_ok w"
  have jt: "jump_table (sm_after sm e) = jump_table sm" for sm e by (simp add: sm_after_def Let_def)
  let ?w1 = "w\<lparr>error_code := SYS_ERR_NONE\<rparr>"
  have j1: "jump_table (sys_sm ?w1) = sys_jump" using j by (simp add: jt_ok_def)
  note f1 = Sys_Send_fields [OF j1, of EVT_SYS_RECOVERY]
  have j2: "jump_table (sys_sm (Sys_Send mods EVT_SYS_RECOVERY ?w1)) = sys_jump" using f1(1) j1 by (simp add: jt)
  note f2 = Sys_Send_fields [OF j2, of EVT_SYS_CMD_WORK_ENABLE]
  show ?thesis using f1 f2 j1 j2 by (simp add: auto_recover_def Let_def jt_ok_def jt)
qed

lemma faulty_or_clear_send:
  assumes "faulty_or_clear w" and "e \<noteq> EVT_SYS_RECOVERY"
  shows "faulty_or_clear (Sys_Send mods e w)"
proof -
  have j: "jump_table (sys_sm w) = sys_jump" using assms(1) by (simp add: faulty_or_clear_def jt_ok_def)
  have "jump_table (sm_after sm e) = jump_table sm" for sm by (simp add: sm_after_def Let_def)
  then show ?thesis
    using assms Sys_Send_fields [OF j, of e] Sys_Send_fault [OF j _ assms(2)] j
    by (cases "cur_state (sys_sm w) = SYS_STATE_FAULT") (auto simp: faulty_or_clear_def jt_ok_def)
qed

lemma faulty_or_clear_recover:
  assumes "faulty_or_clear w"
  shows "faulty_or_clear (disp_volt_normal mods w)" "faulty_or_clear (disp_polarity mods w)"
proof -
  have r: "faulty_or_clear (auto_recover mods v)" if "jt_ok v" "fault_bits v = 0" for v
    using auto_recover_keeps_bits [OF that(1)] that(2) by (simp add: faulty_or_clear_def)
  show "faulty_or_clear (disp_volt_normal mods w)" "faulty_or_clear (disp_polarity mods w)"
    using assms r by (auto simp: disp_volt_normal_def disp_polarity_def Let_def faulty_or_clear_def jt_ok_def)
qed

lemma in_fault_branches:
  assumes "in_fault w"
  shows "in_fault (disp_rod_limit mods w)" "in_fault (disp_volt_over mods w)" "in_fault (disp_volt_under mods w)"
    "in_fault (disp_over_current mods w)" "e \<noteq> EVT_SYS_RECOVERY \<Longrightarrow> in_fault (Sys_Send mods e w)"
proof -
  have b: "in_fault (Sys_Send mods e v)" if "sys_sm v = sys_sm w" "e \<noteq> EVT_SYS_RECOVERY" for v e
    using assms that Sys_Send_fault [of v e] by (simp add: in_fault_def jt_ok_def)
  show "in_fault (disp_rod_limit mods w)" "in_fault (disp_volt_over mods w)" "in_fault (disp_volt_under mods w)"
    by (auto simp: disp_rod_limit_def disp_volt_over_def disp_volt_under_def Let_def intro!: b)
  show "in_fault (disp_over_current mods w)"
    using assms by (cases "oc_fault w") (auto simp: disp_over_current_fault disp_over_current_calib in_fault_def jt_ok_def intro!: b [unfolded in_fault_def jt_ok_def])
  show "e \<noteq> EVT_SYS_RECOVERY \<Longrightarrow> in_fault (Sys_Send mods e w)" using b [of w e] by simp
qed

lemma fault_dispatch_clear:
  assumes "in_fault w" and "bits AND EVT_SYS_RECOVERY = 0"
  shows "faulty_or_clear (Sys_State_Dispatch mods bits w)"
proof -
  have f: "in_fault (when_bit bits e g v)" if "in_fault v" "in_fault v \<Longrightarrow> in_fault (g v)" for e g v
    using that by (simp add: when_bit_def)
  have c: "faulty_or_clear (when_bit bits e g v)" if "faulty_or_clear v" "faulty_or_clear v \<Longrightarrow> faulty_or_clear (g v)" for e g v
    using that by (simp add: when_bit_def)
  let ?w1 = "when_bit bits EVT_SYS_OVER_CURRENT (disp_over_current mods) w"
  let ?w2 = "when_bit bits EVT_SYS_ROD_LIMIT_FAULT (disp_rod_limit mods) ?w1"
  let ?w3 = "when_bit bits EVT_SYS_VOLT_OVER (disp_volt_over mods) ?w2"
  let ?w4 = "when_bit bits EVT_SYS_VOLT_UNDER (disp_volt_under mods) ?w3"
  let ?w5 = "when_bit bits EVT_SYS_FAULT (Sys_Send mods EVT_SYS_FAULT) ?w4"
  let ?w6 = "when_bit bits EVT_SYS_EMERGENCY (Sys_Send mods EVT_SYS_EMERGENCY) ?w5"
  have "in_fault ?w1" using assms(1) by (rule f) (rule in_fault_branches(4))
  then have "in_fault ?w2" by (rule f) (rule in_fault_branches(1))
  then have "in_fault ?w3" by (rule f) (rule in_fault_branches(2))
  then have "in_fault ?w4" by (rule f) (rule in_fault_branches(3))
  then have "in_fault ?w5" by (rule f) (rule in_fault_branches(5), simp_all)
  then have "in_fault ?w6" by (rule f) (rule in_fault_branches(5), simp_all)
  then have w6: "faulty_or_clear ?w6" by (simp add: in_fault_def faulty_or_clear_def)
  let ?w8 = "when_bit bits EVT_SYS_VOLT_NORMAL (disp_volt_normal mods) ?w6"
  let ?w9 = "when_bit bits EVT_SYS_POLARITY_CHG (disp_polarity mods) ?w8"
  let ?w10 = "when_bit bits EVT_SYS_INIT_DONE (Sys_Send mods EVT_SYS_INIT_DONE) ?w9"
  let ?w11 = "when_bit bits EVT_SYS_CMD_WORK_ENABLE (Sys_Send mods EVT_SYS_CMD_WORK_ENABLE) ?w10"
  have "faulty_or_clear ?w8" using w6 by (rule c) (rule faulty_or_clear_recover(1))
  then have "faulty_or_clear ?w9" by (rule c) (rule faulty_or_clear_recover(2))
  then have "faulty_or_clear ?w10" by (rule c) (rule faulty_or_clear_send, simp_all)
  then have "faulty_or_clear ?w11" by (rule c) (rule faulty_or_clear_send, simp_all)
  then have "faulty_or_clear (when_bit bits EVT_SYS_ST_WORK_ERROR (Sys_Send mods EVT_SYS_ST_WORK_ERROR) ?w11)"
    by (rule c) (rule faulty_or_clear_send, simp_all)
  moreover have "when_bit bits EVT_SYS_RECOVERY g v = v" for g v using assms(2) by (simp add: when_bit_def)
  ultimately show ?thesis by (simp add: Sys_State_Dispatch_def Let_def)
qed

end

end
