(* ===== verification/Monitor.thy ===== *)
theory Monitor
  imports Dispatch_Laws
begin

text \<open>
  The monitor of \<^verbatim>\<open>Dev/dev_monitor/dev_monitor.c\<close>, which mirrors the state of the other modules
  into the watch record, and the registration of all modules (\<open>Dev_RegisterAll\<close> of
  \<^verbatim>\<open>dev_registry.c\<close>).
\<close>

section \<open>Monitor\<close>

definition s_sys_state_name :: "string list" where
  "s_sys_state_name = [''INIT'', ''IDLE'', ''RUN'', ''FAULT'', ''EMERGENCY'', ''STOP'']"

definition s_err_name :: "string list" where "s_err_name = [''NONE'', ''OC'', ''OV'', ''UV'', ''RL'']"

definition Monitor_SysStateName :: "u8 \<Rightarrow> string" where
  "Monitor_SysStateName state = (if unat state \<ge> length s_sys_state_name then ''UNK'' else s_sys_state_name ! unat state)"

text \<open>Degrees as the sign, the integral part and one decimal, in tenths.\<close>

definition Monitor_DegFmt :: "f32 \<Rightarrow> bool \<times> u32 \<times> u32" where
  "Monitor_DegFmt v0 =
     (let neg = flt v0 F_ZERO; v = (if neg then fneg v0 else v0);
          x10 = f_to_u32 (fadd (fmul v (f_lit 10 1)) (f_lit 1 2))
      in (neg, x10 div 10, x10 mod 10))"

definition mon_zero :: Monitor_t where
  "mon_zero = \<lparr>mon_sys_state = SYS_STATE_INIT, mon_error_code = 0, mon_sys_events = 0, mon_uptime_ms = 0, adc_raw_v = 0, adc_raw_i = 0,
     adc_mean_v = F_ZERO, adc_mean_i = F_ZERO, mon_bus_volt = F_ZERO, volt_status = 0, mon_cur_ma = F_ZERO, cur_status = 0, cur_over_ms = 0,
     mon_polarity = POLARITY_UNKNOWN, mon_rod_state = 0, rod_pos_mm = F_ZERO, rod_calibrated = 0, mon_volt_over_th = F_ZERO,
     mon_volt_under_th = F_ZERO, mon_volt_hyst = F_ZERO, mon_volt_recover_ms = 0, mon_cur_over_th = F_ZERO, mon_cur_over_window = 0,
     di_running = 0, di_period_ms = 0, led_running = 0, led_state = 0, led_period_ms = 0\<rparr>"

definition Monitor_Init :: "sys_world \<Rightarrow> sys_world" where
  "Monitor_Init w = w\<lparr>mon := mon_zero\<rparr>"

definition Monitor_Task :: "sys_world \<Rightarrow> sys_world" where
  "Monitor_Task w =
     (let ax = axis w ! 0; cur = mg_cur (hw (sys_arb w)); on = ax_dir ax \<noteq> ACT_DIR_NONE in
      w\<lparr>mon := \<lparr>mon_sys_state = StateMachine_GetState (Some sys_ptr) w, mon_error_code = error_code w,
          mon_sys_events = (case sys_evt w of Some e \<Rightarrow> e | None \<Rightarrow> 0), mon_uptime_ms = now w,
          adc_raw_v = (case Dev_Adc_GetRaw 0 (adc w) of Some x \<Rightarrow> x | None \<Rightarrow> 0),
          adc_raw_i = (case Dev_Adc_GetRaw 1 (adc w) of Some x \<Rightarrow> x | None \<Rightarrow> 0),
          adc_mean_v = (case Dev_Adc_GetMean 0 (adc w) of Some x \<Rightarrow> x | None \<Rightarrow> F_ZERO),
          adc_mean_i = (case Dev_Adc_GetMean 1 (adc w) of Some x \<Rightarrow> x | None \<Rightarrow> F_ZERO),
          mon_bus_volt = fst (BusVoltage_GetInfo (bv w)), volt_status = snd (BusVoltage_GetInfo (bv w)),
          mon_cur_ma = fst (CurrentSensor_GetInfo cur), cur_status = snd (CurrentSensor_GetInfo cur),
          cur_over_ms = CurrentSensor_GetOverMs cur, mon_polarity = Polarity_GetState (pol w),
          mon_rod_state = (if on then ucast (cur_state (sm_act ax)) else 0),
          rod_pos_mm = (if on then RodPosition_GetCurrent (position ax) else F_ZERO),
          rod_calibrated = (if on \<and> RodPosition_IsCalibrated (position ax) then 1 else 0),
          mon_volt_over_th = over_th (g_volt_cfg w), mon_volt_under_th = under_th (g_volt_cfg w), mon_volt_hyst = hyst (g_volt_cfg w),
          mon_volt_recover_ms = recover_ms (g_volt_cfg w), mon_cur_over_th = over_th_ma (g_cur_cfg w),
          mon_cur_over_window = window_ms (g_cur_cfg w),
          di_running = 1, di_period_ms = 2, led_running = 1, led_state = (if led_pin w then 1 else 0), led_period_ms = 1000\<rparr>\<rparr>)"

text \<open>The names the two dump functions look up for the system state and the error code.\<close>

definition Monitor_DumpStatus_names :: "Monitor_t \<Rightarrow> string \<times> string" where
  "Monitor_DumpStatus_names m = (s_sys_state_name ! unat (mon_sys_state m), s_err_name ! unat (mon_error_code m AND 7))"

definition Monitor_DumpSys_names :: "Monitor_t \<Rightarrow> string \<times> string" where
  "Monitor_DumpSys_names m = (s_sys_state_name ! unat (mon_sys_state m), s_err_name ! unat (mon_error_code m AND 3))"

section \<open>Registration\<close>

text \<open>
  The outcomes of the creation calls of the arbitration module are inputs, as there. The names
  given as string literals are registered with their quotes, because the macro stringises its
  argument.
\<close>

definition upd_cur :: "(cur_sensor \<Rightarrow> cur_sensor) \<Rightarrow> sys_world \<Rightarrow> sys_world" where
  "upd_cur f w = w\<lparr>sys_arb := (sys_arb w)\<lparr>hw := (hw (sys_arb w))\<lparr>mg_cur := f (mg_cur (hw (sys_arb w)))\<rparr>\<rparr>\<rparr>"

definition quoted :: "string \<Rightarrow> string" where "quoted n = CHR 0x22 # n @ [CHR 0x22]"

definition reg_table :: "(nat \<Rightarrow> rt_err_t) \<Rightarrow> bool \<Rightarrow> sys_world SysModule_t list" where
  "reg_table mutex_init mq_create_ok =
     [SYS_MODULE_REGISTER (quoted ''adc'') (Some (\<lambda>w. w\<lparr>adc := Dev_Adc_Init (adc w)\<rparr>)) None 2 0,
      SYS_MODULE_REGISTER (quoted ''cur'') (Some (upd_cur CurrentSensor_Init)) None 3 0,
      SYS_MODULE_REGISTER (quoted ''vm'') (Some (\<lambda>w. w\<lparr>bv := BusVoltage_Init (bv w)\<rparr>)) None 3 0,
      SYS_MODULE_REGISTER (quoted ''pol'') (Some (\<lambda>w. w\<lparr>pol := Polarity_Init (pol w)\<rparr>)) None 3 0,
      SYS_MODULE_REGISTER (quoted ''monitor'') (Some Monitor_Init) (Some Monitor_Task) 4 100,
      SYS_MODULE_REGISTER_THREAD ''act'' (Some (\<lambda>w. w\<lparr>sys_arb := Arb_Module_Init mutex_init mq_create_ok (sys_arb w)\<rparr>)) 15 2048,
      SYS_MODULE_REGISTER ''motg'' (Some (\<lambda>w. w\<lparr>sys_arb := Dev_MotorGpio_Init (g_cur_cfg w) (sys_arb w)\<rparr>)) None 3 0,
      SYS_MODULE_REGISTER ''hall_mot'' (Some (\<lambda>w. w\<lparr>hm := MotorHall_Init (now w) (hm w)\<rparr>)) None 3 0]"

definition Dev_RegisterAll ::
  "task_kernel \<Rightarrow> (nat \<Rightarrow> rt_err_t) \<Rightarrow> bool \<Rightarrow> sys_world SysModule_t list \<times> task_set \<times> sys_world \<Rightarrow>
   sys_world SysModule_t list \<times> task_set \<times> sys_world" where
  "Dev_RegisterAll K mutex_init mq_create_ok =
     (\<lambda>(mods, ts, w). fold (\<lambda>m s. snd (Dev_Registry_Add K (now w) (Some m) s)) (reg_table mutex_init mq_create_ok) (mods, ts, w))"

text \<open>The registered modules keep the contract of the state machine.\<close>

lemma core_devices [sys_simps]:
  "core (w\<lparr>adc := a\<rparr>) = core w" "core (w\<lparr>bv := b\<rparr>) = core w" "core (w\<lparr>pol := p\<rparr>) = core w" "core (w\<lparr>mon := m\<rparr>) = core w"
  "core (w\<lparr>sys_arb := x\<rparr>) = core w" "core (w\<lparr>hm := h\<rparr>) = core w" "core (upd_cur f w) = core w"
  by (simp_all add: core_def upd_cur_def)

interpretation reg: registry_client "reg_table mutex_init mq_create_ok"
  by unfold_locales
    (auto simp: reg_table_def SYS_MODULE_REGISTER_def SYS_MODULE_REGISTER_THREAD_def Monitor_Init_def sys_simps)

end
