(* ===== verification/Motor_Laws.thy ===== *)
theory Motor_Laws
  imports Motor_Output
begin

text \<open>
  Laws of the motor outputs: the pins and the posted command drive what the arbitration kernel
  publishes, the blanking of the current sensor follows direction changes, and the PWM ramp
  keeps both bridge halves complementary, switches polarity only at equal halves and reaches its
  target within a bounded number of ticks.
\<close>

section \<open>One ramp step\<close>

definition ramp_nat :: "nat \<Rightarrow> nat \<Rightarrow> nat \<Rightarrow> nat" where
  "ramp_nat c t s = (if c < t then min (c + s) t else if c > t + s then c - s else t)"

lemma RampStep8_nat:
  assumes "unat c \<le> 98" and "unat t \<le> 98" and "unat s \<le> 10"
  shows "unat (RampStep8 c t s) = ramp_nat (unat c) (unat t) (unat s)"
proof -
  have add: "unat (x + s) = unat x + unat s" if "unat x \<le> 98" for x :: u8
    using that assms(3) by (simp add: unat_word_ariths)
  have sub: "unat (c - s) = unat c - unat s" if "unat t + unat s < unat c"
    using that by (simp add: unat_sub word_le_nat_alt)
  have eq: "unat c = unat t" if "\<not> unat c < unat t" "\<not> unat t < unat c" using that by simp
  show ?thesis
    using assms sub eq
    by (auto simp: RampStep8_def ramp_nat_def Let_def word_less_nat_alt add)
qed

lemma ramp_nat_complement:
  "u + v = 100 \<Longrightarrow> ut + vt = 100 \<Longrightarrow> ramp_nat u ut s + ramp_nat v vt s = 100"
  by (auto simp: ramp_nat_def)

lemma ramp_nat_range:
  "2 \<le> c \<Longrightarrow> c \<le> 98 \<Longrightarrow> 2 \<le> t \<Longrightarrow> t \<le> 98 \<Longrightarrow> 2 \<le> ramp_nat c t s \<and> ramp_nat c t s \<le> 98"
  by (auto simp: ramp_nat_def)

text \<open>Distance to a target, which one step shortens by the step or closes.\<close>

definition gap :: "nat \<Rightarrow> nat \<Rightarrow> nat" where "gap c t = (if c < t then t - c else c - t)"

lemma gap_step: "gap (ramp_nat c t s) t = gap c t - s"
  by (auto simp: gap_def ramp_nat_def)

lemma gap_zero [simp]: "gap c t = 0 \<longleftrightarrow> c = t" "gap c c = 0"
  by (auto simp: gap_def)

section \<open>Targets\<close>

lemma pwm_eff_range: "2 \<le> unat (pwm_eff d) \<and> unat (pwm_eff d) \<le> 98"
  by (auto simp: pwm_eff_def Let_def word_less_nat_alt)

lemma pwm_targets_range:
  assumes "pwm_targets dir duty = (ut, vt)"
  shows "2 \<le> unat ut \<and> unat ut \<le> 98 \<and> unat ut + unat vt = 100"
proof -
  have "unat (100 - pwm_eff duty) = 100 - unat (pwm_eff duty)"
    using pwm_eff_range [of duty] by (simp add: unat_sub word_le_nat_alt)
  then show ?thesis using assms pwm_eff_range [of duty]
    by (auto simp: pwm_targets_def split: if_splits)
qed

section \<open>The invariant of the PWM device\<close>

definition cmp_of :: "pwm_dev \<Rightarrow> u8 \<Rightarrow> u16" where
  "cmp_of p duty = PwmHw4_DutyToCompare (tmr p) (ucast duty)"

definition pwm_inv :: "pwm_dev \<Rightarrow> bool" where
  "pwm_inv p \<longleftrightarrow>
     (if s_st p = PWM_ST_STOP then
        pocr_u (tmr p) = OXH_HOLD_OXL_INVT \<and> pocr_v (tmr p) = OXH_HOLD_OXL_INVT \<and>
        occr_u (tmr p) = cmp_of p 50 \<and> occr_v (tmr p) = cmp_of p 50
      else
        pocr_u (tmr p) = OXH_HOLD_OXL_HOLD \<and> pocr_v (tmr p) = OXH_HOLD_OXL_HOLD \<and>
        occr_u (tmr p) = cmp_of p (s_u_cur p) \<and> occr_v (tmr p) = cmp_of p (s_v_cur p) \<and>
        s_u_applied p = s_u_cur p \<and> s_v_applied p = s_v_cur p \<and>
        unat (s_u_cur p) + unat (s_v_cur p) = 100 \<and> 2 \<le> unat (s_u_cur p) \<and> unat (s_u_cur p) \<le> 98)"

text \<open>What the advance relies on: running polarity, complementary halves and targets, and an applied
  duty cycle that is either in the register or the out-of-range mark.\<close>

definition ramp_ready :: "pwm_dev \<Rightarrow> bool" where
  "ramp_ready p \<longleftrightarrow> pocr_u (tmr p) = OXH_HOLD_OXL_HOLD \<and> pocr_v (tmr p) = OXH_HOLD_OXL_HOLD \<and>
     (s_u_applied p = 0xFF \<or> occr_u (tmr p) = cmp_of p (s_u_applied p)) \<and>
     (s_v_applied p = 0xFF \<or> occr_v (tmr p) = cmp_of p (s_v_applied p)) \<and>
     unat (s_u_cur p) + unat (s_v_cur p) = 100 \<and> 2 \<le> unat (s_u_cur p) \<and> unat (s_u_cur p) \<le> 98 \<and>
     unat (s_u_tgt p) + unat (s_v_tgt p) = 100 \<and> 2 \<le> unat (s_u_tgt p) \<and> unat (s_u_tgt p) \<le> 98"

definition step_of :: "u8 \<Rightarrow> nat" where "step_of dir = (if dir = PWM_CMD_DIR_STOP then 10 else 2)"

lemma D2C_period [simp]:
  "PwmHw4_DutyToCompare (PwmHw4_SetCompare g c t) = PwmHw4_DutyToCompare t"
  "PwmHw4_DutyToCompare (PwmHw4_SetStopPolarity g t) = PwmHw4_DutyToCompare t"
  "PwmHw4_DutyToCompare (PwmHw4_SetRunPolarity g t) = PwmHw4_DutyToCompare t"
  by (auto simp: fun_eq_iff PwmHw4_DutyToCompare_def PwmHw4_SetCompare_def PwmHw4_SetStopPolarity_def
      PwmHw4_SetRunPolarity_def split: PwmGroup.split)

lemmas tmr4_ops = PwmHw4_SetCompare_def PwmHw4_SetStopPolarity_def PwmHw4_SetRunPolarity_def

lemma ApplyDutyU_fields [simp]:
  "s_u_cur (ApplyDutyU d p) = s_u_cur p" "s_v_cur (ApplyDutyU d p) = s_v_cur p"
  "s_u_tgt (ApplyDutyU d p) = s_u_tgt p" "s_v_tgt (ApplyDutyU d p) = s_v_tgt p"
  "s_cmd_dir (ApplyDutyU d p) = s_cmd_dir p" "s_cmd_duty (ApplyDutyU d p) = s_cmd_duty p"
  "s_u_applied (ApplyDutyU d p) = d" "s_v_applied (ApplyDutyU d p) = s_v_applied p"
  "pocr_u (tmr (ApplyDutyU d p)) = pocr_u (tmr p)" "pocr_v (tmr (ApplyDutyU d p)) = pocr_v (tmr p)"
  "occr_v (tmr (ApplyDutyU d p)) = occr_v (tmr p)" "cmp_of (ApplyDutyU d p) = cmp_of p"
  "occr_u (tmr (ApplyDutyU d p)) = (if s_u_applied p \<noteq> d then cmp_of p d else occr_u (tmr p))"
  by (simp_all add: ApplyDutyU_def tmr4_ops cmp_of_def fun_eq_iff PwmHw4_DutyToCompare_def)

lemma ApplyDutyV_fields [simp]:
  "s_u_cur (ApplyDutyV d p) = s_u_cur p" "s_v_cur (ApplyDutyV d p) = s_v_cur p"
  "s_u_tgt (ApplyDutyV d p) = s_u_tgt p" "s_v_tgt (ApplyDutyV d p) = s_v_tgt p"
  "s_cmd_dir (ApplyDutyV d p) = s_cmd_dir p" "s_cmd_duty (ApplyDutyV d p) = s_cmd_duty p"
  "s_v_applied (ApplyDutyV d p) = d" "s_u_applied (ApplyDutyV d p) = s_u_applied p"
  "pocr_u (tmr (ApplyDutyV d p)) = pocr_u (tmr p)" "pocr_v (tmr (ApplyDutyV d p)) = pocr_v (tmr p)"
  "occr_u (tmr (ApplyDutyV d p)) = occr_u (tmr p)" "cmp_of (ApplyDutyV d p) = cmp_of p"
  "occr_v (tmr (ApplyDutyV d p)) = (if s_v_applied p \<noteq> d then cmp_of p d else occr_v (tmr p))"
  by (simp_all add: ApplyDutyV_def tmr4_ops cmp_of_def fun_eq_iff PwmHw4_DutyToCompare_def)

lemma pwm_settle_fields [simp]:
  "s_u_cur (pwm_settle dir p) = s_u_cur p" "s_v_cur (pwm_settle dir p) = s_v_cur p"
  "s_u_tgt (pwm_settle dir p) = s_u_tgt p" "s_v_tgt (pwm_settle dir p) = s_v_tgt p"
  "s_cmd_dir (pwm_settle dir p) = s_cmd_dir p" "s_cmd_duty (pwm_settle dir p) = s_cmd_duty p"
  "s_u_applied (pwm_settle dir p) = s_u_applied p" "s_v_applied (pwm_settle dir p) = s_v_applied p"
  "occr_u (tmr (pwm_settle dir p)) = occr_u (tmr p)" "occr_v (tmr (pwm_settle dir p)) = occr_v (tmr p)"
  "cmp_of (pwm_settle dir p) = cmp_of p"
  by (simp_all add: pwm_settle_def tmr4_ops cmp_of_def fun_eq_iff PwmHw4_DutyToCompare_def)

lemma cmp_of_upd [simp]:
  "cmp_of (p\<lparr>s_u_cur := a\<rparr>) = cmp_of p" "cmp_of (p\<lparr>s_v_cur := a\<rparr>) = cmp_of p"
  "cmp_of (p\<lparr>s_u_tgt := a\<rparr>) = cmp_of p" "cmp_of (p\<lparr>s_v_tgt := a\<rparr>) = cmp_of p"
  by (simp_all add: cmp_of_def fun_eq_iff)

lemma pwm_ramp_cur:
  assumes "ramp_ready p"
  shows "unat (s_u_cur (pwm_ramp dir p)) = ramp_nat (unat (s_u_cur p)) (unat (s_u_tgt p)) (step_of dir)"
    and "unat (s_v_cur (pwm_ramp dir p)) = ramp_nat (unat (s_v_cur p)) (unat (s_v_tgt p)) (step_of dir)"
proof -
  have "unat (s_v_cur p) \<le> 98" "unat (s_v_tgt p) \<le> 98" using assms by (simp_all add: ramp_ready_def)
  then show "unat (s_u_cur (pwm_ramp dir p)) = ramp_nat (unat (s_u_cur p)) (unat (s_u_tgt p)) (step_of dir)"
    "unat (s_v_cur (pwm_ramp dir p)) = ramp_nat (unat (s_v_cur p)) (unat (s_v_tgt p)) (step_of dir)"
    using assms by (simp_all add: pwm_ramp_def Let_def ramp_ready_def step_of_def RampStep8_nat)
qed

lemma pwm_ramp_fields [simp]:
  "s_u_tgt (pwm_ramp dir p) = s_u_tgt p" "s_v_tgt (pwm_ramp dir p) = s_v_tgt p"
  "s_cmd_dir (pwm_ramp dir p) = s_cmd_dir p" "s_cmd_duty (pwm_ramp dir p) = s_cmd_duty p"
  "s_u_applied (pwm_ramp dir p) = s_u_cur (pwm_ramp dir p)" "s_v_applied (pwm_ramp dir p) = s_v_cur (pwm_ramp dir p)"
  "pocr_u (tmr (pwm_ramp dir p)) = pocr_u (tmr p)" "pocr_v (tmr (pwm_ramp dir p)) = pocr_v (tmr p)"
  "cmp_of (pwm_ramp dir p) = cmp_of p"
  by (simp_all add: pwm_ramp_def Let_def)

lemma pwm_ramp_regs:
  assumes "ramp_ready p"
  shows "occr_u (tmr (pwm_ramp dir p)) = cmp_of p (s_u_cur (pwm_ramp dir p))"
    and "occr_v (tmr (pwm_ramp dir p)) = cmp_of p (s_v_cur (pwm_ramp dir p))"
proof -
  have ff: "w \<noteq> 0xFF" if "unat w \<le> 98" for w :: u8
  proof
    assume "w = 0xFF"
    then have "unat w = 255" by simp
    with that show False by simp
  qed
  have "unat (s_u_cur (pwm_ramp dir p)) \<le> 98" "unat (s_v_cur (pwm_ramp dir p)) \<le> 98"
    using assms pwm_ramp_cur [OF assms, of dir] by (auto simp: ramp_ready_def ramp_nat_def)
  then have "s_u_cur (pwm_ramp dir p) \<noteq> 0xFF" "s_v_cur (pwm_ramp dir p) \<noteq> 0xFF" by (simp_all add: ff)
  then show "occr_u (tmr (pwm_ramp dir p)) = cmp_of p (s_u_cur (pwm_ramp dir p))"
    "occr_v (tmr (pwm_ramp dir p)) = cmp_of p (s_v_cur (pwm_ramp dir p))"
    using assms by (auto simp: pwm_ramp_def Let_def ramp_ready_def)
qed

section \<open>One tick\<close>

text \<open>The state the advance of a tick starts from.\<close>

definition tick_from :: "pwm_dev \<Rightarrow> pwm_dev" where
  "tick_from p0 = (let (ut, vt) = pwm_targets (s_cmd_dir p0) (s_cmd_duty p0); p = p0\<lparr>s_u_tgt := ut, s_v_tgt := vt\<rparr>
     in if s_st p = PWM_ST_STOP then pwm_start (s_cmd_dir p0) p else p)"

lemma Pwm_RampTick_advance:
  "s_st p \<noteq> PWM_ST_STOP \<or> s_cmd_dir p \<noteq> PWM_CMD_DIR_STOP \<Longrightarrow> Pwm_RampTick p = pwm_advance (s_cmd_dir p) (tick_from p)"
  by (auto simp: Pwm_RampTick_def tick_from_def Cmd_Fetch_def Let_def case_prod_beta)

lemma tick_from_ready:
  assumes "pwm_inv p"
  shows "ramp_ready (tick_from p)"
proof -
  obtain ut vt where t: "pwm_targets (s_cmd_dir p) (s_cmd_duty p) = (ut, vt)" by fastforce
  note r = pwm_targets_range [OF t]
  show ?thesis
  proof (cases "s_st p = PWM_ST_STOP")
    case True
    then show ?thesis using r t by (simp add: tick_from_def ramp_ready_def pwm_start_def tmr4_ops)
  next
    case False
    then show ?thesis using r t assms by (simp add: tick_from_def ramp_ready_def pwm_inv_def)
  qed
qed

lemma advance_inv:
  assumes "ramp_ready p" and "dir = PWM_CMD_DIR_STOP \<Longrightarrow> s_u_tgt p = 50 \<and> s_v_tgt p = 50"
  shows "pwm_inv (pwm_advance dir p)"
proof -
  have range: "2 \<le> unat (s_u_cur (pwm_ramp dir p))" "unat (s_u_cur (pwm_ramp dir p)) \<le> 98"
    "unat (s_u_cur (pwm_ramp dir p)) + unat (s_v_cur (pwm_ramp dir p)) = 100"
    using assms(1) ramp_nat_range [of "unat (s_u_cur p)" "unat (s_u_tgt p)" "step_of dir"]
    by (simp_all add: pwm_ramp_cur [OF assms(1)] ramp_ready_def ramp_nat_complement)
  have hold: "pocr_u (tmr p) = OXH_HOLD_OXL_HOLD" "pocr_v (tmr p) = OXH_HOLD_OXL_HOLD"
    using assms(1) by (simp_all add: ramp_ready_def)
  show ?thesis
  proof (cases "s_st (pwm_advance dir p) = PWM_ST_STOP")
    case True
    then have c: "dir = PWM_CMD_DIR_STOP" "s_u_cur (pwm_ramp dir p) = s_u_tgt p" "s_v_cur (pwm_ramp dir p) = s_v_tgt p"
      by (auto simp: pwm_advance_def pwm_settle_def split: if_splits)
    then have "pocr_u (tmr (pwm_advance dir p)) = OXH_HOLD_OXL_INVT" "pocr_v (tmr (pwm_advance dir p)) = OXH_HOLD_OXL_INVT"
      by (simp_all add: pwm_advance_def pwm_settle_def tmr4_ops)
    with True c assms(2) pwm_ramp_regs [OF assms(1), of dir] show ?thesis
      unfolding pwm_inv_def by (simp add: pwm_advance_def)
  next
    case False
    then have "pocr_u (tmr (pwm_advance dir p)) = OXH_HOLD_OXL_HOLD" "pocr_v (tmr (pwm_advance dir p)) = OXH_HOLD_OXL_HOLD"
      using hold by (auto simp: pwm_advance_def pwm_settle_def split: if_splits)
    with False range pwm_ramp_regs [OF assms(1), of dir] show ?thesis
      unfolding pwm_inv_def by (simp add: pwm_advance_def)
  qed
qed

lemma tick_from_fields:
  "s_cmd_dir p = PWM_CMD_DIR_STOP \<Longrightarrow> s_u_tgt (tick_from p) = 50 \<and> s_v_tgt (tick_from p) = 50"
  "s_cmd_dir (tick_from p) = s_cmd_dir p" "s_cmd_duty (tick_from p) = s_cmd_duty p"
  "(s_u_tgt (tick_from p), s_v_tgt (tick_from p)) = pwm_targets (s_cmd_dir p) (s_cmd_duty p)"
  by (auto simp: tick_from_def Let_def case_prod_beta pwm_start_def pwm_targets_def)

lemma tick_from_cur: "s_st p \<noteq> PWM_ST_STOP \<Longrightarrow> s_u_cur (tick_from p) = s_u_cur p"
  by (simp add: tick_from_def Let_def case_prod_beta)

lemma Pwm_RampTick_inv: "pwm_inv p \<Longrightarrow> pwm_inv (Pwm_RampTick p)"
proof (cases "s_st p = PWM_ST_STOP \<and> s_cmd_dir p = PWM_CMD_DIR_STOP")
  case True
  moreover assume "pwm_inv p"
  ultimately show ?thesis by (simp add: Pwm_RampTick_def Cmd_Fetch_def pwm_targets_def pwm_inv_def)
next
  case False
  moreover assume "pwm_inv p"
  ultimately show ?thesis
    using advance_inv [OF tick_from_ready [OF \<open>pwm_inv p\<close>], of "s_cmd_dir p"] tick_from_fields(1) [of p]
    by (simp add: Pwm_RampTick_advance)
qed

section \<open>Reaching the target\<close>

text \<open>How far the U half is from its target when the advance starts.\<close>

definition tick_gap :: "pwm_dev \<Rightarrow> nat" where
  "tick_gap p = gap (unat (s_u_cur (tick_from p))) (unat (s_u_tgt (tick_from p)))"

lemma tick_gap_bound: "pwm_inv p \<Longrightarrow> tick_gap p \<le> 96"
  using tick_from_ready [of p] by (auto simp: tick_gap_def gap_def ramp_ready_def)

lemma tick_gap_bound_stop:
  "pwm_inv p \<Longrightarrow> s_cmd_dir p = PWM_CMD_DIR_STOP \<Longrightarrow> tick_gap p \<le> 48"
  using tick_from_ready [of p] tick_from_fields(1) [of p] by (auto simp: tick_gap_def gap_def ramp_ready_def)

lemma v_follows_u:
  assumes "ramp_ready p" and "s_u_cur (pwm_ramp dir p) = s_u_tgt p"
  shows "s_v_cur (pwm_ramp dir p) = s_v_tgt p"
proof -
  have "unat (s_u_cur (pwm_ramp dir p)) + unat (s_v_cur (pwm_ramp dir p)) = 100"
    using assms(1) by (simp add: pwm_ramp_cur ramp_nat_complement ramp_ready_def)
  moreover have "unat (s_u_tgt p) + unat (s_v_tgt p) = 100" using assms(1) by (simp add: ramp_ready_def)
  ultimately show ?thesis using assms(2) by (simp add: word_unat_eq_iff)
qed

text \<open>One tick of a device with a command to carry out.\<close>

lemma tick_progress:
  assumes "pwm_inv p" and "s_st p \<noteq> PWM_ST_STOP \<or> s_cmd_dir p \<noteq> PWM_CMD_DIR_STOP"
  shows "s_cmd_dir (Pwm_RampTick p) = s_cmd_dir p" "s_cmd_duty (Pwm_RampTick p) = s_cmd_duty p"
    and "if tick_gap p \<le> step_of (s_cmd_dir p)
         then s_st (Pwm_RampTick p) = (if s_cmd_dir p = PWM_CMD_DIR_STOP then PWM_ST_STOP else PWM_ST_RUN) \<and>
              (s_u_cur (Pwm_RampTick p), s_v_cur (Pwm_RampTick p)) = pwm_targets (s_cmd_dir p) (s_cmd_duty p)
         else s_st (Pwm_RampTick p) = PWM_ST_RAMP \<and> tick_gap (Pwm_RampTick p) = tick_gap p - step_of (s_cmd_dir p)"
proof -
  let ?d = "s_cmd_dir p"
  let ?q = "tick_from p"
  have tick: "Pwm_RampTick p = pwm_settle ?d (pwm_ramp ?d ?q)"
    using Pwm_RampTick_advance [OF assms(2)] by (simp add: pwm_advance_def)
  have ready: "ramp_ready ?q" by (rule tick_from_ready [OF assms(1)])
  show dir: "s_cmd_dir (Pwm_RampTick p) = ?d" and duty: "s_cmd_duty (Pwm_RampTick p) = s_cmd_duty p"
    by (simp_all add: tick tick_from_fields)
  have gap: "gap (unat (s_u_cur (pwm_ramp ?d ?q))) (unat (s_u_tgt ?q)) = tick_gap p - step_of ?d"
    by (simp add: pwm_ramp_cur [OF ready] gap_step tick_gap_def)
  show "if tick_gap p \<le> step_of ?d
         then s_st (Pwm_RampTick p) = (if ?d = PWM_CMD_DIR_STOP then PWM_ST_STOP else PWM_ST_RUN) \<and>
              (s_u_cur (Pwm_RampTick p), s_v_cur (Pwm_RampTick p)) = pwm_targets ?d (s_cmd_duty p)
         else s_st (Pwm_RampTick p) = PWM_ST_RAMP \<and> tick_gap (Pwm_RampTick p) = tick_gap p - step_of ?d"
  proof (cases "tick_gap p \<le> step_of ?d")
    case True
    then have u: "s_u_cur (pwm_ramp ?d ?q) = s_u_tgt ?q" using gap by (simp add: word_unat_eq_iff)
    with v_follows_u [OF ready u] True tick_from_fields(4) [of p] show ?thesis
      by (simp add: tick) (auto simp: pwm_settle_def)
  next
    case False
    then have "s_u_cur (pwm_ramp ?d ?q) \<noteq> s_u_tgt ?q" using gap by auto
    then have st: "s_st (Pwm_RampTick p) = PWM_ST_RAMP" by (simp add: tick pwm_settle_def)
    have "s_u_cur (tick_from (Pwm_RampTick p)) = s_u_cur (pwm_ramp ?d ?q)"
      using tick_from_cur [of "Pwm_RampTick p"] st by (simp add: tick)
    moreover have "s_u_tgt (tick_from (Pwm_RampTick p)) = s_u_tgt ?q"
      using tick_from_fields(4) [of p] tick_from_fields(4) [of "Pwm_RampTick p"] by (metis dir duty fst_conv)
    ultimately show ?thesis using False st gap by (simp add: tick_gap_def)
  qed
qed

lemma ramp_reaches:
  assumes "pwm_inv p" and "s_st p \<noteq> PWM_ST_STOP \<or> s_cmd_dir p \<noteq> PWM_CMD_DIR_STOP"
    and "tick_gap p \<le> Suc n * step_of (s_cmd_dir p)"
  shows "\<exists>k \<le> n. s_st ((Pwm_RampTick ^^ Suc k) p) = (if s_cmd_dir p = PWM_CMD_DIR_STOP then PWM_ST_STOP else PWM_ST_RUN) \<and>
     (s_u_cur ((Pwm_RampTick ^^ Suc k) p), s_v_cur ((Pwm_RampTick ^^ Suc k) p)) = pwm_targets (s_cmd_dir p) (s_cmd_duty p)"
  using assms
proof (induction n arbitrary: p)
  case 0
  then show ?case using tick_progress [OF 0(1,2)] by simp
next
  case (Suc n)
  note prog = tick_progress [OF Suc.prems(1,2)]
  show ?case
  proof (cases "tick_gap p \<le> step_of (s_cmd_dir p)")
    case True
    then show ?thesis using prog by (intro exI [of _ 0]) simp
  next
    case False
    then have st: "s_st (Pwm_RampTick p) \<noteq> PWM_ST_STOP" and g: "tick_gap (Pwm_RampTick p) \<le> Suc n * step_of (s_cmd_dir (Pwm_RampTick p))"
      using prog Suc.prems(3) by auto
    obtain k where k: "k \<le> n" "s_st ((Pwm_RampTick ^^ Suc k) (Pwm_RampTick p)) =
        (if s_cmd_dir p = PWM_CMD_DIR_STOP then PWM_ST_STOP else PWM_ST_RUN)"
      "(s_u_cur ((Pwm_RampTick ^^ Suc k) (Pwm_RampTick p)), s_v_cur ((Pwm_RampTick ^^ Suc k) (Pwm_RampTick p))) =
         pwm_targets (s_cmd_dir p) (s_cmd_duty p)"
      using Suc.IH [OF Pwm_RampTick_inv [OF Suc.prems(1)] disjI1 [OF st] g] prog(1,2) by auto
    then show ?thesis by (intro exI [of _ "Suc k"]) (simp add: funpow_swap1)
  qed
qed

section \<open>The device under any interleaving\<close>

definition pwm_static :: pwm_dev where
  "pwm_static = \<lparr>s_cmd_dir = 0, s_cmd_duty = 0, s_cmd_sem = 0, s_st = PWM_ST_STOP, s_run_dir = 0, s_u_cur = 50,
     s_v_cur = 50, s_u_tgt = 50, s_v_tgt = 50, s_u_applied = 0xFF, s_v_applied = 0xFF, s_last_tick = 0, pw_inited = 0,
     tmr = \<lparr>s_tmr4_period = 0, occr_u = 0, occr_v = 0, pocr_u = OXH_HOLD_OXL_HOLD, pocr_v = OXH_HOLD_OXL_HOLD\<rparr>\<rparr>"

inductive pwm_reach :: "pwm_dev \<Rightarrow> bool" where
  boot: "hw m = pwm_static \<Longrightarrow> pwm_reach (hw (Dev_Pwm_Init pclk1 sem_ok thread_ok m))"
| post: "pwm_reach p \<Longrightarrow> pwm_reach (Cmd_Post dir duty p)"
| estop: "pwm_reach p \<Longrightarrow> pwm_reach (snd (Dev_PwmMotor_EStop p))"
| thread: "pwm_reach p \<Longrightarrow> pwm_reach (Pwm_ThreadStep now p)"

lemma pwm_inv_upd [simp]:
  "pwm_inv (p\<lparr>s_cmd_dir := a\<rparr>) = pwm_inv p" "pwm_inv (p\<lparr>s_cmd_duty := a\<rparr>) = pwm_inv p"
  "pwm_inv (p\<lparr>s_cmd_sem := n\<rparr>) = pwm_inv p" "pwm_inv (p\<lparr>s_last_tick := t\<rparr>) = pwm_inv p"
  "pwm_inv (p\<lparr>pw_inited := a\<rparr>) = pwm_inv p"
  by (simp_all add: pwm_inv_def cmp_of_def)

lemma PwmHw4_Init_inv: "s_st p = PWM_ST_STOP \<Longrightarrow> pwm_inv (p\<lparr>tmr := PwmHw4_Init c f t\<rparr>)"
  by (simp add: pwm_inv_def PwmHw4_Init_def Let_def cmp_of_def PwmHw4_DutyToCompare_def tmr4_ops)

lemma pwm_reach_inv: "pwm_reach p \<Longrightarrow> pwm_inv p"
proof (induction rule: pwm_reach.induct)
  case (boot m pclk1 sem_ok thread_ok)
  then show ?case
    using PwmHw4_Init_inv [of pwm_static pclk1 6500 "tmr pwm_static"]
    by (simp add: Dev_Pwm_Init_def Let_def Arb_BindOutputOps_def s_pwm_out_ops_def output_ops_def)
      (simp add: pwm_static_def)
next
  case (estop p)
  then show ?case
    by (simp add: Dev_PwmMotor_EStop_def Let_def pwm_inv_def cmp_of_def PwmHw4_DutyToCompare_def tmr4_ops)
next
  case (thread p now)
  then show ?case using Pwm_RampTick_inv by (simp add: Pwm_ThreadStep_def Let_def)
qed (simp add: Cmd_Post_def)

section \<open>Properties of the motor outputs\<close>

text \<open>
  C24. With the two-pin driver bound, after every round of the arbitration thread that decides an
  axis the pins drive exactly the direction the axis publishes, phase inversion included, and
  no direction means that both pins are high (brake).
\<close>

theorem gpio_pins_follow_arbitration:
  assumes "s_arb_output_ops m = Some (s_gpio_out_ops cfg)" and "length (s_arb_axis m) = ARB_MAX_AXIS_NUM"
    and "s_arb_mq m = Some q" and "rt_mq_recv q = Some (msg, q')"
    and "unat (m_axis_id msg) < ARB_MAX_AXIS_NUM" and "mutex_take m (unat (m_axis_id msg)) = RT_EOK"
    and "Arb_ThreadStep now m = Some m'"
  shows "gpio_dir (hw m') = active_dir (get_arb (unat (m_axis_id msg)) m')"
  using gpio_out.thread_output [of m cfg q msg q' now m'] assms by (simp add: s_gpio_out_ops_def)

definition demo_gpio :: "gpio_motor arb_mod" where
  "demo_gpio = snd (Arb_SendCommand 0 DEV_ID_POWER_NEG PRIO_POWER CMD_TYPE_RUN_REV 98 False 1
     (Dev_MotorGpio_Init \<lparr>over_th_ma = 0, window_ms = 30, block_ms = 30\<rparr>
       (Arb_Module_Init (\<lambda>_. RT_EOK) True (arb_boot (\<lambda>_. RT_EOK)
         \<lparr>pin_fwd = False, pin_rev = False, mg_inited = 0, s_dir_invert = 1, s_prev_out_dir = 0,
          mg_cur = \<lparr>s_u16BlockMs = 0, s_fCurrMa = 0, cs_status = 0, s_u16OverMs = 0, s_fFaultMa = 0\<rparr>\<rparr>))))"

definition demo_gpio_msg :: ArbCommandMsg_t where
  "demo_gpio_msg = \<lparr>m_axis_id = 0, m_device_id = DEV_ID_POWER_NEG, m_priority = PRIO_POWER,
     m_cmd_type = CMD_TYPE_RUN_REV, m_duty_pct = 98, m_timestamp = 1\<rparr>"

theorem gpio_pins_follow_arbitration_witness:
  "gpio_dir (hw (the (Arb_ThreadStep 2 demo_gpio))) = DIR_REV"
proof -
  let ?q = "\<lparr>mq_msgs = [demo_gpio_msg], mq_blocks = ARB_MQ_DEPTH\<rparr>"
  let ?cfg = "\<lparr>over_th_ma = 0, window_ms = 30, block_ms = 30\<rparr>"
  have "s_arb_mq demo_gpio = Some ?q" "Arb_ThreadStep 2 demo_gpio \<noteq> None"
    "active_dir (get_arb 0 (the (Arb_ThreadStep 2 demo_gpio))) = DIR_REV" "length (s_arb_axis demo_gpio) = 2"
    by code_simp+
  moreover have "rt_mq_recv ?q = Some (demo_gpio_msg, ?q\<lparr>mq_msgs := []\<rparr>)" by (simp add: rt_mq_recv_def)
  moreover have "mutex_take demo_gpio 0 = RT_EOK" by code_simp
  moreover have "s_arb_output_ops demo_gpio = Some (s_gpio_out_ops ?cfg)"
    by (simp add: demo_gpio_def Arb_SendCommand_def Arb_Module_Init_def arb_boot_def Let_def upt_rec
        Dev_MotorGpio_Init_def Arb_BindOutputOps_def s_gpio_out_ops_def output_ops_def cmd_type_known_def
        rt_mq_send_def rt_mq_create_def)
  ultimately show ?thesis
    using gpio_pins_follow_arbitration [of demo_gpio ?cfg ?q demo_gpio_msg "?q\<lparr>mq_msgs := []\<rparr>" 2
        "the (Arb_ThreadStep 2 demo_gpio)"]
    by (simp add: demo_gpio_msg_def)
qed

text \<open>
  The two-pin driver asks the current sensor for blanking exactly when the output starts to
  turn or reverses and blanking is configured; repeating a direction or stopping never restarts it.
\<close>

theorem gpio_blanking_on_direction_change:
  "s_u16BlockMs (mg_cur (MotorGpio_WritePair cfg f r g)) =
     (let d = s_prev_out_dir (MotorGpio_WritePair cfg f r g) in
      if d \<noteq> 0 \<and> d \<noteq> s_prev_out_dir g \<and> block_ms cfg \<noteq> 0 then block_ms cfg else s_u16BlockMs (mg_cur g)) \<and>
   (s_prev_out_dir (MotorGpio_WritePair cfg f r g) = 0 \<longleftrightarrow>
      pin_fwd (MotorGpio_WritePair cfg f r g) \<and> pin_rev (MotorGpio_WritePair cfg f r g)) \<and>
   (pin_fwd (MotorGpio_WritePair cfg f r g) \<or> pin_rev (MotorGpio_WritePair cfg f r g))"
  by (simp add: MotorGpio_WritePair_def Let_def CurrentSensor_ReqBlock_def)



text \<open>
  C26. The ramp ends: from any reachable state, a standing run command is at its target duty
  cycles in the RUN state after at most 48 ticks, and a standing stop command of a turning motor
  is in the stop state after at most 5 ticks.
\<close>

theorem pwm_ramp_terminates:
  assumes "pwm_reach p" and "s_st p \<noteq> PWM_ST_STOP \<or> s_cmd_dir p \<noteq> PWM_CMD_DIR_STOP"
  shows "\<exists>n \<le> (if s_cmd_dir p = PWM_CMD_DIR_STOP then 5 else 48). 0 < n \<and>
     s_st ((Pwm_RampTick ^^ n) p) = (if s_cmd_dir p = PWM_CMD_DIR_STOP then PWM_ST_STOP else PWM_ST_RUN) \<and>
     (s_u_cur ((Pwm_RampTick ^^ n) p), s_v_cur ((Pwm_RampTick ^^ n) p)) = pwm_targets (s_cmd_dir p) (s_cmd_duty p)"
proof -
  have inv: "pwm_inv p" by (rule pwm_reach_inv [OF assms(1)])
  show ?thesis
  proof (cases "s_cmd_dir p = PWM_CMD_DIR_STOP")
    case True
    then have "tick_gap p \<le> Suc 4 * step_of (s_cmd_dir p)"
      using tick_gap_bound_stop [OF inv] by (simp add: step_of_def)
    from ramp_reaches [OF inv assms(2) this] obtain k where "k \<le> 4"
      "s_st ((Pwm_RampTick ^^ Suc k) p) = PWM_ST_STOP"
      "(s_u_cur ((Pwm_RampTick ^^ Suc k) p), s_v_cur ((Pwm_RampTick ^^ Suc k) p)) = pwm_targets (s_cmd_dir p) (s_cmd_duty p)"
      using True by auto
    with True show ?thesis by (intro exI [of _ "Suc k"]) simp
  next
    case False
    then have "tick_gap p \<le> Suc 47 * step_of (s_cmd_dir p)"
      using tick_gap_bound [OF inv] by (simp add: step_of_def)
    from ramp_reaches [OF inv assms(2) this] obtain k where "k \<le> 47"
      "s_st ((Pwm_RampTick ^^ Suc k) p) = PWM_ST_RUN"
      "(s_u_cur ((Pwm_RampTick ^^ Suc k) p), s_v_cur ((Pwm_RampTick ^^ Suc k) p)) = pwm_targets (s_cmd_dir p) (s_cmd_duty p)"
      using False by auto
    with False show ?thesis by (intro exI [of _ "Suc k"]) simp
  qed
qed

theorem pwm_ramp_terminates_witness:
  "\<exists>n \<le> 48. s_st ((Pwm_RampTick ^^ n) (Cmd_Post PWM_CMD_DIR_FWD 98
     (hw (Dev_Pwm_Init 100000000 True True (arb_boot (\<lambda>_. RT_EOK) pwm_static))))) = PWM_ST_RUN"
proof -
  let ?p = "Cmd_Post PWM_CMD_DIR_FWD 98 (hw (Dev_Pwm_Init 100000000 True True (arb_boot (\<lambda>_. RT_EOK) pwm_static)))"
  have h: "hw (arb_boot (\<lambda>_. RT_EOK) pwm_static) = pwm_static" by (simp add: arb_boot_def)
  have d: "s_cmd_dir ?p = PWM_CMD_DIR_FWD" by (simp add: Cmd_Post_def)
  from pwm_ramp_terminates [OF pwm_reach.post [OF pwm_reach.boot [OF h]], of PWM_CMD_DIR_FWD 98 100000000 True True] d
  show ?thesis by auto
qed

end
