(* ===== verification/Rod_Laws.thy ===== *)
theory Rod_Laws
  imports Rod
begin

text \<open>
  Laws of the rod state machine and of the soft limits: the blocks it sends to the arbitration
  kernel are outstanding exactly while the rod is at the limit, a soft limit calibrates the
  position, and the over-current decision is complete.
\<close>

section \<open>The table\<close>

definition rod_ok :: "StateMachine_t \<Rightarrow> bool" where
  "rod_ok sm \<longleftrightarrow> jump_table sm = s_rod_jump \<and> cur_state sm \<le> ROD_STATE_RET_FAULT"

lemma rod_jump_range: "s \<le> ROD_STATE_RET_FAULT \<Longrightarrow> jump_scan s_rod_jump s e \<le> ROD_STATE_RET_FAULT"
  by (simp add: s_rod_jump_def jump_row_def)

lemma rod_jump_limit:
  "jump_scan s_rod_jump ROD_STATE_EXT_LIMIT e = (if e = ROD_EVT_CMD_RETRACT then ROD_STATE_RETRACTING else ROD_STATE_EXT_LIMIT)"
  "jump_scan s_rod_jump ROD_STATE_RET_LIMIT e = (if e = ROD_EVT_CMD_EXTEND then ROD_STATE_EXTENDING else ROD_STATE_RET_LIMIT)"
  by (simp_all add: s_rod_jump_def jump_row_def)

lemma rod_send:
  assumes "rod_ok sm"
  shows "cur_state (StateMachine_SendEvent (Some sm_self) [] e sm) = jump_scan s_rod_jump (cur_state sm) e"
    and "rod_ok (StateMachine_SendEvent (Some sm_self) [] e sm)"
  using assms rod_jump_range
  by (auto simp: StateMachine_SendEvent_def Let_def sm_self_def rod_ok_def)

lemma RodState_Update_state:
  assumes "rod_ok sm" and "RodState_Update pos dir tick (sm, ctx) = ((sm', ctx'), outs)"
  shows "rod_ok sm'"
    and "cur_state sm' = jump_scan s_rod_jump (cur_state sm)
      (RodState_SynthesizeEvent (ctx\<lparr>rc_direction := dir\<rparr>) pos (cur_state sm) dir tick)"
    and "(ctx', outs) = rod_effects (cur_state sm) (cur_state sm') tick (ctx\<lparr>rc_direction := dir, calib_req := ROD_CALIB_REQ_NONE\<rparr>)"
proof -
  have g: "StateMachine_GetState (Some sm_self) s = cur_state s" for s
    by (simp add: StateMachine_GetState_def sm_self_def)
  show "rod_ok sm'" "cur_state sm' = jump_scan s_rod_jump (cur_state sm)
      (RodState_SynthesizeEvent (ctx\<lparr>rc_direction := dir\<rparr>) pos (cur_state sm) dir tick)"
    "(ctx', outs) = rod_effects (cur_state sm) (cur_state sm') tick (ctx\<lparr>rc_direction := dir, calib_req := ROD_CALIB_REQ_NONE\<rparr>)"
    using assms rod_send [OF assms(1)]
    by (auto simp: RodState_Update_def Let_def g case_prod_beta)
qed

section \<open>Blocks\<close>

text \<open>The block the kernel holds for a rod limit device, after a sequence of calls.\<close>

fun held_block :: "u8 \<Rightarrow> u8 \<Rightarrow> u8 \<Rightarrow> rod_out list \<Rightarrow> bool \<Rightarrow> bool" where
  "held_block dev blk unblk [] b = b"
| "held_block dev blk unblk (OutArb ax d p c du u # os) b =
     held_block dev blk unblk os (if d = dev \<and> c = blk then True else if d = dev \<and> c = unblk then False else b)"
| "held_block dev blk unblk (OutActEvent e # os) b = held_block dev blk unblk os b"

abbreviation held_fwd :: "rod_out list \<Rightarrow> bool \<Rightarrow> bool" where
  "held_fwd \<equiv> held_block DEV_ID_ROD_LIMIT_FWD CMD_TYPE_BLOCK_FWD CMD_TYPE_UNBLOCK_FWD"
abbreviation held_rev :: "rod_out list \<Rightarrow> bool \<Rightarrow> bool" where
  "held_rev \<equiv> held_block DEV_ID_ROD_LIMIT_REV CMD_TYPE_BLOCK_REV CMD_TYPE_UNBLOCK_REV"

lemma held_block_append: "held_block d x y (os @ ps) b = held_block d x y ps (held_block d x y os b)"
  by (induction d x y os b rule: held_block.induct) auto

text \<open>One change of state moves both blocks with the limit states.\<close>

lemma rod_effects_blocks:
  assumes "prev = ROD_STATE_EXT_LIMIT \<Longrightarrow> cur \<in> {ROD_STATE_EXT_LIMIT, ROD_STATE_RETRACTING}"
    and "prev = ROD_STATE_RET_LIMIT \<Longrightarrow> cur \<in> {ROD_STATE_RET_LIMIT, ROD_STATE_EXTENDING}"
  shows "held_fwd (snd (rod_effects prev cur tick ctx)) (prev = ROD_STATE_EXT_LIMIT) = (cur = ROD_STATE_EXT_LIMIT)"
    and "held_rev (snd (rod_effects prev cur tick ctx)) (prev = ROD_STATE_RET_LIMIT) = (cur = ROD_STATE_RET_LIMIT)"
  using assms by (auto simp: rod_effects_def Let_def)

fun rod_run :: "(RodPosition_t option \<times> RodDirection_t \<times> u32) list \<Rightarrow> StateMachine_t \<times> RodStateCtx_t \<Rightarrow>
    (StateMachine_t \<times> RodStateCtx_t) \<times> rod_out list" where
  "rod_run [] w = (w, [])"
| "rod_run ((pos, dir, tick) # xs) w =
     (let (w1, os) = RodState_Update pos dir tick w; (w2, ps) = rod_run xs w1 in (w2, os @ ps))"

lemma rod_run_blocks:
  assumes "rod_ok (fst w)"
  shows "held_fwd (snd (rod_run xs w)) (cur_state (fst w) = ROD_STATE_EXT_LIMIT) =
      (cur_state (fst (fst (rod_run xs w))) = ROD_STATE_EXT_LIMIT) \<and>
    held_rev (snd (rod_run xs w)) (cur_state (fst w) = ROD_STATE_RET_LIMIT) =
      (cur_state (fst (fst (rod_run xs w))) = ROD_STATE_RET_LIMIT) \<and> rod_ok (fst (fst (rod_run xs w)))"
  using assms
proof (induction xs arbitrary: w)
  case (Cons x xs)
  obtain pos dir tick where x: "x = (pos, dir, tick)" by (cases x)
  obtain sm ctx where w: "w = (sm, ctx)" by fastforce
  obtain sm1 ctx1 os where u: "RodState_Update pos dir tick (sm, ctx) = ((sm1, ctx1), os)" by (metis prod.exhaust)
  have ok: "rod_ok sm" using Cons.prems w by simp
  note st = RodState_Update_state [OF ok u]
  let ?e = "RodState_SynthesizeEvent (ctx\<lparr>rc_direction := dir\<rparr>) pos (cur_state sm) dir tick"
  have os: "os = snd (rod_effects (cur_state sm) (cur_state sm1) tick (ctx\<lparr>rc_direction := dir, calib_req := ROD_CALIB_REQ_NONE\<rparr>))"
    using st(3) by (metis snd_conv)
  have "held_fwd os (cur_state sm = ROD_STATE_EXT_LIMIT) = (cur_state sm1 = ROD_STATE_EXT_LIMIT)"
    "held_rev os (cur_state sm = ROD_STATE_RET_LIMIT) = (cur_state sm1 = ROD_STATE_RET_LIMIT)"
    unfolding os by (rule rod_effects_blocks; use st(2) rod_jump_limit [of ?e] in \<open>auto split: if_splits\<close>)+
  with Cons.IH [of "(sm1, ctx1)"] st(1) show ?case
    by (simp add: x w u Let_def case_prod_beta held_block_append)
qed simp

section \<open>Properties of the rod\<close>

text \<open>
  C36. From initialisation on and for every sequence of updates, the forward block of the rod's
  limit device is outstanding in the arbitration kernel exactly while the rod state machine is
  in the upper limit state, and the reverse block exactly in the lower limit state.
\<close>

theorem rod_blocks_follow_limits:
  "let r = rod_run xs (RodState_Init axis w) in
     held_fwd (snd r) False = (cur_state (fst (fst r)) = ROD_STATE_EXT_LIMIT) \<and>
     held_rev (snd r) False = (cur_state (fst (fst r)) = ROD_STATE_RET_LIMIT)"
proof -
  have ok: "rod_ok (fst (RodState_Init axis w))" and s: "cur_state (fst (RodState_Init axis w)) = ROD_STATE_UNKNOWN"
    by (simp_all add: RodState_Init_def case_prod_beta StateMachine_Init_def sm_self_def rod_ok_def)
  from rod_run_blocks [OF ok, of xs] show ?thesis by (simp add: s Let_def)
qed

text \<open>
  A pending upper-limit request on an uncalibrated rod (or one whose updated position allows
  calibration) is carried out by the next tick: the position becomes the stroke, the rod counts as
  calibrated and is in the upper limit state, and the last command sent blocks forward.
\<close>

lemma soft_limit_tick:
  assumes "rod_ok sm" and "cur_state sm \<in> {ROD_STATE_UNKNOWN, ROD_STATE_STOPPED, ROD_STATE_EXTENDING}"
    and "calib_req ctx = ROD_CALIB_REQ_MAX"
    and "calib_state pos = POSITION_NOT_CALIBRATED \<or> calib_allowed (RodPosition_Update delta pos)"
    and "rod_axis_tick m i delta tick (pos, sm, ctx) = ((pos', sm', ctx'), outs)"
  shows "position_mm pos' = stroke_mm pos \<and> calib_state pos' = POSITION_CALIBRATED \<and>
     cur_state sm' = ROD_STATE_EXT_LIMIT \<and> calib_req ctx' = ROD_CALIB_REQ_NONE \<and>
     (\<exists>es. set es \<subseteq> {OutActEvent EVT_ROD_LIMIT_EXTEND} \<and>
        outs = es @ [lim_fwd (rc_axis_id ctx) CMD_TYPE_CLEAR_ALLOW_FWD, lim_fwd (rc_axis_id ctx) CMD_TYPE_BLOCK_FWD])"
proof -
  have allowed: "calib_allowed (RodPosition_Update delta pos)"
    using assms(4) by (auto simp: RodPosition_Update_def Let_def)
  obtain dir where pos': "pos' = snd (RodPosition_OnMaxLimit True (RodPosition_Update delta pos))"
    and u: "RodState_Update (Some pos') dir tick (sm, ctx) = ((sm', ctx'), outs)"
    using assms(3,5) by (intro that [of "rod_dir m i"]) (auto simp: rod_axis_tick_def Let_def case_prod_beta prod_eq_iff)
  have p: "position_mm pos' = stroke_mm pos" "calib_state pos' = POSITION_CALIBRATED"
    using allowed by (simp_all add: pos' RodPosition_OnMaxLimit_def Let_def) (simp add: RodPosition_Update_def Let_def)
  note st = RodState_Update_state [OF assms(1) u]
  have s: "cur_state sm' = ROD_STATE_EXT_LIMIT"
    using st(2) assms(2,3) by (auto simp: RodState_SynthesizeEvent_def s_rod_jump_def jump_row_def)
  have "calib_req ctx' = ROD_CALIB_REQ_NONE \<and> (\<exists>es. set es \<subseteq> {OutActEvent EVT_ROD_LIMIT_EXTEND} \<and>
        outs = es @ [lim_fwd (rc_axis_id ctx) CMD_TYPE_CLEAR_ALLOW_FWD, lim_fwd (rc_axis_id ctx) CMD_TYPE_BLOCK_FWD])"
    using st(3) s assms(2) by (auto simp: rod_effects_def Let_def split: if_splits)
  with p s show ?thesis by simp
qed

definition demo_pos :: RodPosition_t where
  "demo_pos = RodPosition_SetParams (f_lit 25 1) (f_lit 3054 100) (f_lit 12 1) (f_lit 3 1)
     (RodPosition_Init \<lparr>position_mm = 0, calib_state = POSITION_NOT_CALIBRATED, calib_pending = True, calib_allowed = True,
        in_calib_zone_min = False, in_calib_zone_max = False, min_limit_triggered = False, max_limit_triggered = False,
        stroke_mm = 0, reduction_ratio = 0, pulse_to_mm = 0, calib_win_a = 0, calib_win_b = 0, calib_win_c = 0,
        calib_win_d = 0, stop_margin_mm = 0\<rparr>)"

definition demo_rod :: "StateMachine_t \<times> RodStateCtx_t" where
  "demo_rod = RodState_Init 0 (\<lparr>jump_table = [], cur_state = 0, previous_state = 0, init_state = 0\<rparr>,
     \<lparr>rc_axis_id = 0, rc_direction = ROD_DIR_STOP, calib_req = ROD_CALIB_REQ_NONE, fault_code = 0, move_start_tick = 0,
      move_timeout_ms = 0, limit_ext_sent = False, limit_ret_sent = False, extend_count = 0, retract_count = 0,
      fault_count = 0, limit_reach_count = 0\<rparr>)"

definition demo_arb :: "unit arb_mod" where
  "demo_arb = Arb_Module_Init (\<lambda>_. RT_EOK) True
     \<lparr>s_arb_axis = replicate ARB_MAX_AXIS_NUM \<lparr>axis_num = 0, arb = zero_arb\<rparr>, s_arb_mq = None,
      s_arb_output_ops = None, arb_dbg = arb_dbg_zero, mutex_take = (\<lambda>_. RT_EOK), hw = ()\<rparr>"

lemma demo_rod_ok: "rod_ok (fst demo_rod)" "cur_state (fst demo_rod) = ROD_STATE_UNKNOWN"
  by (simp_all add: demo_rod_def RodState_Init_def StateMachine_Init_def sm_self_def rod_ok_def)

text \<open>
  Position stop: a calibrated rod at or beyond the stroke less the stop margin enters the
  upper limit state from the unknown, stopped and extending states, and stays there whatever
  direction the kernel drives, unless a lower-limit request is pending.
\<close>

theorem rod_position_stop:
  assumes "rod_ok sm" and "cur_state sm \<in> {ROD_STATE_UNKNOWN, ROD_STATE_STOPPED, ROD_STATE_EXTENDING, ROD_STATE_EXT_LIMIT}"
    and "at_stop_position pos" and "calib_req ctx \<noteq> ROD_CALIB_REQ_MIN"
    and "RodState_Update pos dir tick (sm, ctx) = ((sm', ctx'), outs)"
  shows "cur_state sm' = ROD_STATE_EXT_LIMIT \<and> lim_fwd (rc_axis_id ctx) CMD_TYPE_BLOCK_FWD \<in> set outs"
proof -
  note st = RodState_Update_state [OF assms(1,5)]
  have e: "RodState_SynthesizeEvent (ctx\<lparr>rc_direction := dir\<rparr>) pos (cur_state sm) dir tick = ROD_EVT_AT_MAX"
    using assms(2,3,4) by (auto simp: RodState_SynthesizeEvent_def)
  have s: "cur_state sm' = ROD_STATE_EXT_LIMIT"
    using st(2) assms(2) unfolding e by (auto simp: s_rod_jump_def jump_row_def)
  then show ?thesis using st(3) by (auto simp: rod_effects_def Let_def split: if_splits)
qed

theorem rod_position_stop_witness:
  "cur_state (fst (fst (RodState_Update (Some (demo_pos\<lparr>calib_state := POSITION_CALIBRATED, position_mm := f_lit 25 1\<rparr>)) ROD_DIR_FWD 5 demo_rod)))
     = ROD_STATE_EXT_LIMIT"
proof -
  let ?p = "Some (demo_pos\<lparr>calib_state := POSITION_CALIBRATED, position_mm := f_lit 25 1\<rparr>)"
  let ?r = "RodState_Update ?p ROD_DIR_FWD 5 (fst demo_rod, snd demo_rod)"
  have r: "?r = ((fst (fst ?r), snd (fst ?r)), snd ?r)" by simp
  have p: "at_stop_position ?p" by code_simp
  have c: "calib_req (snd demo_rod) \<noteq> ROD_CALIB_REQ_MIN" by (simp add: demo_rod_def RodState_Init_def)
  from rod_position_stop [OF demo_rod_ok(1) _ p c r] demo_rod_ok(2) show ?thesis by simp
qed


definition demo_extending :: "StateMachine_t \<times> RodStateCtx_t" where
  "demo_extending = fst (RodState_Update None ROD_DIR_FWD 0xFFFFFFF0 demo_rod)"


text \<open>
  The over-current decision, complete: it is ignored when the axis is disabled, stopped or
  unreadable; otherwise it is a soft limit of the driven direction when the rod is uncalibrated
  or in that direction's window, and then it leaves the matching calibration request, and a
  fault of that direction otherwise, with the context unchanged.
\<close>

theorem rod_overcurrent_decision:
  "RodCalib_OnOverCurrent m pos ctx =
     (case Arb_GetData 0 False m of
        Inl _ \<Rightarrow> (ROD_CALIB_IGNORED, ctx)
      | Inr a \<Rightarrow>
          if enable a = 0 \<or> active_dir a = DIR_NONE then (ROD_CALIB_IGNORED, ctx)
          else if active_dir a = DIR_FWD then
            if calib_state pos = POSITION_CALIBRATED \<and> \<not> in_calib_zone_max pos then (ROD_CALIB_FAULT_FWD, ctx)
            else (ROD_CALIB_CALIB_MAX, ctx\<lparr>calib_req := ROD_CALIB_REQ_MAX\<rparr>)
          else
            if calib_state pos = POSITION_CALIBRATED \<and> \<not> in_calib_zone_min pos then (ROD_CALIB_FAULT_REV, ctx)
            else (ROD_CALIB_CALIB_MIN, ctx\<lparr>calib_req := ROD_CALIB_REQ_MIN\<rparr>))"
  by (auto simp: RodCalib_OnOverCurrent_def RodPosition_IsCalibrated_def RodPosition_IsInCalibZoneMax_def
      RodPosition_IsInCalibZoneMin_def split: sum.split ArbDir_t.split) (metis ArbDir_t.exhaust)+

end
