(* ===== verification/Hall_Motor_Laws.thy ===== *)
theory Hall_Motor_Laws
  imports Hall_Motor
begin

text \<open>
  Facts on the motor Hall device: the invariant of an instance and of the device (every array
  index in range, the direction bookkeeping consistent) over every interleaving of interrupts,
  task rounds and queries, the confirmation of a direction, and the pulse accounting that feeds
  the position of the rod.
\<close>

section \<open>Invariant\<close>

definition dir_ok :: "MotorHallInst_t \<Rightarrow> bool" where
  "dir_ok x \<longleftrightarrow> current_direction x \<in> {MOTOR_HALL_DIR_NONE, MOTOR_HALL_DIR_STOP} \<or>
     current_direction x = last_valid_direction x"

definition inst_ok :: "nat \<Rightarrow> MotorHallInst_t \<Rightarrow> bool" where
  "inst_ok i x \<longleftrightarrow> mh_id x = of_nat i \<and> length (rpm_window x) = 6 \<and> length (interval_history x) = 6 \<and>
     unat (write_index x) < 6 \<and> unat (valid_count x) \<le> 6 \<and> unat (interval_idx x) < 6 \<and>
     unat (interval_valid_count x) \<le> 6 \<and> (\<forall>v \<in> set (interval_history x). unat v \<le> 200000) \<and>
     unat (direction_confirm_count x) < 3 \<and> dir_ok x"

lemmas inst_ok_defs = inst_ok_def dir_ok_def

lemma hall_reset_ok: "i < 2 \<Longrightarrow> inst_ok i (hall_reset now i)"
  by (simp add: inst_ok_defs hall_reset_def)

lemma hall_interval_ok: "inst_ok i x \<Longrightarrow> inst_ok i (fst (hall_interval us x))"
  by (simp add: inst_ok_defs hall_interval_def Let_def case_prod_beta)

lemma hall_direction_ok:
  assumes "inst_ok i x"
  shows "inst_ok i (hall_direction d x)"
proof -
  have c: "unat (direction_confirm_count x) < 3" using assms by (simp add: inst_ok_defs)
  then have "unat (direction_confirm_count x + 1) = unat (direction_confirm_count x) + 1"
    by (intro unat_inc) simp
  then show ?thesis
    using assms c by (auto simp: inst_ok_defs hall_direction_def Let_def word_le_nat_alt)
qed

lemma unat_mod6: "unat (of_nat ((n + 1) mod 6) :: u8) < 6"
proof -
  have "(n + 1) mod 6 < 6" by simp
  then show ?thesis by (subst unat_less_of_nat) (auto intro: less_trans)
qed

lemma unat_count6: "unat (c :: u8) \<le> 6 \<Longrightarrow> unat (if c < 6 then c + 1 else c) \<le> 6"
  using unat_inc [of c] by (auto simp: word_less_nat_alt)

lemma rpm_filter_ok: "inst_ok i x \<Longrightarrow> inst_ok i (MotorHall_UpdateRpmFilter r x)"
  using unat_mod6 [of "unat (write_index x)"] unat_count6 [of "valid_count x"]
  by (simp add: inst_ok_defs MotorHall_UpdateRpmFilter_def Let_def)

lemma average_ok:
  assumes "inst_ok i x"
  shows "inst_ok i (snd (MotorHall_AverageInterval x))"
proof -
  have "\<forall>v \<in> set ((interval_history x)[unat (interval_idx x) := last_pulse_interval x]). unat v \<le> 200000"
    if "last_pulse_interval x \<le> 200000"
    using assms that set_update_subset_insert [of "interval_history x" "unat (interval_idx x)" "last_pulse_interval x"]
    by (auto simp: inst_ok_defs word_le_nat_alt)
  with assms show ?thesis
    using unat_mod6 [of "unat (interval_idx x)"] unat_count6 [of "interval_valid_count x"]
    by (auto simp: inst_ok_defs MotorHall_AverageInterval_def Let_def)
qed

lemma inst_ok_rpm [simp]:
  "inst_ok i (x\<lparr>current_rpm := a\<rparr>) = inst_ok i x" "inst_ok i (x\<lparr>filtered_rpm := a\<rparr>) = inst_ok i x"
  "inst_ok i (x\<lparr>total_measurements := n\<rparr>) = inst_ok i x" "inst_ok i (x\<lparr>rpm_last_ms := n\<rparr>) = inst_ok i x"
  "inst_ok i (x\<lparr>check_last_ms := n\<rparr>) = inst_ok i x" "inst_ok i (x\<lparr>hall_a_pulses := n\<rparr>) = inst_ok i x"
  "inst_ok i (x\<lparr>hall_b_pulses := n\<rparr>) = inst_ok i x" "inst_ok i (x\<lparr>direction_data_ready := b\<rparr>) = inst_ok i x"
  "inst_ok i (x\<lparr>pulse_accum := p\<rparr>) = inst_ok i x" "inst_ok i (x\<lparr>direction_changed := b\<rparr>) = inst_ok i x"
  by (simp_all add: inst_ok_defs)

lemma calculate_rpm_ok: "inst_ok i x \<Longrightarrow> inst_ok i (MotorHall_CalculateRpm x)"
  using average_ok [of i x] rpm_filter_ok by (simp add: MotorHall_CalculateRpm_def case_prod_beta Let_def)

lemma stall_ok: "inst_ok i x \<Longrightarrow> inst_ok i (MotorHall_PerformStallDetection t x)"
  by (auto simp: inst_ok_defs MotorHall_PerformStallDetection_def Let_def)

lemma check_ok:
  "inst_ok i x \<Longrightarrow> inst_ok i (fst (MotorHall_CheckHallStatus now (x, l)))"
  "length (snd (MotorHall_CheckHallStatus now (x, l))) = length l"
  by (simp_all add: inst_ok_defs MotorHall_CheckHallStatus_def Let_def)

lemma accumulate_ok: "inst_ok i x \<Longrightarrow> inst_ok i (hall_accumulate x)"
  by (simp add: inst_ok_defs hall_accumulate_def Let_def)

definition hall_inv :: "hall_motor \<Rightarrow> bool" where
  "hall_inv h \<longleftrightarrow> length (s_inst h) = 2 \<and> (\<forall>i < 2. inst_ok i (s_inst h ! i)) \<and>
     s_isr_a h \<in> {None, Some 0} \<and> s_isr_b h \<in> {None, Some 0} \<and> length (hall_b_last h) = 2 \<and> length (last_check_time h) = 2"

lemma hall_inv_update:
  assumes "hall_inv h" and "i < 2" and "inst_ok i x"
  shows "hall_inv (h\<lparr>s_inst := (s_inst h)[i := x]\<rparr>)"
  using assms by (auto simp: hall_inv_def nth_list_update)

lemma hall_inv_fields [simp]:
  "hall_inv (h\<lparr>hall_b_last := (hall_b_last h)[k := b]\<rparr>) = hall_inv h"
  "hall_inv (h\<lparr>g_mothall_dbg_delta := d\<rparr>) = hall_inv h" "hall_inv (h\<lparr>g_mothall_dbg_rpm_x10 := r\<rparr>) = hall_inv h"
  "hall_inv (h\<lparr>g_mothall_dbg_dir := c\<rparr>) = hall_inv h" "hall_inv (h\<lparr>g_mothall_dbg_status := s\<rparr>) = hall_inv h"
  by (simp_all add: hall_inv_def)

lemma measure_ok:
  "inst_ok i x \<Longrightarrow> inst_ok i (fst (hall_measure now us (x, l)))"
  "length (snd (hall_measure now us (x, l))) = length l"
  using check_ok stall_ok [OF calculate_rpm_ok]
  by (simp_all add: hall_measure_def Let_def case_prod_beta)

lemma hall_inv_put:
  assumes "hall_inv h" and "i < 2" and "inst_ok i x" and "length l = 2"
  shows "hall_inv (hall_watch i x (h\<lparr>s_inst := (s_inst h)[i := x], last_check_time := l\<rparr>))"
  using assms by (auto simp: hall_watch_def hall_inv_def nth_list_update)

lemma hall_task_inst_inv: "hall_inv h \<Longrightarrow> i < 2 \<Longrightarrow> hall_inv (fst (hall_task_inst now i (h, us)))"
  by (auto simp: hall_task_inst_def Let_def case_prod_beta hall_inv_def [of h]
      intro!: hall_inv_put accumulate_ok measure_ok(1) simp: measure_ok(2))

lemma hall_task_inv: "hall_inv h \<Longrightarrow> hall_inv (fst (MotorHall_Task now (h, us)))"
  using hall_task_inst_inv [of "fst (hall_task_inst now 0 (h, us))" 1 now "snd (hall_task_inst now 0 (h, us))"]
    hall_task_inst_inv [of h 0] by (simp add: MotorHall_Task_def)

lemma hall_a_inv: "hall_inv h \<Longrightarrow> hall_inv (fst (Hall_A_IrqCallback (h, us)))"
  by (auto simp: Hall_A_IrqCallback_def Let_def case_prod_beta hall_inv_def [of h] split: option.split
      intro!: hall_inv_update hall_interval_ok)

lemma hall_b_inv:
  assumes "hall_inv h"
  shows "hall_inv (fst (Hall_B_IrqCallback pa pb (h, us)))"
proof (cases "s_isr_b h")
  case (Some i)
  then have i: "i < 2" "inst_ok i (s_inst h ! i)" using assms by (auto simp: hall_inv_def)
  let ?x = "(fst (hall_interval us ((s_inst h ! i)\<lparr>hall_b_pulses := hall_b_pulses (s_inst h ! i) + 1\<rparr>)))\<lparr>direction_data_ready := 1\<rparr>"
  have x: "inst_ok i ?x" using i hall_interval_ok by simp
  have "hall_inv (h\<lparr>s_inst := (s_inst h)[i := y], hall_b_last := (hall_b_last h)[k := b]\<rparr>)" if "inst_ok i y" for y k b
    using hall_inv_update [OF assms i(1) that] by (simp add: hall_inv_def)
  then show ?thesis
    using Some assms x hall_direction_ok [OF x] by (simp add: Hall_B_IrqCallback_def Let_def case_prod_beta)
qed (simp add: Hall_B_IrqCallback_def assms)

lemma hall_init_inv:
  assumes "length (hall_b_last h) = 2" "length (last_check_time h) = 2" "s_isr_a h \<in> {None, Some 0}" "s_isr_b h \<in> {None, Some 0}"
  shows "hall_inv (MotorHall_Init now h)"
proof -
  have "inst_ok i (map (hall_reset now) [0..<2] ! i)" if "i < 2" for i
    using that hall_reset_ok by simp
  then show ?thesis
    using assms by (simp add: hall_inv_def MotorHall_Init_def MotorHall_RegisterIrq_def Let_def)
qed

lemma reset_counts_ok: "inst_ok i x \<Longrightarrow> inst_ok i (x\<lparr>hall_a_pulses := 0, hall_b_pulses := 0, pulse_counter := 0,
    hall_a_last_second_count := 0, hall_b_last_second_count := 0, hall_status := MOTOR_HALL_STATUS_NONE, last_total := 0, first_run := 1\<rparr>)"
  by (simp add: inst_ok_defs)

lemma hall_query_inv:
  assumes "hall_inv h"
  shows "hall_inv (snd (MotorHall_GetDeltaPulses a h))" "hall_inv (snd (MotorHall_IsDirectionChanged a h))"
    "hall_inv (MotorHall_ResetCounts a h)"
proof -
  have "inst_ok a (s_inst h ! a)" if "a < 2" using assms that by (simp add: hall_inv_def)
  then show "hall_inv (snd (MotorHall_GetDeltaPulses a h))" "hall_inv (snd (MotorHall_IsDirectionChanged a h))"
    "hall_inv (MotorHall_ResetCounts a h)"
    using assms hall_inv_update [OF assms] reset_counts_ok
    by (simp_all add: MotorHall_GetDeltaPulses_def MotorHall_IsDirectionChanged_def MotorHall_ResetCounts_def)
qed

section \<open>Reachable states\<close>

text \<open>One step of the device; between steps the time base is in any state.\<close>

inductive hall_reach :: "hall_motor \<Rightarrow> bool" where
  boot: "hall_b_last h = [0xFF, 0xFF] \<Longrightarrow> last_check_time h = [0, 0] \<Longrightarrow> s_isr_a h = None \<Longrightarrow> s_isr_b h = None \<Longrightarrow>
    s_hw_ready h = 0 \<Longrightarrow> hall_reach (MotorHall_Init now h)"
| idle: "hall_reach h \<Longrightarrow> hall_reach (MotorHall_Init now h)"
| edge_a: "hall_reach h \<Longrightarrow> hall_reach (fst (Hall_A_IrqCallback (h, us)))"
| edge_b: "hall_reach h \<Longrightarrow> hall_reach (fst (Hall_B_IrqCallback pa pb (h, us)))"
| task: "hall_reach h \<Longrightarrow> hall_reach (fst (MotorHall_Task now (h, us)))"
| delta: "hall_reach h \<Longrightarrow> hall_reach (snd (MotorHall_GetDeltaPulses a h))"
| changed: "hall_reach h \<Longrightarrow> hall_reach (snd (MotorHall_IsDirectionChanged a h))"
| reset: "hall_reach h \<Longrightarrow> hall_reach (MotorHall_ResetCounts a h)"

lemma hall_reach_inv: "hall_reach h \<Longrightarrow> hall_inv h"
proof (induction rule: hall_reach.induct)
  case (boot h now)
  then show ?case by (intro hall_init_inv) auto
next
  case (idle h now)
  then show ?case by (intro hall_init_inv) (auto simp: hall_inv_def)
qed (simp_all add: hall_a_inv hall_b_inv hall_task_inv hall_query_inv)

lemma unat_sum_list_le:
  "\<forall>v \<in> set xs. unat (v :: u32) \<le> b \<Longrightarrow> length xs * b < 2 ^ 32 \<Longrightarrow> unat (sum_list xs) = (\<Sum>v \<leftarrow> xs. unat v)"
proof (induction xs)
  case (Cons v xs)
  have "(\<Sum>u \<leftarrow> xs. unat u) \<le> length xs * b"
    using Cons.prems(1) by (induction xs) auto
  with Cons.prems have "unat v + (\<Sum>u \<leftarrow> xs. unat u) < 2 ^ 32" by simp
  moreover have "unat (sum_list xs) = (\<Sum>u \<leftarrow> xs. unat u)" using Cons by simp
  ultimately show ?case by (simp add: unat_word_ariths)
qed simp

text \<open>
  C35. In every state the Hall device can reach by interrupts, task rounds, queries and
  re-initialisations, in any order: both ring buffers have six entries and every index into them
  is in range, the static arrays are indexed by the identifier of an existing instance, and the
  32-bit sum of the recorded pulse intervals does not wrap.
\<close>

theorem hall_arrays_in_bounds:
  assumes "hall_reach h" and "i < MOTOR_HALL_MAX_AXIS_NUM"
  shows "i < length (s_inst h) \<and> unat (mh_id (s_inst h ! i)) = i \<and> i < length (hall_b_last h) \<and> i < length (last_check_time h) \<and>
     unat (write_index (s_inst h ! i)) < length (rpm_window (s_inst h ! i)) \<and>
     unat (valid_count (s_inst h ! i)) \<le> length (rpm_window (s_inst h ! i)) \<and>
     unat (interval_idx (s_inst h ! i)) < length (interval_history (s_inst h ! i)) \<and>
     unat (interval_valid_count (s_inst h ! i)) \<le> length (interval_history (s_inst h ! i)) \<and>
     (let xs = take (unat (interval_valid_count (s_inst h ! i))) (interval_history (s_inst h ! i))
      in unat (sum_list xs) = (\<Sum>v \<leftarrow> xs. unat v))"
proof -
  have h: "hall_inv h" by (rule hall_reach_inv [OF assms(1)])
  then have x: "inst_ok i (s_inst h ! i)" using assms(2) by (simp add: hall_inv_def)
  let ?xs = "take (unat (interval_valid_count (s_inst h ! i))) (interval_history (s_inst h ! i))"
  have "\<forall>v \<in> set ?xs. unat v \<le> 200000" and "length ?xs * 200000 < 2 ^ 32"
    using x by (auto simp: inst_ok_defs dest: in_set_takeD)
  then have "unat (sum_list ?xs) = (\<Sum>v \<leftarrow> ?xs. unat v)" by (rule unat_sum_list_le)
  moreover have "unat (of_nat i :: u8) = i"
    using assms(2) by (intro unat_less_of_nat) auto
  ultimately show ?thesis using h x assms(2) by (simp add: hall_inv_def inst_ok_defs)
qed

definition demo_hall :: hall_motor where
  "demo_hall = MotorHall_Init 0
     \<lparr>s_inst = [], s_hw_ready = 0, g_mothall_invert_dir = 0, s_isr_a = None, s_isr_b = None, hall_b_last = [0xFF, 0xFF],
      last_check_time = [0, 0], g_mothall_dbg_delta = 0, g_mothall_dbg_rpm_x10 = 0, g_mothall_dbg_dir = MOTOR_HALL_DIR_NONE,
      g_mothall_dbg_status = MOTOR_HALL_STATUS_NONE\<rparr>"

lemma demo_hall_reach: "hall_reach demo_hall"
  by (simp add: demo_hall_def hall_reach.boot)

theorem hall_arrays_in_bounds_witness:
  "unat (mh_id (s_inst demo_hall ! 1)) = 1"
  using hall_arrays_in_bounds [OF demo_hall_reach, of 1] by simp

section \<open>Direction\<close>

text \<open>
  A direction is adopted by exactly three consecutive detections: an instance that has
  recorded another direction, with no confirmation pending, keeps it for one and two detections
  of the new direction, and from the third on holds the new direction with full confidence.
\<close>

theorem hall_direction_confirmed:
  assumes "current_direction x \<noteq> d" and "direction_confirm_count x = 0"
  shows "current_direction ((hall_direction d ^^ k) x) = (if k < 3 then current_direction x else d) \<and>
     (3 \<le> k \<longrightarrow> last_valid_direction ((hall_direction d ^^ k) x) = d \<and> direction_confidence ((hall_direction d ^^ k) x) = 100)"
proof -
  let ?f = "hall_direction d"
  have one: "?f x = x\<lparr>direction_confirm_count := 1\<rparr>" using assms by (simp add: hall_direction_def word_le_nat_alt)
  have two: "?f (x\<lparr>direction_confirm_count := 1\<rparr>) = x\<lparr>direction_confirm_count := 2\<rparr>"
    using assms by (simp add: hall_direction_def word_le_nat_alt)
  have three: "current_direction (?f (?f (?f x))) = d" "last_valid_direction (?f (?f (?f x))) = d"
    "direction_confidence (?f (?f (?f x))) = 100"
    using assms by (simp_all add: one two hall_direction_def word_le_nat_alt)
  have later: "current_direction ((?f ^^ (n + 3)) x) = d \<and> last_valid_direction ((?f ^^ (n + 3)) x) = d \<and>
      direction_confidence ((?f ^^ (n + 3)) x) = 100" for n
  proof (induction n)
    case 0
    then show ?case using three by (simp add: numeral_3_eq_3)
  next
    case (Suc n)
    have keep: "?f y = y\<lparr>direction_confirm_count := 0\<rparr>" if "current_direction y = d" for y
      using that by (simp add: hall_direction_def)
    have "(?f ^^ (Suc n + 3)) x = ?f ((?f ^^ (n + 3)) x)" by (simp only: add_Suc funpow.simps comp_apply)
    with Suc show ?case by (simp only: keep) simp
  qed
  consider "k = 0" | "k = 1" | "k = 2" | "3 \<le> k" by linarith
  then show ?thesis
  proof cases
    case 4
    then show ?thesis using later [of "k - 3"] by simp
  qed (simp_all add: one two numeral_2_eq_2)
qed

theorem hall_direction_confirmed_witness:
  "current_direction ((hall_direction MOTOR_HALL_DIR_FORWARD ^^ 2) (hall_reset 0 0)) = MOTOR_HALL_DIR_NONE \<and>
   current_direction ((hall_direction MOTOR_HALL_DIR_FORWARD ^^ 3) (hall_reset 0 0)) = MOTOR_HALL_DIR_FORWARD"
  using hall_direction_confirmed [of "hall_reset 0 0" MOTOR_HALL_DIR_FORWARD 2]
    hall_direction_confirmed [of "hall_reset 0 0" MOTOR_HALL_DIR_FORWARD 3]
  by (simp add: hall_reset_def)

section \<open>Pulse accounting\<close>

text \<open>The fields the accounting rests on; the speed chain leaves them alone.\<close>

definition acct :: "MotorHallInst_t \<Rightarrow> u32 \<times> u32 \<times> u32 \<times> u8 \<times> i32 \<times> MotorHallDir_t \<times> u8" where
  "acct x = (hall_a_pulses x, hall_b_pulses x, last_total x, first_run x, pulse_accum x, last_valid_direction x, mh_valid x)"

lemma acct_ops [hall_simps]:
  "acct (MotorHall_UpdateRpmFilter r x) = acct x" "acct (snd (MotorHall_AverageInterval x)) = acct x"
  "acct (MotorHall_PerformStallDetection t x) = acct x" "acct (fst (MotorHall_CheckHallStatus now (x, l))) = acct x"
  "acct (fst (hall_interval us x)) = acct x" "acct (x\<lparr>current_rpm := a\<rparr>) = acct x"
  by (simp_all add: acct_def MotorHall_UpdateRpmFilter_def MotorHall_AverageInterval_def MotorHall_PerformStallDetection_def
      MotorHall_CheckHallStatus_def hall_interval_def Let_def case_prod_beta)

lemma acct_calculate [hall_simps]: "acct (MotorHall_CalculateRpm x) = acct x"
proof -
  have f: "acct (y\<lparr>current_rpm := a, filtered_rpm := b\<rparr>) = acct y" "acct (y\<lparr>total_measurements := n\<rparr>) = acct y" for y a b n
    by (simp_all add: acct_def)
  show ?thesis by (simp add: MotorHall_CalculateRpm_def case_prod_beta Let_def f hall_simps)
qed

lemma acct_measure [hall_simps]: "acct (fst (hall_measure now us (x, l))) = acct x"
proof -
  have f: "acct (y\<lparr>rpm_last_ms := n\<rparr>) = acct y" "acct (y\<lparr>check_last_ms := n\<rparr>) = acct y" for y n
    by (simp_all add: acct_def)
  show ?thesis by (simp add: hall_measure_def Let_def case_prod_beta f hall_simps)
qed

lemma eff_dir_last_valid: "dir_ok x \<Longrightarrow> hall_eff_dir x = last_valid_direction x"
  by (auto simp: dir_ok_def hall_eff_dir_def)

text \<open>A sequence of edges, the interrupts of the two sensors with the pin levels they read.\<close>

datatype hall_edge = Edge_A | Edge_B bool bool

fun hall_edges :: "hall_edge list \<Rightarrow> hall_motor \<times> us_dev \<Rightarrow> hall_motor \<times> us_dev" where
  "hall_edges [] w = w"
| "hall_edges (Edge_A # es) w = hall_edges es (Hall_A_IrqCallback w)"
| "hall_edges (Edge_B pa pb # es) w = hall_edges es (Hall_B_IrqCallback pa pb w)"

definition hall_armed :: "hall_motor \<Rightarrow> bool" where
  "hall_armed h \<longleftrightarrow> s_hw_ready h \<noteq> 0 \<and> s_isr_a h = Some 0 \<and> s_isr_b h = Some 0 \<and> mh_valid (s_inst h ! 0) \<noteq> 0"

definition inst_total :: "MotorHallInst_t \<Rightarrow> u32" where
  "inst_total x = hall_a_pulses x + hall_b_pulses x"

lemma acct_fields:
  assumes "acct x = acct y"
  shows "hall_a_pulses x = hall_a_pulses y" "hall_b_pulses x = hall_b_pulses y" "last_total x = last_total y"
    "first_run x = first_run y" "pulse_accum x = pulse_accum y" "last_valid_direction x = last_valid_direction y" "mh_valid x = mh_valid y"
  using assms by (simp_all add: acct_def)

lemmas interval_fields = acct_fields [OF acct_ops(5)]
lemmas measure_fields = acct_fields [OF acct_measure]

lemma edge_a_effect:
  assumes "hall_inv h" and "hall_armed h"
  shows "let h' = fst (Hall_A_IrqCallback (h, us)); x = s_inst h ! 0; x' = s_inst h' ! 0 in
     hall_armed h' \<and> inst_total x' = inst_total x + 1 \<and> last_total x' = last_total x \<and> first_run x' = first_run x \<and> pulse_accum x' = pulse_accum x"
proof -
  have "0 < length (s_inst h)" using assms(1) by (simp add: hall_inv_def)
  then show ?thesis using assms(2)
    by (simp add: Hall_A_IrqCallback_def Let_def case_prod_beta hall_armed_def inst_total_def interval_fields)
qed

lemma direction_fields [simp]:
  "hall_a_pulses (hall_direction d x) = hall_a_pulses x" "hall_b_pulses (hall_direction d x) = hall_b_pulses x"
  "last_total (hall_direction d x) = last_total x" "first_run (hall_direction d x) = first_run x"
  "pulse_accum (hall_direction d x) = pulse_accum x" "mh_valid (hall_direction d x) = mh_valid x"
  by (simp_all add: hall_direction_def Let_def)

lemma edge_b_effect:
  assumes "hall_inv h" and "hall_armed h"
  shows "let h' = fst (Hall_B_IrqCallback pa pb (h, us)); x = s_inst h ! 0; x' = s_inst h' ! 0 in
     hall_armed h' \<and> inst_total x' = inst_total x + 1 \<and> last_total x' = last_total x \<and> first_run x' = first_run x \<and> pulse_accum x' = pulse_accum x"
proof -
  have "0 < length (s_inst h)" using assms(1) by (simp add: hall_inv_def)
  then show ?thesis using assms(2)
    by (simp add: Hall_B_IrqCallback_def Let_def case_prod_beta hall_armed_def inst_total_def interval_fields)
qed

lemma edges_effect:
  assumes "hall_inv h" and "hall_armed h"
  shows "let h' = fst (hall_edges es (h, us)); x = s_inst h ! 0; x' = s_inst h' ! 0 in
     hall_inv h' \<and> hall_armed h' \<and> inst_total x' = inst_total x + of_nat (length es) \<and> last_total x' = last_total x \<and>
     first_run x' = first_run x \<and> pulse_accum x' = pulse_accum x"
  using assms
proof (induction es arbitrary: h us)
  case (Cons e es)
  let ?w = "case e of Edge_A \<Rightarrow> Hall_A_IrqCallback (h, us) | Edge_B pa pb \<Rightarrow> Hall_B_IrqCallback pa pb (h, us)"
  have i: "hall_inv (fst ?w)" using Cons.prems(1) by (simp add: hall_a_inv hall_b_inv split: hall_edge.split)
  have f: "let h' = fst ?w; x = s_inst h ! 0; x' = s_inst h' ! 0 in
     hall_armed h' \<and> inst_total x' = inst_total x + 1 \<and> last_total x' = last_total x \<and> first_run x' = first_run x \<and> pulse_accum x' = pulse_accum x"
    using edge_a_effect [OF Cons.prems, of us] edge_b_effect [OF Cons.prems, of _ _ us] by (cases e) simp_all
  have e: "hall_edges (e # es) (h, us) = hall_edges es (fst ?w, snd ?w)" by (cases e) simp_all
  show ?case
    using Cons.IH [OF i, of "snd ?w"] f by (simp only: e Let_def) (simp add: add.assoc)
qed (simp add: Let_def)

lemma hall_reach_armed: "hall_reach h \<Longrightarrow> hall_armed h"
proof (induction rule: hall_reach.induct)
  case (boot h now)
  then show ?case by (simp add: hall_armed_def MotorHall_Init_def MotorHall_RegisterIrq_def Let_def hall_reset_def)
next
  case (idle h now)
  then show ?case by (simp add: hall_armed_def MotorHall_Init_def Let_def hall_reset_def)
next
  case (edge_a h us)
  then show ?case using edge_a_effect [OF hall_reach_inv] by (simp add: Let_def)
next
  case (edge_b h pa pb us)
  then show ?case using edge_b_effect [OF hall_reach_inv] by (simp add: Let_def)
next
  case (task h now us)
  have "length (s_inst h) = 2" using hall_reach_inv [OF task(1)] by (simp add: hall_inv_def)
  with task(2) show ?case
    by (simp add: hall_armed_def MotorHall_Task_def hall_task_inst_def Let_def case_prod_beta hall_watch_def
        nth_list_update hall_accumulate_def measure_fields)
next
  case (delta h a)
  have "length (s_inst h) = 2" using hall_reach_inv [OF delta(1)] by (simp add: hall_inv_def)
  with delta show ?case by (simp add: hall_armed_def MotorHall_GetDeltaPulses_def nth_list_update)
next
  case (changed h a)
  have "length (s_inst h) = 2" using hall_reach_inv [OF changed(1)] by (simp add: hall_inv_def)
  with changed show ?case by (simp add: hall_armed_def MotorHall_IsDirectionChanged_def nth_list_update)
next
  case (reset h a)
  have "length (s_inst h) = 2" using hall_reach_inv [OF reset(1)] by (simp add: hall_inv_def)
  with reset show ?case by (simp add: hall_armed_def MotorHall_ResetCounts_def nth_list_update)
qed

lemma accumulate_effect:
  assumes "dir_ok x" and "first_run x = 0" and "inst_total x = last_total x + of_nat n" and "n < 2 ^ 32"
  shows "pulse_accum (hall_accumulate x) = pulse_accum x +
     (let d = (if unat (last_total x) + n < 2 ^ 32 then of_nat n else - of_nat n) in
      case last_valid_direction x of MOTOR_HALL_DIR_FORWARD \<Rightarrow> d | MOTOR_HALL_DIR_REVERSE \<Rightarrow> - d | _ \<Rightarrow> 0)"
proof (cases "n = 0")
  case True
  then show ?thesis using assms(2,3)
    by (simp add: hall_accumulate_def inst_total_def split: MotorHallDir_t.split)
next
  case False
  have un: "unat (of_nat n :: u32) = n" using assms(4) by (intro unat_less_of_nat) simp
  have ut: "unat (inst_total x) = (unat (last_total x) + n) mod 2 ^ 32"
    by (simp add: assms(3) unat_word_ariths un)
  have gt: "inst_total x > last_total x \<longleftrightarrow> unat (last_total x) + n < 2 ^ 32"
  proof (cases "unat (last_total x) + n < 2 ^ 32")
    case True
    then show ?thesis using False ut by (simp add: word_less_nat_alt)
  next
    case wrap: False
    then have "(unat (last_total x) + n) mod 2 ^ 32 = unat (last_total x) + n - 2 ^ 32"
      using assms(4) unat_u32_less [of "last_total x"] by (simp add: le_mod_geq)
    then show ?thesis using wrap ut assms(4) by (simp add: word_less_nat_alt)
  qed
  have ne: "inst_total x \<noteq> last_total x" using assms(3) un False by (metis add_cancel_right_right unat_0)
  show ?thesis
    using assms(2,3) ne gt eff_dir_last_valid [OF assms(1)] unfolding hall_accumulate_def inst_total_def [symmetric]
    by (simp add: Let_def split: MotorHallDir_t.split)
qed

text \<open>
  C34. Pulse accounting, the input of the rod position: when the device has been read up to date,
  any number of edges followed by one task round adds to the signed pulse count exactly the number
  of edges, with the sign of the last confirmed direction (nothing before a first direction is
  confirmed), and reading the count returns it and clears it. When the 32-bit edge total wraps in
  between, the edges are counted with the opposite sign.
\<close>

theorem hall_odometry:
  assumes "hall_reach h" and "first_run (s_inst h ! 0) = 0" and "last_total (s_inst h ! 0) = inst_total (s_inst h ! 0)"
    and "length es < 2 ^ 32" and "hall_edges es (h, us) = (h1, us1)" and "MotorHall_Task now (h1, us1) = (h2, us2)"
    and "MotorHall_GetDeltaPulses 0 h2 = (d, h3)"
  shows "d = pulse_accum (s_inst h ! 0) +
       (let n = (if unat (inst_total (s_inst h ! 0)) + length es < 2 ^ 32 then of_nat (length es) else - of_nat (length es)) in
        case last_valid_direction (s_inst h1 ! 0) of MOTOR_HALL_DIR_FORWARD \<Rightarrow> n | MOTOR_HALL_DIR_REVERSE \<Rightarrow> - n | _ \<Rightarrow> 0) \<and>
     pulse_accum (s_inst h3 ! 0) = 0 \<and> last_total (s_inst h3 ! 0) = inst_total (s_inst h3 ! 0)"
proof -
  have e: "hall_inv h1" "hall_armed h1" "inst_total (s_inst h1 ! 0) = inst_total (s_inst h ! 0) + of_nat (length es)"
    "last_total (s_inst h1 ! 0) = last_total (s_inst h ! 0)" "first_run (s_inst h1 ! 0) = 0"
    "pulse_accum (s_inst h1 ! 0) = pulse_accum (s_inst h ! 0)"
    using edges_effect [OF hall_reach_inv hall_reach_armed, OF assms(1,1), of es us] assms(2,5) by (simp_all add: Let_def)
  have len: "length (s_inst h1) = 2" and ok: "inst_ok 0 (s_inst h1 ! 0)" using e(1) by (simp_all add: hall_inv_def)
  let ?m = "fst (hall_measure now (UsTimer_UpdateTimestamp us1) (s_inst h1 ! 0, last_check_time h1))"
  have m: "inst_total ?m = inst_total (s_inst h1 ! 0)" "dir_ok ?m"
    using measure_ok(1) [OF ok] by (simp_all add: inst_total_def measure_fields inst_ok_def)
  have i2: "s_inst h2 ! 0 = hall_accumulate ?m \<and> length (s_inst h2) = 2"
    using assms(6) e(2) len
    by (auto simp: MotorHall_Task_def hall_task_inst_def hall_armed_def Let_def case_prod_beta hall_watch_def split: if_splits)
  have total: "last_total (hall_accumulate ?m) = inst_total (hall_accumulate ?m)"
    by (simp add: hall_accumulate_def inst_total_def Let_def)
  have acc: "pulse_accum (hall_accumulate ?m) = pulse_accum ?m +
     (let d = (if unat (last_total ?m) + length es < 2 ^ 32 then of_nat (length es) else - of_nat (length es)) in
      case last_valid_direction ?m of MOTOR_HALL_DIR_FORWARD \<Rightarrow> d | MOTOR_HALL_DIR_REVERSE \<Rightarrow> - d | _ \<Rightarrow> 0)"
    using m e(3,4,5) assms(3,4) by (intro accumulate_effect) (simp_all add: measure_fields)
  have d: "d = pulse_accum (hall_accumulate ?m)" and h3: "s_inst h3 ! 0 = (hall_accumulate ?m)\<lparr>pulse_accum := 0\<rparr>"
    using assms(7) i2 by (auto simp: MotorHall_GetDeltaPulses_def)
  show ?thesis
    using total assms(3) by (simp add: d h3 acc measure_fields e(4,6)) (simp add: inst_total_def)
qed

definition demo_us_dev :: us_dev where
  "demo_us_dev = UsTimer_Bind (Some (hc_us_timer_ops 200000000)) \<lparr>us_ops = None, us_hw = demo_us\<rparr>"

lemma hall_reach_edges: "hall_reach h \<Longrightarrow> hall_reach (fst (hall_edges es (h, us)))"
proof (induction es arbitrary: h us)
  case (Cons e es)
  let ?w = "case e of Edge_A \<Rightarrow> Hall_A_IrqCallback (h, us) | Edge_B pa pb \<Rightarrow> Hall_B_IrqCallback pa pb (h, us)"
  have "hall_reach (fst ?w)"
    using Cons.prems by (cases e) (simp_all add: hall_reach.edge_a hall_reach.edge_b)
  from Cons.IH [OF this, of "snd ?w"] show ?case by (cases e) simp_all
qed simp

text \<open>A motor that turns forward: a measured interval, then three falling edges of B with A high.\<close>

definition demo_hall_moving :: "hall_motor \<times> us_dev" where
  "demo_hall_moving =
     MotorHall_Task 30 (hall_edges [Edge_B True True, Edge_B True False, Edge_B True True, Edge_B True False, Edge_B True True, Edge_B True False]
       (MotorHall_Task 20 (MotorHall_Task 10 (hall_edges [Edge_A] (demo_hall, demo_us_dev\<lparr>us_hw := (us_hw demo_us_dev)\<lparr>tmr6_count := 3125\<rparr>\<rparr>)))))"

lemma demo_hall_moving_reach: "hall_reach (fst demo_hall_moving)"
  unfolding demo_hall_moving_def
  by (metis demo_hall_reach hall_reach.task hall_reach_edges prod.collapse)

definition demo_summary :: "hall_motor \<times> us_dev \<Rightarrow> u8 \<times> u32 \<times> u32 \<times> i32 \<times> MotorHallDir_t" where
  "demo_summary w = (let x = s_inst (fst w) ! 0 in (first_run x, last_total x, inst_total x, pulse_accum x,
     last_valid_direction (s_inst (fst (hall_edges (replicate 5 Edge_A) w)) ! 0)))"

lemma demo_hall_moving_summary: "demo_summary demo_hall_moving = (0, 7, 7, 6, MOTOR_HALL_DIR_FORWARD)"
  by code_simp

theorem hall_odometry_witness:
  "fst (MotorHall_GetDeltaPulses 0 (fst (MotorHall_Task 40 (hall_edges (replicate 5 Edge_A) demo_hall_moving)))) = 11"
proof -
  let ?h = "fst demo_hall_moving" and ?us = "snd demo_hall_moving"
  let ?e = "hall_edges (replicate 5 Edge_A) (?h, ?us)"
  let ?t = "MotorHall_Task 40 (fst ?e, snd ?e)"
  have f: "first_run (s_inst ?h ! 0) = 0" "last_total (s_inst ?h ! 0) = inst_total (s_inst ?h ! 0)"
    "pulse_accum (s_inst ?h ! 0) = 6" "last_valid_direction (s_inst (fst ?e) ! 0) = MOTOR_HALL_DIR_FORWARD"
    "unat (inst_total (s_inst ?h ! 0)) = 7"
    using demo_hall_moving_summary by (simp_all add: demo_summary_def Let_def)
  show ?thesis
    using hall_odometry [OF demo_hall_moving_reach f(1,2), of "replicate 5 Edge_A" ?us "fst ?e" "snd ?e" 40 "fst ?t" "snd ?t"
        "fst (MotorHall_GetDeltaPulses 0 (fst ?t))" "snd (MotorHall_GetDeltaPulses 0 (fst ?t))"] f(3,4,5)
    by simp
qed

end
