(* ===== verification/Adc_Laws.thy ===== *)
theory Adc_Laws
  imports Adc
begin

text \<open>
  The analogue driver against its reference: each instance refines the plain history of its raw
  samples. The incremental sliding sum equals the sum of the last twenty samples, and reading the
  ring returns the newest values first.
\<close>

section \<open>An instance and the history of its samples\<close>

definition mean_rel :: "adc_drv_inst_t \<Rightarrow> u16 list \<Rightarrow> bool" where
  "mean_rel p raws \<longleftrightarrow> (\<exists>win. pu32MeanWin p = Some win \<and> ring_ok ADC_MEAN_WINDOW_SAMPLES win (unat (u16MeanIdx p)) (map ucast raws) \<and>
     unat (u16MeanCnt p) = min ADC_MEAN_WINDOW_SAMPLES (length raws) \<and>
     unat (u32MeanSum p) = (\<Sum>r \<leftarrow> take ADC_MEAN_WINDOW_SAMPLES raws. unat r))"

definition ring_rel :: "adc_drv_inst_t \<Rightarrow> u16 list \<Rightarrow> bool" where
  "ring_rel p raws \<longleftrightarrow>
     ring_ok ADC_DRV_RING_SIZE (afRing p) (unat (u16WriteIdx p)) (map (adc_convert (stcCh p)) raws) \<and>
     unat (u16Count p) = min ADC_DRV_RING_SIZE (length raws)"

lemma sum_u16_bound: "(\<Sum>r \<leftarrow> xs. unat (r :: u16)) \<le> length xs * 65535"
proof (induction xs)
  case (Cons r xs)
  have "unat r \<le> 65535" using unat_u16_less [of r] by simp
  with Cons show ?case by simp
qed simp

lemma ring_index_bound: "ring_ok N buf idx hist \<Longrightarrow> idx < N"
  by (auto simp: ring_ok_def)

lemma unat_of_nat_mod16: "0 < N \<Longrightarrow> N \<le> 65536 \<Longrightarrow> unat (of_nat (k mod N) :: u16) = k mod N"
proof (rule unat_less_of_nat)
  assume "0 < N" "N \<le> 65536"
  then have "k mod N < 65536" using mod_less_divisor [of N k] by linarith
  then show "k mod N < 2 ^ LENGTH(16)" by simp
qed

lemma unat_count16: "unat (c :: u16) = min N k \<Longrightarrow> N < 65535 \<Longrightarrow> N > 0 \<Longrightarrow>
    unat (if c < of_nat N then c + 1 else c) = min N (Suc k)"
  using unat_inc [of c] by (auto simp: word_less_nat_alt unat_less_of_nat min_def split: if_splits)

lemma ucast_raw [simp]: "unat (ucast (r :: u16) :: u32) = unat r"
  by transfer (simp add: take_bit_int_eq_self)

lemma mean_push_frame [simp]:
  "stcCh (mean_push r p) = stcCh p" "afRing (mean_push r p) = afRing p" "u16WriteIdx (mean_push r p) = u16WriteIdx p"
  "u16Count (mean_push r p) = u16Count p" "u16LatestRaw (mean_push r p) = u16LatestRaw p" "fLatest (mean_push r p) = fLatest p"
  by (simp_all add: mean_push_def Let_def split: option.split)

lemma take_cons_sum:
  assumes "20 \<le> length raws"
  shows "(\<Sum>x \<leftarrow> take 20 (r # raws). unat (x :: u16)) + unat (raws ! 19) = unat r + (\<Sum>x \<leftarrow> take 20 raws. unat x)"
proof -
  have "take 20 raws = take 19 raws @ [raws ! 19]"
    using take_Suc_conv_app_nth [of 19 raws] assms by simp
  moreover have "take 20 (r # raws) = r # take 19 raws" by (simp add: take_Cons')
  ultimately show ?thesis by simp
qed

lemma mean_push_rel:
  assumes "mean_rel p raws"
  shows "mean_rel (mean_push r p) (r # raws)"
proof -
  obtain win where w: "pu32MeanWin p = Some win" "ring_ok 20 win (unat (u16MeanIdx p)) (map ucast raws)"
    "unat (u16MeanCnt p) = min 20 (length raws)" "unat (u32MeanSum p) = (\<Sum>x \<leftarrow> take 20 raws. unat x)"
    using assms by (auto simp: mean_rel_def)
  let ?i = "unat (u16MeanIdx p)"
  have ring: "ring_ok 20 (win[?i := ucast r]) (unat (of_nat ((?i + 1) mod 20) :: u16)) (map ucast (r # raws))"
    using ring_push [OF w(2), of "ucast r"] by (simp add: unat_of_nat_mod16)
  have small: "(\<Sum>x \<leftarrow> take 20 raws. unat x) \<le> 20 * 65535"
    using sum_u16_bound [of "take 20 raws"] by (simp add: min_def split: if_splits)
  have rb: "unat r \<le> 65535" using unat_u16_less [of r] by simp
  show ?thesis
  proof (cases "length raws < 20")
    case True
    then have lt: "u16MeanCnt p < 20" using w(3) by (simp add: word_less_nat_alt)
    have "unat (u16MeanCnt p + 1) = Suc (length raws)" using True w(3) unat_inc [of "u16MeanCnt p"] by simp
    moreover have "unat (u32MeanSum p + ucast r) = unat (u32MeanSum p) + unat r"
      using w(4) small rb by (simp add: unat_word_ariths)
    ultimately show ?thesis
      using True lt ring w(1,4) by (simp add: mean_rel_def mean_push_def Let_def)
  next
    case False
    then have ge: "\<not> u16MeanCnt p < 20" using w(3) by (simp add: word_less_nat_alt)
    have old: "win ! ?i = ucast (raws ! 19)" using ring_oldest [OF w(2)] False by simp
    have sum: "(\<Sum>x \<leftarrow> take 20 (r # raws). unat x) + unat (raws ! 19) = unat r + unat (u32MeanSum p)"
      using take_cons_sum [of raws r] False w(4) by simp
    have "raws ! 19 \<in> set (take 20 raws)" using False nth_mem [of 19 "take 20 raws"] by simp
    then have le: "unat (raws ! 19) \<le> unat (u32MeanSum p)"
      unfolding w(4) by (intro member_le_sum_list) auto
    have "unat (u32MeanSum p - ucast (raws ! 19)) = unat (u32MeanSum p) - unat (raws ! 19)"
      using le by (simp add: unat_sub word_le_nat_alt)
    then have "unat (u32MeanSum p - win ! ?i + ucast r) = unat (u32MeanSum p) - unat (raws ! 19) + unat r"
      using w(4) small rb by (simp add: unat_word_ariths old)
    then have "unat (u32MeanSum p - win ! ?i + ucast r) = (\<Sum>x \<leftarrow> take 20 (r # raws). unat x)"
      using sum le by simp
    then show ?thesis
      using False ge ring w(1,3) by (simp add: mean_rel_def mean_push_def Let_def)
  qed
qed

lemma adc_sample_frame [simp]: "stcCh (adc_sample r p) = stcCh p"
  by (simp add: adc_sample_def Let_def)

lemma adc_sample_mean: "mean_rel p raws \<Longrightarrow> mean_rel (adc_sample r p) (r # raws)"
  unfolding adc_sample_def Let_def by (rule mean_push_rel) (simp add: mean_rel_def)

lemma adc_sample_ring:
  assumes "ring_rel p raws"
  shows "ring_rel (adc_sample r p) (r # raws)"
proof -
  let ?v = "adc_convert (stcCh p) r" and ?w = "unat (u16WriteIdx p)"
  have ring: "ring_ok 256 ((afRing p)[?w := ?v]) (unat (of_nat ((?w + 1) mod 256) :: u16)) (map (adc_convert (stcCh p)) (r # raws))"
    using ring_push [of 256 "afRing p" ?w "map (adc_convert (stcCh p)) raws" ?v] assms
    by (simp add: ring_rel_def unat_of_nat_mod16)
  have "unat (if u16Count p < of_nat 256 then u16Count p + 1 else u16Count p) = min 256 (Suc (length raws))"
    using assms by (intro unat_count16) (simp_all add: ring_rel_def)
  with ring show ?thesis by (simp add: ring_rel_def adc_sample_def Let_def)
qed

text \<open>A run of the interrupt.\<close>

fun adc_run :: "(u8 \<Rightarrow> u16) list \<Rightarrow> adc_dev \<Rightarrow> adc_dev" where
  "adc_run [] d = d"
| "adc_run (v # vs) d = adc_run vs (d\<lparr>adc_hw := AdcDrv_ADC1_IRQHandler v (adc_hw d)\<rparr>)"

definition dev_rel :: "adc_dev \<Rightarrow> (u8 \<Rightarrow> u16) list \<Rightarrow> bool" where
  "dev_rel d vs \<longleftrightarrow> g_adc_ops d = Some hc32_adc_ops \<and> s_u8InstNum (adc_hw d) = 2 \<and> length (s_pstcInsts (adc_hw d)) = 2 \<and>
     (\<forall>i < 2. let p = s_pstcInsts (adc_hw d) ! i; raws = map (\<lambda>v. v (u8Channel (stcCh p))) vs in mean_rel p raws \<and> ring_rel p raws)"

lemma dev_rel_step:
  assumes "dev_rel d vs"
  shows "dev_rel (d\<lparr>adc_hw := AdcDrv_ADC1_IRQHandler v (adc_hw d)\<rparr>) (v # vs)"
  using assms adc_sample_mean adc_sample_ring by (simp add: dev_rel_def AdcDrv_ADC1_IRQHandler_def Let_def)

definition adc_bound :: "adc_dev \<Rightarrow> bool" where
  "adc_bound d \<longleftrightarrow> g_adc_ops d = Some hc32_adc_ops \<and> \<not> s_bInitialized (adc_hw d)"

definition adc_chan :: "nat \<Rightarrow> adc_drv_ch_t" where
  "adc_chan i = \<lparr>u8Channel = (if i = 0 then 4 else 6), u8Port = 0, u16Pin = (if i = 0 then 0x10 else 0x40),
     fGain = (if i = 0 then f_lit 313 10 else f_lit 1 1), fOffset = F_ZERO, bAbs = False\<rparr>"

lemma dev_adc_init_insts:
  assumes "adc_bound d"
  shows "Dev_Adc_Init d = d\<lparr>adc_hw := (adc_hw d)\<lparr>s_pstcInsts := map (\<lambda>i. adc_inst_zero i (adc_chan i) (replicate 20 0)) [0, 1],
     s_u8InstNum := 2, s_bInitialized := True\<rparr>\<rparr>"
  using assms
  by (simp add: Dev_Adc_Init_def adc_op_def adc_bound_def hc32_adc_ops_def hc32_adc_init_def s_astcChTable_def AdcDrv_Init_def
      s_hc32_adc_ch_map_def adc_chan_def upt_conv_Cons)

lemma inst_zero_rel: "mean_rel (adc_inst_zero i ch (replicate 20 0)) []" "ring_rel (adc_inst_zero i ch (replicate 20 0)) []"
  by (simp_all add: mean_rel_def ring_rel_def adc_inst_zero_def ring_start)

lemma dev_rel_init: "adc_bound d \<Longrightarrow> dev_rel (Dev_Adc_Init d) []"
  by (simp add: dev_adc_init_insts dev_rel_def adc_bound_def nth_Cons' inst_zero_rel)

lemma adc_run_append: "adc_run (vs @ [v]) d = (adc_run vs d)\<lparr>adc_hw := AdcDrv_ADC1_IRQHandler v (adc_hw (adc_run vs d))\<rparr>"
  by (induction vs d rule: adc_run.induct) simp_all

lemma adc_run_rel:
  assumes "adc_bound d"
  shows "dev_rel (adc_run vs (Dev_Adc_Init d)) (rev vs)"
  by (induction vs rule: rev_induct) (simp_all add: dev_rel_init [OF assms] adc_run_append dev_rel_step)

lemma irq_channel: "map stcCh (s_pstcInsts (AdcDrv_ADC1_IRQHandler v h)) = map stcCh (s_pstcInsts h)"
  by (simp add: AdcDrv_ADC1_IRQHandler_def comp_def) (metis append_take_drop_id map_append)

lemma adc_run_channel:
  assumes "adc_bound d"
  shows "map stcCh (s_pstcInsts (adc_hw (adc_run vs (Dev_Adc_Init d)))) = [adc_chan 0, adc_chan 1]"
  by (induction vs rule: rev_induct)
    (simp_all add: dev_adc_init_insts [OF assms] adc_inst_zero_def adc_run_append irq_channel)

lemma adc_run_inst:
  assumes "adc_bound d" and "i < 2"
  shows "stcCh (s_pstcInsts (adc_hw (adc_run vs (Dev_Adc_Init d))) ! i) = adc_chan i"
    and "mean_rel (s_pstcInsts (adc_hw (adc_run vs (Dev_Adc_Init d))) ! i) (rev (map (\<lambda>v. v (u8Channel (adc_chan i))) vs))"
    and "ring_rel (s_pstcInsts (adc_hw (adc_run vs (Dev_Adc_Init d))) ! i) (rev (map (\<lambda>v. v (u8Channel (adc_chan i))) vs))"
proof -
  let ?d = "adc_run vs (Dev_Adc_Init d)"
  have rel: "dev_rel ?d (rev vs)" by (rule adc_run_rel [OF assms(1)])
  then have "stcCh (s_pstcInsts (adc_hw ?d) ! i) = map stcCh (s_pstcInsts (adc_hw ?d)) ! i"
    using assms(2) by (simp add: dev_rel_def)
  also have "\<dots> = adc_chan i" using adc_run_channel [OF assms(1), of vs] assms(2) by (auto simp: less_2_cases_iff)
  finally show ch: "stcCh (s_pstcInsts (adc_hw ?d) ! i) = adc_chan i" .
  show "mean_rel (s_pstcInsts (adc_hw ?d) ! i) (rev (map (\<lambda>v. v (u8Channel (adc_chan i))) vs))"
    "ring_rel (s_pstcInsts (adc_hw ?d) ! i) (rev (map (\<lambda>v. v (u8Channel (adc_chan i))) vs))"
    using rel assms(2) unfolding dev_rel_def Let_def rev_map ch [symmetric] by blast+
qed

section \<open>Properties\<close>

lemma div_u16_bound: "(\<Sum>r \<leftarrow> xs. unat (r :: u16)) div n \<le> 65535" if "length xs = n" "0 < n"
proof -
  have "(\<Sum>r \<leftarrow> xs. unat r) div n \<le> n * 65535 div n" using sum_u16_bound [of xs] that(1) by (intro div_le_mono) simp
  then show ?thesis using that(2) by simp
qed

lemma adc_mean_value:
  assumes "mean_rel p raws" and "raws \<noteq> []"
  shows "u16MeanCnt p \<noteq> 0 \<and> (ucast (u32MeanSum p div ucast (u16MeanCnt p)) :: u16) =
     of_nat ((\<Sum>r \<leftarrow> take 20 raws. unat r) div min 20 (length raws))"
proof -
  let ?n = "min 20 (length raws)" and ?s = "\<Sum>r \<leftarrow> take 20 raws. unat r"
  have c: "unat (u16MeanCnt p) = ?n" and s: "unat (u32MeanSum p) = ?s" using assms(1) by (auto simp: mean_rel_def)
  have n: "?n \<noteq> 0" using assms(2) by (cases raws) auto
  have "unat (u32MeanSum p div ucast (u16MeanCnt p)) = ?s div ?n" by (simp add: unat_div s c)
  then have "(ucast (u32MeanSum p div ucast (u16MeanCnt p)) :: u16) = of_nat (?s div ?n)"
    by (metis of_nat_unat)
  moreover have "u16MeanCnt p \<noteq> 0" using c n by (metis unsigned_0)
  ultimately show ?thesis by simp
qed

text \<open>
  C33. The mean the power supervision reads is the sliding average of the last twenty raw samples
  (of all of them while there are fewer), rounded down and converted with the gain of the channel:
  the incremental sum never drifts, however long the driver runs.
\<close>

theorem adc_mean_is_sliding_average:
  assumes "adc_bound d" and "i < 2" and "vs \<noteq> []"
  shows "Dev_Adc_GetMean i (adc_run vs (Dev_Adc_Init d)) =
     (let raws = take 20 (rev (map (\<lambda>v. v (u8Channel (adc_chan i))) vs))
      in Some (adc_convert (adc_chan i) (of_nat ((\<Sum>r \<leftarrow> raws. unat r) div length raws))))"
proof -
  let ?d = "adc_run vs (Dev_Adc_Init d)" and ?raws = "rev (map (\<lambda>v. v (u8Channel (adc_chan i))) vs)"
  let ?p = "s_pstcInsts (adc_hw ?d) ! i"
  note rel = adc_run_rel [OF assms(1), of vs] and inst = adc_run_inst [OF assms(1,2), of vs]
  from adc_mean_value [OF inst(2)] have v: "u16MeanCnt ?p \<noteq> 0"
    "(ucast (u32MeanSum ?p div ucast (u16MeanCnt ?p)) :: u16) = of_nat ((\<Sum>r \<leftarrow> take 20 ?raws. unat r) div min 20 (length ?raws))"
    using assms(3) by simp_all
  show ?thesis
    using rel assms(2) v inst(1)
    by (simp add: dev_rel_def Dev_Adc_GetMean_def adc_op_def hc32_adc_ops_def AdcDrv_GetMean_def Let_def min.commute)
qed

definition demo_adc :: adc_dev where
  "demo_adc = \<lparr>g_adc_ops = Some hc32_adc_ops, adc_hw = \<lparr>s_pstcInsts = [], s_u8InstNum = 0, s_bInitialized = False, adc_trigger_running = False\<rparr>\<rparr>"

theorem adc_mean_is_sliding_average_witness:
  "Dev_Adc_GetMean 1 (adc_run (replicate 3 (\<lambda>_. 4095) @ replicate 20 (\<lambda>c. if c = 6 then 2000 else 7)) (Dev_Adc_Init demo_adc)) =
     Some (adc_convert (adc_chan 1) 2000)"
  using adc_mean_is_sliding_average [of demo_adc 1 "replicate 3 (\<lambda>_. 4095) @ replicate 20 (\<lambda>c. if c = 6 then 2000 else 7)"]
  by (simp add: demo_adc_def adc_bound_def adc_chan_def sum_list_replicate)

text \<open>
  Reading the ring buffer returns the newest converted values first: at most as many as asked
  for, as have been sampled and as the ring holds.
\<close>

theorem adc_ring_newest_first:
  assumes "adc_bound d" and "i < 2"
  shows "Dev_Adc_ReadRing i n (adc_run vs (Dev_Adc_Init d)) =
     take (min n 256) (rev (map (\<lambda>v. adc_convert (adc_chan i) (v (u8Channel (adc_chan i)))) vs))"
proof -
  let ?d = "adc_run vs (Dev_Adc_Init d)" and ?raws = "rev (map (\<lambda>v. v (u8Channel (adc_chan i))) vs)"
  let ?p = "s_pstcInsts (adc_hw ?d) ! i"
  note rel = adc_run_rel [OF assms(1), of vs] and inst = adc_run_inst [OF assms(1,2), of vs]
  from inst(3) have c: "unat (u16Count ?p) = min 256 (length vs)"
    and ring: "ring_ok 256 (afRing ?p) (unat (u16WriteIdx ?p)) (map (adc_convert (adc_chan i)) ?raws)"
    by (simp_all add: ring_rel_def inst(1))
  have "map (\<lambda>k. afRing ?p ! ((unat (u16WriteIdx ?p) + 256 - 1 - k) mod 256)) [0..<min (min 256 (length vs)) n] =
      take (min n 256) (map (adc_convert (adc_chan i)) ?raws)"
    using ring_read [OF ring] by (intro nth_equalityI) auto
  moreover have "map (adc_convert (adc_chan i)) ?raws = rev (map (\<lambda>v. adc_convert (adc_chan i) (v (u8Channel (adc_chan i)))) vs)"
    by (simp add: rev_map comp_def)
  ultimately show ?thesis
    using rel assms(2) c
    by (simp add: dev_rel_def Dev_Adc_ReadRing_def adc_op_def hc32_adc_ops_def AdcDrv_ReadRing_def Let_def)
qed

theorem adc_ring_newest_first_witness:
  "Dev_Adc_ReadRing 0 2 (adc_run [\<lambda>_. 10, \<lambda>_. 20, \<lambda>_. 30] (Dev_Adc_Init demo_adc)) = [adc_convert (adc_chan 0) 30, adc_convert (adc_chan 0) 20]"
  using adc_ring_newest_first [of demo_adc 0 2 "[\<lambda>_. 10, \<lambda>_. 20, \<lambda>_. 30]"] by (simp add: demo_adc_def adc_bound_def)

end
