(* ===== verification/Fault_Laws.thy ===== *)
theory Fault_Laws
  imports Monitor Motor_Laws Rod_Laws Hall_Motor_Laws Adc_Laws
begin

text \<open>
  The properties of the system as a whole, for the modules that are registered in the firmware:
  the states of the system machine, how a fault reaches the motor pins, when FAULT is left and
  what a recovery restores, and the cases in which a fault has no effect.
\<close>

section \<open>The arbitration module of a halted system\<close>

lemma Arb_ProcessMessage_enable [simp]: "enable (Arb_ProcessMessage a msg) = enable a"
  by (simp add: Arb_ProcessMessage_def Let_def Arb_RemoveOppositePowerAllow_def)

lemma halted_round_brakes:
  assumes "arb_ok m" and "axes_off m" and "msg_pending m"
  shows "\<exists>m'. Arb_ThreadStep t m = Some m' \<and> gpio_dir (hw m') = DIR_NONE"
proof -
  obtain q where q: "s_arb_mq m = Some q" "mq_msgs q \<noteq> []" using assms(3) by (auto simp: msg_pending_def)
  then obtain msg ms where ms: "mq_msgs q = msg # ms" by (cases "mq_msgs q") auto
  have r: "rt_mq_recv q = Some (msg, q\<lparr>mq_msgs := ms\<rparr>)" by (simp add: rt_mq_recv_def ms)
  have len: "length (s_arb_axis m) = 2" using assms(1) by (simp add: arb_ok_def mod_inv_def)
  have "m_axis_id msg < 2" using assms(1) q(1) ms by (simp add: arb_ok_def mod_inv_def)
  then have i: "unat (m_axis_id msg) < 2" by (simp add: word_less_nat_alt)
  then have off: "enable (get_arb (unat (m_axis_id msg)) m) = 0" and mt: "mutex_take m (unat (m_axis_id msg)) = RT_EOK"
    using assms(1,2) by (auto simp: axes_off_def arb_ok_def less_2_cases_iff)
  obtain m' where m': "Arb_ThreadStep t m = Some m'"
    "get_arb (unat (m_axis_id msg)) m' = arb_decide t (Arb_ProcessMessage (get_arb (unat (m_axis_id msg)) m) msg)"
    using Arb_ThreadStep_message [OF q(1) r i mt len] by blast
  obtain cfg where ops: "s_arb_output_ops m = Some (s_gpio_out_ops cfg)" using assms(1) by (auto simp: arb_ok_def)
  have "gpio_dir (hw m') = active_dir (get_arb (unat (m_axis_id msg)) m')"
    by (rule gpio_out.thread_output [OF ops [unfolded s_gpio_out_ops_def] len q(1) r i mt m'(1)])
  also have "\<dots> = DIR_NONE" using arb_decide_stops(1) off by (simp add: m'(2))
  finally show ?thesis using m'(1) by blast
qed

section \<open>A concrete system\<close>

definition demo_axis :: "u8 \<Rightarrow> Axis_t" where
  "demo_axis i = \<lparr>ax_id = i, ax_dir = (if i = 0 then ACT_DIR_COMBINE_IS_MOVE_OUT else ACT_DIR_NONE), sm_act = fst demo_rod, evt_act = Some 0,
     position = demo_pos, rod_state = snd demo_rod\<rparr>"

definition demo_sys :: "State_t \<Rightarrow> sys_world" where
  "demo_sys s =
     \<lparr>sys_sm = \<lparr>jump_table = sys_jump, cur_state = s, previous_state = SYS_STATE_IDLE, init_state = SYS_STATE_INIT\<rparr>, sys_evt = Some 0,
      error_code = 0, fault_bits = 0, sys_prev_state = SYS_STATE_INIT, axis = [demo_axis 0, demo_axis 1], sys_arb = demo_gpio,
      pol = demo_pol, bv = \<lparr>s_fVolt = 0, bv_status = 0, s_u8SeenValid = 1, s_u8Fault = 0, s_u8Waiting = 0, s_u32RecoverCnt = 0, s_fFaultVolt = 0\<rparr>,
      s_arb_cmd_send_fail_count = 0, s_overcur_dir = POLARITY_UNKNOWN, s_rod_save_pending = 0, s_rod_save_wait = 0, s_hw_started = 1, now = 5,
      isr_1ms_on = True, adc = demo_adc, hm = demo_hall, us = demo_us_dev, mon = mon_zero,
      g_volt_cfg = \<lparr>over_th = f_lit 33 1, under_th = f_lit 15 1, hyst = f_lit 1 1, recover_ms = 100\<rparr>,
      g_cur_cfg = \<lparr>over_th_ma = f_lit 1000 1, window_ms = 30, block_ms = 30\<rparr>, led_pin = False\<rparr>"

lemma gpio_init_ok:
  assumes "mod_inv m" and "mg_inited (hw m) = 0"
  shows "mod_inv (Dev_MotorGpio_Init cfg m)" "s_arb_output_ops (Dev_MotorGpio_Init cfg m) = Some (s_gpio_out_ops cfg)"
    "s_arb_mq (Dev_MotorGpio_Init cfg m) = s_arb_mq m" "mutex_take (Dev_MotorGpio_Init cfg m) = mutex_take m"
    "s_arb_axis (Dev_MotorGpio_Init cfg m) = s_arb_axis m"
  using assms
  by (simp_all add: Dev_MotorGpio_Init_def Arb_BindOutputOps_def s_gpio_out_ops_def output_ops_def mod_inv_def ops_bound_def get_arb_def)

lemma demo_gpio_ok: "arb_ok demo_gpio"
proof -
  let ?g = "\<lparr>pin_fwd = False, pin_rev = False, mg_inited = 0, s_dir_invert = 1, s_prev_out_dir = 0,
          mg_cur = \<lparr>s_u16BlockMs = 0, s_fCurrMa = 0, cs_status = 0, s_u16OverMs = 0, s_fFaultMa = 0\<rparr>\<rparr>"
  let ?cfg = "\<lparr>over_th_ma = 0, window_ms = 30, block_ms = 30\<rparr>"
  define m where "m = Arb_Module_Init (\<lambda>_. RT_EOK) True (arb_boot (\<lambda>_. RT_EOK) ?g)"
  have inv: "mod_inv m" unfolding m_def by (intro Arb_Module_Init_inv arb_reach_inv arb_reach.boot)
  have m: "mg_inited (hw m) = 0" "s_arb_mq m = Some (rt_mq_create ARB_MQ_DEPTH)" "mutex_take m = (\<lambda>_. RT_EOK)"
    by (simp_all add: m_def Arb_Module_Init_def arb_boot_def Let_def upt_rec)
  have "arb_ok (Dev_MotorGpio_Init ?cfg m)"
    unfolding arb_ok_def using gpio_init_ok [OF inv m(1), of ?cfg] m(2,3) by (simp add: rt_mq_create_def) blast
  then show ?thesis unfolding demo_gpio_def m_def by (rule arb_ok_send)
qed

lemma demo_sys_fields [simp]:
  "sys_sm (demo_sys s) = \<lparr>jump_table = sys_jump, cur_state = s, previous_state = SYS_STATE_IDLE, init_state = SYS_STATE_INIT\<rparr>"
  "arb_ok (sys_arb (demo_sys s))" "fault_bits (demo_sys s) = 0" "sys_prev_state (demo_sys s) = SYS_STATE_INIT"
  by (simp_all add: demo_sys_def demo_gpio_ok)

section \<open>Properties\<close>

definition run_wakeups :: "sys_world SysModule_t list \<Rightarrow> u32 list \<Rightarrow> sys_world \<Rightarrow> sys_world" where
  "run_wakeups mods = fold (Sys_State_Dispatch mods)"

text \<open>
  Whatever events the system thread is woken with, in whatever combinations, the machine
  rests in INIT, IDLE, RUN, FAULT or STOP: EMERGENCY is only passed through. RUN is never entered
  directly from FAULT, so the re-synchronisation of the motor commands in the entry of RUN is never
  executed.
\<close>

theorem sys_states:
  "let sm = sys_sm (run_wakeups (reg_table mi ok) bss (Sys_State_Init w)) in
     cur_state sm \<in> {SYS_STATE_INIT, SYS_STATE_IDLE, SYS_STATE_RUN, SYS_STATE_FAULT, SYS_STATE_STOP} \<and>
     \<not> (cur_state sm = SYS_STATE_RUN \<and> previous_state sm = SYS_STATE_FAULT)"
proof -
  have "sm_inv (sys_sm (fold (Sys_State_Dispatch (reg_table mi ok)) bss v))" if "sm_inv (sys_sm v)" for v
    using that by (induction bss arbitrary: v) (simp_all add: reg.dispatch_inv)
  moreover have "sm_inv (sys_sm (Sys_State_Init w))"
    by (simp add: sm_inv_def Sys_State_Init_def StateMachine_Init_def sys_ptr_def)
  ultimately have "sm_inv (sys_sm (run_wakeups (reg_table mi ok) bss (Sys_State_Init w)))" by (simp add: run_wakeups_def)
  then show ?thesis by (auto simp: sm_inv_def Let_def)
qed

text \<open>
  The entry of EMERGENCY sends an event to the machine that is being entered; the nested call
  goes no deeper than one further level: any larger bound on the depth gives the same result.
\<close>

theorem sys_send_depth:
  assumes "jump_table (sys_sm w) = sys_jump"
  shows "sys_send (SYS_DEPTH + k) (reg_table mi ok) e w = Sys_Send (reg_table mi ok) e w"
  by (rule reg.depth_suffices [OF assms])

theorem sys_send_depth_witness:
  "sys_send 9 (reg_table (\<lambda>_. 0) True) EVT_SYS_VOLT_OVER (demo_sys SYS_STATE_RUN) =
     Sys_Send (reg_table (\<lambda>_. 0) True) EVT_SYS_VOLT_OVER (demo_sys SYS_STATE_RUN)"
  using sys_send_depth [of "demo_sys SYS_STATE_RUN" 7] by simp



text \<open>
  C10. FAULT is stable: a wake-up without a recovery command leaves the machine in FAULT unless
  every fault bit is clear afterwards.
\<close>

theorem fault_left_only_when_clear:
  assumes "jump_table (sys_sm w) = sys_jump" and "cur_state (sys_sm w) = SYS_STATE_FAULT" and "bits AND EVT_SYS_RECOVERY = 0"
  shows "let w' = Sys_State_Dispatch (reg_table mi ok) bits w in cur_state (sys_sm w') = SYS_STATE_FAULT \<or> fault_bits w' = 0"
  using reg.fault_dispatch_clear [of w bits mi ok] assms by (simp add: in_fault_def jt_ok_def faulty_or_clear_def Let_def)

theorem fault_left_only_when_clear_witness:
  "let w' = Sys_State_Dispatch (reg_table (\<lambda>_. 0) True) EVT_SYS_CMD_WORK_ENABLE (demo_sys SYS_STATE_FAULT)
   in cur_state (sys_sm w') = SYS_STATE_FAULT \<or> fault_bits w' = 0"
  using fault_left_only_when_clear [of "demo_sys SYS_STATE_FAULT" EVT_SYS_CMD_WORK_ENABLE "\<lambda>_. 0" True] by simp

section \<open>Recovery through IDLE\<close>

lemma init_all_reg:
  "sys_arb (Dev_Registry_InitAll (reg_table mi ok) w) =
     Dev_MotorGpio_Init (g_cur_cfg w) (Arb_Module_Init mi ok ((sys_arb w)\<lparr>hw := (hw (sys_arb w))\<lparr>mg_cur := CurrentSensor_Init (mg_cur (hw (sys_arb w)))\<rparr>\<rparr>))"
  "pol (Dev_Registry_InitAll (reg_table mi ok) w) = Polarity_Init (pol w)"
  by (simp_all add: reg_table_def SYS_MODULE_REGISTER_def SYS_MODULE_REGISTER_THREAD_def Monitor_Init_def upd_cur_def)

lemma idled_devices:
  "sys_arb (reg.idled mi ok w) = Dev_MotorGpio_Init (g_cur_cfg w)
     (Arb_Module_Init mi ok ((sys_arb w)\<lparr>hw := (hw (sys_arb w))\<lparr>mg_cur := CurrentSensor_Init (mg_cur (hw (sys_arb w)))\<rparr>\<rparr>))"
  "pol (reg.idled mi ok w) = Polarity_Init (pol w)"
  by (simp_all add: reg.idled_def sys_enter_idle_def Let_def HcDrv_Timer_Start1ms_def init_all_reg)
    (simp_all add: sys_state_log_enter_def moved_def)

lemma enter_run_devices:
  "previous_state (sys_sm w) \<noteq> SYS_STATE_FAULT \<Longrightarrow> sys_arb (sys_enter_run w) = sys_arb w \<and> pol (sys_enter_run w) = pol w"
  by (simp add: sys_enter_run_def Let_def sys_state_log_enter_def)

lemma reinit_axes:
  assumes "s_arb_mq m \<noteq> None" and "length (s_arb_axis m) = 2" and "mutex_take m 0 = RT_EOK" and "mutex_take m 1 = RT_EOK" and "i < 2"
  shows "get_arb i (Dev_MotorGpio_Init cfg (Arb_Module_Init mi ok (m\<lparr>hw := h\<rparr>))) = zero_arb\<lparr>enable := 1\<rparr>"
proof -
  have g: "get_arb i (Dev_MotorGpio_Init cfg m1) = get_arb i m1" for m1
    by (simp add: Dev_MotorGpio_Init_def Arb_BindOutputOps_def get_arb_def Let_def split: option.split)
  have "get_arb i (Arb_Module_Init mi ok (m\<lparr>hw := h\<rparr>)) = zero_arb\<lparr>enable := 1\<rparr>"
    using assms by (auto simp: Arb_Module_Init_def upt_rec less_2_cases_iff)
  then show ?thesis by (simp add: g)
qed

text \<open>
  C11. Recovery: when the machine is in FAULT with voltage faults only and it was running before,
  the event that reports the voltage back to normal takes it to RUN with no fault bit and no error
  code; on the way through IDLE both axes of the arbitration module are enabled with empty queues,
  and the polarity detection starts afresh, so the motor moves only on a newly recognised polarity.
\<close>

theorem volt_normal_restarts:
  assumes "jump_table (sys_sm w) = sys_jump" and "cur_state (sys_sm w) = SYS_STATE_FAULT" and "sys_prev_state w = SYS_STATE_RUN"
    and "fault_bits w AND NOT (FB_VOLT_OVER OR FB_VOLT_UNDER) = 0" and "arb_ok (sys_arb w)"
  shows "let w' = Sys_State_Dispatch (reg_table mi ok) EVT_SYS_VOLT_NORMAL w in
     cur_state (sys_sm w') = SYS_STATE_RUN \<and> fault_bits w' = 0 \<and> error_code w' = SYS_ERR_NONE \<and>
     get_arb 0 (sys_arb w') = zero_arb\<lparr>enable := 1\<rparr> \<and> get_arb 1 (sys_arb w') = zero_arb\<lparr>enable := 1\<rparr> \<and>
     Polarity_GetState (pol w') = POLARITY_UNKNOWN \<and> s_dirWin (pol w') = win_reset"
proof -
  let ?mods = "reg_table mi ok"
  define w1 where "w1 = w\<lparr>fault_bits := 0\<rparr>"
  define v where "v = reg.idled mi ok (w1\<lparr>error_code := SYS_ERR_NONE\<rparr>)"
  have d: "Sys_State_Dispatch ?mods EVT_SYS_VOLT_NORMAL w = auto_recover ?mods w1"
    using assms(4) by (simp add: Sys_State_Dispatch_def when_bit_def disp_volt_normal_def w1_def Let_def)
  have r: "auto_recover ?mods w1 = sys_enter_run (moved SYS_STATE_RUN v)"
    using reg.auto_recover_fault [of w1 mi ok] assms(1,2,3) by (simp add: jt_ok_def w1_def v_def Let_def)
  have c: "core (sys_enter_run (moved SYS_STATE_RUN v)) = core (moved SYS_STATE_RUN v)" by (simp add: sys_simps)
  have v: "sys_sm v = (sys_sm w)\<lparr>previous_state := SYS_STATE_FAULT, cur_state := SYS_STATE_IDLE\<rparr>" "fault_bits v = 0" "error_code v = SYS_ERR_NONE"
    using assms(2) by (simp_all add: v_def reg.idled_core w1_def)
  have m: "cur_state (sys_sm (moved SYS_STATE_RUN v)) = SYS_STATE_RUN" "fault_bits (moved SYS_STATE_RUN v) = 0"
    "error_code (moved SYS_STATE_RUN v) = SYS_ERR_NONE" "previous_state (sys_sm (moved SYS_STATE_RUN v)) = SYS_STATE_IDLE"
    "sys_arb (moved SYS_STATE_RUN v) = sys_arb v" "pol (moved SYS_STATE_RUN v) = pol v"
    using v by (simp_all add: moved_def)
  have a: "sys_arb (sys_enter_run (moved SYS_STATE_RUN v)) = sys_arb v" "pol (sys_enter_run (moved SYS_STATE_RUN v)) = pol v"
    using enter_run_devices [of "moved SYS_STATE_RUN v"] m(4,5,6) by simp_all
  have arb: "get_arb i (sys_arb v) = zero_arb\<lparr>enable := 1\<rparr>" if "i < 2" for i
    using assms(5) that unfolding v_def idled_devices
    by (intro reinit_axes) (auto simp: w1_def arb_ok_def mod_inv_def)
  have p: "pol v = Polarity_Init (pol w)" by (simp add: v_def idled_devices w1_def)
  show ?thesis
    using core_fields(1,2,3) [OF c] m(1,2,3) arb [of 0] arb [of 1]
    by (simp add: d r a p Let_def Polarity_Init_def Polarity_GetState_def Polarity_ResetWindow_def)
qed

theorem volt_normal_restarts_witness:
  "cur_state (sys_sm (Sys_State_Dispatch (reg_table (\<lambda>_. 0) True) EVT_SYS_VOLT_NORMAL
     ((demo_sys SYS_STATE_FAULT)\<lparr>fault_bits := FB_VOLT_UNDER, sys_prev_state := SYS_STATE_RUN\<rparr>))) = SYS_STATE_RUN"
  using volt_normal_restarts [of "(demo_sys SYS_STATE_FAULT)\<lparr>fault_bits := FB_VOLT_UNDER, sys_prev_state := SYS_STATE_RUN\<rparr>" "\<lambda>_. 0" True]
  by (simp add: Let_def)

section \<open>Faults without effect\<close>

text \<open>The state reached by the automatic recovery of a machine in FAULT.\<close>

lemma auto_recover_state:
  assumes "jt_ok w" and "cur_state (sys_sm w) = SYS_STATE_FAULT"
  shows "cur_state (sys_sm (auto_recover (reg_table mi ok) w)) = (if sys_prev_state w = SYS_STATE_RUN then SYS_STATE_RUN else SYS_STATE_IDLE)"
    "fault_bits (auto_recover (reg_table mi ok) w) = fault_bits w" "error_code (auto_recover (reg_table mi ok) w) = SYS_ERR_NONE"
proof -
  let ?v = "reg.idled mi ok (w\<lparr>error_code := SYS_ERR_NONE\<rparr>)"
  have c: "core (sys_enter_run (moved SYS_STATE_RUN ?v)) = core (moved SYS_STATE_RUN ?v)" by (simp add: sys_simps)
  have f: "cur_state (sys_sm ?v) = SYS_STATE_IDLE" "fault_bits ?v = fault_bits w" "error_code ?v = SYS_ERR_NONE"
    by (simp_all add: reg.idled_core)
  have m: "fault_bits (moved SYS_STATE_RUN ?v) = fault_bits w" "error_code (moved SYS_STATE_RUN ?v) = SYS_ERR_NONE"
    using f(2,3) by (simp_all add: moved_def)
  note r = reg.auto_recover_fault [OF assms, of mi ok]
  show "cur_state (sys_sm (auto_recover (reg_table mi ok) w)) = (if sys_prev_state w = SYS_STATE_RUN then SYS_STATE_RUN else SYS_STATE_IDLE)"
    "fault_bits (auto_recover (reg_table mi ok) w) = fault_bits w" "error_code (auto_recover (reg_table mi ok) w) = SYS_ERR_NONE"
    using f m core_fields(1,2,3) [OF c] by (simp_all add: r Let_def)
qed

text \<open>
  The order of events is lost in the event set: when an over-voltage event and a
  voltage-normal event are pending at the same wake-up of a machine without faults, whichever of
  them was sent last, the machine ends in the state it was in, with no fault bit and no error code.
\<close>

theorem coalesced_voltage_events:
  assumes "jump_table (sys_sm w) = sys_jump" and "cur_state (sys_sm w) \<in> {SYS_STATE_IDLE, SYS_STATE_RUN}" and "fault_bits w = 0"
  shows "let w' = Sys_State_Dispatch (reg_table mi ok) (EVT_SYS_VOLT_OVER OR EVT_SYS_VOLT_NORMAL) w in
     cur_state (sys_sm w') = cur_state (sys_sm w) \<and> fault_bits w' = 0 \<and> error_code w' = SYS_ERR_NONE"
proof -
  let ?mods = "reg_table mi ok"
  define w1 where "w1 = (save_prev (w\<lparr>error_code := SYS_ERR_VOLT_OVER\<rparr>))\<lparr>fault_bits := FB_VOLT_OVER\<rparr>"
  define w2 where "w2 = (Sys_Send ?mods EVT_SYS_VOLT_OVER w1)\<lparr>fault_bits := 0\<rparr>"
  have j: "jump_table (sys_sm w1) = sys_jump" using assms(1) by (simp add: w1_def)
  note f = reg.Sys_Send_fields [OF j, of mi ok EVT_SYS_VOLT_OVER]
  have p: "sys_prev_state w1 = cur_state (sys_sm w)" "sys_sm w1 = sys_sm w"
    using assms(3) by (simp_all add: w1_def save_prev_def StateMachine_GetState_def sys_ptr_def)
  have jt: "jump_table (sm_after sm e) = jump_table sm" for sm e by (simp add: sm_after_def Let_def)
  have ov: "disp_volt_over ?mods w = Sys_Send ?mods EVT_SYS_VOLT_OVER w1"
    using assms(3) by (simp add: disp_volt_over_def w1_def Let_def)
  have fb: "fault_bits (Sys_Send ?mods EVT_SYS_VOLT_OVER w1) = FB_VOLT_OVER" using f(3) by (simp add: w1_def)
  have d: "Sys_State_Dispatch ?mods (EVT_SYS_VOLT_OVER OR EVT_SYS_VOLT_NORMAL) w = auto_recover ?mods w2"
    by (simp add: Sys_State_Dispatch_def when_bit_def Let_def ov disp_volt_normal_def fb w2_def)
  have w2: "jt_ok w2" "cur_state (sys_sm w2) = SYS_STATE_FAULT" "sys_prev_state w2 = cur_state (sys_sm w)" "fault_bits w2 = 0"
    using f j jt p stop_events_stop [of EVT_SYS_VOLT_OVER "sys_sm w"] assms(2)
    by (simp_all add: w2_def jt_ok_def stop_events_def)
  show ?thesis
    using auto_recover_state [OF w2(1,2), of mi ok] w2(3,4) assms(2) unfolding d Let_def by auto
qed

theorem coalesced_voltage_events_witness:
  "cur_state (sys_sm (Sys_State_Dispatch (reg_table (\<lambda>_. 0) True) (EVT_SYS_VOLT_OVER OR EVT_SYS_VOLT_NORMAL) (demo_sys SYS_STATE_RUN))) = SYS_STATE_RUN"
  using coalesced_voltage_events [of "demo_sys SYS_STATE_RUN" "\<lambda>_. 0" True] by (simp add: Let_def)

text \<open>
  In STOP a fault changes no state: the bit and the error code are recorded, and a later
  work-enable event starts RUN with the fault bit still set.
\<close>

theorem stop_ignores_faults:
  assumes "jump_table (sys_sm w) = sys_jump" and "cur_state (sys_sm w) = SYS_STATE_STOP"
  shows "let w1 = Sys_State_Dispatch (reg_table mi ok) EVT_SYS_VOLT_OVER w;
             w2 = Sys_State_Dispatch (reg_table mi ok) EVT_SYS_CMD_WORK_ENABLE w1 in
     sys_sm w1 = sys_sm w \<and> sys_arb w1 = sys_arb w \<and> fault_bits w1 = fault_bits w OR FB_VOLT_OVER \<and>
     cur_state (sys_sm w2) = SYS_STATE_RUN \<and> fault_bits w2 = fault_bits w OR FB_VOLT_OVER"
proof -
  let ?mods = "reg_table mi ok"
  let ?v = "save_prev (w\<lparr>error_code := SYS_ERR_VOLT_OVER\<rparr>)"
  let ?w1 = "?v\<lparr>fault_bits := fault_bits w OR FB_VOLT_OVER\<rparr>"
  have j: "jump_table (sys_sm ?w1) = sys_jump" using assms(1) by simp
  have stop: "jump_scan sys_jump SYS_STATE_STOP EVT_SYS_VOLT_OVER = SYS_STATE_STOP"
    and run: "jump_scan sys_jump SYS_STATE_STOP EVT_SYS_CMD_WORK_ENABLE = SYS_STATE_RUN"
    by (simp_all add: sys_jump_def jump_row_def)
  have "Sys_Send ?mods EVT_SYS_VOLT_OVER ?w1 = ?w1"
    using assms(2) stop unfolding reg.Sys_Send_unfold [OF j] by simp
  then have d1: "Sys_State_Dispatch ?mods EVT_SYS_VOLT_OVER w = ?w1"
    by (simp add: Sys_State_Dispatch_def when_bit_def Let_def disp_volt_over_def)
  have d2: "Sys_State_Dispatch ?mods EVT_SYS_CMD_WORK_ENABLE ?w1 = Sys_Send ?mods EVT_SYS_CMD_WORK_ENABLE ?w1"
    by (simp add: Sys_State_Dispatch_def when_bit_def Let_def)
  have "cur_state (sm_after (sys_sm ?w1) EVT_SYS_CMD_WORK_ENABLE) = SYS_STATE_RUN"
    using assms(2) run by (simp add: sm_after_def)
  then show ?thesis
    using reg.Sys_Send_fields(1,3) [OF j, of mi ok EVT_SYS_CMD_WORK_ENABLE] by (simp add: d1 d2 Let_def)
qed

theorem stop_ignores_faults_witness:
  "fault_bits (Sys_State_Dispatch (reg_table (\<lambda>_. 0) True) EVT_SYS_VOLT_OVER (demo_sys SYS_STATE_STOP)) = FB_VOLT_OVER"
  using stop_ignores_faults [of "demo_sys SYS_STATE_STOP" "\<lambda>_. 0" True] by (simp add: Let_def)

text \<open>
  An over-current fault in one direction is cleared by a change of the supply polarity exactly
  when the polarity now differs from the direction of the fault; with no other fault the machine
  then leaves FAULT for the state before the fault, and otherwise nothing changes.
\<close>

theorem polarity_clears_over_current:
  assumes "jump_table (sys_sm w) = sys_jump" and "cur_state (sys_sm w) = SYS_STATE_FAULT" and "fault_bits w = FB_OVER_CURRENT"
    and "s_overcur_dir w \<in> {POLARITY_FWD, POLARITY_REV}"
  shows "let w' = Sys_State_Dispatch (reg_table mi ok) EVT_SYS_POLARITY_CHG w in
     if Polarity_GetState (pol w) = s_overcur_dir w then w' = w
     else cur_state (sys_sm w') = (if sys_prev_state w = SYS_STATE_RUN then SYS_STATE_RUN else SYS_STATE_IDLE) \<and>
       fault_bits w' = 0 \<and> error_code w' = SYS_ERR_NONE"
proof -
  let ?mods = "reg_table mi ok"
  have d: "Sys_State_Dispatch ?mods EVT_SYS_POLARITY_CHG w = disp_polarity ?mods w"
    by (simp add: Sys_State_Dispatch_def when_bit_def Let_def)
  have p: "disp_polarity ?mods w = (if Polarity_GetState (pol w) = s_overcur_dir w then w else auto_recover ?mods (w\<lparr>fault_bits := 0\<rparr>))"
    using assms(3,4) by (auto simp: disp_polarity_def Let_def)
  have w1: "jt_ok (w\<lparr>fault_bits := 0\<rparr>)" "cur_state (sys_sm (w\<lparr>fault_bits := 0\<rparr>)) = SYS_STATE_FAULT"
    using assms(1,2) by (simp_all add: jt_ok_def)
  show ?thesis using auto_recover_state [OF w1, of mi ok] by (simp add: d p Let_def)
qed

theorem polarity_clears_over_current_witness:
  "cur_state (sys_sm (Sys_State_Dispatch (reg_table (\<lambda>_. 0) True) EVT_SYS_POLARITY_CHG
     ((demo_sys SYS_STATE_FAULT)\<lparr>fault_bits := FB_OVER_CURRENT, s_overcur_dir := POLARITY_FWD, sys_prev_state := SYS_STATE_RUN,
       pol := demo_pol\<lparr>pol_state := POLARITY_REV\<rparr>\<rparr>))) = SYS_STATE_RUN"
  using polarity_clears_over_current [of "(demo_sys SYS_STATE_FAULT)\<lparr>fault_bits := FB_OVER_CURRENT, s_overcur_dir := POLARITY_FWD,
      sys_prev_state := SYS_STATE_RUN, pol := demo_pol\<lparr>pol_state := POLARITY_REV\<rparr>\<rparr>" "\<lambda>_. 0" True]
  by (simp add: Let_def Polarity_GetState_def)

end
