(* ===== verification/Firmware.thy ===== *)
theory Firmware
  imports Param_App Fault_Laws Task_Set
begin

text \<open>
  The firmware put together: the rod task (\<^verbatim>\<open>Task/rod_task.c\<close>), the digital input task
  (\<^verbatim>\<open>Task/di_task.c\<close>), the LED task (\<^verbatim>\<open>Task/led_task.c\<close>), the construction of the system object (\<^verbatim>\<open>Dev/dev_mgr/dev_model.c\<close>), the
  start-up sequence and the main loop (\<^verbatim>\<open>applications/main.c\<close>), and the step relation in which
  interrupts and rounds of the threads follow each other in any order. The state is the world of
  \<open>System\<close>, the parameter module with the flash, the registered modules, the heartbeat and stack
  tables, and what the kernel answers when threads are created. A round of a thread or an interrupt is one step; delays are left out, so that a thread may run at any time or not at
  all. Log output is left out.
\<close>

record fw =
  fw_w :: sys_world
  fw_p :: param_dev
  fw_mods :: "sys_world SysModule_t list"
  fw_tasks :: task_set
  fw_stacks :: "TaskStackItem_t list"
  fw_kernel :: task_kernel

section \<open>The rod task\<close>

definition rod_output :: "rod_out \<Rightarrow> sys_world \<Rightarrow> sys_world" where
  "rod_output ev w =
     (case ev of
        OutArb a d p c duty urg \<Rightarrow> w\<lparr>sys_arb := snd (Arb_SendCommand a d p c duty urg (now w) (sys_arb w))\<rparr>
      | OutActEvent bits \<Rightarrow> Act_Event_Send bits w)"

definition actuator_axis :: "u32 \<Rightarrow> nat \<Rightarrow> sys_world \<Rightarrow> sys_world" where
  "actuator_axis tick i w =
     (let ax = axis w ! i in
      if ax_dir ax = ACT_DIR_NONE then w
      else
        let (delta, h) = MotorHall_GetDeltaPulses i (hm w);
            ((pos, sm, ctx), outs) = rod_axis_tick (sys_arb w) (of_nat i) delta tick (position ax, sm_act ax, rod_state ax)
        in fold rod_output outs (w\<lparr>hm := h, axis := (axis w)[i := ax\<lparr>position := pos, sm_act := sm, rod_state := ctx\<rparr>]\<rparr>))"

definition Actuator_Tick :: "u32 \<Rightarrow> sys_world \<Rightarrow> sys_world" where
  "Actuator_Tick tick w =
     (let (h, u) = MotorHall_Task (now w) (hm w, us w)
      in fold (actuator_axis tick) [0 ..< MAX_AXIS_NUM] (w\<lparr>hm := h, us := u\<rparr>))"

definition rod_thread_entry :: "efm_hw \<Rightarrow> sys_world \<times> param_dev \<Rightarrow> sys_world \<times> param_dev" where
  "rod_thread_entry H = (\<lambda>(w, p). Dev_Param_RodPollSave H (Actuator_Tick (now w) w, p))"

section \<open>The digital input task and the interrupts\<close>

definition di_thread_entry :: "bool \<Rightarrow> sys_world \<Rightarrow> sys_world" where
  "di_thread_entry pin w =
     (let ((p, m), acts, syss) = Polarity_Scan (BusVoltage_IsUnderVoltage (bv w)) pin (now w) (pol w, sys_arb w)
      in fold Sys_Event_Send syss (fold Act_Event_Send acts (w\<lparr>pol := p, sys_arb := m\<rparr>)))"

text \<open>The 1 ms interrupt on the world: the supervision reads the converter means and posts its events.\<close>

definition power_isr :: "sys_world \<Rightarrow> sys_world" where
  "power_isr w =
     (let ((b, c), es) = Dev_Power_Isr1ms (g_volt_cfg w) (g_cur_cfg w) (\<lambda>ch. Dev_Adc_GetMean (unat ch) (adc w)) (bv w, mg_cur (hw (sys_arb w)))
      in fold Sys_Event_Send es (upd_cur (\<lambda>_. c) (w\<lparr>bv := b\<rparr>)))"

definition adc_isr :: "(u8 \<Rightarrow> u16) \<Rightarrow> sys_world \<Rightarrow> sys_world" where
  "adc_isr conv w = w\<lparr>adc := (adc w)\<lparr>adc_hw := AdcDrv_ADC1_IRQHandler conv (adc_hw (adc w))\<rparr>\<rparr>"

definition hall_a_isr :: "sys_world \<Rightarrow> sys_world" where
  "hall_a_isr w = (let (h, u) = Hall_A_IrqCallback (hm w, us w) in w\<lparr>hm := h, us := u\<rparr>)"

definition hall_b_isr :: "bool \<Rightarrow> bool \<Rightarrow> sys_world \<Rightarrow> sys_world" where
  "hall_b_isr pa pb w = (let (h, u) = Hall_B_IrqCallback pa pb (hm w, us w) in w\<lparr>hm := h, us := u\<rparr>)"

section \<open>The LED task\<close>

text \<open>The round of the LED thread: the pin toggles, and the time stamp for its message is taken.\<close>

definition led_thread_entry :: "sys_world \<Rightarrow> sys_world" where
  "led_thread_entry w = w\<lparr>led_pin := \<not> led_pin w, us := UsTimer_UpdateTimestamp (us w)\<rparr>"

section \<open>The starts of the tasks\<close>

definition Dev_Start :: "task_kernel \<Rightarrow> u32 \<Rightarrow> task_set \<Rightarrow> int \<times> task_set" where
  "Dev_Start K tick ts =
     (let (t, ts1) = Task_Set_Create (Some ''dev'') True 512 18 500 (k_create K ''dev'') (k_started K ''dev'') tick ts
      in (if t \<noteq> None then 0 else - 1, ts1))"

definition Led_Task_Start :: "task_kernel \<Rightarrow> task_set \<times> sys_world \<Rightarrow> task_set \<times> sys_world" where
  "Led_Task_Start K = (\<lambda>(ts, w).
     (snd (Task_Set_Create (Some ''led'') True 256 19 2000 (k_create K ''led'') (k_started K ''led'') (now w) ts), w\<lparr>led_pin := False\<rparr>))"

definition Di_Task_Start :: "task_kernel \<Rightarrow> u32 \<Rightarrow> task_set \<Rightarrow> task_set" where
  "Di_Task_Start K tick ts = snd (Task_Set_Create (Some ''di'') True 2048 18 50 (k_create K ''di'') (k_started K ''di'') tick ts)"

definition Rod_Task_Start :: "task_kernel \<Rightarrow> u32 \<Rightarrow> task_set \<Rightarrow> task_set" where
  "Rod_Task_Start K tick ts = snd (Task_Set_Create (Some ''rod'') True 2048 18 100 (k_create K ''rod'') (k_started K ''rod'') tick ts)"

section \<open>Start-up\<close>

definition app_axis_init :: "nat \<Rightarrow> Axis_t \<Rightarrow> Axis_t" where
  "app_axis_init i ax =
     (let (sm, ctx) = RodState_Init (of_nat i) (sm_act ax, rod_state ax)
      in ax\<lparr>ax_id := of_nat i, ax_dir := (if i = 0 then ACT_DIR_COMBINE_IS_MOVE_OUT else ACT_DIR_NONE), evt_act := Some 0,
           position := RodPosition_SetParams (f_lit 25 1) (f_lit 3054 100) (f_lit 12 1) (f_lit 3 1) (RodPosition_Init (position ax)),
           sm_act := sm, rod_state := ctx\<rparr>)"

text \<open>\<open>None\<close> when an event set cannot be created and the assertion stops the system.\<close>

definition App_Model_Init :: "bool \<Rightarrow> (nat \<Rightarrow> bool) \<Rightarrow> sys_world \<times> param_dev \<Rightarrow> (sys_world \<times> param_dev) option" where
  "App_Model_Init sys_created act_created = (\<lambda>(w0, p0).
     let w1 = Sys_State_Init w0 in
     if \<not> sys_created then None
     else if \<not> (\<forall>i < MAX_AXIS_NUM. act_created i) then None
     else
       let w2 = w1\<lparr>sys_evt := Some 0, fault_bits := 0, sys_prev_state := SYS_STATE_INIT,
             axis := map (\<lambda>i. app_axis_init i (axis w1 ! i)) [0 ..< MAX_AXIS_NUM]\<rparr>;
           (pos, p1) = Dev_Param_RodApply (Some (position (axis w2 ! 0))) p0;
           w3 = (case pos of Some x \<Rightarrow> w2\<lparr>axis := (axis w2)[0 := (axis w2 ! 0)\<lparr>position := x\<rparr>]\<rparr> | None \<Rightarrow> w2)
       in Some (Sys_Event_Send (EVT_SYS_INIT_DONE OR EVT_SYS_CMD_WORK_ENABLE) w3, p1))"

text \<open>
  \<open>main\<close> up to its loop: the time base, the converter, the parameters, the registration, the canary,
  the system object and the starts of the tasks. The thread of the system machine is created with
  the kernel's call and is not in the task table. Zero-initialised is the task table before.
\<close>

record boot_env =
  be_flash :: efm_hw
  be_pclk0 :: u32
  be_mutex_init :: "nat \<Rightarrow> rt_err_t"
  be_mq_created :: bool
  be_sys_created :: bool
  be_act_created :: "nat \<Rightarrow> bool"
  be_kernel :: task_kernel

definition task_set_zero :: task_set where
  "task_set_zero = \<lparr>s_beat = replicate (unat TASK_SET_BEAT_SLOTS) \<lparr>bi_name = [], bi_tcb = 0, bi_prio = 0, beat_ms = 0, last_beat = 0\<rparr>, s_beat_num = 0\<rparr>"

definition main_start :: "boot_env \<Rightarrow> sys_world \<times> param_dev \<Rightarrow> fw option" where
  "main_start E = (\<lambda>(w0, p0).
     let w1 = w0\<lparr>us := UsTimer_Start (UsTimer_Init (UsTimer_Bind (Some (hc_us_timer_ops (be_pclk0 E))) (us w0))),
                 adc := Dev_Adc_Bind (Some hc32_adc_ops) (adc w0)\<rparr>;
         (_, w2, p1) = Dev_Param_Init (be_flash E) (w1, p0);
         K = be_kernel E;
         (mods, ts1, w3) = Dev_RegisterAll K (be_mutex_init E) (be_mq_created E) ([], task_set_zero, w2);
         ts2 = Task_Set_Start (k_create K ''canary'') (k_started K ''canary'') (now w3) ts1
     in case App_Model_Init (be_sys_created E) (be_act_created E) (w3, p1) of
          None \<Rightarrow> None
        | Some (w4, p2) \<Rightarrow>
            let (ts4, w5) = Led_Task_Start K (snd (Dev_Start K (now w4) ts2), w4);
                ts6 = Rod_Task_Start K (now w5) (Di_Task_Start K (now w5) ts4)
            in Some \<lparr>fw_w = w5, fw_p = p2, fw_mods = mods, fw_tasks = ts6, fw_stacks = s_task_stack, fw_kernel = K\<rparr>)"

text \<open>The round of the main loop for a value of the test switch \<open>savelabel\<close>.\<close>

definition main_round :: "efm_hw \<Rightarrow> int \<Rightarrow> sys_world \<times> param_dev \<Rightarrow> sys_world \<times> param_dev" where
  "main_round H savelabel = (\<lambda>(w, p).
     let mm = RodPosition_GetCurrent (position (axis w ! 0)) in
     if savelabel = 1 then Dev_Param_SaveTest H (w, p)
     else if savelabel = 2 then (w, snd (Dev_Param_FillTest H w p))
     else if savelabel = 3 then (w, snd (Dev_Param_RodSave H mm p))
     else if savelabel = 4 then (w, snd (Dev_Param_RodFillTest H mm p))
     else (w, p))"

text \<open>
  The one-second report over the kernel's list of threads: the lines of the starvation check, the
  threads warned about for their stack, and what changes, the time stamp, the pending polarity
  message and the stack watermarks. Its other lines only print values.
\<close>

definition monitor_sample_1s :: "rt_thread list \<Rightarrow> sys_world \<times> task_set \<times> TaskStackItem_t list \<Rightarrow>
    ((string \<times> u8 \<times> u32 \<times> u32) list \<times> string list) \<times> sys_world \<times> TaskStackItem_t list" where
  "monitor_sample_1s threads = (\<lambda>(w, ts, tbl).
     let w1 = w\<lparr>us := UsTimer_UpdateTimestamp (us w), pol := snd (Polarity_PrintPending (pol w))\<rparr>;
         starved = Task_Set_StarvationCheck (now w1) ts;
         (warned, tbl1) = Task_Stack_Monitor threads tbl
     in ((starved, warned), w1, tbl1))"

definition cmd_sys_evt :: "nat \<Rightarrow> u32 \<Rightarrow> sys_world \<Rightarrow> sys_world" where
  "cmd_sys_evt argc bits w = (if argc = 2 then Sys_Event_Send bits w else w)"

definition main_th_stat_name :: "int \<Rightarrow> string" where
  "main_th_stat_name stat = (if stat = 0 then ''INIT'' else if stat = 1 then ''SUSPEND'' else if stat = 2 then ''READY''
     else if stat = 3 then ''RUN'' else ''?'')"

section \<open>Steps\<close>

text \<open>
  A round of one of the periodic threads, by the name of the thread, without the heartbeat at its
  end: the canary does nothing else.
\<close>

inductive fw_round :: "efm_hw \<Rightarrow> string \<Rightarrow> fw \<Rightarrow> fw \<Rightarrow> bool" for H where
  rod: "rod_thread_entry H (fw_w f, fw_p f) = (w, p) \<Longrightarrow> fw_round H ''rod'' f (f\<lparr>fw_w := w, fw_p := p\<rparr>)"
| di: "fw_round H ''di'' f (f\<lparr>fw_w := di_thread_entry pin (fw_w f)\<rparr>)"
| dev: "Dev_Registry_UpdateAll (now (fw_w f)) (fw_mods f) (fw_w f) = (ms, w) \<Longrightarrow> fw_round H ''dev'' f (f\<lparr>fw_w := w, fw_mods := ms\<rparr>)"
| led: "fw_round H ''led'' f (f\<lparr>fw_w := led_thread_entry (fw_w f)\<rparr>)"
| canary: "fw_round H ''canary'' f f"

definition runs :: "fw \<Rightarrow> string \<Rightarrow> nat \<Rightarrow> bool" where
  "runs f name self \<longleftrightarrow> k_create (fw_kernel f) name = Some self \<and> k_startup (fw_kernel f) self = RT_EOK"

definition fw_beat :: "nat \<Rightarrow> fw \<Rightarrow> fw" where
  "fw_beat self f = f\<lparr>fw_tasks := Task_Set_Beat self (now (fw_w f)) (fw_tasks f)\<rparr>"

text \<open>
  The interrupts, the threads that wait for events or messages, the main loop and the shell. The
  system thread takes all the awaited bits that are pending (\<open>sm\<close>), or, when it waited in the
  kernel while they came, those of the send that resumed it; the others stay pending for its next
  round (\<open>sm_woken\<close>).
\<close>

inductive fw_event :: "efm_hw \<Rightarrow> fw \<Rightarrow> fw \<Rightarrow> bool" for H where
  tick: "fw_event H f (f\<lparr>fw_w := (fw_w f)\<lparr>now := now (fw_w f) + 1\<rparr>\<rparr>)"
| timebase: "fw_event H f (f\<lparr>fw_w := (fw_w f)\<lparr>us := (us (fw_w f))\<lparr>us_hw := t\<rparr>\<rparr>\<rparr>)"
| power: "isr_1ms_on (fw_w f) \<Longrightarrow> fw_event H f (f\<lparr>fw_w := power_isr (fw_w f)\<rparr>)"
| adc: "fw_event H f (f\<lparr>fw_w := adc_isr conv (fw_w f)\<rparr>)"
| hall_a: "fw_event H f (f\<lparr>fw_w := hall_a_isr (fw_w f)\<rparr>)"
| hall_b: "fw_event H f (f\<lparr>fw_w := hall_b_isr pa pb (fw_w f)\<rparr>)"
| sm: "sys_sm_thread_step (fw_mods f) (fw_w f) = Some w \<Longrightarrow> fw_event H f (f\<lparr>fw_w := w\<rparr>)"
| sm_woken: "sys_evt (fw_w f) = Some ev \<Longrightarrow> bits \<noteq> 0 \<Longrightarrow> bits AND ev AND SYS_SM_WAIT_EVENTS = bits \<Longrightarrow>
    fw_event H f (f\<lparr>fw_w := Sys_State_Dispatch (fw_mods f) bits ((fw_w f)\<lparr>sys_evt := Some (ev AND NOT bits)\<rparr>)\<rparr>)"
| act: "Arb_ThreadStep (now (fw_w f)) (sys_arb (fw_w f)) = Some m \<Longrightarrow> fw_event H f (f\<lparr>fw_w := (fw_w f)\<lparr>sys_arb := m\<rparr>\<rparr>)"
| main: "main_round H label (fw_w f, fw_p f) = (w, p) \<Longrightarrow> fw_event H f (f\<lparr>fw_w := w, fw_p := p\<rparr>)"
| report: "monitor_sample_1s threads (fw_w f, fw_tasks f, fw_stacks f) = (lines, w, tbl) \<Longrightarrow> fw_event H f (f\<lparr>fw_w := w, fw_stacks := tbl\<rparr>)"
| shell_evt: "fw_event H f (f\<lparr>fw_w := cmd_sys_evt argc bits (fw_w f)\<rparr>)"
| shell_dir: "cmd_dir_set H argc hall mot (fw_w f, fw_p f) = (w, p) \<Longrightarrow> fw_event H f (f\<lparr>fw_w := w, fw_p := p\<rparr>)"

inductive fw_step :: "efm_hw \<Rightarrow> fw \<Rightarrow> fw \<Rightarrow> bool" for H where
  event: "fw_event H f f' \<Longrightarrow> fw_step H f f'"
| round: "fw_round H name f f' \<Longrightarrow> runs f name self \<Longrightarrow> fw_step H f (fw_beat self f')"

text \<open>The memory before \<open>main\<close>: what the start-up relies on of the zero-initialised data.\<close>

definition cold :: "sys_world \<Rightarrow> bool" where
  "cold w \<longleftrightarrow> (\<exists>g. sys_arb w = arb_boot (\<lambda>_. RT_EOK) g \<and> mg_inited g = 0) \<and> length (axis w) = 2 \<and>
     hall_b_last (hm w) = [0xFF, 0xFF] \<and> last_check_time (hm w) = [0, 0] \<and> s_isr_a (hm w) = None \<and> s_isr_b (hm w) = None \<and> s_hw_ready (hm w) = 0 \<and> s_hw_started w = 0 \<and>
     s_bInitialized (adc_hw (adc w)) = False"

inductive fw_reach :: "efm_hw \<Rightarrow> fw \<Rightarrow> bool" for H where
  start: "cold w \<Longrightarrow> be_flash E = H \<Longrightarrow> be_mutex_init E = (\<lambda>_. RT_EOK) \<Longrightarrow> be_mq_created E \<Longrightarrow>
    main_start E (w, p) = Some f \<Longrightarrow> fw_reach H f"
| step: "fw_reach H f \<Longrightarrow> fw_step H f f' \<Longrightarrow> fw_reach H f'"

end
