(* ===== verification/Firmware_Laws.thy ===== *)
theory Firmware_Laws
  imports Firmware
begin

text \<open>
  The firmware as a whole: an invariant that every interrupt and every round of a thread keeps, in
  whatever order they come, what it means for the motor, and how a cold start reaches RUN.
\<close>

section \<open>The arbitration module in operation\<close>

definition braked :: "gpio_motor arb_mod \<Rightarrow> bool" where
  "braked m \<longleftrightarrow> axes_off m \<and> (msg_pending m \<or> gpio_dir (hw m) = DIR_NONE)"

lemma send_hw [simp]: "hw (snd (Arb_SendCommand a d p c u b t m)) = hw m"
  by (simp add: Arb_SendCommand_def Let_def case_prod_beta split: option.split)

lemma braked_send: "braked m \<Longrightarrow> braked (snd (Arb_SendCommand a d p c u b t m))"
  using msg_pending_send by (auto simp: braked_def)

lemma mod_inv_hw: "mod_inv m \<Longrightarrow> mod_inv (m\<lparr>hw := h\<rparr>)"
  by (auto simp: mod_inv_def ops_bound_def)

lemma arb_ok_hw: "arb_ok m \<Longrightarrow> arb_ok (m\<lparr>hw := h\<rparr>)"
  using mod_inv_hw by (auto simp: arb_ok_def)

lemma arb_ok_round:
  assumes "arb_ok m" and "Arb_ThreadStep t m = Some m'"
  shows "arb_ok m'" "axes_off m \<Longrightarrow> axes_off m' \<and> gpio_dir (hw m') = DIR_NONE"
proof -
  obtain q msg q' where q: "s_arb_mq m = Some q" "rt_mq_recv q = Some (msg, q')" "0 < mq_blocks q"
    using assms by (auto simp: arb_ok_def Arb_ThreadStep_def split: option.splits)
  then have q': "mq_blocks q' = mq_blocks q" "mq_msgs q \<noteq> []" by (auto simp: rt_mq_recv_def split: list.splits)
  have fr: "mutex_take m' = mutex_take m \<and> s_arb_output_ops m' = s_arb_output_ops m \<and> s_arb_mq m' = Some q'"
    using assms(2) q by (auto simp: Arb_ThreadStep_def Let_def set_arb_def split: if_splits)
  show ok: "arb_ok m'"
    using assms(1) fr q q' Arb_ThreadStep_inv [OF _ assms(2)] by (auto simp: arb_ok_def)
  assume off: "axes_off m"
  have "msg_pending m" using q q' by (simp add: msg_pending_def)
  then have g: "gpio_dir (hw m') = DIR_NONE" using halted_round_brakes [OF assms(1) off, of t] assms(2) by auto
  have len: "length (s_arb_axis m) = 2" using assms(1) by (simp add: arb_ok_def mod_inv_def)
  have "enable (get_arb k m') = enable (get_arb k m)" if "k < 2" for k
    using assms(2) q len that
    by (cases "k = unat (m_axis_id msg)") (auto simp: Arb_ThreadStep_def Let_def Arb_Decision_arb split: if_splits)
  then show "axes_off m' \<and> gpio_dir (hw m') = DIR_NONE" using off g by (simp add: axes_off_def)
qed

lemma set_enable_ok: "arb_ok m \<Longrightarrow> arb_ok (snd (Arb_SetEnable i en m))"
  using arb_step_inv [OF arb_step.enable, of m i en]
  by (auto simp: Arb_SetEnable_def arb_ok_def Let_def set_arb_def)

section \<open>The invariant\<close>

definition fw_good :: "sys_world \<Rightarrow> bool" where
  "fw_good w \<longleftrightarrow> sm_inv (sys_sm w) \<and> arb_ok (sys_arb w) \<and> hall_inv (hm w) \<and> length (axis w) = 2 \<and>
     (cur_state (sys_sm w) = SYS_STATE_FAULT \<longrightarrow> braked (sys_arb w))"

lemma fw_good_frame:
  "fw_good w \<Longrightarrow> sys_sm v = sys_sm w \<Longrightarrow> sys_arb v = sys_arb w \<Longrightarrow> hm v = hm w \<Longrightarrow> length (axis v) = length (axis w) \<Longrightarrow> fw_good v"
  by (simp add: fw_good_def)

lemma fw_good_jt: "fw_good w \<Longrightarrow> jump_table (sys_sm w) = sys_jump"
  by (simp add: fw_good_def sm_inv_def)

text \<open>A command to the arbitration module.\<close>

lemma fw_good_command:
  "fw_good w \<Longrightarrow> sys_sm v = sys_sm w \<Longrightarrow> sys_arb v = snd (Arb_SendCommand a d p c u b t (sys_arb w)) \<Longrightarrow> hm v = hm w \<Longrightarrow>
   length (axis v) = length (axis w) \<Longrightarrow> fw_good v"
  by (simp add: fw_good_def arb_ok_send braked_send)

lemma ArbSend_more [simp]:
  "hm (Sys_State_ArbSendCommand a d p c u b w) = hm w" "axis (Sys_State_ArbSendCommand a d p c u b w) = axis w"
  by (simp_all add: Sys_State_ArbSendCommand_def Let_def case_prod_beta)

lemma good_ArbSend: "fw_good w \<Longrightarrow> fw_good (Sys_State_ArbSendCommand a d p c u b w)"
  by (erule fw_good_command) simp_all

lemma fw_good_fields [simp]:
  "fw_good (w\<lparr>mon := x1\<rparr>) = fw_good w" "fw_good (w\<lparr>now := x2\<rparr>) = fw_good w" "fw_good (w\<lparr>us := x3\<rparr>) = fw_good w"
  "fw_good (w\<lparr>adc := x4\<rparr>) = fw_good w" "fw_good (w\<lparr>bv := x5\<rparr>) = fw_good w" "fw_good (w\<lparr>pol := x6\<rparr>) = fw_good w"
  "fw_good (w\<lparr>sys_evt := x7\<rparr>) = fw_good w" "fw_good (w\<lparr>s_rod_save_pending := x8\<rparr>) = fw_good w"
  "fw_good (w\<lparr>s_rod_save_wait := x9\<rparr>) = fw_good w" "fw_good (w\<lparr>g_volt_cfg := y1\<rparr>) = fw_good w"
  "fw_good (w\<lparr>g_cur_cfg := y2\<rparr>) = fw_good w" "fw_good (w\<lparr>axis := map f (axis w)\<rparr>) = fw_good w"
  "fw_good (w\<lparr>axis := (axis w)[i := a]\<rparr>) = fw_good w" "fw_good (w\<lparr>fault_bits := y3\<rparr>) = fw_good w"
  "fw_good (w\<lparr>error_code := y4\<rparr>) = fw_good w" "fw_good (w\<lparr>led_pin := y5\<rparr>) = fw_good w"
  by (simp_all add: fw_good_def)

text \<open>What the invariant needs of the devices besides the machine.\<close>

definition devs :: "sys_world \<Rightarrow> bool" where
  "devs w \<longleftrightarrow> arb_ok (sys_arb w) \<and> hall_inv (hm w) \<and> length (axis w) = 2"

lemma devs_frame: "devs w \<Longrightarrow> sys_arb v = sys_arb w \<Longrightarrow> hm v = hm w \<Longrightarrow> length (axis v) = length (axis w) \<Longrightarrow> devs v"
  by (simp add: devs_def)

lemma devs_fields [simp]:
  "devs (w\<lparr>adc := a\<rparr>) = devs w" "devs (w\<lparr>isr_1ms_on := b\<rparr>) = devs w" "devs (w\<lparr>s_hw_started := n\<rparr>) = devs w"
  "devs (w\<lparr>axis := map f (axis w)\<rparr>) = devs w"
  by (simp_all add: devs_def)

lemma devs_send: "devs w \<Longrightarrow> devs (Sys_State_ArbSendCommand a d p c u b w)"
  by (simp add: devs_def arb_ok_send)

lemma devs_enable: "devs w \<Longrightarrow> devs (Sys_State_SetArbEnable a e w)"
  by (simp add: devs_def Sys_State_SetArbEnable_def set_enable_ok)

lemma devs_log: "devs w \<Longrightarrow> devs (sys_state_log_enter w)"
  by (simp add: devs_def sys_state_log_enter_def)

lemmas devs_ops = devs_send devs_enable devs_log

lemma devs_enter:
  assumes "devs w"
  shows "devs (sys_enter_run w)" "devs (sys_enter_stop w)" "devs (sys_enter_fault w)" "devs (hold_axis i w)"
proof -
  have "devs (Sys_State_ResyncActFromFault v)" if "devs v" for v
    using that by (simp add: Sys_State_ResyncActFromFault_def Let_def devs_ops)
  then show "devs (sys_enter_run w)"
    using devs_log [OF assms] by (simp add: sys_enter_run_def Let_def)
  show "devs (sys_enter_stop w)"
    using devs_log [OF assms] by (simp add: sys_enter_stop_def Let_def devs_def)
  show "devs (sys_enter_fault w)"
    using assms by (simp add: sys_enter_fault_def fault_axis_def devs_ops)
  show "devs (hold_axis i w)"
    unfolding hold_axis_def by (rule devs_send) (use assms in \<open>simp add: devs_def\<close>)
qed

lemma devs_moved: "devs w \<Longrightarrow> devs (moved t w)"
  by (simp add: devs_def moved_def)

locale registry_devices = registry_client mods for mods :: "sys_world SysModule_t list" +
  assumes init_devs: "m \<in> set mods \<Longrightarrow> mod_init m = Some f \<Longrightarrow> devs w \<Longrightarrow> devs (f w)"
    and task_good: "m \<in> set mods \<Longrightarrow> mod_task m = Some f \<Longrightarrow> fw_good w \<Longrightarrow> fw_good (f w)"
begin

lemma init_all_devs: "devs w \<Longrightarrow> devs (Dev_Registry_InitAll mods w)"
proof -
  have "devs v \<Longrightarrow> set ms \<subseteq> set mods \<Longrightarrow> devs (Dev_Registry_InitAll ms v)" for ms v
    by (induction ms v rule: Dev_Registry_InitAll.induct) (auto simp: init_devs split: option.split)
  then show "devs w \<Longrightarrow> devs (Dev_Registry_InitAll mods w)" by simp
qed

lemma enter_idle_devs: "devs w \<Longrightarrow> devs (sys_enter_idle mods w)"
  using init_all_devs [OF devs_log] by (simp add: sys_enter_idle_def Let_def HcDrv_Timer_Start1ms_def)

lemma send_good:
  assumes "fw_good w"
  shows "fw_good (Sys_Send mods e w)"
proof -
  note j = fw_good_jt [OF assms]
  have d: "devs w" using assms by (simp add: fw_good_def devs_def)
  have h: "devs (hold_all w)" by (simp add: hold_all_def devs_enter(4) devs_log devs_moved d)
  have ds: "devs (Sys_Send mods e w)"
    unfolding Sys_Send_unfold [OF j] Let_def using d h by (simp add: devs_enter enter_idle_devs devs_moved)
  have "braked (sys_arb (Sys_Send mods e w))" if f: "cur_state (sys_sm (Sys_Send mods e w)) = SYS_STATE_FAULT"
  proof (cases "jump_scan sys_jump (cur_state (sys_sm w)) e = cur_state (sys_sm w)")
    case True
    then have "Sys_Send mods e w = w" by (simp add: Sys_Send_unfold [OF j])
    then show ?thesis using assms f by (simp add: fw_good_def)
  next
    case False
    have b: "braked (sys_arb (sys_enter_fault (moved t v)))" if "devs v" for t v
      using sys_enter_fault_off [of "moved t v"] that by (simp add: devs_def braked_def)
    have "cur_state (sm_after (sys_sm w) e) = SYS_STATE_FAULT" using f Sys_Send_fields(1) [OF j, of e] by simp
    then have "jump_scan sys_jump (cur_state (sys_sm w)) e \<in> {SYS_STATE_EMERGENCY, SYS_STATE_FAULT}"
      using False by (auto simp: sm_after_def Let_def split: if_splits)
    then show ?thesis using False b [OF d] b [OF h] by (auto simp: Sys_Send_unfold [OF j] Let_def)
  qed
  then show ?thesis
    using ds Sys_Send_inv [of w e] assms by (simp add: fw_good_def devs_def)
qed

lemma recover_good: "fw_good w \<Longrightarrow> fw_good (auto_recover mods w)"
  by (simp add: auto_recover_def Let_def send_good)

lemma disp_good:
  assumes g: "fw_good w"
  shows "fw_good (disp_over_current mods w)" "fw_good (disp_rod_limit mods w)" "fw_good (disp_volt_over mods w)"
    "fw_good (disp_volt_under mods w)" "fw_good (disp_recovery mods w)" "fw_good (disp_volt_normal mods w)" "fw_good (disp_polarity mods w)"
proof -
  have s: "fw_good (Sys_Send mods e v)" if "sys_sm v = sys_sm w" "sys_arb v = sys_arb w" "hm v = hm w" "length (axis v) = length (axis w)" for e v
    using fw_good_frame [OF g that] by (rule send_good)
  show "fw_good (disp_over_current mods w)"
  proof (cases "oc_fault w")
    case True
    have "hm (oc_ready w) = hm w" "length (axis (oc_ready w)) = length (axis w)"
      by (simp_all add: oc_ready_def Let_def case_prod_beta save_prev_def)
    then show ?thesis unfolding disp_over_current_fault [OF True] by (intro s) simp_all
  next
    case False
    then show ?thesis
      using g by (auto simp: oc_fault_def oc_result_def disp_over_current_def Let_def case_prod_beta good_ArbSend split: RodCalibResult_t.splits)
  qed
  show "fw_good (disp_rod_limit mods w)" "fw_good (disp_volt_over mods w)" "fw_good (disp_volt_under mods w)" "fw_good (disp_recovery mods w)"
    unfolding disp_rod_limit_def disp_volt_over_def disp_volt_under_def disp_recovery_def Let_def
    by (intro s; simp add: save_prev_def Dev_Param_RodSaveRequest_def)+
  show "fw_good (disp_volt_normal mods w)" "fw_good (disp_polarity mods w)"
    using g by (simp_all add: disp_volt_normal_def disp_polarity_def Let_def recover_good)
qed

lemma dispatch_good: "fw_good w \<Longrightarrow> fw_good (Sys_State_Dispatch mods bits w)"
  by (rule Dispatch_induct [where P = fw_good]) (simp_all add: disp_good send_good)

lemma sm_thread_good: "fw_good w \<Longrightarrow> sys_sm_thread_step mods w = Some w' \<Longrightarrow> fw_good w'"
  by (auto simp: sys_sm_thread_step_def split: option.splits intro!: dispatch_good intro: fw_good_frame)

lemma update_all_good:
  "fw_good w \<Longrightarrow> fw_good (snd (Dev_Registry_UpdateAll tick mods w))"
proof -
  have "fw_good v \<Longrightarrow> set ms \<subseteq> set mods \<Longrightarrow> fw_good (snd (Dev_Registry_UpdateAll tick ms v))" for ms v
    by (induction tick ms v rule: Dev_Registry_UpdateAll.induct) (auto simp: task_good Let_def case_prod_beta split: option.split)
  then show "fw_good w \<Longrightarrow> fw_good (snd (Dev_Registry_UpdateAll tick mods w))" by simp
qed

end

text \<open>The modules of the firmware: only the time of the last run of a module changes after registration.\<close>

definition registered :: "sys_world SysModule_t list \<Rightarrow> bool" where
  "registered mods \<longleftrightarrow> (\<exists>mi ok. map (\<lambda>m. (mod_init m, mod_task m)) mods = map (\<lambda>m. (mod_init m, mod_task m)) (reg_table mi ok))"

lemma arb_reinit_ok:
  assumes "arb_ok m"
  shows "arb_ok (Arb_Module_Init mi ok m)" "arb_ok (Dev_MotorGpio_Init cfg m)"
proof -
  have inv: "mod_inv (Arb_Module_Init mi ok m)" using assms by (simp add: arb_ok_def Arb_Module_Init_inv)
  have fr: "mutex_take (arb_reset_axes is x) = mutex_take x" "s_arb_mq (arb_reset_axes is x) = s_arb_mq x"
    "s_arb_output_ops (arb_reset_axes is x) = s_arb_output_ops x" for "is" and x :: "gpio_motor arb_mod"
    by (induction "is" x rule: arb_reset_axes.induct) (simp_all add: set_arb_def)
  obtain q where q: "s_arb_mq m = Some q" using assms by (auto simp: arb_ok_def)
  then show "arb_ok (Arb_Module_Init mi ok m)" using assms inv by (simp add: arb_ok_def Arb_Module_Init_def fr)
  have "mod_inv (Dev_MotorGpio_Init cfg m)"
    using assms gpio_init_ok(1) [of m cfg] by (cases "mg_inited (hw m) = 0") (simp_all add: arb_ok_def Dev_MotorGpio_Init_def)
  then show "arb_ok (Dev_MotorGpio_Init cfg m)"
    using assms gpio_init_ok(2-4) [of m cfg] q
    by (cases "mg_inited (hw m) = 0") (auto simp: arb_ok_def, auto simp: Dev_MotorGpio_Init_def)
qed

lemma reg_devs:
  assumes "m \<in> set (reg_table mi ok)" "devs w" "mod_init m = Some f"
  shows "devs (f w)"
proof -
  have "hall_inv (MotorHall_Init t (hm w))" for t using assms(2) by (intro hall_init_inv) (auto simp: devs_def hall_inv_def)
  then have d: "devs (w\<lparr>hm := MotorHall_Init (now w) (hm w)\<rparr>)" "devs (upd_cur g w)" "devs (w\<lparr>bv := b\<rparr>)" "devs (w\<lparr>pol := p\<rparr>)" "devs (Monitor_Init w)"
    "devs (w\<lparr>sys_arb := Arb_Module_Init mi ok (sys_arb w)\<rparr>)" "devs (w\<lparr>sys_arb := Dev_MotorGpio_Init cfg (sys_arb w)\<rparr>)" for g b p cfg
    using assms(2) by (simp_all add: devs_def upd_cur_def arb_ok_hw arb_reinit_ok Monitor_Init_def)
  have "\<forall>m \<in> set (reg_table mi ok). \<forall>f. mod_init m = Some f \<longrightarrow> devs (f w)"
    unfolding reg_table_def SYS_MODULE_REGISTER_def SYS_MODULE_REGISTER_THREAD_def using d assms(2) by simp
  then show ?thesis using assms(1,3) by blast
qed

lemma reg_good: "m \<in> set (reg_table mi ok) \<Longrightarrow> mod_task m = Some f \<Longrightarrow> fw_good w \<Longrightarrow> fw_good (f w)"
  by (auto simp: reg_table_def SYS_MODULE_REGISTER_def SYS_MODULE_REGISTER_THREAD_def Monitor_Task_def Let_def)

lemma registered_devices:
  assumes "registered mods"
  shows "registry_devices mods"
proof -
  obtain mi ok where eq: "map (\<lambda>m. (mod_init m, mod_task m)) mods = map (\<lambda>m. (mod_init m, mod_task m)) (reg_table mi ok)"
    using assms by (auto simp: registered_def)
  have ex: "\<exists>n \<in> set (reg_table mi ok). mod_init n = mod_init m \<and> mod_task n = mod_task m" if "m \<in> set mods" for m
  proof -
    have "(mod_init m, mod_task m) \<in> set (map (\<lambda>m. (mod_init m, mod_task m)) (reg_table mi ok))" using that by (simp flip: eq)
    then show ?thesis by auto
  qed
  show ?thesis
  proof unfold_locales
    show "core (f w) = core w" if "m \<in> set mods" "mod_init m = Some f" for m f w
      using ex [OF that(1)] that(2) reg.init_core by metis
    show "devs (f w)" if "m \<in> set mods" "mod_init m = Some f" "devs w" for m f w
      using ex [OF that(1)] that(2,3) reg_devs by metis
    show "fw_good (f w)" if "m \<in> set mods" "mod_task m = Some f" "fw_good w" for m f w
      using ex [OF that(1)] that(2,3) reg_good by metis
  qed
qed

interpretation regd: registry_devices "reg_table mi ok"
  by (rule registered_devices) (auto simp: registered_def)

section \<open>Every step keeps the invariant\<close>

lemma good_events: "fw_good w \<Longrightarrow> fw_good (fold Sys_Event_Send es w)" "fw_good w \<Longrightarrow> fw_good (fold Act_Event_Send es w)"
  by (induction es arbitrary: w) (simp_all add: Sys_Event_Send_def Act_Event_Send_def split: option.split)

lemma good_hall: "fw_good w \<Longrightarrow> hall_inv h \<Longrightarrow> fw_good (w\<lparr>hm := h\<rparr>)"
  by (simp add: fw_good_def)

lemma good_rod_output: "fw_good w \<Longrightarrow> fw_good (rod_output ev w)"
  by (cases ev) (auto simp: rod_output_def Act_Event_Send_def intro: fw_good_command)

lemma good_actuator_axis: "fw_good w \<Longrightarrow> fw_good (actuator_axis tick i w)"
proof -
  assume g: "fw_good w"
  have o: "fw_good v \<Longrightarrow> fw_good (fold rod_output outs v)" for outs v
    by (induction outs arbitrary: v) (simp_all add: good_rod_output)
  have "hall_inv (snd (MotorHall_GetDeltaPulses i (hm w)))" using g by (intro hall_query_inv) (simp add: fw_good_def)
  then show ?thesis
    using g by (auto simp: actuator_axis_def Let_def case_prod_beta intro!: o) (simp add: fw_good_def)
qed

lemma good_tick: "fw_good w \<Longrightarrow> fw_good (Actuator_Tick tick w)"
proof -
  assume g: "fw_good w"
  have "hall_inv (fst (MotorHall_Task (now w) (hm w, us w)))" using g by (intro hall_task_inv) (simp add: fw_good_def)
  then have "fw_good (w\<lparr>hm := fst (MotorHall_Task (now w) (hm w, us w)), us := snd (MotorHall_Task (now w) (hm w, us w))\<rparr>)"
    using g by (simp add: good_hall)
  moreover have "fw_good v \<Longrightarrow> fw_good (fold (actuator_axis tick) is v)" for "is" v
    by (induction "is" arbitrary: v) (simp_all add: good_actuator_axis)
  ultimately show ?thesis by (simp add: Actuator_Tick_def case_prod_beta)
qed

lemma good_poll: "fw_good w \<Longrightarrow> fw_good (fst (Dev_Param_RodPollSave H (w, p)))"
  by (simp add: Dev_Param_RodPollSave_def Let_def)

lemma good_di: "fw_good w \<Longrightarrow> fw_good (di_thread_entry pin w)"
proof -
  assume g: "fw_good w"
  have c: "fw_good (w\<lparr>pol := x, sys_arb := snd (Arb_SendCommand a d p c u b t (sys_arb w))\<rparr>)" for x a d p c u b t by (rule fw_good_command [OF g]) simp_all
  have "fw_good (w\<lparr>pol := x, sys_arb := snd (fst (Polarity_Scan uv pin t (pol w, sys_arb w)))\<rparr>)" for x uv t
    using g c by (auto simp: Polarity_Scan_def Let_def Polarity_SendArb_def case_prod_beta split: PolarityState_t.split)
  then show ?thesis by (simp add: di_thread_entry_def case_prod_beta good_events)
qed

lemma good_output: "fw_good w \<Longrightarrow> gpio_dir (hw (sys_arb w)) = DIR_NONE \<longrightarrow> gpio_dir h = DIR_NONE \<Longrightarrow> fw_good (w\<lparr>sys_arb := (sys_arb w)\<lparr>hw := h\<rparr>\<rparr>)"
  by (auto simp: fw_good_def arb_ok_hw braked_def axes_off_def msg_pending_def)

lemma good_power: "fw_good w \<Longrightarrow> fw_good (power_isr w)"
proof -
  assume g: "fw_good w"
  have "fw_good (upd_cur c v)" if "fw_good v" for c v
    unfolding upd_cur_def by (rule good_output [OF that]) (simp add: gpio_dir_def)
  then show ?thesis using g by (simp add: power_isr_def case_prod_beta good_events)
qed

lemma good_dirseq: "fw_good w \<Longrightarrow> fw_good (Param_ApplyDirSeq p w)"
proof -
  assume g: "fw_good w"
  have "hall_inv ((hm w)\<lparr>g_mothall_invert_dir := x\<rparr>)" for x using g by (simp add: fw_good_def hall_inv_def)
  then have "fw_good (w\<lparr>hm := (hm w)\<lparr>g_mothall_invert_dir := x\<rparr>\<rparr>)" for x using g good_hall by blast
  then have "fw_good ((w\<lparr>hm := (hm w)\<lparr>g_mothall_invert_dir := x\<rparr>\<rparr>)\<lparr>sys_arb := (sys_arb w)\<lparr>hw := Dev_MotorGpio_SetDirInvert y (hw (sys_arb w))\<rparr>\<rparr>)" for x y
    using good_output [of "w\<lparr>hm := (hm w)\<lparr>g_mothall_invert_dir := x\<rparr>\<rparr>" "Dev_MotorGpio_SetDirInvert y (hw (sys_arb w))"]
    by (simp add: gpio_dir_def Dev_MotorGpio_SetDirInvert_def)
  then show ?thesis by (simp add: Param_ApplyDirSeq_def)
qed

lemma UpdateAll_modules: "map (\<lambda>m. (mod_init m, mod_task m)) (fst (Dev_Registry_UpdateAll tick ms w)) = map (\<lambda>m. (mod_init m, mod_task m)) ms"
  by (induction tick ms w rule: Dev_Registry_UpdateAll.induct) (auto simp: Let_def case_prod_beta split: option.split)

definition fw_inv :: "fw \<Rightarrow> bool" where
  "fw_inv f \<longleftrightarrow> fw_good (fw_w f) \<and> registered (fw_mods f)"

lemma fw_round_inv:
  assumes "fw_round H name f f'" "fw_inv f"
  shows "fw_inv f'"
  using assms
proof (induction rule: fw_round.induct)
  case (rod f w p)
  have "fw_good (fst (rod_thread_entry H (fw_w f, fw_p f)))"
    using rod(2) by (simp add: fw_inv_def rod_thread_entry_def good_poll good_tick)
  with rod show ?case by (simp add: fw_inv_def)
next
  case (dev f ms w)
  have "fw_good (snd (Dev_Registry_UpdateAll (now (fw_w f)) (fw_mods f) (fw_w f)))"
    using registry_devices.update_all_good [OF registered_devices] dev(2) by (simp add: fw_inv_def)
  moreover have "registered (fst (Dev_Registry_UpdateAll (now (fw_w f)) (fw_mods f) (fw_w f)))"
    using dev(2) by (simp add: fw_inv_def registered_def UpdateAll_modules)
  ultimately show ?case using dev(1) by (simp add: fw_inv_def)
qed (auto simp: fw_inv_def good_di led_thread_entry_def)

lemma fw_event_inv:
  assumes "fw_event H f f'" "fw_inv f"
  shows "fw_inv f'"
  using assms
proof (induction rule: fw_event.induct)
  case (hall_a f)
  then show ?case using hall_a_inv [of "hm (fw_w f)" "us (fw_w f)"] by (simp add: fw_inv_def hall_a_isr_def case_prod_beta good_hall fw_good_def)
next
  case (hall_b f pa pb)
  then show ?case using hall_b_inv [of "hm (fw_w f)" pa pb "us (fw_w f)"] by (simp add: fw_inv_def hall_b_isr_def case_prod_beta good_hall fw_good_def)
next
  case (sm f w)
  then show ?case using registry_devices.sm_thread_good [OF registered_devices] by (auto simp: fw_inv_def)
next
  case (sm_woken f ev bits)
  then show ?case
    using registry_devices.dispatch_good [OF registered_devices, of "fw_mods f" "(fw_w f)\<lparr>sys_evt := Some (ev AND NOT bits)\<rparr>"]
    by (simp add: fw_inv_def)
next
  case (act f m)
  have "fw_good ((fw_w f)\<lparr>sys_arb := m\<rparr>)"
    using arb_ok_round [OF _ act(1)] act(2) by (auto simp: fw_inv_def fw_good_def braked_def)
  with act show ?case by (simp add: fw_inv_def)
next
  case (main label f w p)
  have "fw_good (fst (main_round H label (fw_w f, fw_p f)))"
    using main(2) by (simp add: fw_inv_def main_round_def Let_def Dev_Param_SaveTest_def)
  with main show ?case by (simp add: fw_inv_def)
next
  case (report threads f lines w tbl)
  then show ?case by (auto simp: fw_inv_def monitor_sample_1s_def Let_def case_prod_beta)
next
  case (shell_dir argc hall mot f w p)
  have "fw_good (fst (cmd_dir_set H argc hall mot (fw_w f, fw_p f)))"
    using shell_dir(2) by (simp add: fw_inv_def cmd_dir_set_def Let_def good_dirseq)
  with shell_dir show ?case by (simp add: fw_inv_def)
qed (auto simp: fw_inv_def good_power adc_isr_def cmd_sys_evt_def Sys_Event_Send_def split: option.split)

lemma fw_step_inv:
  assumes "fw_step H f f'" "fw_inv f"
  shows "fw_inv f'"
proof -
  have "fw_inv (fw_beat self g) = fw_inv g" for self g by (simp add: fw_inv_def fw_beat_def)
  with assms(1) show ?thesis by cases (use assms(2) fw_event_inv fw_round_inv in auto)
qed

section \<open>A cold start\<close>

text \<open>The registration of the eight modules runs their initialisations in order.\<close>

lemma register_all:
  "Dev_RegisterAll K mi ok ([], ts, w) =
     (reg_table mi ok, snd (Task_Set_Create (Some ''act'') True 2048 15 0 (k_create K ''act'') (k_started K ''act'') (now w) ts),
      Dev_Registry_InitAll (reg_table mi ok) w)"
proof -
  let ?threads = "fold (\<lambda>m ts. if mod_thread m then snd (Task_Set_Create (Some (mod_name m)) True (ucast (thread_stack m)) (mod_prio m) 0
                                           (k_create K (mod_name m)) (k_started K (mod_name m)) (now w) ts) else ts)"
  have "fold (\<lambda>m s. snd (Dev_Registry_Add K (now w) (Some m) s)) ms (ns, ts, v) = (ns @ ms, ?threads ms ts, Dev_Registry_InitAll ms v)"
    if "distinct (map mod_name (ns @ ms))" "length (ns @ ms) \<le> 16" for ns ms ts and v :: sys_world
    using that
  proof (induction ms arbitrary: ns ts v)
    case (Cons m ms)
    then show ?case by (auto simp: Dev_Registry_Add_def)
  qed simp
  moreover have "distinct (map mod_name (reg_table mi ok))" "length (reg_table mi ok) \<le> 16"
    by (simp_all add: reg_table_def SYS_MODULE_REGISTER_def SYS_MODULE_REGISTER_THREAD_def quoted_def)
  moreover have "?threads (reg_table mi ok) ts = snd (Task_Set_Create (Some ''act'') True 2048 15 0 (k_create K ''act'') (k_started K ''act'') (now w) ts)"
    by (simp add: reg_table_def SYS_MODULE_REGISTER_def SYS_MODULE_REGISTER_THREAD_def)
  ultimately show ?thesis by (simp add: Dev_RegisterAll_def)
qed

lemma boot_arb:
  assumes "mg_inited g = 0"
  shows "arb_ok (Dev_MotorGpio_Init cfg (Arb_Module_Init (\<lambda>_. RT_EOK) True (arb_boot (\<lambda>_. RT_EOK) g)))"
    "get_arb i (Dev_MotorGpio_Init cfg (Arb_Module_Init (\<lambda>_. RT_EOK) True (arb_boot (\<lambda>_. RT_EOK) g))) = zero_arb\<lparr>enable := 1\<rparr> \<or> 2 \<le> i"
proof -
  define m where "m = Arb_Module_Init (\<lambda>_. RT_EOK) True (arb_boot (\<lambda>_. RT_EOK) g)"
  have inv: "mod_inv m" unfolding m_def by (intro Arb_Module_Init_inv arb_reach_inv arb_reach.boot)
  have m: "mg_inited (hw m) = 0" "s_arb_mq m = Some (rt_mq_create ARB_MQ_DEPTH)" "mutex_take m = (\<lambda>_. RT_EOK)"
    using assms by (simp_all add: m_def Arb_Module_Init_def arb_boot_def Let_def upt_rec)
  show "arb_ok (Dev_MotorGpio_Init cfg m)"
    unfolding arb_ok_def using gpio_init_ok [OF inv m(1), of cfg] m(2,3) by (simp add: rt_mq_create_def) blast
  show "get_arb i (Dev_MotorGpio_Init cfg m) = zero_arb\<lparr>enable := 1\<rparr> \<or> 2 \<le> i"
    using gpio_init_ok(5) [OF inv m(1), of cfg]
    by (auto simp: get_arb_def m_def Arb_Module_Init_def arb_boot_def Let_def upt_rec less_2_cases_iff not_le)
qed

lemma init_all_fields:
  "axis (Dev_Registry_InitAll (reg_table mi ok) w) = axis w" "hm (Dev_Registry_InitAll (reg_table mi ok) w) = MotorHall_Init (now w) (hm w)"
  "adc (Dev_Registry_InitAll (reg_table mi ok) w) = Dev_Adc_Init (adc w)" "now (Dev_Registry_InitAll (reg_table mi ok) w) = now w"
  "s_hw_started (Dev_Registry_InitAll (reg_table mi ok) w) = s_hw_started w" "sys_evt (Dev_Registry_InitAll (reg_table mi ok) w) = sys_evt w"
  "g_volt_cfg (Dev_Registry_InitAll (reg_table mi ok) w) = g_volt_cfg w" "g_cur_cfg (Dev_Registry_InitAll (reg_table mi ok) w) = g_cur_cfg w"
  by (simp_all add: reg_table_def SYS_MODULE_REGISTER_def SYS_MODULE_REGISTER_THREAD_def Monitor_Init_def upd_cur_def)

text \<open>The parameters are loaded before the modules exist and leave the memory cold.\<close>

lemma param_init_cold:
  assumes "cold w"
  shows "cold (fst (snd (Dev_Param_Init H (w, p))))"
proof -
  have "cold (Param_ApplyToDevices q w)" for q
    using assms by (auto simp: cold_def Param_ApplyToDevices_def Param_ApplyDirSeq_def Let_def arb_boot_def Dev_MotorGpio_SetDirInvert_def)
  then show ?thesis using assms by (simp add: Dev_Param_Init_def Let_def case_prod_beta)
qed

lemma param_init_keeps:
  "adc (fst (snd (Dev_Param_Init H (w, p)))) = adc w" "s_hw_started (fst (snd (Dev_Param_Init H (w, p)))) = s_hw_started w"
  by (simp_all add: Dev_Param_Init_def Let_def case_prod_beta Param_ApplyToDevices_def Param_ApplyDirSeq_def)

lemma pins_after_init:
  "gpio_dir (hw (Dev_MotorGpio_Init cfg m)) = (if mg_inited (hw m) = 0 then DIR_NONE else gpio_dir (hw m))"
  "mg_inited (hw (Dev_MotorGpio_Init cfg m)) \<noteq> 0"
  by (simp_all add: Dev_MotorGpio_Init_def Arb_BindOutputOps_def s_gpio_out_ops_def output_ops_def gpio_dir_def)

lemma arb_init_hw [simp]: "hw (Arb_Module_Init mi ok m) = hw m"
proof -
  have "hw (arb_reset_axes is x) = hw x" for "is" and x :: "'a arb_mod"
    by (induction "is" x rule: arb_reset_axes.induct) (simp_all add: set_arb_def)
  moreover have "hw (snd (arb_init_axes mi is x)) = hw x" for "is" and x :: "'a arb_mod"
    by (induction mi "is" x rule: arb_init_axes.induct) (simp_all add: Let_def)
  ultimately show ?thesis by (simp add: Arb_Module_Init_def Let_def case_prod_beta split: option.split)
qed

text \<open>The pins of an initialised driver stay when the modules are initialised again.\<close>

lemma init_all_pins:
  "gpio_dir (hw (sys_arb (Dev_Registry_InitAll (reg_table mi ok) w))) = (if mg_inited (hw (sys_arb w)) = 0 then DIR_NONE else gpio_dir (hw (sys_arb w)))"
  "mg_inited (hw (sys_arb (Dev_Registry_InitAll (reg_table mi ok) w))) \<noteq> 0"
  unfolding init_all_reg pins_after_init(1) by (simp_all add: gpio_dir_def pins_after_init(2))

lemma cold_start:
  assumes c: "cold w" and E: "be_mutex_init E = (\<lambda>_. RT_EOK)" "be_mq_created E" and s: "main_start E (w, p) = Some f"
  shows "fw_inv f" "fw_mods f = reg_table (\<lambda>_. RT_EOK) True" "jt_ok (fw_w f)" "cur_state (sys_sm (fw_w f)) = SYS_STATE_INIT"
    "sys_evt (fw_w f) = Some 0x81" "fault_bits (fw_w f) = 0" "s_hw_started (fw_w f) = 0" "g_adc_ops (adc (fw_w f)) = Some hc32_adc_ops"
    "gpio_dir (hw (sys_arb (fw_w f))) = DIR_NONE" "mg_inited (hw (sys_arb (fw_w f))) \<noteq> 0"
proof -
  let ?mods = "reg_table (\<lambda>_. RT_EOK) True"
  let ?w1 = "w\<lparr>us := UsTimer_Start (UsTimer_Init (UsTimer_Bind (Some (hc_us_timer_ops (be_pclk0 E))) (us w))),
                 adc := Dev_Adc_Bind (Some hc32_adc_ops) (adc w)\<rparr>"
  define w2 where "w2 = fst (snd (Dev_Param_Init (be_flash E) (?w1, p)))"
  define p1 where "p1 = snd (snd (Dev_Param_Init (be_flash E) (?w1, p)))"
  define w3 where "w3 = Dev_Registry_InitAll ?mods w2"
  have "cold ?w1" using c by (simp add: cold_def Dev_Adc_Bind_def)
  then have c2: "cold w2" unfolding w2_def by (rule param_init_cold)
  then obtain g where g: "sys_arb w2 = arb_boot (\<lambda>_. RT_EOK) g" "mg_inited g = 0" by (auto simp: cold_def)
  have arb3: "arb_ok (sys_arb w3)"
    unfolding w3_def init_all_reg g using boot_arb(1) [of "g\<lparr>mg_cur := CurrentSensor_Init (mg_cur g)\<rparr>" "g_cur_cfg w2"] g(2)
    by (simp add: arb_boot_def)
  have hall3: "hall_inv (hm w3)" unfolding w3_def init_all_fields using c2 by (intro hall_init_inv) (auto simp: cold_def)
  have f: "\<exists>w4 p2. App_Model_Init (be_sys_created E) (be_act_created E) (w3, p1) = Some (w4, p2) \<and> fw_w f = w4\<lparr>led_pin := False\<rparr> \<and> fw_mods f = ?mods"
    using s E by (auto simp: main_start_def Let_def case_prod_beta register_all Led_Task_Start_def w2_def p1_def w3_def split: option.splits)
  then obtain w4 p2 where w4: "App_Model_Init (be_sys_created E) (be_act_created E) (w3, p1) = Some (w4, p2)" and f: "fw_w f = w4\<lparr>led_pin := False\<rparr>" "fw_mods f = ?mods"
    by blast
  have a: "sys_arb w4 = sys_arb w3 \<and> hm w4 = hm w3 \<and> length (axis w4) = 2 \<and> sm_inv (sys_sm w4) \<and> cur_state (sys_sm w4) = SYS_STATE_INIT \<and>
      sys_evt w4 = Some 0x81 \<and> fault_bits w4 = 0 \<and> s_hw_started w4 = s_hw_started w3 \<and> adc w4 = adc w3"
    using w4 by (auto simp: App_Model_Init_def Let_def case_prod_beta Sys_Event_Send_def rt_event_send_def Sys_State_Init_def StateMachine_Init_def
        sys_ptr_def sm_inv_def split: if_splits option.splits)
  show "fw_inv f" using a arb3 hall3 f by (simp add: fw_inv_def fw_good_def registered_def) blast
  show "fw_mods f = ?mods" "jt_ok (fw_w f)" "cur_state (sys_sm (fw_w f)) = SYS_STATE_INIT" "sys_evt (fw_w f) = Some 0x81" "fault_bits (fw_w f) = 0"
    using a f by (simp_all add: jt_ok_def sm_inv_def)
  show "gpio_dir (hw (sys_arb (fw_w f))) = DIR_NONE" "mg_inited (hw (sys_arb (fw_w f))) \<noteq> 0"
    using a f g by (simp_all add: w3_def init_all_pins arb_boot_def)
  show "s_hw_started (fw_w f) = 0" using a f c2 by (simp add: w3_def init_all_fields cold_def)
  show "g_adc_ops (adc (fw_w f)) = Some hc32_adc_ops"
    using a f by (simp add: w3_def init_all_fields w2_def param_init_keeps Dev_Adc_Bind_def Dev_Adc_Init_def split: option.split)
qed

lemma fw_reach_inv: "fw_reach H f \<Longrightarrow> fw_inv f"
  by (induction rule: fw_reach.induct) (auto intro: cold_start(1) fw_step_inv)

section \<open>Properties of the whole firmware\<close>


text \<open>The first wake-up of the system thread.\<close>

lemma first_wakeup:
  assumes j: "jt_ok w" and s: "cur_state (sys_sm w) = SYS_STATE_INIT" and e: "sys_evt w = Some 0x81"
  shows "sys_sm_thread_step (reg_table mi ok) w = Some (sys_enter_run (moved SYS_STATE_RUN (reg.idled mi ok (w\<lparr>sys_evt := Some 0\<rparr>))))"
proof -
  let ?mods = "reg_table mi ok" and ?w = "w\<lparr>sys_evt := Some 0\<rparr>"
  have "Sys_Send ?mods EVT_SYS_INIT_DONE ?w = reg.idled mi ok ?w"
    using j s by (simp add: jt_ok_def reg.Sys_Send_unfold reg.idled_def) (simp add: sys_jump_def jump_row_def)
  moreover have "Sys_Send ?mods EVT_SYS_CMD_WORK_ENABLE (reg.idled mi ok ?w) = sys_enter_run (moved SYS_STATE_RUN (reg.idled mi ok ?w))"
    using j by (intro reg.idle_work_enable) (simp_all add: jt_ok_def reg.idled_core)
  moreover have "rt_event_recv_or_clear 0x81 SYS_SM_WAIT_EVENTS = Some (0x81, 0)"
    by (simp add: rt_event_recv_or_clear_def SYS_SM_WAIT_EVENTS_def)
  ultimately show ?thesis
    using e by (simp add: sys_sm_thread_step_def Sys_State_Dispatch_def when_bit_def Let_def)
qed

lemma adc_started:
  assumes "g_adc_ops d = Some hc32_adc_ops"
  shows "adc_trigger_running (adc_hw (Dev_Adc_Start (Dev_Adc_Init d)))"
proof -
  obtain chs where chs: "hc32_adc_chs s_astcChTable = Some chs" "length s_astcChTable = 2" by (simp add: s_astcChTable_def s_hc32_adc_ch_map_def)
  then have "s_bInitialized (snd (hc32_adc_init (Some s_astcChTable) (length s_astcChTable) h))" for h
    by (simp add: hc32_adc_init_def AdcDrv_Init_def)
  then show ?thesis
    using assms by (simp add: Dev_Adc_Start_def Dev_Adc_Init_def adc_op_def hc32_adc_ops_def AdcDrv_Start_def)
qed

lemma main_start_total:
  assumes "be_sys_created E" "\<forall>i < MAX_AXIS_NUM. be_act_created E i"
  shows "\<exists>f. main_start E (w, p) = Some f"
  using assms by (auto simp: main_start_def App_Model_Init_def Let_def case_prod_beta)

lemma start_runs:
  assumes "cold w" and "be_mutex_init E = (\<lambda>_. RT_EOK)" "be_mq_created E" "be_sys_created E" "\<forall>i < MAX_AXIS_NUM. be_act_created E i"
  shows "\<exists>f w'. main_start E (w, p) = Some f \<and> sys_sm_thread_step (fw_mods f) (fw_w f) = Some w' \<and>
     fw_mods f = reg_table (\<lambda>_. RT_EOK) True \<and> sys_evt w' = Some 0 \<and>
     cur_state (sys_sm w') = SYS_STATE_RUN \<and> fault_bits w' = 0 \<and>
     get_arb 0 (sys_arb w') = zero_arb\<lparr>enable := 1\<rparr> \<and> get_arb 1 (sys_arb w') = zero_arb\<lparr>enable := 1\<rparr> \<and>
     gpio_dir (hw (sys_arb w')) = DIR_NONE \<and> isr_1ms_on w' \<and> adc_trigger_running (adc_hw (adc w'))"
proof -
  obtain f where f: "main_start E (w, p) = Some f" using main_start_total assms(4,5) by blast
  note c = cold_start [OF assms(1-3) f]
  let ?w0 = "(fw_w f)\<lparr>sys_evt := Some 0\<rparr>"
  let ?v = "reg.idled (\<lambda>_. RT_EOK) True ?w0"
  let ?w' = "sys_enter_run (moved SYS_STATE_RUN ?v)"
  have step: "sys_sm_thread_step (fw_mods f) (fw_w f) = Some ?w'" unfolding c(2) by (rule first_wakeup [OF c(3,4,5)])
  have cr: "core ?w' = core (moved SYS_STATE_RUN ?v)" by (simp add: sys_simps)
  have ok: "arb_ok (sys_arb ?w0)" using c(1) by (simp add: fw_inv_def fw_good_def)
  have p: "previous_state (sys_sm (moved SYS_STATE_RUN ?v)) \<noteq> SYS_STATE_FAULT" by (simp add: moved_def reg.idled_core)
  have a: "sys_arb ?w' = sys_arb ?v" using enter_run_devices [OF p] by (simp add: moved_def)
  have arb: "get_arb i (sys_arb ?v) = zero_arb\<lparr>enable := 1\<rparr>" if "i < 2" for i
    using ok that unfolding idled_devices by (intro reinit_axes) (auto simp: arb_ok_def mod_inv_def)
  have idle: "?v = (let u = Dev_Registry_InitAll (reg_table (\<lambda>_. RT_EOK) True) (sys_state_log_enter (moved SYS_STATE_IDLE ?w0))
      in u\<lparr>isr_1ms_on := True, adc := Dev_Adc_Start (adc u), s_hw_started := 1\<rparr>)"
    using c(7) by (simp add: reg.idled_def sys_enter_idle_def Let_def HcDrv_Timer_Start1ms_def init_all_fields sys_state_log_enter_def moved_def)
  have pins: "gpio_dir (hw (sys_arb ?v)) = DIR_NONE"
    unfolding idle Let_def using c(9,10) by (simp add: init_all_pins sys_state_log_enter_def moved_def)
  have dev: "isr_1ms_on ?v" "adc_trigger_running (adc_hw (adc ?v))"
    unfolding idle Let_def using adc_started [OF c(8)] by (simp_all add: init_all_fields sys_state_log_enter_def moved_def)
  have run: "isr_1ms_on ?w' = isr_1ms_on ?v" "adc ?w' = adc ?v"
    using p by (simp_all add: sys_enter_run_def Let_def sys_state_log_enter_def moved_def)
  have "cur_state (sys_sm ?w') = SYS_STATE_RUN" "fault_bits ?w' = 0"
    using core_fields(1,3) [OF cr] c(6) by (simp_all add: moved_def reg.idled_core)
  moreover have "sys_evt ?w' = Some 0"
    unfolding sys_enter_run_def Let_def using p by (simp add: sys_state_log_enter_def moved_def idle Let_def init_all_fields)
  ultimately show ?thesis using f step c(2) a arb [of 0] arb [of 1] pins dev run by auto
qed


definition demo_pins :: gpio_motor where
  "demo_pins = \<lparr>pin_fwd = False, pin_rev = False, mg_inited = 0, s_dir_invert = 0, s_prev_out_dir = 0,
     mg_cur = \<lparr>s_u16BlockMs = 0, s_fCurrMa = 0, cs_status = 0, s_u16OverMs = 0, s_fFaultMa = 0\<rparr>\<rparr>"

definition demo_cold :: sys_world where
  "demo_cold = (demo_sys SYS_STATE_INIT)\<lparr>sys_evt := None, s_hw_started := 0, isr_1ms_on := False,
     adc := (adc (demo_sys SYS_STATE_INIT))\<lparr>adc_hw := (adc_hw (adc (demo_sys SYS_STATE_INIT)))\<lparr>s_bInitialized := False\<rparr>\<rparr>,
     sys_arb := arb_boot (\<lambda>_. RT_EOK) demo_pins,
     hm := (hm (demo_sys SYS_STATE_INIT))\<lparr>hall_b_last := [0xFF, 0xFF], last_check_time := [0, 0], s_isr_a := None, s_isr_b := None, s_hw_ready := 0\<rparr>\<rparr>"

lemma demo_cold: "cold demo_cold"
  unfolding cold_def by (intro conjI exI [of _ demo_pins]) (simp_all add: demo_cold_def demo_sys_def demo_pins_def)

definition demo_env :: boot_env where
  "demo_env = \<lparr>be_flash = nor_hw [], be_pclk0 = 100000000, be_mutex_init = (\<lambda>_. RT_EOK), be_mq_created = True, be_sys_created = True,
     be_act_created = (\<lambda>_. True),
     be_kernel = \<lparr>k_create = (\<lambda>nm. Some (if nm = ''act'' then 1 else if nm = ''canary'' then 2 else if nm = ''dev'' then 3
       else if nm = ''led'' then 4 else if nm = ''di'' then 5 else 6)), k_startup = (\<lambda>_. RT_EOK)\<rparr>\<rparr>"


text \<open>A reachable state in FAULT: start-up, the first round of the system thread, an over-voltage event, its dispatch.\<close>

lemma demo_fault_reach: "\<exists>f. fw_reach (nor_hw []) f \<and> cur_state (sys_sm (fw_w f)) = SYS_STATE_FAULT"
proof -
  let ?mods = "reg_table (\<lambda>_. RT_EOK) True"
  obtain f w' where f: "main_start demo_env (demo_cold, demo_dev) = Some f" "sys_sm_thread_step (fw_mods f) (fw_w f) = Some w'"
    "fw_mods f = ?mods" "sys_evt w' = Some 0" "cur_state (sys_sm w') = SYS_STATE_RUN"
    using start_runs [OF demo_cold, of demo_env demo_dev] by (auto simp: demo_env_def)
  have E: "be_mutex_init demo_env = (\<lambda>_. RT_EOK)" "be_mq_created demo_env" "be_flash demo_env = nor_hw []" by (simp_all add: demo_env_def)
  let ?f1 = "f\<lparr>fw_w := w'\<rparr>" and ?w2 = "cmd_sys_evt 2 EVT_SYS_VOLT_OVER w'"
  have r1: "fw_reach (nor_hw []) ?f1"
    by (rule fw_reach.step [OF fw_reach.start [OF demo_cold E(3,1,2) f(1)] fw_step.event [OF fw_event.sm [OF f(2)]]])
  have r2: "fw_reach (nor_hw []) (f\<lparr>fw_w := ?w2\<rparr>)"
    using fw_reach.step [OF r1 fw_step.event [OF fw_event.shell_evt [of _ ?f1 2 EVT_SYS_VOLT_OVER]]] by simp
  have g: "fw_good w'" using fw_reach_inv [OF r1] by (simp add: fw_inv_def)
  have w2: "?w2 = w'\<lparr>sys_evt := Some EVT_SYS_VOLT_OVER\<rparr>" using f(4) by (simp add: cmd_sys_evt_def Sys_Event_Send_def rt_event_send_def)
  have "rt_event_recv_or_clear EVT_SYS_VOLT_OVER SYS_SM_WAIT_EVENTS = Some (EVT_SYS_VOLT_OVER, 0)"
    by (simp add: rt_event_recv_or_clear_def SYS_SM_WAIT_EVENTS_def)
  then have st: "sys_sm_thread_step ?mods ?w2 = Some (Sys_State_Dispatch ?mods EVT_SYS_VOLT_OVER (w'\<lparr>sys_evt := Some 0\<rparr>))"
    by (simp add: sys_sm_thread_step_def w2)
  have "stoppable (w'\<lparr>sys_evt := Some 0\<rparr>)" using g f(5) fw_good_jt [OF g] by (simp add: stoppable_def jt_ok_def fw_good_def)
  then have "halted (Sys_State_Dispatch ?mods EVT_SYS_VOLT_OVER (w'\<lparr>sys_evt := Some 0\<rparr>))"
    by (rule reg.fault_dispatch_halts) simp_all
  moreover have "fw_step (nor_hw []) (f\<lparr>fw_w := ?w2\<rparr>) (f\<lparr>fw_w := Sys_State_Dispatch ?mods EVT_SYS_VOLT_OVER (w'\<lparr>sys_evt := Some 0\<rparr>)\<rparr>)"
    using fw_step.event [OF fw_event.sm [of "f\<lparr>fw_w := ?w2\<rparr>"]] st f(3) by simp
  ultimately show ?thesis using fw_reach.step [OF r2] by (fastforce simp: halted_def)
qed


end
