(* ===== verification/Firmware_Flows.thy ===== *)
theory Firmware_Flows
  imports Firmware_Laws
begin

text \<open>
  Flows through several components: configuration values from the supervision through the flash
  to the next start, the rod position from the under-voltage event through the rod task and the
  flash to the next start, and the soft limit from the over-current event through the dispatcher,
  the rod task and the arbitration thread to the motor pins.
\<close>

section \<open>The configuration across a restart\<close>

lemma slow_idx [simp]: "qi s_param_config = 1" "ei s_param_config = 2" "ci s_param_config = 19" "paramWords s_param_config = 21"
  by (simp_all add: qi_def ei_def ci_def paramWords_def s_param_config_def)

lemma rec_words_length [simp]: "length (rec_words r) = 21"
  by (simp add: rec_words_def)

lemma slow_engine: "flash_part H {} \<Longrightarrow> param_engine H s_param_config"
  by (intro param_engine.intro slow_rec.record_layout_axioms)

text \<open>The words of the record that a save may change are the counters and the checksum.\<close>

lemma words_rec_fields:
  assumes "\<And>i. i \<notin> {1, 2, 19} \<Longrightarrow> ws ! i = rec_words r ! i"
  shows "volt_over_th (words_rec ws) = volt_over_th r" "volt_under_th (words_rec ws) = volt_under_th r" "volt_hyst (words_rec ws) = volt_hyst r"
    "volt_recover_ms (words_rec ws) = volt_recover_ms r" "cur_over_th_ma (words_rec ws) = cur_over_th_ma r"
    "cur_window_ms (words_rec ws) = cur_window_ms r" "cur_block_ms (words_rec ws) = cur_block_ms r"
    "hall_dir_seq (words_rec ws) = hall_dir_seq r" "motor_dir_seq (words_rec ws) = motor_dir_seq r"
  using assms [of 3] assms [of 4] assms [of 5] assms [of 6] assms [of 7] assms [of 8] assms [of 9]
  by (simp_all add: words_rec_def) (simp_all add: rec_words_def pair16_low pair16_high quad_fields del: drop_bit_or)

text \<open>
  C8. The configuration survives: on a documented part with a well-formed block A and a resting
  motor, saving succeeds, and the next start loads exactly the voltage and current limits that were in
  force at the save into the supervision, together with the two direction settings.
\<close>

theorem configuration_survives:
  assumes H: "flash_part H {}" and i: "slow_rec.intact (slow_view p) ws" "unat (ws ! 1) + 2 < 2 ^ 32" and rdy: "s_param_inited p \<noteq> 0" "\<not> Param_IsMotorRunning w"
    and p0: "s_param_inited p0 = 0"
  shows "\<exists>p' w1 p1. Dev_Param_Save H (w, p) = (PARAM_OK, p') \<and>
     Dev_Param_Init H (w0, p0\<lparr>pd_flash := pd_flash p'\<rparr>) = (PARAM_OK, w1, p1) \<and>
     g_volt_cfg w1 = g_volt_cfg w \<and> g_cur_cfg w1 = g_cur_cfg w \<and>
     g_mothall_invert_dir (hm w1) = hall_dir_seq (g_param_record p) \<and>
     s_dir_invert (hw (sys_arb w1)) = (if motor_dir_seq (g_param_record p) \<noteq> 0 then 1 else 0)"
proof -
  let ?r = "sync_record w (g_param_record p)" and ?s = "slow_view (p\<lparr>g_param_record := sync_record w (g_param_record p)\<rparr>)"
  have "slow_rec.intact ?s ws"
    using i(1) by (simp add: slow_rec.intact_def slow_rec.buf_ok_def slow_view_def sync_record_def rec_words_def)
  from param_engine.save_intact [OF slow_engine [OF H] this] i(2)
  obtain s' where s': "Param_Save H s_param_config True ?s = (PARAM_OK, s')" "slow_rec.intact s' (ps_buf s')"
    "\<And>i. i \<notin> {1, 2, 19} \<Longrightarrow> ps_buf s' ! i = ps_buf ?s ! i" by auto
  let ?p' = "slow_put s' p" and ?p0 = "p0\<lparr>pd_flash := ps_flash s'\<rparr>"
  have sv: "Dev_Param_Save H (w, p) = (PARAM_OK, ?p')" using rdy s'(1) by (simp add: Dev_Param_Save_def Let_def)
  have f: "ps_flash (slow_view ?p0) = ps_flash s'" "length (ps_buf (slow_view ?p0)) = paramWords s_param_config" by (simp_all add: slow_view_def)
  from param_engine.reboot_intact [where d = Param_SetDefaults, OF slow_engine [OF H] s'(2) f]
  obtain t where t: "Param_Init H s_param_config True (Some Param_SetDefaults) (slow_view ?p0) = (PARAM_OK, t)" "ps_buf t = ps_buf s'" by metis
  have fl: "pd_flash ?p' = ps_flash s'" by (simp add: slow_put_def)
  let ?q = "slow_put t ?p0"
  have "Dev_Param_Init H (w0, ?p0) = (PARAM_OK, Param_ApplyToDevices ?q w0, (snd (Dev_Param_RodInit H ?q))\<lparr>s_param_inited := 1\<rparr>)"
    using t(1) p0 by (simp add: Dev_Param_Init_def Let_def)
  moreover have "g_param_record ?q = words_rec (ps_buf s')" by (simp add: slow_put_def t(2))
  moreover note words_rec_fields [of "ps_buf s'" ?r]
  ultimately show ?thesis
    using sv fl s'(3)
    by (auto simp: Param_ApplyToDevices_def Param_ApplyDirSeq_def Let_def Dev_MotorGpio_SetDirInvert_def slow_view_def sync_record_def)
qed

text \<open>A device with a freshly formatted block A.\<close>

definition demo_configured :: param_dev where
  "demo_configured = (slow_put (snd (Param_Init (nor_hw []) s_param_config True (Some Param_SetDefaults) (slow_view demo_dev))) demo_dev)\<lparr>s_param_inited := 1\<rparr>"

lemma slow_view_put: "length (ps_buf s) = 21 \<Longrightarrow> slow_view (slow_put s p) = s"
  using list21 [of "ps_buf s"] by (simp add: slow_view_def slow_put_def rec_words_def words_rec_def pair16_join quad_join)

lemma demo_configured_ok: "\<exists>ws. slow_rec.intact (slow_view demo_configured) ws \<and> ws ! 1 = 1"
proof -
  have "ps_flash (Param_SetDefaults s) = ps_flash s" "slow_rec.buf_ok (ps_buf (Param_SetDefaults s))" for s
    by (simp_all add: Param_SetDefaults_def slow_rec.buf_ok_def) (simp add: rec_words_def param_defaults_def s_param_config_def)
  moreover have "scan_all s_param_config (ps_flash (slow_view demo_dev)) = None"
    using blank_scan [OF slow_rec.record_layout_axioms] by (simp add: slow_view_def demo_dev_def)
  ultimately obtain s' where s': "Param_Init (nor_hw []) s_param_config True (Some Param_SetDefaults) (slow_view demo_dev) = (PARAM_OK, s')"
    "slow_rec.intact s' (ps_buf s')" "ps_buf s' ! qi s_param_config = 1"
    using slow.format_intact [where d = Param_SetDefaults] by metis
  have "length (ps_buf s') = 21" using s'(2) by (auto simp: slow_rec.intact_def slow_rec.buf_ok_def)
  then have "slow_view demo_configured = s'"
    using slow_view_put [of s' demo_dev] by (simp add: demo_configured_def s'(1)) (simp add: slow_view_def)
  then show ?thesis using s'(2,3) by auto
qed

theorem configuration_survives_witness:
  "\<exists>p' w1 p1. Dev_Param_Save (nor_hw []) (demo_cold, demo_configured) = (PARAM_OK, p') \<and>
     Dev_Param_Init (nor_hw []) (demo_sys SYS_STATE_INIT, demo_dev\<lparr>pd_flash := pd_flash p'\<rparr>) = (PARAM_OK, w1, p1) \<and>
     g_volt_cfg w1 = g_volt_cfg demo_cold"
proof -
  obtain ws where ws: "slow_rec.intact (slow_view demo_configured) ws" "ws ! 1 = 1" using demo_configured_ok by blast
  have "\<not> Param_IsMotorRunning demo_cold"
    by (simp add: Param_IsMotorRunning_def axis_running_def Arb_GetData_def Let_def demo_cold_def arb_boot_def get_arb_def zero_arb_def split: sum.split)
  moreover have "s_param_inited demo_configured \<noteq> 0" "s_param_inited demo_dev = 0" by (simp_all add: demo_configured_def demo_dev_def)
  ultimately show ?thesis
    using configuration_survives [OF nor_part ws(1), of demo_cold demo_dev "demo_sys SYS_STATE_INIT"] ws(2) by auto
qed

section \<open>The position at an under-voltage\<close>

text \<open>What a fault entry leaves alone: the save request, and the position and configuration of the axes.\<close>

definition axes_pos :: "sys_world \<Rightarrow> (AxisDir_t \<times> RodPosition_t \<times> StateMachine_t \<times> RodStateCtx_t) list" where
  "axes_pos w = map (\<lambda>ax. (ax_dir ax, position ax, sm_act ax, rod_state ax)) (axis w)"

definition request :: "sys_world \<Rightarrow> u8 \<times> u8 \<times> (AxisDir_t \<times> RodPosition_t \<times> StateMachine_t \<times> RodStateCtx_t) list" where
  "request w = (s_rod_save_pending w, s_rod_save_wait w, axes_pos w)"

lemma axis_event_pos: "ax_dir (axis_event b ax) = ax_dir ax" "position (axis_event b ax) = position ax" "sm_act (axis_event b ax) = sm_act ax"
    "rod_state (axis_event b ax) = rod_state ax"
  by (simp_all add: axis_event_def split: option.split)

lemma request_ops:
  "request (Sys_State_ArbSendCommand a d p c u b w) = request w" "request (Sys_State_SetArbEnable a e w) = request w"
  "request (sys_state_log_enter w) = request w" "request (moved t w) = request w"
  by (simp_all add: request_def axes_pos_def Sys_State_ArbSendCommand_def Sys_State_SetArbEnable_def sys_state_log_enter_def moved_def Let_def case_prod_beta)

lemma request_fault: "request (sys_enter_fault w) = request w" "request (hold_axis i w) = request w"
proof -
  have "axes_pos (w\<lparr>axis := (axis w)[unat i := axis_event b (axis w ! unat i)]\<rparr>) = axes_pos w" for b
    by (cases "unat i < length (axis w)") (simp_all add: axes_pos_def map_update axis_event_pos list_update_same_conv list_update_beyond not_less)
  then show "request (hold_axis i w) = request w" unfolding hold_axis_def request_ops by (simp add: request_def)
qed (simp add: sys_enter_fault_def fault_axis_def request_ops)

lemma under_voltage_requests:
  assumes "jt_ok w" "cur_state (sys_sm w) \<in> {SYS_STATE_IDLE, SYS_STATE_RUN}" "BusVoltage_HasSeenValid (bv w) \<noteq> 0" "s_rod_save_pending w = 0"
  shows "request (Sys_State_Dispatch (reg_table mi ok) EVT_SYS_VOLT_UNDER w) = (1, 0, axes_pos w)"
proof -
  let ?mods = "reg_table mi ok"
  let ?v = "Dev_Param_RodSaveRequest ((save_prev (w\<lparr>error_code := SYS_ERR_VOLT_UNDER\<rparr>))\<lparr>fault_bits := fault_bits w OR FB_VOLT_UNDER\<rparr>)"
  have "bv (save_prev u) = bv u" for u by (simp add: save_prev_def)
  then have d: "Sys_State_Dispatch ?mods EVT_SYS_VOLT_UNDER w = Sys_Send ?mods EVT_SYS_VOLT_UNDER ?v"
    using assms(3) by (simp add: Sys_State_Dispatch_def when_bit_def Let_def disp_volt_under_def)
  have j: "jump_table (sys_sm ?v) = sys_jump" using assms(1) by (simp add: jt_ok_def)
  have "jump_scan sys_jump (cur_state (sys_sm w)) EVT_SYS_VOLT_UNDER = SYS_STATE_EMERGENCY"
    using assms(2) by (auto simp: sys_jump_def jump_row_def)
  then have "Sys_Send ?mods EVT_SYS_VOLT_UNDER ?v = sys_enter_fault (moved SYS_STATE_FAULT (hold_all ?v))"
    using assms(2) by (auto simp: reg.Sys_Send_unfold [OF j] Let_def)
  moreover have "request (sys_enter_fault (moved SYS_STATE_FAULT (hold_all ?v))) = request ?v"
    by (simp add: request_fault request_ops hold_all_def)
  ultimately show ?thesis
    unfolding d using assms(4) by (simp add: request_def axes_pos_def Dev_Param_RodSaveRequest_def save_prev_def)
qed

lemma request_output: "request (fold rod_output outs w) = request w"
proof (induction outs arbitrary: w)
  case (Cons x outs)
  have "request (rod_output x w) = request w"
    by (cases x) (simp_all add: rod_output_def request_def axes_pos_def Act_Event_Send_def axis_event_pos comp_def)
  then show ?case using Cons by simp
qed simp

text \<open>A tick keeps the request, and a calibrated rod stays calibrated.\<close>

definition calibrated :: "sys_world \<Rightarrow> bool" where
  "calibrated w \<longleftrightarrow> length (axis w) = 2 \<and> calib_state (position (axis w ! 0)) = POSITION_CALIBRATED"

lemma request_parts:
  "request w = request v \<Longrightarrow> s_rod_save_pending w = s_rod_save_pending v" "request w = request v \<Longrightarrow> s_rod_save_wait w = s_rod_save_wait v"
  "request w = request v \<Longrightarrow> calibrated w = calibrated v"
proof -
  assume r: "request w = request v"
  then show "s_rod_save_pending w = s_rod_save_pending v" "s_rod_save_wait w = s_rod_save_wait v" by (simp_all add: request_def)
  have m: "axes_pos w = axes_pos v" using r by (simp add: request_def)
  have "length (axes_pos x) = length (axis x)" for x by (simp add: axes_pos_def)
  with m have l: "length (axis w) = length (axis v)" by metis
  have "fst (snd (axes_pos x ! 0)) = position (axis x ! 0)" if "length (axis x) = 2" for x using that by (simp add: axes_pos_def)
  with m l have "length (axis w) = 2 \<Longrightarrow> position (axis w ! 0) = position (axis v ! 0)" by metis
  then show "calibrated w = calibrated v" using l unfolding calibrated_def by metis
qed

lemma rod_axis_tick_calibrated:
  "calib_state pos = POSITION_CALIBRATED \<Longrightarrow> calib_state (fst (fst (rod_axis_tick m i delta tick (pos, sm, ctx)))) = POSITION_CALIBRATED"
  by (simp add: rod_axis_tick_def Let_def case_prod_beta RodPosition_OnMinLimit_def RodPosition_OnMaxLimit_def RodPosition_Update_def)

lemma actuator_axis_keeps:
  assumes "calibrated w" "i < 2"
  shows "calibrated (actuator_axis tick i w)" "s_rod_save_pending (actuator_axis tick i w) = s_rod_save_pending w"
    "s_rod_save_wait (actuator_axis tick i w) = s_rod_save_wait w"
proof -
  let ?ax = "axis w ! i"
  let ?d = "MotorHall_GetDeltaPulses i (hm w)"
  let ?r = "rod_axis_tick (sys_arb w) (of_nat i) (fst ?d) tick (position ?ax, sm_act ?ax, rod_state ?ax)"
  let ?v = "w\<lparr>hm := snd ?d, axis := (axis w)[i := ?ax\<lparr>position := fst (fst ?r), sm_act := fst (snd (fst ?r)), rod_state := snd (snd (fst ?r))\<rparr>]\<rparr>"
  have e: "actuator_axis tick i w = (if ax_dir ?ax = ACT_DIR_NONE then w else fold rod_output (snd ?r) ?v)"
    by (simp add: actuator_axis_def Let_def case_prod_beta)
  have "calibrated ?v" using assms rod_axis_tick_calibrated by (cases "i = 0") (auto simp: calibrated_def)
  then show "calibrated (actuator_axis tick i w)" "s_rod_save_pending (actuator_axis tick i w) = s_rod_save_pending w"
    "s_rod_save_wait (actuator_axis tick i w) = s_rod_save_wait w"
    using assms(1) request_parts [OF request_output [of "snd ?r" ?v]] by (simp_all add: e)
qed

lemma tick_keeps:
  assumes "calibrated w"
  shows "calibrated (Actuator_Tick tick w)" "s_rod_save_pending (Actuator_Tick tick w) = s_rod_save_pending w"
    "s_rod_save_wait (Actuator_Tick tick w) = s_rod_save_wait w"
proof -
  have u: "[0 ..< MAX_AXIS_NUM] = [0, 1]" by (simp add: upt_rec)
  let ?v = "w\<lparr>hm := fst (MotorHall_Task (now w) (hm w, us w)), us := snd (MotorHall_Task (now w) (hm w, us w))\<rparr>"
  have v: "calibrated ?v" using assms by (simp add: calibrated_def)
  note a = actuator_axis_keeps [OF v, of 0 tick]
  note b = actuator_axis_keeps [OF a(1), of 1 tick]
  show "calibrated (Actuator_Tick tick w)" "s_rod_save_pending (Actuator_Tick tick w) = s_rod_save_pending w"
    "s_rod_save_wait (Actuator_Tick tick w) = s_rod_save_wait w"
    using a b by (simp_all add: Actuator_Tick_def case_prod_beta u)
qed

text \<open>
  C5. The position is saved at an under-voltage: when the supply had been valid, the rod is
  calibrated and block B is in order, the under-voltage event followed by two rounds of the rod
  task (the rod may still coast between them) stores the position of the second round, and the next
  start restores exactly that position as calibrated.
\<close>

theorem under_voltage_position_saved:
  assumes H: "flash_part H {}" and p: "fast_rec.intact (fast_view p) ws" "s_rod_inited p \<noteq> 0" "s_rod_pos_ptr p"
    and q: "1 \<le> unat (ws ! 1)" "unat (ws ! 1) + 2 < 2 ^ 32"
    and w: "jump_table (sys_sm w) = sys_jump" "cur_state (sys_sm w) \<in> {SYS_STATE_IDLE, SYS_STATE_RUN}" "BusVoltage_HasSeenValid (bv w) \<noteq> 0"
      "s_rod_save_pending w = 0" "length (axis w) = 2" "calib_state (position (axis w ! 0)) = POSITION_CALIBRATED"
    and p0: "s_rod_inited p0 = 0"
  shows "let w1 = Sys_State_Dispatch (reg_table mi ok) EVT_SYS_VOLT_UNDER w;
             (w2, p2) = rod_thread_entry H (w1, p);
             (w3, p3) = rod_thread_entry H (w2\<lparr>now := t, hm := h, us := u\<rparr>, p2)
         in \<exists>y p4. Dev_Param_RodApply (Some x) (snd (Dev_Param_RodInit H (p0\<lparr>pd_flash := pd_flash p3\<rparr>))) = (Some y, p4) \<and>
              position_mm y = position_mm (position (axis w3 ! 0)) \<and> calib_state y = POSITION_CALIBRATED"
proof -
  define w1 where "w1 = Sys_State_Dispatch (reg_table mi ok) EVT_SYS_VOLT_UNDER w"
  define v1 where "v1 = Actuator_Tick (now w1) w1"
  define w2 where "w2 = v1\<lparr>s_rod_save_wait := 1\<rparr>"
  define v2 where "v2 = Actuator_Tick t (w2\<lparr>now := t, hm := h, us := u\<rparr>)"
  let ?mm = "position_mm (position (axis v2 ! 0))"
  have r1: "request w1 = (1, 0, axes_pos w)"
    unfolding w1_def by (rule under_voltage_requests) (use w in \<open>simp_all add: jt_ok_def\<close>)
  then have "request w1 = request (w\<lparr>s_rod_save_pending := 1, s_rod_save_wait := 0\<rparr>)" by (simp add: request_def axes_pos_def)
  from request_parts [OF this] have c1: "calibrated w1" "s_rod_save_pending w1 = 1" "s_rod_save_wait w1 = 0"
    using w(5,6) by (simp_all add: calibrated_def)
  note k1 = tick_keeps [OF c1(1), of "now w1"]
  have round1: "rod_thread_entry H (w1, p) = (w2, p)"
    using k1 c1 p(2) by (simp add: rod_thread_entry_def Dev_Param_RodPollSave_def Let_def v1_def w2_def)
  have c2: "calibrated (w2\<lparr>now := t, hm := h, us := u\<rparr>)" using k1(1) by (simp add: w2_def v1_def calibrated_def)
  note k2 = tick_keeps [OF c2, of t]
  obtain p3 ws' where p3: "Dev_Param_RodSave H ?mm p = (PARAM_OK, p3)" "fast_rec.intact (fast_view p3) ws'" "ws' ! 3 = ?mm"
    "unat (ws' ! 1) \<in> {unat (ws ! 1) + 1, unat (ws ! 1) + 2}"
    using rod_save_block [OF H p(1,2) q(2), of ?mm] by metis
  have v2: "calibrated v2" "s_rod_save_pending v2 = 1" "s_rod_save_wait v2 = 1"
    using k1 k2 c1 by (simp_all add: v2_def w2_def v1_def)
  have round2: "rod_thread_entry H (w2\<lparr>now := t, hm := h, us := u\<rparr>, p) = (v2\<lparr>s_rod_save_pending := 0, s_rod_save_wait := 0\<rparr>, p3)"
    using v2 p(2,3) p3(1)
    by (simp add: rod_thread_entry_def Dev_Param_RodPollSave_def Let_def v2_def calibrated_def RodPosition_IsCalibrated_def RodPosition_GetCurrent_def)
  let ?p0 = "p0\<lparr>pd_flash := pd_flash p3\<rparr>"
  obtain p4 where p4: "Dev_Param_RodInit H ?p0 = (PARAM_OK, p4)" "s_rod_record p4 = words_stroke ws'" "s_rod_inited p4 = 1" "s_rod_defaults_written p4 = 0"
    using rod_restart_block [OF H p3(2), of ?p0] p0 by auto
  have "\<exists>y p5. Dev_Param_RodApply (Some x) (snd (Dev_Param_RodInit H ?p0)) = (Some y, p5) \<and> position_mm y = ?mm \<and> calib_state y = POSITION_CALIBRATED"
    using p4 p3(3,4) q(1) by (auto simp: Dev_Param_RodApply_def Let_def words_stroke_def RodPosition_SetParams_def word_le_nat_alt)
  then show ?thesis unfolding Let_def w1_def [symmetric] by (simp add: round1 round2)
qed

definition demo_formatted_dev :: param_dev where
  "demo_formatted_dev = (snd (Dev_Param_RodInit (nor_hw []) demo_dev))\<lparr>s_rod_pos_ptr := True\<rparr>"

definition demo_calibrated :: sys_world where
  "demo_calibrated = (demo_sys SYS_STATE_RUN)\<lparr>axis :=
     [(demo_axis 0)\<lparr>position := demo_pos\<lparr>calib_state := POSITION_CALIBRATED, position_mm := f_lit 7 1\<rparr>\<rparr>, demo_axis 1]\<rparr>"

lemma demo_formatted_dev_ok:
  "\<exists>ws. fast_rec.intact (fast_view demo_formatted_dev) ws \<and> s_rod_inited demo_formatted_dev \<noteq> 0 \<and> ws ! 1 = 1"
proof -
  have "scan_all s_rod_config (pd_flash demo_dev) = None" "s_rod_inited demo_dev = 0"
    using blank_scan [OF fast_rec.record_layout_axioms] by (simp_all add: demo_dev_def)
  from rod_first_start [OF nor_part this] show ?thesis
    by (auto simp: rod_block_def demo_formatted_dev_def fast_view_def)
qed

theorem under_voltage_position_saved_witness:
  "let w1 = Sys_State_Dispatch (reg_table (\<lambda>_. 0) True) EVT_SYS_VOLT_UNDER demo_calibrated;
       (w2, p2) = rod_thread_entry (nor_hw []) (w1, demo_formatted_dev);
       (w3, p3) = rod_thread_entry (nor_hw []) (w2\<lparr>now := 15, hm := demo_hall, us := demo_us_dev\<rparr>, p2)
   in \<exists>y p4. Dev_Param_RodApply (Some demo_rod_pos) (snd (Dev_Param_RodInit (nor_hw []) (demo_dev\<lparr>pd_flash := pd_flash p3\<rparr>))) = (Some y, p4) \<and>
        position_mm y = position_mm (position (axis w3 ! 0)) \<and> calib_state y = POSITION_CALIBRATED"
proof -
  obtain ws where ws: "fast_rec.intact (fast_view demo_formatted_dev) ws" "s_rod_inited demo_formatted_dev \<noteq> 0" "ws ! 1 = 1"
    using demo_formatted_dev_ok by blast
  show ?thesis
    by (rule under_voltage_position_saved [OF nor_part ws(1,2)])
      (use ws(3) in \<open>simp_all add: demo_formatted_dev_def demo_calibrated_def demo_sys_def BusVoltage_HasSeenValid_def demo_dev_def\<close>)
qed


section \<open>The soft limit\<close>

definition urgent_msg :: "ArbCommandMsg_t \<Rightarrow> 'h arb_mod \<Rightarrow> 'h arb_mod" where
  "urgent_msg msg m = (case s_arb_mq m of Some q \<Rightarrow> m\<lparr>s_arb_mq := Some (q\<lparr>mq_msgs := msg # mq_msgs q\<rparr>)\<rparr> | None \<Rightarrow> m)"

definition room :: "nat \<Rightarrow> 'h arb_mod \<Rightarrow> bool" where
  "room k m \<longleftrightarrow> (\<exists>q. s_arb_mq m = Some q \<and> length (mq_msgs q) + k \<le> mq_blocks q)"

lemma room_urgent: "room (Suc k) m \<Longrightarrow> room k (urgent_msg msg m)"
  by (auto simp: room_def urgent_msg_def)

lemma urgent_msg_fields [simp]:
  "get_arb i (urgent_msg msg m) = get_arb i m" "s_arb_output_ops (urgent_msg msg m) = s_arb_output_ops m"
  "mutex_take (urgent_msg msg m) = mutex_take m" "s_arb_axis (urgent_msg msg m) = s_arb_axis m" "hw (urgent_msg msg m) = hw m"
  by (simp_all add: urgent_msg_def get_arb_def split: option.split)

lemma send_urgent:
  assumes "room (Suc k) m" "a < 2" "DEV_ID_NONE < d" "d < DEV_ID_MAX" "p \<le> PRIO_POWER" "duty \<le> 100" "cmd_type_known c"
  shows "Arb_SendCommand a d p c duty True t m =
    (RT_EOK, urgent_msg \<lparr>m_axis_id = a, m_device_id = d, m_priority = p, m_cmd_type = c, m_duty_pct = duty, m_timestamp = t\<rparr> m)"
  using assms by (auto simp: room_def Arb_SendCommand_def rt_mq_urgent_def urgent_msg_def not_le not_less)

abbreviation limit_msg :: "u8 \<Rightarrow> u32 \<Rightarrow> ArbCommandMsg_t" where
  "limit_msg c t \<equiv> \<lparr>m_axis_id = 0, m_device_id = DEV_ID_ROD_LIMIT_FWD, m_priority = PRIO_LIMIT, m_cmd_type = c, m_duty_pct = 0, m_timestamp = t\<rparr>"

lemma act_events_only:
  assumes "set es \<subseteq> {OutActEvent b}"
  shows "sys_arb (fold rod_output es w) = sys_arb w" "now (fold rod_output es w) = now w"
  using assms by (induction es arbitrary: w) (auto simp: rod_output_def Act_Event_Send_def)

lemma limit_outputs:
  assumes "set es \<subseteq> {OutActEvent b}" and "room 2 (sys_arb w)"
  shows "sys_arb (fold rod_output (es @ [lim_fwd 0 CMD_TYPE_CLEAR_ALLOW_FWD, lim_fwd 0 CMD_TYPE_BLOCK_FWD]) w) =
    urgent_msg (limit_msg CMD_TYPE_BLOCK_FWD (now w)) (urgent_msg (limit_msg CMD_TYPE_CLEAR_ALLOW_FWD (now w)) (sys_arb w))"
proof -
  have r: "room (Suc (Suc 0)) (sys_arb w)" using assms(2) by (simp add: numeral_2_eq_2)
  note s = send_urgent [OF r, of 0 DEV_ID_ROD_LIMIT_FWD PRIO_LIMIT 0 CMD_TYPE_CLEAR_ALLOW_FWD]
    send_urgent [OF room_urgent [OF r], of 0 DEV_ID_ROD_LIMIT_FWD PRIO_LIMIT 0 CMD_TYPE_BLOCK_FWD]
  show ?thesis using s by (simp add: rod_output_def act_events_only [OF assms(1)] cmd_type_known_def)
qed

text \<open>A block at the head of the queue is the next message of the thread and takes the forward drive away.\<close>

lemma block_at_head:
  assumes "arb_inv (get_arb 0 m)" "length (s_arb_axis m) = 2" "mutex_take m 0 = RT_EOK" "s_arb_output_ops m = Some (s_gpio_out_ops cfg)"
    "room k m"
  shows "\<exists>m'. Arb_ThreadStep t (urgent_msg (limit_msg CMD_TYPE_BLOCK_FWD s) m) = Some m' \<and> qlist (block_fwd (get_arb 0 m')) \<noteq> [] \<and>
    active_dir (get_arb 0 m') \<noteq> DIR_FWD \<and> gpio_dir (hw m') = active_dir (get_arb 0 m')"
proof -
  let ?msg = "limit_msg CMD_TYPE_BLOCK_FWD s"
  let ?m = "urgent_msg ?msg m" and ?a = "Arb_ProcessMessage (get_arb 0 m) ?msg"
  obtain q where q: "s_arb_mq m = Some q" using assms(5) by (auto simp: room_def)
  let ?q = "q\<lparr>mq_msgs := ?msg # mq_msgs q\<rparr>"
  have mq: "s_arb_mq ?m = Some ?q" "rt_mq_recv ?q = Some (?msg, q)" by (simp_all add: urgent_msg_def q rt_mq_recv_def)
  have i: "unat (m_axis_id ?msg) < ARB_MAX_AXIS_NUM" "mutex_take ?m (unat (m_axis_id ?msg)) = RT_EOK" "length (s_arb_axis ?m) = ARB_MAX_AXIS_NUM"
    using assms(2,3) by simp_all
  obtain m' where m': "Arb_ThreadStep t ?m = Some m'" "get_arb 0 m' = arb_decide t ?a"
    using Arb_ThreadStep_message [OF mq i, of t] by auto
  have "gpio_dir (hw m') = active_dir (get_arb 0 m')"
    using gpio_out.thread_output [OF _ i(3) mq i(1,2) m'(1)] assms(4) by (simp add: s_gpio_out_ops_def)
  moreover have "arb_inv ?a" "qlist (block_fwd ?a) \<noteq> []"
    using Arb_ProcessMessage_inv [OF assms(1)] block_fwd_blocks [OF assms(1), of ?msg] by simp_all
  ultimately show ?thesis using m' blocked_not_fwd [of ?a t] by auto
qed


text \<open>The over-current event of an uncalibrated rod that extends.\<close>

lemma over_current_calibrates:
  assumes "arb_ok (sys_arb w)" "enable (get_arb 0 (sys_arb w)) \<noteq> 0" "active_dir (get_arb 0 (sys_arb w)) = DIR_FWD"
    "calib_state (position (axis w ! 0)) = POSITION_NOT_CALIBRATED" "room 3 (sys_arb w)"
  shows "Sys_State_Dispatch mods EVT_SYS_OVER_CURRENT w =
    w\<lparr>axis := (axis w)[0 := (axis w ! 0)\<lparr>rod_state := (rod_state (axis w ! 0))\<lparr>calib_req := ROD_CALIB_REQ_MAX\<rparr>\<rparr>],
      sys_arb := urgent_msg \<lparr>m_axis_id = 0, m_device_id = DEV_ID_POWER_POS, m_priority = PRIO_POWER, m_cmd_type = CMD_TYPE_CLEAR_ALLOW_FWD,
        m_duty_pct = 0, m_timestamp = now w\<rparr> (sys_arb w)\<rparr>"
proof -
  have "Arb_GetData 0 False (sys_arb w) = Inr (get_arb 0 (sys_arb w))"
    using assms(1) by (simp add: Arb_GetData_def arb_ok_def)
  then have c: "RodCalib_OnOverCurrent (sys_arb w) (position (axis w ! 0)) ctx = (ROD_CALIB_CALIB_MAX, ctx\<lparr>calib_req := ROD_CALIB_REQ_MAX\<rparr>)" for ctx
    using assms(2-4) by (simp add: RodCalib_OnOverCurrent_def RodPosition_IsCalibrated_def)
  have r: "room (Suc 2) (sys_arb w)" using assms(5) by (simp add: eval_nat_numeral)
  show ?thesis
    using send_urgent [OF r, of 0 DEV_ID_POWER_POS PRIO_POWER 0 CMD_TYPE_CLEAR_ALLOW_FWD "now w"]
    by (simp add: Sys_State_Dispatch_def when_bit_def disp_over_current_def c Sys_State_ArbSendCommand_def cmd_type_known_def)
qed

lemma axes_pos_nth:
  assumes "axes_pos v = axes_pos w" "i < length (axis w)"
  shows "ax_dir (axis v ! i) = ax_dir (axis w ! i)" "position (axis v ! i) = position (axis w ! i)" "sm_act (axis v ! i) = sm_act (axis w ! i)"
    "rod_state (axis v ! i) = rod_state (axis w ! i)"
proof -
  have "length (axes_pos v) = length (axis v)" "length (axes_pos w) = length (axis w)" by (simp_all add: axes_pos_def)
  then have "i < length (axis v)" using assms by simp
  then have "(ax_dir (axis v ! i), position (axis v ! i), sm_act (axis v ! i), rod_state (axis v ! i)) = axes_pos v ! i"
    by (simp add: axes_pos_def)
  also have "\<dots> = (ax_dir (axis w ! i), position (axis w ! i), sm_act (axis w ! i), rod_state (axis w ! i))"
    using assms by (simp add: axes_pos_def)
  finally show "ax_dir (axis v ! i) = ax_dir (axis w ! i)" "position (axis v ! i) = position (axis w ! i)" "sm_act (axis v ! i) = sm_act (axis w ! i)"
    "rod_state (axis v ! i) = rod_state (axis w ! i)" by simp_all
qed

lemma one_axis_tick:
  assumes "ax_dir (axis w ! 0) \<noteq> ACT_DIR_NONE" "ax_dir (axis w ! 1) = ACT_DIR_NONE" "length (axis w) = 2"
  obtains delta v where "axes_pos v = axes_pos w" "sys_arb v = sys_arb w" "now v = now w" "length (axis v) = 2"
    "Actuator_Tick tick w = (let ((pos, sm, ctx), outs) =
         rod_axis_tick (sys_arb w) 0 delta tick (position (axis w ! 0), sm_act (axis w ! 0), rod_state (axis w ! 0))
       in fold rod_output outs (v\<lparr>axis := (axis w)[0 := (axis w ! 0)\<lparr>position := pos, sm_act := sm, rod_state := ctx\<rparr>]\<rparr>))"
proof -
  have u: "[0 ..< MAX_AXIS_NUM] = [0, 1]" by (simp add: upt_rec)
  let ?t = "MotorHall_Task (now w) (hm w, us w)"
  let ?v = "w\<lparr>hm := fst ?t, us := snd ?t\<rparr>"
  let ?d = "MotorHall_GetDeltaPulses 0 (fst ?t)"
  let ?r = "rod_axis_tick (sys_arb w) 0 (fst ?d) tick (position (axis w ! 0), sm_act (axis w ! 0), rod_state (axis w ! 0))"
  let ?u = "?v\<lparr>hm := snd ?d, axis := (axis w)[0 := (axis w ! 0)\<lparr>position := fst (fst ?r), sm_act := fst (snd (fst ?r)), rod_state := snd (snd (fst ?r))\<rparr>]\<rparr>"
  have a: "actuator_axis tick 0 ?v = fold rod_output (snd ?r) ?u"
    using assms(1) by (simp add: actuator_axis_def Let_def case_prod_beta)
  have "axes_pos (fold rod_output (snd ?r) ?u) = axes_pos ?u" using request_output [of "snd ?r" ?u] by (simp add: request_def)
  then have "ax_dir (axis (actuator_axis tick 0 ?v) ! 1) = ax_dir (axis ?u ! 1)"
    unfolding a by (rule axes_pos_nth(1)) (simp add: assms(3))
  then have "ax_dir (axis (actuator_axis tick 0 ?v) ! 1) = ACT_DIR_NONE" using assms(2) by simp
  then have "actuator_axis tick 1 (actuator_axis tick 0 ?v) = actuator_axis tick 0 ?v" by (simp add: actuator_axis_def)
  then have "Actuator_Tick tick w = fold rod_output (snd ?r) ?u" using a by (simp add: Actuator_Tick_def case_prod_beta u)
  then show ?thesis
    using assms(3) by (intro that [of "?v\<lparr>hm := snd ?d\<rparr>" "fst ?d"]) (simp_all add: axes_pos_def case_prod_beta)
qed


text \<open>
  C6. The soft limit stops the motor: when an uncalibrated rod is driven out and the over-current
  event reports the end stop, then after the dispatch, one tick of the rod task and one round of the
  arbitration thread the position is the full stroke and calibrated, the rod machine is in its
  extend limit, forward is blocked, and neither the published direction nor the pins are forward.
\<close>

theorem soft_limit_stops_motor:
  assumes m: "arb_ok (sys_arb w)" "enable (get_arb 0 (sys_arb w)) \<noteq> 0" "active_dir (get_arb 0 (sys_arb w)) = DIR_FWD"
    "\<exists>q. s_arb_mq (sys_arb w) = Some q \<and> length (mq_msgs q) + 3 \<le> mq_blocks q"
    and a: "ax_dir (axis w ! 0) \<noteq> ACT_DIR_NONE" "ax_dir (axis w ! 1) = ACT_DIR_NONE" "length (axis w) = 2"
    and r: "rod_ok (sm_act (axis w ! 0))" "cur_state (sm_act (axis w ! 0)) \<in> {ROD_STATE_UNKNOWN, ROD_STATE_STOPPED, ROD_STATE_EXTENDING}"
      "calib_state (position (axis w ! 0)) = POSITION_NOT_CALIBRATED" "rc_axis_id (rod_state (axis w ! 0)) = 0"
  shows "let w1 = Actuator_Tick tick (Sys_State_Dispatch mods EVT_SYS_OVER_CURRENT w); x = axis w1 ! 0 in
     position_mm (position x) = stroke_mm (position (axis w ! 0)) \<and> calib_state (position x) = POSITION_CALIBRATED \<and>
     cur_state (sm_act x) = ROD_STATE_EXT_LIMIT \<and>
     (\<exists>m'. Arb_ThreadStep t (sys_arb w1) = Some m' \<and> qlist (block_fwd (get_arb 0 m')) \<noteq> [] \<and>
        active_dir (get_arb 0 m') \<noteq> DIR_FWD \<and> gpio_dir (hw m') = active_dir (get_arb 0 m'))"
proof -
  define w0 where "w0 = Sys_State_Dispatch mods EVT_SYS_OVER_CURRENT w"
  have room3: "room 3 (sys_arb w)" using m(4) by (auto simp: room_def)
  note w0 = over_current_calibrates [OF m(1-3) r(3) room3, of mods, folded w0_def]
  let ?x = "axis w0 ! 0"
  have x: "ax_dir ?x = ax_dir (axis w ! 0)" "position ?x = position (axis w ! 0)" "sm_act ?x = sm_act (axis w ! 0)"
    "rod_state ?x = (rod_state (axis w ! 0))\<lparr>calib_req := ROD_CALIB_REQ_MAX\<rparr>" "axis w0 ! 1 = axis w ! 1" "length (axis w0) = 2"
    using a(3) by (simp_all add: w0)
  obtain delta v where v: "axes_pos v = axes_pos w0" "sys_arb v = sys_arb w0" "now v = now w0"
    and tick: "Actuator_Tick tick w0 = (let ((pos, sm, ctx), outs) =
        rod_axis_tick (sys_arb w0) 0 delta tick (position ?x, sm_act ?x, rod_state ?x)
      in fold rod_output outs (v\<lparr>axis := (axis w0)[0 := ?x\<lparr>position := pos, sm_act := sm, rod_state := ctx\<rparr>]\<rparr>))"
    by (rule one_axis_tick [of w0 tick]) (use a x in auto)
  obtain pos sm ctx outs where rt: "rod_axis_tick (sys_arb w0) 0 delta tick (position ?x, sm_act ?x, rod_state ?x) = ((pos, sm, ctx), outs)"
    by (metis prod.exhaust)
  obtain es where s: "position_mm pos = stroke_mm (position (axis w ! 0))" "calib_state pos = POSITION_CALIBRATED" "cur_state sm = ROD_STATE_EXT_LIMIT"
    "set es \<subseteq> {OutActEvent EVT_ROD_LIMIT_EXTEND}" "outs = es @ [lim_fwd 0 CMD_TYPE_CLEAR_ALLOW_FWD, lim_fwd 0 CMD_TYPE_BLOCK_FWD]"
    using soft_limit_tick [OF _ _ _ _ rt] r x by auto
  let ?v = "v\<lparr>axis := (axis w0)[0 := ?x\<lparr>position := pos, sm_act := sm, rod_state := ctx\<rparr>]\<rparr>"
  have w1: "Actuator_Tick tick w0 = fold rod_output outs ?v" by (simp add: tick rt)
  have "axes_pos (fold rod_output outs ?v) = axes_pos ?v" using request_output [of outs ?v] by (simp add: request_def)
  note p = axes_pos_nth [OF this, of 0]
  have room2: "room 2 (sys_arb w0)" using room_urgent [of 2 "sys_arb w"] room3 by (simp add: w0 eval_nat_numeral)
  let ?m = "urgent_msg (limit_msg CMD_TYPE_CLEAR_ALLOW_FWD (now v)) (sys_arb w0)"
  have arb: "sys_arb (fold rod_output outs ?v) = urgent_msg (limit_msg CMD_TYPE_BLOCK_FWD (now v)) ?m"
    using limit_outputs [OF s(4), of ?v] room2 v(2) by (simp add: s(5))
  obtain cfg where cfg: "s_arb_output_ops (sys_arb w) = Some (s_gpio_out_ops cfg)" using m(1) by (auto simp: arb_ok_def)
  have "\<exists>m'. Arb_ThreadStep t (urgent_msg (limit_msg CMD_TYPE_BLOCK_FWD (now v)) ?m) = Some m' \<and> qlist (block_fwd (get_arb 0 m')) \<noteq> [] \<and>
    active_dir (get_arb 0 m') \<noteq> DIR_FWD \<and> gpio_dir (hw m') = active_dir (get_arb 0 m')"
    by (rule block_at_head [OF _ _ _ _ room_urgent [of 1]])
      (use m(1) cfg room2 in \<open>auto simp: w0 arb_ok_def mod_inv_def eval_nat_numeral\<close>)
  then show ?thesis using p x(6) s(1-3) by (simp add: w0_def [symmetric] w1 arb Let_def)
qed


definition demo_fwd :: "gpio_motor arb_mod" where
  "demo_fwd = the (Arb_ThreadStep 2 (snd (Arb_SendCommand 0 DEV_ID_POWER_POS PRIO_POWER CMD_TYPE_RUN_FWD 98 True 2 demo_gpio)))"

definition demo_driving :: sys_world where "demo_driving = (demo_sys SYS_STATE_RUN)\<lparr>sys_arb := demo_fwd\<rparr>"

lemma demo_fwd_ok:
  "arb_ok demo_fwd" "enable (get_arb 0 demo_fwd) \<noteq> 0" "active_dir (get_arb 0 demo_fwd) = DIR_FWD"
  "\<exists>q. s_arb_mq demo_fwd = Some q \<and> length (mq_msgs q) + 3 \<le> mq_blocks q"
proof -
  let ?m = "snd (Arb_SendCommand 0 DEV_ID_POWER_POS PRIO_POWER CMD_TYPE_RUN_FWD 98 True 2 demo_gpio)"
  have "Arb_ThreadStep 2 ?m \<noteq> None" by code_simp
  then have "Arb_ThreadStep 2 ?m = Some demo_fwd" by (simp add: demo_fwd_def)
  then show "arb_ok demo_fwd" using arb_ok_round(1) arb_ok_send [OF demo_gpio_ok] by blast
  have "(case s_arb_mq demo_fwd of None \<Rightarrow> False | Some q \<Rightarrow> length (mq_msgs q) + 3 \<le> mq_blocks q)" by code_simp
  then show "\<exists>q. s_arb_mq demo_fwd = Some q \<and> length (mq_msgs q) + 3 \<le> mq_blocks q" by (auto split: option.splits)
  show "enable (get_arb 0 demo_fwd) \<noteq> 0" "active_dir (get_arb 0 demo_fwd) = DIR_FWD" by code_simp+
qed

theorem soft_limit_stops_motor_witness:
  "active_dir (get_arb 0 (sys_arb demo_driving)) = DIR_FWD \<and>
   (let w1 = Actuator_Tick 10 (Sys_State_Dispatch [] EVT_SYS_OVER_CURRENT demo_driving) in
     calib_state (position (axis w1 ! 0)) = POSITION_CALIBRATED \<and>
     (\<exists>m'. Arb_ThreadStep 11 (sys_arb w1) = Some m' \<and> gpio_dir (hw m') \<noteq> DIR_FWD))"
proof -
  have a: "ax_dir (axis demo_driving ! 0) \<noteq> ACT_DIR_NONE" "ax_dir (axis demo_driving ! 1) = ACT_DIR_NONE" "length (axis demo_driving) = 2"
    "sm_act (axis demo_driving ! 0) = fst demo_rod" "position (axis demo_driving ! 0) = demo_pos" "rod_state (axis demo_driving ! 0) = snd demo_rod"
    "sys_arb demo_driving = demo_fwd"
    by (simp_all add: demo_driving_def demo_sys_def demo_axis_def)
  have p: "calib_state demo_pos = POSITION_NOT_CALIBRATED" "rc_axis_id (snd demo_rod) = 0" by code_simp+
  from soft_limit_stops_motor [of demo_driving 10 "[]" 11] a(1-3) show ?thesis
    unfolding a(4-7) using demo_fwd_ok demo_rod_ok p by (auto simp: Let_def)
qed

end
