(* ===== verification/Task_Set_Laws.thy ===== *)
theory Task_Set_Laws
  imports Task_Set
begin

text \<open>
  The task table against its specification: the heartbeat table is a map from threads to their last
  sign of life, and the starvation check names exactly the threads whose last sign is too old; the
  stack watermarks are the least free space ever scanned.
\<close>

section \<open>The heartbeat table as a map\<close>

datatype task_op = CreateOp string u32 u8 u32 "nat option" rt_err_t u32 | BeatOp nat u32

fun task_step :: "task_op \<Rightarrow> task_set \<Rightarrow> task_set" where
  "task_step (CreateOp nm stack prio beat created started tick) ts = snd (Task_Set_Create (Some nm) True stack prio beat created started tick ts)"
| "task_step (BeatOp self tick) ts = Task_Set_Beat self tick ts"

text \<open>The specification: the threads created, each with name, priority, period and last sign of life.\<close>

type_synonym life = "nat \<Rightarrow> (string \<times> u8 \<times> u32 \<times> u32) option"

definition create_ok :: "u32 \<Rightarrow> u8 \<Rightarrow> rt_err_t \<Rightarrow> bool" where
  "create_ok stack prio started \<longleftrightarrow> 256 \<le> stack \<and> 1 \<le> prio \<and> prio \<le> 30 \<and> started = RT_EOK"

fun life_step :: "task_op \<Rightarrow> life \<Rightarrow> life" where
  "life_step (CreateOp nm stack prio beat created started tick) m =
     (case created of Some t \<Rightarrow> if create_ok stack prio started then m(t \<mapsto> (nm, prio, beat, tick)) else m | None \<Rightarrow> m)"
| "life_step (BeatOp self tick) m = (case m self of Some (nm, pr, be, l) \<Rightarrow> m(self \<mapsto> (nm, pr, be, tick)) | None \<Rightarrow> m)"

fun handles :: "task_op list \<Rightarrow> nat list" where
  "handles [] = []"
| "handles (CreateOp nm stack prio beat created started tick # ops) = (case created of Some t \<Rightarrow> t # handles ops | None \<Rightarrow> handles ops)"
| "handles (BeatOp self tick # ops) = handles ops"

definition used_slots :: "task_set \<Rightarrow> TaskBeatItem_t list" where
  "used_slots ts = take (unat (s_beat_num ts)) (s_beat ts)"

definition beat_entry :: "TaskBeatItem_t \<Rightarrow> nat \<times> string \<times> u8 \<times> u32 \<times> u32" where
  "beat_entry b = (bi_tcb b, bi_name b, bi_prio b, beat_ms b, last_beat b)"

definition life_of :: "task_set \<Rightarrow> life" where
  "life_of ts = map_of (map beat_entry (used_slots ts))"

definition beats_ok :: "task_set \<Rightarrow> bool" where
  "beats_ok ts \<longleftrightarrow> length (s_beat ts) = 12 \<and> unat (s_beat_num ts) \<le> 12 \<and> distinct (map bi_tcb (used_slots ts))"

lemma life_of_dom: "t \<in> dom (life_of ts) \<longleftrightarrow> t \<in> bi_tcb ` set (used_slots ts)"
  by (simp add: life_of_def dom_map_of_conv_image_fst image_image beat_entry_def)

lemma create_accept:
  "Task_Set_Create (Some nm) True stack prio beat created started tick ts =
     (case created of
        Some t \<Rightarrow>
          if create_ok stack prio started then
            (Some t, if s_beat_num ts < 12
               then ts\<lparr>s_beat := (s_beat ts)[unat (s_beat_num ts) := \<lparr>bi_name = nm, bi_tcb = t, bi_prio = prio, beat_ms = beat, last_beat = tick\<rparr>],
                 s_beat_num := s_beat_num ts + 1\<rparr> else ts)
          else (None, ts)
      | None \<Rightarrow> (None, ts))"
proof -
  have "prio \<ge> RT_THREAD_PRIORITY_MAX - 1 \<longleftrightarrow> \<not> prio \<le> 30" "prio = 0 \<longleftrightarrow> \<not> 1 \<le> prio" by unat_arith+
  then have "(stack < TASK_STACK_MIN \<or> prio = 0 \<or> prio \<ge> RT_THREAD_PRIORITY_MAX - 1 \<or> started \<noteq> RT_EOK) \<longleftrightarrow> \<not> create_ok stack prio started"
    by (auto simp: create_ok_def)
  then show ?thesis by (auto simp: Task_Set_Create_def split: option.split)
qed

lemma used_slots_add:
  assumes "beats_ok ts" and "s_beat_num ts < 12"
  shows "used_slots (ts\<lparr>s_beat := (s_beat ts)[unat (s_beat_num ts) := b], s_beat_num := s_beat_num ts + 1\<rparr>) = used_slots ts @ [b]"
proof -
  have "unat (s_beat_num ts) < 12" using assms(2) by (simp add: word_less_nat_alt)
  then show ?thesis
    using assms(1) unat_inc [of "s_beat_num ts"] take_Suc_update [of "unat (s_beat_num ts)" "s_beat ts" b]
    by (simp add: used_slots_def beats_ok_def)
qed

lemma beat_slots_props:
  "map bi_tcb (beat_slots self tick bs) = map bi_tcb bs" "length (beat_slots self tick bs) = length bs"
  by (induction bs) auto

lemma beat_slots_life:
  "distinct (map bi_tcb bs) \<Longrightarrow> map_of (map beat_entry (beat_slots self tick bs)) = life_step (BeatOp self tick) (map_of (map beat_entry bs))"
proof (induction bs)
  case (Cons b bs)
  then show ?case by (cases "bi_tcb b = self") (auto simp: beat_entry_def fun_upd_twist split: option.splits)
qed simp

lemma used_slots_beat:
  assumes "beats_ok ts"
  shows "used_slots (Task_Set_Beat self tick ts) = beat_slots self tick (used_slots ts)" "length (s_beat (Task_Set_Beat self tick ts)) = 12"
    "s_beat_num (Task_Set_Beat self tick ts) = s_beat_num ts"
  using assms by (auto simp: used_slots_def Task_Set_Beat_def Let_def beats_ok_def beat_slots_props min_def)

lemma map_of_snoc: "t \<notin> fst ` set xs \<Longrightarrow> map_of (xs @ [(t, v)]) = (map_of xs)(t \<mapsto> v)"
  by (induction xs) (auto simp: fun_upd_twist)

lemma task_step_life:
  assumes ok: "beats_ok ts" and room: "handles [op] \<noteq> [] \<Longrightarrow> unat (s_beat_num ts) < 12" and fresh: "set (handles [op]) \<inter> dom (life_of ts) = {}"
  shows "beats_ok (task_step op ts) \<and> life_of (task_step op ts) = life_step op (life_of ts) \<and>
    unat (s_beat_num (task_step op ts)) \<le> unat (s_beat_num ts) + length (handles [op])"
proof (cases op)
  case (BeatOp self tick)
  then show ?thesis
    using ok used_slots_beat [OF ok, of self tick] beat_slots_life [of "used_slots ts" self tick]
    by (simp add: beats_ok_def beat_slots_props life_of_def del: life_step.simps)
next
  case (CreateOp nm stack prio beat created started tick)
  show ?thesis
  proof (cases "\<exists>t. created = Some t \<and> create_ok stack prio started")
    case True
    then obtain t where t: "created = Some t" "create_ok stack prio started" by blast
    let ?b = "\<lparr>bi_name = nm, bi_tcb = t, bi_prio = prio, beat_ms = beat, last_beat = tick\<rparr>"
    let ?ts = "ts\<lparr>s_beat := (s_beat ts)[unat (s_beat_num ts) := ?b], s_beat_num := s_beat_num ts + 1\<rparr>"
    have n: "unat (s_beat_num ts) < 12" "s_beat_num ts < 12" using room t CreateOp by (simp_all add: word_less_nat_alt)
    have s: "task_step op ts = ?ts" using t n by (simp add: CreateOp create_accept)
    have f: "t \<notin> bi_tcb ` set (used_slots ts)" using fresh t CreateOp by (simp add: life_of_dom)
    have u: "used_slots ?ts = used_slots ts @ [?b]" by (rule used_slots_add [OF ok n(2)])
    have "map_of (map beat_entry (used_slots ts @ [?b])) = (map_of (map beat_entry (used_slots ts)))(t \<mapsto> (nm, prio, beat, tick))"
      using map_of_snoc [of t "map beat_entry (used_slots ts)" "(nm, prio, beat, tick)"] f by (simp add: beat_entry_def image_image)
    then show ?thesis
      using ok n f t unat_inc [of "s_beat_num ts"] unfolding s life_of_def beats_ok_def u
      by (simp add: CreateOp)
  next
    case False
    then show ?thesis using ok CreateOp by (auto simp: create_accept split: option.splits)
  qed
qed

fun task_run :: "task_op list \<Rightarrow> task_set \<Rightarrow> task_set" where
  "task_run [] ts = ts"
| "task_run (op # ops) ts = task_run ops (task_step op ts)"

fun life_run :: "task_op list \<Rightarrow> life \<Rightarrow> life" where
  "life_run [] m = m"
| "life_run (op # ops) m = life_run ops (life_step op m)"

lemma handles_Cons: "handles (op # ops) = handles [op] @ handles ops"
  by (cases op) (auto split: option.splits)

lemma life_step_dom: "dom (life_step op m) \<subseteq> dom m \<union> set (handles [op])"
  by (cases op) (auto split: option.splits if_splits)

lemma task_run_life:
  "beats_ok ts \<Longrightarrow> unat (s_beat_num ts) + length (handles ops) \<le> 12 \<Longrightarrow> distinct (handles ops) \<Longrightarrow> set (handles ops) \<inter> dom (life_of ts) = {} \<Longrightarrow>
   beats_ok (task_run ops ts) \<and> life_of (task_run ops ts) = life_run ops (life_of ts)"
proof (induction ops arbitrary: ts)
  case (Cons op ops)
  have h: "set (handles [op]) \<inter> dom (life_of ts) = {}" "unat (s_beat_num ts) + length (handles [op]) + length (handles ops) \<le> 12"
    "distinct (handles ops)" "set (handles ops) \<inter> (dom (life_of ts) \<union> set (handles [op])) = {}"
    using Cons.prems(2-4) unfolding handles_Cons [of op ops] by auto
  have "handles [op] \<noteq> [] \<Longrightarrow> unat (s_beat_num ts) < 12" using h(2) by (cases "handles [op]") auto
  from task_step_life [OF Cons.prems(1) this h(1)]
  have s: "beats_ok (task_step op ts)" "life_of (task_step op ts) = life_step op (life_of ts)"
    "unat (s_beat_num (task_step op ts)) \<le> unat (s_beat_num ts) + length (handles [op])" by auto
  show ?case
    using Cons.IH [OF s(1)] s h life_step_dom [of op "life_of ts"] by (simp add: disjoint_iff) blast
qed simp

lemma starved_set:
  assumes "beats_ok ts"
  shows "set (Task_Set_StarvationCheck tick ts) =
    {(nm, pr, tick - l, be) | t nm pr be l. life_of ts t = Some (nm, pr, be, l) \<and> be \<noteq> 0 \<and> l \<noteq> 0 \<and> tick - l > 5000}"
proof -
  have "life_of ts t = Some (nm, pr, be, l) \<longleftrightarrow> (t, nm, pr, be, l) \<in> beat_entry ` set (used_slots ts)" for t nm pr be l
    using assms by (simp add: life_of_def beats_ok_def beat_entry_def map_of_eq_Some_iff comp_def)
  then show ?thesis
    by (auto simp: Task_Set_StarvationCheck_def used_slots_def beat_stale_def beat_entry_def image_iff) blast
qed

text \<open>
  Starvation is detected exactly: from the empty table, after any sequence of thread creations
  (at most twelve handles, all different) and heartbeats, the check at a tick names exactly the
  threads that were created with a heartbeat period and whose last sign of life, a beat or the
  creation, lies more than 5000 ticks back in 32-bit arithmetic and did not fall on tick 0.
\<close>

theorem starvation_check_exact:
  assumes "length (s_beat ts) = 12" and "s_beat_num ts = 0" and "distinct (handles ops)" and "length (handles ops) \<le> 12"
  shows "set (Task_Set_StarvationCheck tick (task_run ops ts)) =
    {(nm, pr, tick - l, be) | t nm pr be l. life_run ops Map.empty t = Some (nm, pr, be, l) \<and> be \<noteq> 0 \<and> l \<noteq> 0 \<and> tick - l > 5000}"
proof -
  have e: "life_of ts = Map.empty" "beats_ok ts" using assms(1,2) by (simp_all add: life_of_def used_slots_def beats_ok_def)
  then have "beats_ok (task_run ops ts) \<and> life_of (task_run ops ts) = life_run ops Map.empty"
    using task_run_life [OF e(2), of ops] assms by simp
  then show ?thesis using starved_set by simp
qed

definition demo_tasks :: "task_op list" where
  "demo_tasks = [CreateOp ''rod'' 2048 18 100 (Some 7) 0 10, CreateOp ''di'' 2048 18 50 (Some 8) 0 11, CreateOp ''act'' 2048 15 0 (Some 9) 0 12,
     BeatOp 7 4000, BeatOp 8 4010, BeatOp 7 9500]"

lemma demo_life:
  "life_run demo_tasks Map.empty = [7 \<mapsto> (''rod'', 18, 100, 9500), 8 \<mapsto> (''di'', 18, 50, 4010), 9 \<mapsto> (''act'', 15, 0, 12)]"
proof -
  have ok: "create_ok 2048 18 0" "create_ok 2048 15 0" by (simp_all add: create_ok_def)
  show ?thesis by (simp add: demo_tasks_def ok) (simp add: fun_eq_iff)
qed

lemma demo_handles: "handles demo_tasks = [7, 8, 9]"
  by (simp add: demo_tasks_def)

theorem starvation_check_exact_witness:
  "set (Task_Set_StarvationCheck 10000 (task_run demo_tasks
      \<lparr>s_beat = replicate 12 \<lparr>bi_name = [], bi_tcb = 0, bi_prio = 0, beat_ms = 0, last_beat = 0\<rparr>, s_beat_num = 0\<rparr>)) =
    {(''di'', 18, 5990, 50)}"
proof -
  have "{(nm, pr, 10000 - l, be) | t nm pr be l. life_run demo_tasks Map.empty t = Some (nm, pr, be, l) \<and> be \<noteq> 0 \<and> l \<noteq> 0 \<and> 10000 - l > 5000} =
    {(''di'', 18, 5990, 50)}"
    by (auto simp: demo_life split: if_splits intro!: exI [of _ 8])
  then show ?thesis
    using starvation_check_exact [of "\<lparr>s_beat = replicate 12 \<lparr>bi_name = [], bi_tcb = 0, bi_prio = 0, beat_ms = 0, last_beat = 0\<rparr>, s_beat_num = 0\<rparr>"
        demo_tasks 10000] by (simp add: demo_handles)
qed

section \<open>Stack watermarks\<close>

lemma stack_scan_run: "i \<le> n \<Longrightarrow> stack_scan mem n i = i + length (takeWhile (\<lambda>j. mem j = 0x23) [i ..< n])"
proof (induction mem n i rule: stack_scan.induct)
  case (1 mem n i)
  show ?case
  proof (cases "i < n")
    case True
    then show ?thesis using 1 by (auto simp: stack_scan.simps [of mem n i] upt_conv_Cons)
  next
    case False
    then show ?thesis using 1(2) stack_scan.simps [of mem n i] by simp
  qed
qed

lemma stack_scan_le: "stack_scan mem n 0 \<le> n"
  using length_takeWhile_le [of "\<lambda>j. mem j = 0x23" "[0 ..< n]"] by (simp add: stack_scan_run)

text \<open>The free space of a stack: the untouched bytes at its low end.\<close>

lemma Task_Stack_Free_run:
  assumes "stack_addr t"
  shows "unat (Task_Stack_Free (Some t)) = length (takeWhile (\<lambda>j. th_mem t j = 0x23) [0 ..< unat (stack_size t)])"
proof -
  have "stack_scan (th_mem t) (unat (stack_size t)) 0 < 2 ^ 32"
    using stack_scan_le [of "th_mem t" "unat (stack_size t)"] unat_u32_less [of "stack_size t"] by linarith
  then show ?thesis
    using assms by (auto simp: Task_Stack_Free_def stack_scan_run [of 0] unat_less_of_nat)
qed

lemma Task_Stack_Free_le: "stack_addr t \<Longrightarrow> unat (Task_Stack_Free (Some t)) \<le> unat (stack_size t)"
  using Task_Stack_Free_run [of t] length_takeWhile_le [of "\<lambda>j. th_mem t j = 0x23" "[0 ..< unat (stack_size t)]"] by simp

text \<open>A thread is warned about when at most a tenth of its stack was never touched.\<close>

lemma warn_iff:
  assumes "stack_addr t" "stack_size t \<noteq> 0" "100 * unat (stack_size t) < 2 ^ 32"
  shows "TASK_STACK_WARN_PCT \<le> stack_pct t \<longleftrightarrow> 10 * unat (Task_Stack_Free (Some t)) \<le> unat (stack_size t)"
proof -
  let ?n = "unat (stack_size t)" and ?f = "unat (Task_Stack_Free (Some t))"
  have f: "?f \<le> ?n" by (rule Task_Stack_Free_le [OF assms(1)])
  have n: "0 < ?n" using assms(2) by (simp add: unat_gt_0)
  have "unat (Task_Stack_Used (stack_size t) (Task_Stack_Free (Some t))) = ?n - ?f"
    using f by (auto simp: Task_Stack_Used_def word_less_nat_alt unat_sub word_le_nat_alt)
  moreover have "(?n - ?f) * 100 < 2 ^ 32" using assms(3) by simp
  ultimately have "unat (stack_pct t) = (?n - ?f) * 100 div ?n"
    by (simp add: stack_pct_def unat_div unat_mult_lem [THEN iffD1])
  then have "TASK_STACK_WARN_PCT \<le> stack_pct t \<longleftrightarrow> 90 * ?n \<le> (?n - ?f) * 100"
    using n by (simp add: word_le_nat_alt less_eq_div_iff_mult_less_eq)
  then show ?thesis using f by (auto simp: diff_mult_distrib)
qed

text \<open>The scans of the thread of a name, and the item they leave.\<close>

definition scanned :: "string \<Rightarrow> rt_thread list \<Rightarrow> u32 list" where
  "scanned nm ts = map (\<lambda>t. Task_Stack_Free (Some t)) (filter (\<lambda>t. \<not> thread_skipped t \<and> stack_addr t \<and> th_name t = nm) ts)"

lemma item_lower_name [simp]: "si_name (item_lower f it) = si_name it"
  by (simp add: item_lower_def)

lemma Find_names:
  assumes "distinct (map si_name tbl)" "i < length tbl"
  shows "Task_Stack_Find (Some (si_name (tbl ! i))) tbl = Some i"
proof -
  have "si_name (tbl ! j) \<noteq> si_name (tbl ! i)" if "j < i" for j
    using assms that distinct_conv_nth [of "map si_name tbl"] by force
  then show ?thesis
    using assms(2) by (auto simp: Task_Stack_Find_def find_Some_iff intro!: exI [of _ i])
qed

lemma UpdateWatermark_at:
  assumes d: "distinct (map si_name tbl)" and i: "i < length tbl" and t: "\<not> thread_skipped t"
  shows "snd (Task_Stack_UpdateWatermark (Some t) f tbl) ! i = (if stack_addr t \<and> th_name t = si_name (tbl ! i) then item_lower f (tbl ! i) else tbl ! i)"
    "map si_name (snd (Task_Stack_UpdateWatermark (Some t) f tbl)) = map si_name tbl"
proof -
  have sz: "stack_size t \<noteq> 0" using t by (simp add: thread_skipped_def)
  show "snd (Task_Stack_UpdateWatermark (Some t) f tbl) ! i = (if stack_addr t \<and> th_name t = si_name (tbl ! i) then item_lower f (tbl ! i) else tbl ! i)"
  proof (cases "Task_Stack_Find (Some (th_name t)) tbl")
    case None
    then have "th_name t \<noteq> si_name (tbl ! i)" using Find_names [OF d i] by (metis option.distinct(1))
    then show ?thesis using None by (simp add: Task_Stack_UpdateWatermark_def)
  next
    case (Some j)
    then have j: "j < length tbl" "si_name (tbl ! j) = th_name t" by (auto simp: Task_Stack_Find_def find_Some_iff)
    then have "th_name t = si_name (tbl ! i) \<longleftrightarrow> j = i" using Find_names [OF d i] Some by (metis option.inject)
    then show ?thesis using Some sz i by (simp add: Task_Stack_UpdateWatermark_def nth_list_update)
  qed
  show "map si_name (snd (Task_Stack_UpdateWatermark (Some t) f tbl)) = map si_name tbl"
  proof -
    have "map si_name (tbl[j := item_lower f (tbl ! j)]) = map si_name (tbl[j := tbl ! j])" for j by (simp only: map_update item_lower_name)
    then show ?thesis by (simp add: Task_Stack_UpdateWatermark_def split: option.split)
  qed
qed

lemma Monitor_at:
  "distinct (map si_name tbl) \<Longrightarrow> i < length tbl \<Longrightarrow>
   snd (Task_Stack_Monitor ts tbl) ! i = fold item_lower (scanned (si_name (tbl ! i)) ts) (tbl ! i) \<and>
   map si_name (snd (Task_Stack_Monitor ts tbl)) = map si_name tbl"
proof (induction ts arbitrary: tbl)
  case (Cons t ts)
  show ?case
  proof (cases "thread_skipped t")
    case True
    then show ?thesis using Cons by (simp add: scanned_def)
  next
    case False
    let ?f = "Task_Stack_Free (Some t)" and ?u = "snd (Task_Stack_UpdateWatermark (Some t) (Task_Stack_Free (Some t)) tbl)"
    note u = UpdateWatermark_at [OF Cons.prems False, of ?f]
    have d: "distinct (map si_name ?u)" using u(2) Cons.prems(1) by simp
    have l: "i < length ?u" using u(2) Cons.prems(2) by (metis length_map)
    have nm: "si_name (?u ! i) = si_name (tbl ! i)" using u(1) by simp
    show ?thesis using Cons.IH [OF d l] False u nm by (simp add: Let_def case_prod_beta scanned_def)
  qed
qed (simp add: scanned_def)

lemma lower_tracked:
  "tracked it = 1 \<Longrightarrow> fold item_lower fs it = it\<lparr>min_free := fold min fs (min_free it)\<rparr>"
  by (induction fs arbitrary: it) (auto simp: item_lower_def min_def)

lemma lower_fresh:
  "tracked it = 0 \<Longrightarrow> fs \<noteq> [] \<Longrightarrow> fold item_lower fs it = it\<lparr>min_free := Min (set fs), tracked := 1\<rparr>"
proof (cases fs)
  case (Cons f gs)
  assume "tracked it = 0"
  then have "fold item_lower fs it = fold item_lower gs (it\<lparr>min_free := f, tracked := 1\<rparr>)" by (simp add: Cons item_lower_def)
  also have "\<dots> = it\<lparr>min_free := fold min gs f, tracked := 1\<rparr>"
    using lower_tracked [of "it\<lparr>min_free := f, tracked := 1\<rparr>" gs] by simp
  also have "fold min gs f = Min (set fs)" using Min.set_eq_fold [of f gs] Cons by simp
  finally show ?thesis .
qed simp

fun passes :: "rt_thread list list \<Rightarrow> TaskStackItem_t list \<Rightarrow> TaskStackItem_t list" where
  "passes [] tbl = tbl"
| "passes (ts # tss) tbl = passes tss (snd (Task_Stack_Monitor ts tbl))"

lemma passes_at:
  "distinct (map si_name tbl) \<Longrightarrow> i < length tbl \<Longrightarrow> passes tss tbl ! i = fold item_lower (scanned (si_name (tbl ! i)) (concat tss)) (tbl ! i)"
proof (induction tss arbitrary: tbl)
  case (Cons ts tss)
  let ?u = "snd (Task_Stack_Monitor ts tbl)"
  note m = Monitor_at [OF Cons.prems, of ts]
  have names: "map si_name ?u = map si_name tbl" using m by simp
  then have l: "length ?u = length tbl" by (metis length_map)
  have "si_name (?u ! i) = si_name (tbl ! i)" using names l Cons.prems(2) by (metis nth_map)
  then show ?case using Cons.IH [of ?u] Cons.prems names l m by (simp add: scanned_def)
qed (simp add: scanned_def)

lemma table_names: "distinct (map si_name s_task_stack)"
  by (simp add: s_task_stack_def stack_item_def)

text \<open>
  Stack supervision: the free space of a stack is the length of its untouched low end; after
  any number of passes over the kernel's threads the watermark of a registered thread is the least
  free space scanned so far and is marked as tracked, or still the initial entry when no thread
  of its name was scanned; and a thread is warned about exactly when no more than a tenth of its
  stack was never touched.
\<close>

theorem stack_supervision:
  assumes "i < length s_task_stack" "stack_addr t" "stack_size t \<noteq> 0" "100 * unat (stack_size t) < 2 ^ 32"
  shows "passes tss s_task_stack ! i =
      (let it = s_task_stack ! i; fs = scanned (si_name it) (concat tss)
       in if fs = [] then it else it\<lparr>min_free := Min (set fs), tracked := 1\<rparr>) \<and>
    unat (Task_Stack_Free (Some t)) = length (takeWhile (\<lambda>j. th_mem t j = 0x23) [0 ..< unat (stack_size t)]) \<and>
    (TASK_STACK_WARN_PCT \<le> stack_pct t \<longleftrightarrow> 10 * unat (Task_Stack_Free (Some t)) \<le> unat (stack_size t))"
proof -
  have "tracked (s_task_stack ! i) = 0"
    using assms(1) by (auto simp: s_task_stack_def stack_item_def less_Suc_eq numeral_eq_Suc)
  then show ?thesis
    using passes_at [OF table_names assms(1), of tss] lower_fresh [of "s_task_stack ! i"]
      Task_Stack_Free_run [OF assms(2)] warn_iff [OF assms(2-4)] by (simp add: Let_def)
qed

definition demo_thread :: rt_thread where
  "demo_thread = \<lparr>th_name = ''rod'', th_stat = 2, stack_addr = True, stack_size = 2048, th_mem = (\<lambda>i. if i < 200 then 0x23 else 0)\<rparr>"

lemma demo_thread_free: "Task_Stack_Free (Some demo_thread) = 200"
proof -
  have "takeWhile (\<lambda>j. (if j < 200 then 0x23 else 0) = (0x23 :: u8)) [0 ..< 2048] = [0 ..< 200]"
  proof -
    have "[0 ..< 2048] = [0 ..< 200] @ [200 ..< (2048 :: nat)]" using upt_add_eq_append [of 0 200 1848] by simp
    moreover have "[200 ..< (2048 :: nat)] = 200 # [201 ..< 2048]" by (subst upt_rec) simp
    ultimately show ?thesis by (simp only:) (subst takeWhile_append2; simp)
  qed
  then have "unat (Task_Stack_Free (Some demo_thread)) = 200"
    using Task_Stack_Free_run [of demo_thread] by (simp add: demo_thread_def)
  then show ?thesis by (simp add: word_unat_eq_iff)
qed

theorem stack_supervision_witness:
  "passes [[demo_thread]] s_task_stack ! 3 = (s_task_stack ! 3)\<lparr>min_free := 200, tracked := 1\<rparr> \<and>
   TASK_STACK_WARN_PCT \<le> stack_pct demo_thread"
proof -
  have n: "si_name (s_task_stack ! 3) = ''rod''" "3 < length s_task_stack" by (simp_all add: s_task_stack_def stack_item_def)
  have t: "stack_addr demo_thread" "stack_size demo_thread = 2048" by (simp_all add: demo_thread_def)
  have s: "scanned ''rod'' (concat [[demo_thread]]) = [200]"
    by (simp add: scanned_def thread_skipped_def demo_thread_free) (simp add: demo_thread_def)
  from stack_supervision [OF n(2) t(1), of "[[demo_thread]]"]
  show ?thesis unfolding Let_def n(1) s t(2) demo_thread_free by (simp del: passes.simps)
qed

end
