(* ===== verification/Thread_Laws.thy ===== *)
theory Thread_Laws
  imports Firmware_Laws Task_Set_Laws
begin

text \<open>
  The threads of the firmware and the starvation check of the one-second report: the start-up fills
  the heartbeat table with the six threads it creates, every round of a periodic thread renews its
  own entry and no other step changes it, so the report names a thread exactly when its rounds have
  stopped for more than five seconds.
\<close>

section \<open>The table after start-up\<close>

definition start_ops :: "task_kernel \<Rightarrow> u32 \<Rightarrow> u32 \<Rightarrow> u32 \<Rightarrow> task_op list" where
  "start_ops K t1 t2 t3 =
     [CreateOp ''act'' 2048 15 0 (k_create K ''act'') (k_started K ''act'') t1,
      CreateOp ''canary'' 256 2 500 (k_create K ''canary'') (k_started K ''canary'') t2,
      CreateOp ''dev'' 512 18 500 (k_create K ''dev'') (k_started K ''dev'') t3,
      CreateOp ''led'' 256 19 2000 (k_create K ''led'') (k_started K ''led'') t3,
      CreateOp ''di'' 2048 18 50 (k_create K ''di'') (k_started K ''di'') t3,
      CreateOp ''rod'' 2048 18 100 (k_create K ''rod'') (k_started K ''rod'') t3]"

lemma main_start_tasks:
  assumes "main_start E (w, p) = Some f"
  shows "fw_kernel f = be_kernel E \<and> fw_stacks f = s_task_stack \<and> (\<exists>t1 t2 t3. fw_tasks f = task_run (start_ops (be_kernel E) t1 t2 t3) task_set_zero)"
  using assms
  by (auto simp: main_start_def Let_def case_prod_beta register_all Led_Task_Start_def Dev_Start_def Di_Task_Start_def Rod_Task_Start_def
      Task_Set_Start_def start_ops_def split: option.splits) (intro exI, rule refl)

text \<open>What the property relies on of the kernel: the six threads can be created and have handles of their own.\<close>

definition kernel_ok :: "task_kernel \<Rightarrow> bool" where
  "kernel_ok K \<longleftrightarrow> list_all (\<lambda>nm. k_create K nm \<noteq> None) [''act'', ''canary'', ''dev'', ''led'', ''di'', ''rod''] \<and>
     distinct (map (k_create K) [''act'', ''canary'', ''dev'', ''led'', ''di'', ''rod'']) \<and> k_startup K = (\<lambda>_. RT_EOK)"

definition thread_table :: "(string \<times> u8 \<times> u32) list" where
  "thread_table = [(''act'', 15, 0), (''canary'', 2, 500), (''dev'', 18, 500), (''led'', 19, 2000), (''di'', 18, 50), (''rod'', 18, 100)]"

definition life_ok :: "task_kernel \<Rightarrow> life \<Rightarrow> bool" where
  "life_ok K m \<longleftrightarrow>
     (\<forall>t nm pr be l. m t = Some (nm, pr, be, l) \<longrightarrow> k_create K nm = Some t \<and> (nm, pr, be) \<in> set thread_table) \<and>
     (\<forall>(nm, pr, be) \<in> set thread_table. \<exists>t l. k_create K nm = Some t \<and> m t = Some (nm, pr, be, l))"

lemma life_okD: "life_ok K m \<Longrightarrow> m t = Some (nm, pr, be, l) \<Longrightarrow> k_create K nm = Some t \<and> (nm, pr, be) \<in> set thread_table"
  unfolding life_ok_def by blast

lemma kernel_handles:
  assumes "kernel_ok K"
  obtains a c d l i r where "k_create K ''act'' = Some a" "k_create K ''canary'' = Some c" "k_create K ''dev'' = Some d"
    "k_create K ''led'' = Some l" "k_create K ''di'' = Some i" "k_create K ''rod'' = Some r" "distinct [a, c, d, l, i, r]"
    "k_startup K = (\<lambda>_. RT_EOK)"
  using assms unfolding kernel_ok_def by fastforce

lemma start_life:
  assumes "kernel_ok K"
  shows "beats_ok (task_run (start_ops K t1 t2 t3) task_set_zero) \<and> life_ok K (life_of (task_run (start_ops K t1 t2 t3) task_set_zero))"
proof -
  obtain a c d l i r where h: "k_create K ''act'' = Some a" "k_create K ''canary'' = Some c" "k_create K ''dev'' = Some d"
    "k_create K ''led'' = Some l" "k_create K ''di'' = Some i" "k_create K ''rod'' = Some r" "distinct [a, c, d, l, i, r]"
    "k_startup K = (\<lambda>_. RT_EOK)" using kernel_handles [OF assms] .
  have z: "life_of task_set_zero = Map.empty" "beats_ok task_set_zero" "s_beat_num task_set_zero = 0"
    by (simp_all add: life_of_def used_slots_def beats_ok_def task_set_zero_def)
  have hs: "handles (start_ops K t1 t2 t3) = [a, c, d, l, i, r]" using h by (simp add: start_ops_def)
  have run: "life_run (start_ops K t1 t2 t3) Map.empty =
      [a \<mapsto> (''act'', 15, 0, t1), c \<mapsto> (''canary'', 2, 500, t2), d \<mapsto> (''dev'', 18, 500, t3), l \<mapsto> (''led'', 19, 2000, t3),
       i \<mapsto> (''di'', 18, 50, t3), r \<mapsto> (''rod'', 18, 100, t3)]"
    using h by (simp add: start_ops_def k_started_def create_ok_def)
  have "life_ok K (life_run (start_ops K t1 t2 t3) Map.empty)"
    unfolding run life_ok_def thread_table_def using h by (auto split: if_splits)
  then show ?thesis using task_run_life [OF z(2), of "start_ops K t1 t2 t3"] z hs h(7) by simp
qed

section \<open>Rounds and the table\<close>

lemma life_beat:
  assumes "beats_ok ts"
  shows "beats_ok (Task_Set_Beat self tick ts)" "life_of (Task_Set_Beat self tick ts) = life_step (BeatOp self tick) (life_of ts)"
  using task_step_life [OF assms, of "BeatOp self tick"] by simp_all

lemma life_step_ok: "life_ok K m \<Longrightarrow> life_ok K (life_step (BeatOp self tick) m)"
  by (cases "m self") (fastforce simp: life_ok_def)+

lemma event_tasks: "fw_event H f f' \<Longrightarrow> fw_tasks f' = fw_tasks f \<and> fw_kernel f' = fw_kernel f"
  by (induction rule: fw_event.induct) simp_all

lemma round_tasks: "fw_round H name f f' \<Longrightarrow> fw_tasks f' = fw_tasks f \<and> fw_kernel f' = fw_kernel f"
  by (induction rule: fw_round.induct) simp_all

definition tasks_inv :: "fw \<Rightarrow> bool" where
  "tasks_inv f \<longleftrightarrow> beats_ok (fw_tasks f) \<and> life_ok (fw_kernel f) (life_of (fw_tasks f))"

lemma beat_tasks_inv: "tasks_inv f \<Longrightarrow> tasks_inv (fw_beat self f)"
  by (simp add: tasks_inv_def fw_beat_def life_beat life_step_ok del: life_step.simps)

lemma step_tasks_inv:
  assumes "fw_step H f f'" "tasks_inv f"
  shows "tasks_inv f' \<and> fw_kernel f' = fw_kernel f"
  using assms(1)
proof cases
  case event
  then show ?thesis using event_tasks assms(2) by (simp add: tasks_inv_def)
next
  case (round name g self)
  then have "tasks_inv g" "fw_kernel g = fw_kernel f" using round_tasks assms(2) by (auto simp: tasks_inv_def)
  then show ?thesis using round beat_tasks_inv by (simp add: fw_beat_def)
qed

lemma reach_tasks_inv: "fw_reach H f \<Longrightarrow> kernel_ok (fw_kernel f) \<Longrightarrow> tasks_inv f"
proof (induction rule: fw_reach.induct)
  case (start w E p f)
  then show ?case using main_start_tasks [OF start(5)] start_life [of "be_kernel E"] by (auto simp: tasks_inv_def)
next
  case (step f f')
  have "fw_kernel f' = fw_kernel f" using step(2) by cases (auto simp: fw_beat_def event_tasks round_tasks)
  then show ?case using step step_tasks_inv by simp
qed

text \<open>Every step but a round of the thread \<open>name\<close>.\<close>

inductive fw_other :: "efm_hw \<Rightarrow> string \<Rightarrow> fw \<Rightarrow> fw \<Rightarrow> bool" for H name where
  event: "fw_event H f f' \<Longrightarrow> fw_other H name f f'"
| round: "fw_round H nm f f' \<Longrightarrow> runs f nm self \<Longrightarrow> nm \<noteq> name \<Longrightarrow> fw_other H name f (fw_beat self f')"

abbreviation periodic :: "string set" where "periodic \<equiv> {''canary'', ''dev'', ''led'', ''di'', ''rod''}"

lemma round_periodic: "fw_round H name f f' \<Longrightarrow> name \<in> periodic"
  by (induction rule: fw_round.induct) simp_all

lemma kernel_inj:
  assumes "kernel_ok K" "nm \<in> periodic" "nm' \<in> periodic" "k_create K nm = k_create K nm'"
  shows "nm = nm'"
proof -
  have "inj_on (k_create K) (set [''act'', ''canary'', ''dev'', ''led'', ''di'', ''rod''])"
    using assms(1) unfolding kernel_ok_def distinct_map by blast
  then show ?thesis by (rule inj_onD) (use assms(2-4) in auto)
qed

lemma other_keeps:
  assumes "fw_other H name f f'" "kernel_ok (fw_kernel f)" "tasks_inv f" "name \<in> periodic" "k_create (fw_kernel f) name = Some h"
  shows "tasks_inv f' \<and> fw_kernel f' = fw_kernel f \<and> life_of (fw_tasks f') h = life_of (fw_tasks f) h"
  using assms(1)
proof cases
  case event
  then show ?thesis using event_tasks assms(3) by (simp add: tasks_inv_def)
next
  case (round nm g self)
  have g: "fw_tasks g = fw_tasks f" "fw_kernel g = fw_kernel f" using round_tasks [OF round(2)] by auto
  have "self \<noteq> h" using kernel_inj [OF assms(2) round_periodic [OF round(2)] assms(4)] round(3,4) assms(5) by (auto simp: runs_def)
  then have "life_of (fw_tasks f') h = life_of (fw_tasks f) h"
    using life_beat(2) assms(3) g round(1) by (simp add: fw_beat_def tasks_inv_def split: option.split)
  moreover have "tasks_inv f'" using assms(3) g round(1) beat_tasks_inv [of g self] by (simp add: tasks_inv_def)
  ultimately show ?thesis using round(1) g by (simp add: fw_beat_def)
qed

lemma others_keep:
  assumes "(fw_other H name)\<^sup>*\<^sup>* f f'" "kernel_ok (fw_kernel f)" "tasks_inv f" "name \<in> periodic" "k_create (fw_kernel f) name = Some h"
  shows "tasks_inv f' \<and> fw_kernel f' = fw_kernel f \<and> life_of (fw_tasks f') h = life_of (fw_tasks f) h"
  using assms(1)
proof (induction rule: rtranclp_induct)
  case (step g g')
  then show ?case using other_keeps [OF step(2)] assms(2,4,5) by simp
qed (simp add: assms)

lemma report_lines:
  assumes "tasks_inv f"
  shows "line \<in> set (fst (fst (monitor_sample_1s threads (fw_w f, fw_tasks f, fw_stacks f)))) \<longleftrightarrow>
    (\<exists>t nm pr be l. line = (nm, pr, now (fw_w f) - l, be) \<and> life_of (fw_tasks f) t = Some (nm, pr, be, l) \<and> be \<noteq> 0 \<and> l \<noteq> 0 \<and> now (fw_w f) - l > 5000)"
  using starved_set [of "fw_tasks f" "now (fw_w f)"] assms by (simp add: monitor_sample_1s_def case_prod_beta Let_def tasks_inv_def)

lemma report_named:
  assumes "tasks_inv f"
  shows "nm \<in> fst ` set (fst (fst (monitor_sample_1s threads (fw_w f, fw_tasks f, fw_stacks f)))) \<longleftrightarrow>
    (\<exists>t pr be l. life_of (fw_tasks f) t = Some (nm, pr, be, l) \<and> be \<noteq> 0 \<and> l \<noteq> 0 \<and> now (fw_w f) - l > 5000)"
  unfolding image_iff Bex_def report_lines [OF assms] by auto

text \<open>
  C12. A thread that stops is reported and a living one is not. In any run of the firmware whose six
  task threads could be created, the one-second report names the canary, the device, LED, input or
  rod thread exactly when more than 5000 ticks have passed since its last round, whatever else ran
  since; the exception of the code is a last round on tick 0. It never names any other thread: the
  arbitration thread has no heartbeat period, and the threads of the system machine and of the main
  loop are not in the table.
\<close>

theorem stopped_thread_reported:
  assumes "fw_reach H f" "kernel_ok (fw_kernel f)" "fw_round H name f f1" "runs f name self" "now (fw_w f1) \<noteq> 0"
    "(fw_other H name)\<^sup>*\<^sup>* (fw_beat self f1) f2"
  shows "let named = fst ` set (fst (fst (monitor_sample_1s threads (fw_w f2, fw_tasks f2, fw_stacks f2)))) in
    (name \<in> named \<longleftrightarrow> now (fw_w f2) - now (fw_w f1) > 5000) \<and> named \<subseteq> {''canary'', ''dev'', ''led'', ''di'', ''rod''}"
proof -
  have i: "tasks_inv f" by (rule reach_tasks_inv [OF assms(1,2)])
  have g: "fw_tasks f1 = fw_tasks f" "fw_kernel f1 = fw_kernel f" using round_tasks [OF assms(3)] by auto
  have n: "name \<in> periodic" by (rule round_periodic [OF assms(3)])
  then obtain pr be l where t: "(name, pr, be) \<in> set thread_table" "be \<noteq> 0" "life_of (fw_tasks f) self = Some (name, pr, be, l)"
    using i assms(4) by (fastforce simp: tasks_inv_def life_ok_def thread_table_def runs_def)
  have b: "tasks_inv (fw_beat self f1)" using i g by (intro beat_tasks_inv) (simp add: tasks_inv_def)
  have "life_of (fw_tasks (fw_beat self f1)) self = Some (name, pr, be, now (fw_w f1))"
    using life_beat(2) [of "fw_tasks f" self] i g t(3) by (simp add: fw_beat_def tasks_inv_def)
  then have f2: "tasks_inv f2" "fw_kernel f2 = fw_kernel f" "life_of (fw_tasks f2) self = Some (name, pr, be, now (fw_w f1))"
    using others_keep [OF assms(6) _ b n, of self] assms(2,4) g by (auto simp: fw_beat_def runs_def)
  have "k_create (fw_kernel f) nm = Some t \<and> (nm, pr', be') \<in> set thread_table" if "life_of (fw_tasks f2) t = Some (nm, pr', be', l')" for t nm pr' be' l'
    using life_okD [of "fw_kernel f" "life_of (fw_tasks f2)"] that f2(1,2) by (simp add: tasks_inv_def)
  note k = this
  moreover have "k_create (fw_kernel f) name = Some self" using assms(4) by (simp add: runs_def)
  ultimately have u: "t = self" if "life_of (fw_tasks f2) t = Some (name, pr', be', l')" for t pr' be' l' using that by fastforce
  have p: "nm \<in> periodic" if "life_of (fw_tasks f2) t = Some (nm, pr', be', l')" "be' \<noteq> 0" for t nm pr' be' l'
    using k [OF that(1)] that(2) by (auto simp: thread_table_def)
  have "name \<in> fst ` set (fst (fst (monitor_sample_1s threads (fw_w f2, fw_tasks f2, fw_stacks f2)))) \<longleftrightarrow> now (fw_w f2) - now (fw_w f1) > 5000"
    unfolding report_named [OF f2(1)]
  proof
    assume "\<exists>t pr be l. life_of (fw_tasks f2) t = Some (name, pr, be, l) \<and> be \<noteq> 0 \<and> l \<noteq> 0 \<and> now (fw_w f2) - l > 5000"
    then obtain t' pr' be' l' where l: "life_of (fw_tasks f2) t' = Some (name, pr', be', l')" "now (fw_w f2) - l' > 5000" by blast
    then show "now (fw_w f2) - now (fw_w f1) > 5000" using u [OF l(1)] f2(3) by simp
  qed (use t(2) f2(3) assms(5) in blast)
  moreover have "fst ` set (fst (fst (monitor_sample_1s threads (fw_w f2, fw_tasks f2, fw_stacks f2)))) \<subseteq> periodic"
    using p report_named [OF f2(1)] by blast
  ultimately show ?thesis unfolding Let_def by blast
qed

section \<open>The canary stops\<close>

lemma demo_kernel: "kernel_ok (be_kernel demo_env)"
  by (simp add: kernel_ok_def demo_env_def)

lemma ticks_other: "(fw_other H name)\<^sup>*\<^sup>* f (f\<lparr>fw_w := (fw_w f)\<lparr>now := now (fw_w f) + of_nat n\<rparr>\<rparr>)"
proof (induction n)
  case (Suc n)
  let ?g = "f\<lparr>fw_w := (fw_w f)\<lparr>now := now (fw_w f) + of_nat n\<rparr>\<rparr>"
  have "fw_other H name ?g (?g\<lparr>fw_w := (fw_w ?g)\<lparr>now := now (fw_w ?g) + 1\<rparr>\<rparr>)" by (intro fw_other.event fw_event.tick)
  with Suc show ?case by (rule rtranclp.rtrancl_into_rtrancl [THEN back_subst [of "(fw_other H name)\<^sup>*\<^sup>* f"]]) (simp add: ac_simps)
qed simp

lemma param_init_now: "now (fst (snd (Dev_Param_Init H (w, p)))) = now w"
  by (simp add: Dev_Param_Init_def Let_def case_prod_beta Param_ApplyToDevices_def Param_ApplyDirSeq_def)

lemma demo_start_time:
  assumes "main_start E (w, p) = Some f"
  shows "now (fw_w f) = now w"
  using assms
  by (auto simp: main_start_def Let_def case_prod_beta register_all Led_Task_Start_def App_Model_Init_def Sys_Event_Send_def Sys_State_Init_def
      StateMachine_Init_def sys_ptr_def init_all_fields param_init_now split: option.splits if_splits)

theorem stopped_thread_reported_witness:
  "\<exists>f f2. fw_reach (nor_hw []) f \<and> (fw_other (nor_hw []) ''canary'')\<^sup>*\<^sup>* (fw_beat 2 f) f2 \<and>
     ''canary'' \<in> fst ` set (fst (fst (monitor_sample_1s [] (fw_w f2, fw_tasks f2, fw_stacks f2))))"
proof -
  obtain f where f: "main_start demo_env (demo_cold, demo_dev) = Some f" using main_start_total [of demo_env] by (auto simp: demo_env_def)
  have k: "fw_kernel f = be_kernel demo_env" using main_start_tasks [OF f] by simp
  have r: "fw_reach (nor_hw []) f"
    by (rule fw_reach.start [OF demo_cold _ _ _ f]) (simp_all add: demo_env_def)
  have n: "now (fw_w f) = 5" using demo_start_time [OF f] by (simp add: demo_cold_def demo_sys_def)
  let ?f2 = "(fw_beat 2 f)\<lparr>fw_w := (fw_w (fw_beat 2 f))\<lparr>now := now (fw_w (fw_beat 2 f)) + of_nat 5001\<rparr>\<rparr>"
  have o: "(fw_other (nor_hw []) ''canary'')\<^sup>*\<^sup>* (fw_beat 2 f) ?f2" by (rule ticks_other)
  have "runs f ''canary'' 2" by (simp add: runs_def k demo_env_def)
  from stopped_thread_reported [OF r _ fw_round.canary this _ o, of "[]"]
  have "''canary'' \<in> fst ` set (fst (fst (monitor_sample_1s [] (fw_w ?f2, fw_tasks ?f2, fw_stacks ?f2))))"
    using demo_kernel k n by (simp add: Let_def fw_beat_def)
  then show ?thesis using r o by blast
qed

end
