(* ===== verification/Power_Laws.thy ===== *)
theory Power_Laws
  imports Power_Sense
begin

text \<open>
  Laws of the supply supervision over sequences of 1 ms samples: a voltage fault is left after
  exactly the configured number of samples back in range and never earlier, the events sent are
  exactly the fault changes, and over-current trips after the blanking time plus a full window.
\<close>

section \<open>Sequences of samples\<close>

fun bv_run :: "VoltCfg_t \<Rightarrow> f32 option list \<Rightarrow> bus_voltage \<Rightarrow> bus_voltage \<times> u32 list" where
  "bv_run cfg [] s = (s, [])"
| "bv_run cfg (x # xs) s =
     (let (s1, es) = BusVoltage_Isr1ms cfg x s; (s2, fs) = bv_run cfg xs s1 in (s2, es @ fs))"

fun cs_run :: "CurCfg_t \<Rightarrow> f32 option list \<Rightarrow> cur_sensor \<Rightarrow> cur_sensor \<times> u32 list" where
  "cs_run cfg [] s = (s, [])"
| "cs_run cfg (x # xs) s =
     (let (s1, es) = CurrentSensor_Isr1ms cfg x s; (s2, fs) = cs_run cfg xs s1 in (s2, es @ fs))"

text \<open>The voltage and the current a sample stands for.\<close>

definition bus_volt :: "f32 option \<Rightarrow> f32" where
  "bus_volt x = fadd (case x of Some v \<Rightarrow> v | None \<Rightarrow> F_ZERO) VOL_OFFSET_V"

definition motor_ma :: "f32 option \<Rightarrow> f32" where
  "motor_ma x = fmul (fsub (case x of Some v \<Rightarrow> v | None \<Rightarrow> F_ZERO) F_ZERO) CUR_SENSITIVITY_MA_PER_V"

text \<open>The consumer's reading of the voltage events: the fault it believes present.\<close>

fun volt_track :: "u32 list \<Rightarrow> u8 \<Rightarrow> u8" where
  "volt_track [] f = f"
| "volt_track (e # es) f =
     volt_track es (if e = EVT_SYS_VOLT_OVER then VS_OVER else if e = EVT_SYS_VOLT_UNDER then VS_UNDER
                    else if e = EVT_SYS_VOLT_NORMAL then VS_NORMAL else f)"

section \<open>One voltage sample\<close>

lemma bv_run_append:
  "bv_run cfg (xs @ ys) s = (let (s1, es) = bv_run cfg xs s; (s2, fs) = bv_run cfg ys s1 in (s2, es @ fs))"
  by (induction xs arbitrary: s) (auto simp: Let_def case_prod_beta)

lemma volt_track_append: "volt_track (es @ fs) f = volt_track fs (volt_track es f)"
  by (induction es f rule: volt_track.induct) auto

definition fault_known :: "bus_voltage \<Rightarrow> bool" where
  "fault_known s \<longleftrightarrow> s_u8Fault s \<in> {VS_NORMAL, VS_UNDER, VS_OVER}"

lemma Isr1ms_track:
  assumes "fault_known s" and "BusVoltage_Isr1ms cfg x s = (s', es)"
  shows "fault_known s'" and "volt_track es (s_u8Fault s) = s_u8Fault s'" and "bv_status s' = s_u8Fault s'"
  using assms
  by (auto simp: BusVoltage_Isr1ms_def bv_detect_def fault_known_def Let_def split: if_splits)

lemma bv_run_track:
  assumes "fault_known s"
  shows "fault_known (fst (bv_run cfg xs s)) \<and>
     volt_track (snd (bv_run cfg xs s)) (s_u8Fault s) = s_u8Fault (fst (bv_run cfg xs s))"
  using assms
proof (induction xs arbitrary: s)
  case (Cons x xs)
  obtain s1 es where s1: "BusVoltage_Isr1ms cfg x s = (s1, es)" by fastforce
  from Isr1ms_track [OF Cons.prems s1] Cons.IH [of s1] s1 show ?case
    by (simp add: Let_def case_prod_beta volt_track_append)
qed simp

section \<open>Recovery\<close>

text \<open>The fields of the recovery counter after one sample of a faulty state.\<close>

lemma Isr1ms_recover:
  assumes "s_u8Fault s \<noteq> 0" and "volt_recover cfg (s_u8Fault s) (bus_volt x)"
  shows "s_u8Waiting s = 0 \<Longrightarrow> \<exists>s'. BusVoltage_Isr1ms cfg x s = (s', [EVT_SYS_VOLT_RECOVER_WAIT]) \<and>
      s_u8Fault s' = s_u8Fault s \<and> s_u8Waiting s' = 1 \<and> s_u32RecoverCnt s' = 0"
    and "s_u8Waiting s \<noteq> 0 \<Longrightarrow> s_u32RecoverCnt s + 1 < recover_ms cfg \<Longrightarrow>
      \<exists>s'. BusVoltage_Isr1ms cfg x s = (s', []) \<and> s_u8Fault s' = s_u8Fault s \<and>
        s_u8Waiting s' = s_u8Waiting s \<and> s_u32RecoverCnt s' = s_u32RecoverCnt s + 1"
    and "s_u8Waiting s \<noteq> 0 \<Longrightarrow> recover_ms cfg \<le> s_u32RecoverCnt s + 1 \<Longrightarrow>
      \<exists>s'. BusVoltage_Isr1ms cfg x s = (s', [EVT_SYS_VOLT_NORMAL]) \<and> s_u8Fault s' = 0"
  using assms by (auto simp: BusVoltage_Isr1ms_def bv_detect_def bus_volt_def Let_def not_le)

lemma u32_count:
  assumes "k < unat (r :: u32)"
  shows "unat (of_nat k + 1 :: u32) = Suc k"
proof -
  have "Suc k < 2 ^ 32" using assms unsigned_less [of r, where ?'a = nat] by simp
  then have "unat (of_nat (Suc k) :: u32) = Suc k" by (intro unat_less_of_nat) simp
  moreover have "(of_nat (Suc k) :: u32) = of_nat k + 1" by simp
  ultimately show ?thesis by metis
qed

text \<open>From the moment the voltage is back in range with \<open>k\<close> counted, \<open>N - k\<close> more samples clear the fault.\<close>

definition recover_samples :: "VoltCfg_t \<Rightarrow> nat" where
  "recover_samples cfg = max 1 (unat (recover_ms cfg))"

lemma recover_waiting:
  assumes "s_u8Fault s = f" and "f \<noteq> 0" and "s_u8Waiting s = 1" and "s_u32RecoverCnt s = of_nat k"
    and "k < recover_samples cfg" and "\<forall>x \<in> set xs. volt_recover cfg f (bus_volt x)"
    and "length xs \<le> recover_samples cfg - k"
  shows "(length xs = recover_samples cfg - k \<longrightarrow>
            s_u8Fault (fst (bv_run cfg xs s)) = 0 \<and> snd (bv_run cfg xs s) = [EVT_SYS_VOLT_NORMAL]) \<and>
         (length xs < recover_samples cfg - k \<longrightarrow>
            s_u8Fault (fst (bv_run cfg xs s)) = f \<and> snd (bv_run cfg xs s) = [])"
  using assms
proof (induction xs arbitrary: s k)
  case Nil
  then show ?case by simp
next
  case (Cons x xs)
  have rec: "s_u8Fault s \<noteq> 0" "volt_recover cfg (s_u8Fault s) (bus_volt x)" "s_u8Waiting s \<noteq> 0"
    using Cons.prems by auto
  show ?case
  proof (cases "Suc k < recover_samples cfg")
    case True
    then have "k < unat (recover_ms cfg)" by (auto simp: recover_samples_def max_def split: if_splits)
    then have c: "unat (s_u32RecoverCnt s + 1) = Suc k" using u32_count Cons.prems(4) by metis
    then have "s_u32RecoverCnt s + 1 < recover_ms cfg"
      using True by (auto simp: word_less_nat_alt recover_samples_def max_def split: if_splits)
    from Isr1ms_recover(2) [OF rec this] obtain s1 where s1: "BusVoltage_Isr1ms cfg x s = (s1, [])"
      "s_u8Fault s1 = f" "s_u8Waiting s1 = 1" "s_u32RecoverCnt s1 = of_nat (Suc k)"
      using Cons.prems(1,3,4) by (auto simp: add.commute)
    from Cons.IH [OF s1(2) Cons.prems(2) s1(3,4) True] Cons.prems(6,7) s1(1) show ?thesis
      by (auto simp: Let_def case_prod_beta)
  next
    case False
    then have last: "recover_samples cfg = Suc k" using Cons.prems(5) by simp
    then have "xs = []" using Cons.prems(7) by simp
    moreover have "recover_ms cfg \<le> s_u32RecoverCnt s + 1"
    proof (cases "unat (recover_ms cfg) = 0")
      case True
      then show ?thesis by (simp add: word_le_nat_alt)
    next
      case False
      then have "k < unat (recover_ms cfg)" using last by (simp add: recover_samples_def)
      then have "unat (s_u32RecoverCnt s + 1) = Suc k" using u32_count Cons.prems(4) by metis
      then show ?thesis using last by (simp add: word_le_nat_alt recover_samples_def)
    qed
    ultimately show ?thesis using Isr1ms_recover(3) [OF rec] last Cons.prems(7) by auto
  qed
qed

text \<open>
  A fault in force with the counter idle: \<open>recover_samples + 1\<close> samples in range clear it, one
  announces the wait and the last one the recovery; fewer do not.
\<close>

lemma recover_exact:
  assumes "s_u8Fault s = f" and "f \<noteq> 0" and "s_u8Waiting s = 0"
    and "\<forall>x \<in> set xs. volt_recover cfg f (bus_volt x)" and "xs \<noteq> []"
    and "length xs \<le> Suc (recover_samples cfg)"
  shows "if length xs = Suc (recover_samples cfg)
         then s_u8Fault (fst (bv_run cfg xs s)) = 0 \<and>
              snd (bv_run cfg xs s) = [EVT_SYS_VOLT_RECOVER_WAIT, EVT_SYS_VOLT_NORMAL]
         else s_u8Fault (fst (bv_run cfg xs s)) = f \<and> snd (bv_run cfg xs s) = [EVT_SYS_VOLT_RECOVER_WAIT]"
proof -
  obtain y ys where xs: "xs = y # ys" using assms(5) by (cases xs) auto
  from Isr1ms_recover(1) [of s cfg y] assms xs obtain s1 where s1:
    "BusVoltage_Isr1ms cfg y s = (s1, [EVT_SYS_VOLT_RECOVER_WAIT])"
    "s_u8Fault s1 = f" "s_u8Waiting s1 = 1" "s_u32RecoverCnt s1 = of_nat 0" by auto
  have "0 < recover_samples cfg" by (simp add: recover_samples_def)
  from recover_waiting [OF s1(2) assms(2) s1(3,4) this, of ys] assms xs s1(1) show ?thesis
    by (auto simp: Let_def case_prod_beta)
qed

section \<open>No early recovery\<close>

text \<open>What the counter says about the past samples: that many, and the one that started it, were in range.\<close>

definition recover_hist :: "VoltCfg_t \<Rightarrow> f32 option list \<Rightarrow> bus_voltage \<Rightarrow> bool" where
  "recover_hist cfg past s \<longleftrightarrow> s_u8Waiting s = 0 \<or>
     (s_u8Waiting s = 1 \<and> s_u8Fault s \<noteq> 0 \<and>
      (\<exists>older recent. past = older @ recent \<and> length recent = Suc (unat (s_u32RecoverCnt s)) \<and>
        (\<forall>x \<in> set recent. volt_recover cfg (s_u8Fault s) (bus_volt x))) \<and>
      unat (s_u32RecoverCnt s) < recover_samples cfg)"

lemma Isr1ms_hist:
  assumes "recover_hist cfg past s" and "BusVoltage_Isr1ms cfg x s = (s', es)"
  shows "recover_hist cfg (past @ [x]) s'"
proof (cases "s_u8Fault s \<noteq> 0 \<and> volt_recover cfg (s_u8Fault s) (bus_volt x)")
  case False
  then have "s_u8Waiting s' = 0"
    using assms by (auto simp: BusVoltage_Isr1ms_def bv_detect_def bus_volt_def recover_hist_def Let_def
        split: if_splits)
  then show ?thesis by (simp add: recover_hist_def)
next
  case True
  show ?thesis
  proof (cases "s_u8Waiting s = 0")
    case w: True
    then obtain t where "s' = t" "s_u8Fault t = s_u8Fault s" "s_u8Waiting t = 1" "s_u32RecoverCnt t = 0"
      using Isr1ms_recover(1) [of s cfg x] True assms(2) by auto
    then show ?thesis using True unfolding recover_hist_def
      by (intro disjI2 conjI exI [of _ past] exI [of _ "[x]"]) (auto simp: recover_samples_def)
  next
    case w: False
    then obtain older recent where h: "past = older @ recent" "s_u8Waiting s = 1"
      "length recent = Suc (unat (s_u32RecoverCnt s))" "\<forall>y \<in> set recent. volt_recover cfg (s_u8Fault s) (bus_volt y)"
      using assms(1) by (auto simp: recover_hist_def)
    show ?thesis
    proof (cases "s_u32RecoverCnt s + 1 < recover_ms cfg")
      case less: True
      then obtain t where t: "s' = t" "s_u8Fault t = s_u8Fault s" "s_u8Waiting t = 1" "s_u32RecoverCnt t = s_u32RecoverCnt s + 1"
        using Isr1ms_recover(2) [of s cfg x] True w h(2) assms(2) by auto
      have "unat (s_u32RecoverCnt s) < unat (recover_ms cfg)"
        using assms(1) w less by (auto simp: recover_hist_def recover_samples_def max_def word_less_nat_alt split: if_splits)
      then have "unat (s_u32RecoverCnt s + 1) = Suc (unat (s_u32RecoverCnt s))"
        using u32_count [of "unat (s_u32RecoverCnt s)"] by simp
      then show ?thesis
        using t h True less unfolding recover_hist_def
        by (intro disjI2 conjI exI [of _ older] exI [of _ "recent @ [x]"])
          (auto simp: word_less_nat_alt recover_samples_def)
    next
      case False
      then have "s_u8Waiting s' = 0"
        using True w assms(2)
        by (auto simp: BusVoltage_Isr1ms_def bv_detect_def bus_volt_def Let_def split: if_splits)
      then show ?thesis by (simp add: recover_hist_def)
    qed
  qed
qed

lemma bv_run_hist:
  "recover_hist cfg past s \<Longrightarrow> recover_hist cfg (past @ xs) (fst (bv_run cfg xs s))"
proof (induction xs arbitrary: s past)
  case (Cons x xs)
  obtain s1 es where s1: "BusVoltage_Isr1ms cfg x s = (s1, es)" by fastforce
  from Cons.IH [OF Isr1ms_hist [OF Cons.prems s1]] s1 show ?case by (simp add: Let_def case_prod_beta)
qed simp

text \<open>A sample that ends a fault is preceded by a full recovery time in range.\<close>

lemma Isr1ms_clear_cause:
  assumes "recover_hist cfg past s" and "s_u8Fault s \<noteq> 0" and "s_u8Fault (fst (BusVoltage_Isr1ms cfg x s)) = 0"
  shows "\<exists>older recent. past @ [x] = older @ recent \<and> length recent = Suc (recover_samples cfg) \<and>
     (\<forall>y \<in> set recent. volt_recover cfg (s_u8Fault s) (bus_volt y))"
proof -
  have w: "s_u8Waiting s \<noteq> 0" and r: "volt_recover cfg (s_u8Fault s) (bus_volt x)"
    and c: "recover_ms cfg \<le> s_u32RecoverCnt s + 1"
    using assms(2,3) by (auto simp: BusVoltage_Isr1ms_def bv_detect_def bus_volt_def Let_def split: if_splits)
  obtain older recent where h: "past = older @ recent" "length recent = Suc (unat (s_u32RecoverCnt s))"
    "\<forall>y \<in> set recent. volt_recover cfg (s_u8Fault s) (bus_volt y)" "unat (s_u32RecoverCnt s) < recover_samples cfg"
    using assms(1) w by (auto simp: recover_hist_def)
  have "Suc (unat (s_u32RecoverCnt s)) = recover_samples cfg"
  proof (cases "unat (recover_ms cfg) = 0")
    case True
    then show ?thesis using h(4) by (simp add: recover_samples_def)
  next
    case False
    then have "unat (s_u32RecoverCnt s) < unat (recover_ms cfg)" using h(4) by (simp add: recover_samples_def)
    then have "unat (s_u32RecoverCnt s + 1) = Suc (unat (s_u32RecoverCnt s))"
      using u32_count [of "unat (s_u32RecoverCnt s)"] by simp
    with c h(4) False show ?thesis by (simp add: word_le_nat_alt recover_samples_def)
  qed
  with h r show ?thesis by (intro exI [of _ older] exI [of _ "recent @ [x]"]) auto
qed

section \<open>Over-current\<close>

lemma cs_step_blocked:
  "s_u16BlockMs s \<noteq> 0 \<Longrightarrow> CurrentSensor_Isr1ms cfg x s =
     (s\<lparr>s_fCurrMa := motor_ma x, s_u16BlockMs := s_u16BlockMs s - 1, s_u16OverMs := 0, cs_status := 0\<rparr>, [])"
  by (simp add: CurrentSensor_Isr1ms_def motor_ma_def Let_def)

lemma u16_count:
  assumes "k < unat (r :: u16)"
  shows "unat (of_nat k + 1 :: u16) = Suc k"
proof -
  have "Suc k < 2 ^ 16" using assms unsigned_less [of r, where ?'a = nat] by simp
  then have "unat (of_nat (Suc k) :: u16) = Suc k" by (intro unat_less_of_nat) simp
  moreover have "(of_nat (Suc k) :: u16) = of_nat k + 1" by simp
  ultimately show ?thesis by metis
qed

definition window_samples :: "CurCfg_t \<Rightarrow> nat" where
  "window_samples cfg = max 1 (unat (window_ms cfg))"

text \<open>Once tripped, the sensor stays tripped without further events while the current stays high.\<close>

lemma cs_run_tripped:
  assumes "s_u16BlockMs s = 0" and "cs_status s = 1" and "unat (window_ms cfg) \<le> unat (s_u16OverMs s)"
    and "\<forall>x \<in> set xs. fgt (motor_ma x) (over_th_ma cfg)"
  shows "snd (cs_run cfg xs s) = [] \<and> cs_status (fst (cs_run cfg xs s)) = 1"
  using assms
proof (induction xs arbitrary: s)
  case (Cons x xs)
  then have "CurrentSensor_Isr1ms cfg x s = (s\<lparr>s_fCurrMa := motor_ma x\<rparr>, [])"
    by (simp add: CurrentSensor_Isr1ms_def motor_ma_def Let_def word_less_nat_alt word_le_nat_alt)
  with Cons show ?case by (simp add: Let_def case_prod_beta)
qed simp

lemma cs_run_window:
  assumes "s_u16BlockMs s = 0" and "cs_status s = 0" and "s_u16OverMs s = of_nat k" and "k < window_samples cfg"
    and "\<forall>x \<in> set xs. fgt (motor_ma x) (over_th_ma cfg)"
  shows "snd (cs_run cfg xs s) = (if length xs \<ge> window_samples cfg - k then [EVT_SYS_OVER_CURRENT] else []) \<and>
     cs_status (fst (cs_run cfg xs s)) = (if length xs \<ge> window_samples cfg - k then 1 else 0)"
  using assms
proof (induction xs arbitrary: s k)
  case Nil
  then show ?case by simp
next
  case (Cons x xs)
  have over: "fgt (motor_ma x) (over_th_ma cfg)" using Cons.prems by simp
  show ?case
  proof (cases "window_ms cfg = 0")
    case True
    then have step: "CurrentSensor_Isr1ms cfg x s =
        (s\<lparr>s_fCurrMa := motor_ma x, cs_status := 1, s_fFaultMa := motor_ma x\<rparr>, [EVT_SYS_OVER_CURRENT])"
      using over Cons.prems by (simp add: CurrentSensor_Isr1ms_def motor_ma_def Let_def)
    have "k = 0" using True Cons.prems(4) by (simp add: window_samples_def)
    with step cs_run_tripped [of "s\<lparr>s_fCurrMa := motor_ma x, cs_status := 1, s_fFaultMa := motor_ma x\<rparr>" cfg xs]
      True Cons.prems show ?thesis by (simp add: Let_def case_prod_beta window_samples_def)
  next
    case False
    then have k: "k < unat (window_ms cfg)" "window_samples cfg = unat (window_ms cfg)"
      using Cons.prems(4) by (auto simp: window_samples_def max_def not_le unat_eq_zero split: if_splits)
    have c: "unat (s_u16OverMs s + 1) = Suc k" using u16_count [OF k(1)] Cons.prems(3) by metis
    have less: "s_u16OverMs s < window_ms cfg"
      using k Cons.prems(3) unsigned_less [of "window_ms cfg", where ?'a = nat]
      by (simp add: word_less_nat_alt unat_of_nat take_bit_nat_eq_self)
    show ?thesis
    proof (cases "Suc k < unat (window_ms cfg)")
      case True
      then have step: "CurrentSensor_Isr1ms cfg x s = (s\<lparr>s_fCurrMa := motor_ma x, s_u16OverMs := of_nat (Suc k)\<rparr>, [])"
        using over less c Cons.prems(1,2,3)
        by (simp add: CurrentSensor_Isr1ms_def motor_ma_def Let_def word_le_nat_alt add.commute)
      then show ?thesis
        using Cons.IH [of "s\<lparr>s_fCurrMa := motor_ma x, s_u16OverMs := of_nat (Suc k)\<rparr>" "Suc k"] Cons.prems k True
        by (auto simp: Let_def case_prod_beta)
    next
      case False
      let ?t = "s\<lparr>s_fCurrMa := motor_ma x, s_u16OverMs := s_u16OverMs s + 1, cs_status := 1, s_fFaultMa := motor_ma x\<rparr>"
      have step: "CurrentSensor_Isr1ms cfg x s = (?t, [EVT_SYS_OVER_CURRENT])"
        using False over less c k Cons.prems(1,2)
        by (simp add: CurrentSensor_Isr1ms_def motor_ma_def Let_def word_le_nat_alt)
      then show ?thesis
        using cs_run_tripped [of ?t cfg xs] Cons.prems k False c by (simp add: Let_def case_prod_beta)
    qed
  qed
qed

lemma cs_run_blanking:
  assumes "unat (s_u16BlockMs s) = b" and "cs_status s = 0" and "s_u16OverMs s = 0"
    and "\<forall>x \<in> set xs. fgt (motor_ma x) (over_th_ma cfg)"
  shows "snd (cs_run cfg xs s) = (if length xs \<ge> b + window_samples cfg then [EVT_SYS_OVER_CURRENT] else [])"
  using assms
proof (induction b arbitrary: s xs)
  case 0
  then have "s_u16BlockMs s = 0" by (simp add: unat_eq_zero)
  with cs_run_window [of s 0 cfg xs] 0 show ?case by (simp add: window_samples_def)
next
  case (Suc b)
  show ?case
  proof (cases xs)
    case Nil
    then show ?thesis by (simp add: window_samples_def)
  next
    case (Cons x ys)
    have nz: "s_u16BlockMs s \<noteq> 0" using Suc.prems(1) by auto
    then have "unat (s_u16BlockMs s - 1) = b" using Suc.prems(1) by (simp add: unat_minus_one)
    with Suc.IH [of "s\<lparr>s_fCurrMa := motor_ma x, s_u16BlockMs := s_u16BlockMs s - 1, s_u16OverMs := 0, cs_status := 0\<rparr>" ys]
      Suc.prems Cons cs_step_blocked [OF nz] show ?thesis by (simp add: Let_def case_prod_beta)
  qed
qed

section \<open>Properties of the supply supervision\<close>

definition demo_volt_cfg :: VoltCfg_t where
  "demo_volt_cfg = \<lparr>over_th = f_lit 26 1, under_th = f_lit 20 1, hyst = f_lit 1 1, recover_ms = 2\<rparr>"

definition demo_bv :: bus_voltage where
  "demo_bv = \<lparr>s_fVolt = 0, bv_status = 1, s_u8SeenValid = 0, s_u8Fault = 1, s_u8Waiting = 0,
     s_u32RecoverCnt = 0, s_fFaultVolt = 0\<rparr>"

text \<open>
  C27. A voltage fault whose recovery has not started is left after exactly
  \<open>max 1 recover_ms + 1\<close> consecutive samples back in range: the first sends the notice that the
  wait has begun, the last one \<open>EVT_SYS_VOLT_NORMAL\<close>, and any shorter run leaves the fault in force.
\<close>

theorem bus_fault_recovers_exactly:
  assumes "s_u8Fault s \<noteq> 0" and "s_u8Waiting s = 0" and "xs \<noteq> []"
    and "\<forall>x \<in> set xs. volt_recover cfg (s_u8Fault s) (bus_volt x)"
    and "length xs \<le> Suc (max 1 (unat (recover_ms cfg)))"
  shows "if length xs = Suc (max 1 (unat (recover_ms cfg)))
         then s_u8Fault (fst (bv_run cfg xs s)) = 0 \<and>
              snd (bv_run cfg xs s) = [EVT_SYS_VOLT_RECOVER_WAIT, EVT_SYS_VOLT_NORMAL]
         else s_u8Fault (fst (bv_run cfg xs s)) = s_u8Fault s \<and> snd (bv_run cfg xs s) = [EVT_SYS_VOLT_RECOVER_WAIT]"
  using recover_exact [OF refl assms(1,2,4,3)] assms(5) by (simp add: recover_samples_def)

theorem bus_fault_recovers_exactly_witness:
  "s_u8Fault (fst (bv_run demo_volt_cfg [Some (f_lit 24 1), Some (f_lit 24 1), Some (f_lit 24 1)] demo_bv)) = 0"
proof -
  have "volt_recover demo_volt_cfg 1 (bus_volt (Some (f_lit 24 1)))" by code_simp
  then show ?thesis
    using bus_fault_recovers_exactly [of demo_bv "[Some (f_lit 24 1), Some (f_lit 24 1), Some (f_lit 24 1)]" demo_volt_cfg]
    by (simp add: demo_bv_def demo_volt_cfg_def)
qed

text \<open>
  No early recovery: from the state \<open>BusVoltage_Init\<close> leaves, a fault in force that the next
  sample ends has been preceded by \<open>max 1 recover_ms + 1\<close> consecutive samples (that sample
  included) beyond the threshold by the hysteresis.
\<close>

theorem bus_fault_no_early_recovery:
  assumes "s_u8Fault (fst (bv_run cfg xs (BusVoltage_Init s))) = f" and "f \<noteq> 0"
    and "s_u8Fault (fst (bv_run cfg (xs @ [x]) (BusVoltage_Init s))) = 0"
  shows "\<exists>older recent. xs @ [x] = older @ recent \<and> length recent = Suc (max 1 (unat (recover_ms cfg))) \<and>
     (\<forall>y \<in> set recent. volt_recover cfg f (bus_volt y))"
proof -
  have "recover_hist cfg [] (BusVoltage_Init s)" by (simp add: recover_hist_def BusVoltage_Init_def)
  then have h: "recover_hist cfg xs (fst (bv_run cfg xs (BusVoltage_Init s)))"
    using bv_run_hist by (metis append_Nil)
  have "s_u8Fault (fst (BusVoltage_Isr1ms cfg x (fst (bv_run cfg xs (BusVoltage_Init s))))) = 0"
    using assms(3) by (simp add: bv_run_append Let_def case_prod_beta)
  from Isr1ms_clear_cause [OF h _ this] assms(1,2) show ?thesis by (simp add: recover_samples_def)
qed

theorem bus_fault_no_early_recovery_witness:
  "\<exists>older recent. [Some (f_lit 10 1), Some (f_lit 24 1), Some (f_lit 24 1), Some (f_lit 24 1)] = older @ recent \<and>
     length recent = 3 \<and> (\<forall>y \<in> set recent. volt_recover demo_volt_cfg 1 (bus_volt y))"
proof -
  let ?xs = "[Some (f_lit 10 1), Some (f_lit 24 1), Some (f_lit 24 1)] :: f32 option list"
  have a: "s_u8Fault (fst (bv_run demo_volt_cfg ?xs (BusVoltage_Init demo_bv))) = 1" by code_simp
  have b: "s_u8Fault (fst (bv_run demo_volt_cfg (?xs @ [Some (f_lit 24 1)]) (BusVoltage_Init demo_bv))) = 0"
    by code_simp
  have "unat (recover_ms demo_volt_cfg) = 2" by (simp add: demo_volt_cfg_def)
  with bus_fault_no_early_recovery [OF a _ b] show ?thesis by (simp add: numeral_3_eq_3)
qed

text \<open>
  The events are a faithful account of the fault: a consumer that replays the voltage events
  of any run of samples knows the fault in force at its end, and every sample publishes that
  fault as the status.
\<close>

theorem bus_events_track_fault:
  assumes "s_u8Fault s \<in> {VS_NORMAL, VS_UNDER, VS_OVER}"
  shows "volt_track (snd (bv_run cfg xs s)) (s_u8Fault s) = s_u8Fault (fst (bv_run cfg xs s)) \<and>
     (xs \<noteq> [] \<longrightarrow> bv_status (fst (bv_run cfg xs s)) = s_u8Fault (fst (bv_run cfg xs s)))"
proof -
  have k: "fault_known s" using assms by (simp add: fault_known_def)
  have "bv_status (fst (bv_run cfg xs s)) = s_u8Fault (fst (bv_run cfg xs s))" if "xs \<noteq> []"
    using that k
  proof (induction xs arbitrary: s)
    case (Cons x xs)
    obtain s1 es where s1: "BusVoltage_Isr1ms cfg x s = (s1, es)" by fastforce
    from Isr1ms_track [OF Cons.prems(2) s1] Cons.IH [of s1] s1 show ?case
      by (cases "xs = []") (simp_all add: Let_def case_prod_beta)
  qed simp
  then show ?thesis using bv_run_track [OF k] by simp
qed

theorem bus_events_track_fault_witness:
  "volt_track (snd (bv_run demo_volt_cfg [Some (f_lit 30 1)] (BusVoltage_Init demo_bv))) 0 = VS_OVER"
proof -
  have "s_u8Fault (fst (bv_run demo_volt_cfg [Some (f_lit 30 1)] (BusVoltage_Init demo_bv))) = VS_OVER" by code_simp
  then show ?thesis
    using bus_events_track_fault [of "BusVoltage_Init demo_bv" demo_volt_cfg "[Some (f_lit 30 1)]"]
    by (simp add: BusVoltage_Init_def)
qed

text \<open>
  C28. Over-current: from rest, with \<open>b\<close> ms of blanking outstanding and every sample above the
  threshold, the single event \<open>EVT_SYS_OVER_CURRENT\<close> is sent exactly when \<open>b + max 1 window_ms\<close>
  samples have been taken, and never again while the current stays high.
\<close>

theorem over_current_trips_exactly:
  assumes "cs_status s = 0" and "s_u16OverMs s = 0"
    and "\<forall>x \<in> set xs. fgt (motor_ma x) (over_th_ma cfg)"
  shows "snd (cs_run cfg xs s) =
     (if length xs \<ge> unat (s_u16BlockMs s) + max 1 (unat (window_ms cfg)) then [EVT_SYS_OVER_CURRENT] else [])"
  using cs_run_blanking [OF refl assms] by (simp add: window_samples_def)

definition demo_cs :: cur_sensor where
  "demo_cs = \<lparr>s_u16BlockMs = 1, s_fCurrMa = 0, cs_status = 0, s_u16OverMs = 0, s_fFaultMa = 0\<rparr>"

definition demo_cur_cfg :: CurCfg_t where
  "demo_cur_cfg = \<lparr>over_th_ma = f_lit 1000 1, window_ms = 2, block_ms = 30\<rparr>"

theorem over_current_trips_exactly_witness:
  "snd (cs_run demo_cur_cfg [Some (f_lit 3 1), Some (f_lit 3 1), Some (f_lit 3 1)] demo_cs) = [EVT_SYS_OVER_CURRENT]"
proof -
  have "fgt (motor_ma (Some (f_lit 3 1))) (over_th_ma demo_cur_cfg)" by code_simp
  then show ?thesis
    using over_current_trips_exactly [of demo_cs "[Some (f_lit 3 1), Some (f_lit 3 1), Some (f_lit 3 1)]" demo_cur_cfg]
    by (simp add: demo_cs_def demo_cur_cfg_def)
qed

end
