(* ===== verification/Hall_Rod.thy ===== *)
theory Hall_Rod
  imports Debounce Dev_Events
begin

text \<open>
  The rod limit Hall sensors, \<^verbatim>\<open>Dev/dev_hall_rod/dev_hall_rod.c\<close>: two pins debounced by 3-point
  windows, and a third window on "both low", whose rising edge sends the limit fault event.
\<close>

abbreviation ROD_HALL_WIN_SIZE :: u8 where "ROD_HALL_WIN_SIZE \<equiv> 3"

record hall_rod =
  s_maxWin :: sample_win
  s_minWin :: sample_win
  s_ftWin :: sample_win
  s_atMax :: bool
  s_atMin :: bool
  s_fault :: bool
  hr_bInit :: u8
  g_rodhall_dbg :: u8

definition RodHall_WinPush :: "sample_win \<Rightarrow> bool \<Rightarrow> sample_win" where "RodHall_WinPush w b = win_push ROD_HALL_WIN_SIZE b w"
definition RodHall_WinAllOne :: "sample_win \<Rightarrow> bool" where "RodHall_WinAllOne = win_all_one ROD_HALL_WIN_SIZE"
definition RodHall_WinAllZero :: "sample_win \<Rightarrow> bool" where "RodHall_WinAllZero = win_all_zero ROD_HALL_WIN_SIZE"

definition RodHall_Init :: "hall_rod \<Rightarrow> hall_rod" where
  "RodHall_Init s = \<lparr>s_maxWin = win_reset, s_minWin = win_reset, s_ftWin = win_reset, s_atMax = False,
     s_atMin = False, s_fault = False, hr_bInit = 1, g_rodhall_dbg = 0\<rparr>"

definition RodHall_Scan :: "bool \<Rightarrow> bool \<Rightarrow> hall_rod \<Rightarrow> hall_rod \<times> u32 list" where
  "RodHall_Scan mx mn s =
     (if hr_bInit s = 0 then (s, [])
      else
        let mw = RodHall_WinPush (s_maxWin s) mx;
            nw = RodHall_WinPush (s_minWin s) mn;
            fw = RodHall_WinPush (s_ftWin s) (\<not> (mx \<or> mn));
            at_max = (if RodHall_WinAllOne mw then True else if RodHall_WinAllZero mw then False else s_atMax s);
            at_min = (if RodHall_WinAllOne nw then True else if RodHall_WinAllZero nw then False else s_atMin s);
            fault_now = RodHall_WinAllOne fw
        in (s\<lparr>s_maxWin := mw, s_minWin := nw, s_ftWin := fw, s_atMax := at_max, s_atMin := at_min, s_fault := fault_now,
              g_rodhall_dbg := (if at_max then 1 else 0) OR (if at_min then 2 else 0) OR (if fault_now then 4 else 0)\<rparr>,
            if fault_now \<and> \<not> s_fault s then [EVT_SYS_ROD_LIMIT_FAULT] else []))"

definition RodHall_IsAtMax :: "hall_rod \<Rightarrow> bool" where "RodHall_IsAtMax s = s_atMax s"
definition RodHall_IsAtMin :: "hall_rod \<Rightarrow> bool" where "RodHall_IsAtMin s = s_atMin s"
definition RodHall_IsFault :: "hall_rod \<Rightarrow> bool" where "RodHall_IsFault s = s_fault s"

text \<open>Successive scans of the pins, oldest first, with the events they send.\<close>

fun rh_run :: "(bool \<times> bool) list \<Rightarrow> hall_rod \<Rightarrow> hall_rod \<times> u32 list" where
  "rh_run [] s = (s, [])"
| "rh_run ((mx, mn) # xs) s =
     (let (s1, es) = RodHall_Scan mx mn s; (s2, fs) = rh_run xs s1 in (s2, es @ fs))"

lemma rh_run_snoc:
  "rh_run (xs @ [(mx, mn)]) s =
     (let (s1, es) = rh_run xs s; (s2, fs) = RodHall_Scan mx mn s1 in (s2, es @ fs))"
proof (induction xs arbitrary: s)
  case (Cons x xs)
  then show ?case by (cases x) (simp add: Let_def case_prod_beta)
qed simp

lemma rh_run_state:
  "hr_bInit (fst (rh_run xs (RodHall_Init s))) = 1 \<and>
   s_ftWin (fst (rh_run xs (RodHall_Init s))) = win_run ROD_HALL_WIN_SIZE (map (\<lambda>(a, b). \<not> (a \<or> b)) xs) \<and>
   (s_fault (fst (rh_run xs (RodHall_Init s))) \<longleftrightarrow>
      win_all_one ROD_HALL_WIN_SIZE (win_run ROD_HALL_WIN_SIZE (map (\<lambda>(a, b). \<not> (a \<or> b)) xs)))"
proof (induction xs rule: rev_induct)
  case Nil
  then show ?case by (simp add: RodHall_Init_def win_all_one_def win_full_def win_reset_def)
next
  case (snoc x xs)
  obtain mx mn where x: "x = (mx, mn)" by fastforce
  from snoc show ?case
    by (simp add: x rh_run_snoc Let_def case_prod_beta RodHall_Scan_def RodHall_WinPush_def RodHall_WinAllOne_def)
qed

lemma both_low_windows:
  "map (\<lambda>(a, b). \<not> (a \<or> b)) (replicate n (False, False)) = replicate n True"
  "win_all_one ROD_HALL_WIN_SIZE (win_run ROD_HALL_WIN_SIZE (replicate n True)) \<longleftrightarrow> n = 3"
proof -
  have "(\<forall>k < min 16 n. k < 3) \<longleftrightarrow> n \<le> 3" by (auto dest: spec [of _ 3])
  then show "win_all_one ROD_HALL_WIN_SIZE (win_run ROD_HALL_WIN_SIZE (replicate n True)) \<longleftrightarrow> n = 3"
    by (auto simp: win_all_one_run)
qed simp

lemma both_low_fault: "s_fault (fst (rh_run (replicate n (False, False)) (RodHall_Init s))) \<longleftrightarrow> n = 3"
  using rh_run_state [of "replicate n (False, False)" s] by (simp add: both_low_windows)

lemma both_low_step:
  "snd (RodHall_Scan False False (fst (rh_run (replicate n (False, False)) (RodHall_Init s)))) =
     (if Suc n = 3 then [EVT_SYS_ROD_LIMIT_FAULT] else [])"
proof -
  let ?s = "fst (rh_run (replicate n (False, False)) (RodHall_Init s))"
  have st: "hr_bInit ?s = 1" "s_ftWin ?s = win_run ROD_HALL_WIN_SIZE (replicate n True)"
    using rh_run_state [of "replicate n (False, False)" s] by (simp_all add: both_low_windows)
  have "win_push ROD_HALL_WIN_SIZE True (s_ftWin ?s) = win_run ROD_HALL_WIN_SIZE (replicate (Suc n) True)"
    using win_run_snoc [of ROD_HALL_WIN_SIZE "replicate n True" True] by (simp add: st replicate_append_same)
  then have "RodHall_WinAllOne (RodHall_WinPush (s_ftWin ?s) True) \<longleftrightarrow> Suc n = 3"
    by (simp only: RodHall_WinAllOne_def RodHall_WinPush_def both_low_windows)
  then show ?thesis using st both_low_fault [of n s] by (auto simp: RodHall_Scan_def Let_def)
qed

text \<open>
  The limit fault is not held: with both sensors low from initialisation on, the fault flag
  is set by the third scan only and is down again from the fourth scan on, and the fault event
  is sent once.
\<close>

theorem rod_hall_fault_not_held:
  "(s_fault (fst (rh_run (replicate n (False, False)) (RodHall_Init s))) \<longleftrightarrow> n = 3) \<and>
   snd (rh_run (replicate n (False, False)) (RodHall_Init s)) = (if 3 \<le> n then [EVT_SYS_ROD_LIMIT_FAULT] else [])"
proof (intro conjI both_low_fault)
  show "snd (rh_run (replicate n (False, False)) (RodHall_Init s)) = (if 3 \<le> n then [EVT_SYS_ROD_LIMIT_FAULT] else [])"
  proof (induction n)
    case (Suc n)
    have "snd (rh_run (replicate (Suc n) (False, False)) (RodHall_Init s)) =
        snd (rh_run (replicate n (False, False)) (RodHall_Init s)) @ (if Suc n = 3 then [EVT_SYS_ROD_LIMIT_FAULT] else [])"
      using rh_run_snoc [of "replicate n (False, False)" False False "RodHall_Init s"] both_low_step [of n s]
      by (simp add: replicate_append_same Let_def case_prod_beta del: rh_run.simps)
    with Suc show ?case by auto
  qed simp
qed

end
