(* ===== verification/Kernel_Mq.thy ===== *)
theory Kernel_Mq
  imports Rt_Ipc
begin

text \<open>
  The message queue of the kernel, \<^verbatim>\<open>rt-thread/src/ipc.c\<close>, at the level of its message blocks: a
  pool of blocks, each with a link to the next one, a list of the queued blocks with its head and
  tail, a list of the free ones, and the two lists of suspended threads. A block is its number in
  the pool. The functions leave the critical section while they copy a message, so an interrupt or
  another thread may use the queue in between; the parts between two changes of the interrupt
  mask are separate functions here, and the calls are their composition. A call that has to wait
  ends in \<open>Suspended\<close> with the caller in the list of waiting threads; it runs again when it is
  resumed. Assertions on the arguments, hooks and the scheduler call are left out.
\<close>

section \<open>Waiting threads\<close>

record ipc_waiter =
  wt_thread :: nat
  wt_priority :: u8

datatype ipc_flag = RT_IPC_FLAG_FIFO | RT_IPC_FLAG_PRIO

text \<open>\<open>_ipc_list_suspend\<close>: at the end, or before the first thread with a larger priority number.\<close>

fun prio_insert :: "'a ipc_waiter_scheme \<Rightarrow> 'a ipc_waiter_scheme list \<Rightarrow> 'a ipc_waiter_scheme list" where
  "prio_insert t [] = [t]"
| "prio_insert t (s # ss) = (if wt_priority t < wt_priority s then t # s # ss else s # prio_insert t ss)"

definition ipc_list_suspend :: "ipc_flag \<Rightarrow> 'a ipc_waiter_scheme \<Rightarrow> 'a ipc_waiter_scheme list \<Rightarrow> 'a ipc_waiter_scheme list" where
  "ipc_list_suspend flag t ts = (case flag of RT_IPC_FLAG_FIFO \<Rightarrow> ts @ [t] | RT_IPC_FLAG_PRIO \<Rightarrow> prio_insert t ts)"

lemma set_prio_insert [simp]: "set (prio_insert t ts) = insert t (set ts)"
  by (induction ts) auto

lemma set_ipc_list_suspend [simp]: "set (ipc_list_suspend flag t ts) = insert t (set ts)"
  by (cases flag) (auto simp: ipc_list_suspend_def)

text \<open>\<open>_ipc_list_resume\<close> on a list that is not empty: the first thread leaves the list.\<close>

definition ipc_list_resume :: "ipc_waiter list \<Rightarrow> ipc_waiter option \<times> ipc_waiter list" where
  "ipc_list_resume ts = (case ts of [] \<Rightarrow> (None, []) | t # ts' \<Rightarrow> (Some t, ts'))"

section \<open>The queue\<close>

abbreviation RT_MQ_ENTRY_MAX :: u16 where "RT_MQ_ENTRY_MAX \<equiv> 0xFFFF"

record rt_messagequeue =
  mq_flag :: ipc_flag
  mq_suspend_thread :: "ipc_waiter list"
  msg_next :: "nat option list"
  msg_data :: "u8 list list"
  mq_msg_size :: u16
  mq_max_msgs :: u16
  mq_entry :: u16
  msg_queue_head :: "nat option"
  msg_queue_tail :: "nat option"
  msg_queue_free :: "nat option"
  suspend_sender_thread :: "ipc_waiter list"

text \<open>\<open>RT_ALIGN\<close> to four bytes.\<close>

definition rt_align4 :: "u32 \<Rightarrow> u32" where "rt_align4 sz = (sz + 4 - 1) AND NOT (4 - 1)"

text \<open>The loop that links the blocks into the free list.\<close>

definition mq_free_list :: "nat \<Rightarrow> nat option list \<Rightarrow> nat option list \<times> nat option" where
  "mq_free_list n nexts = fold (\<lambda>temp (xs, free). (xs[temp := free], Some temp)) [0 ..< n] (nexts, None)"

text \<open>
  \<open>rt_mq_create\<close>; \<open>pool\<close> is what the allocation returns, \<open>None\<close> for NULL: the links and the bytes
  that happen to be there.
\<close>

definition ipc_mq_create ::
  "bool \<Rightarrow> (nat option list \<times> u8 list list) option \<Rightarrow> u32 \<Rightarrow> u16 \<Rightarrow> ipc_flag \<Rightarrow> rt_messagequeue option" where
  "ipc_mq_create object pool msg_size max_msgs flag =
     (if \<not> object then None
      else case pool of
        None \<Rightarrow> None
      | Some (nexts, bytes) \<Rightarrow>
          let (nx, free) = mq_free_list (unat max_msgs) nexts
          in Some \<lparr>mq_flag = flag, mq_suspend_thread = [], msg_next = nx, msg_data = bytes, mq_msg_size = ucast (rt_align4 msg_size),
               mq_max_msgs = max_msgs, mq_entry = 0, msg_queue_head = None, msg_queue_tail = None, msg_queue_free = free,
               suspend_sender_thread = []\<rparr>)"

section \<open>The parts between two changes of the interrupt mask\<close>

definition mq_take_free :: "rt_messagequeue \<Rightarrow> (nat \<times> rt_messagequeue) option" where
  "mq_take_free mq = (case msg_queue_free mq of None \<Rightarrow> None | Some msg \<Rightarrow> Some (msg, mq\<lparr>msg_queue_free := msg_next mq ! msg\<rparr>))"

text \<open>\<open>rt_memcpy\<close> into a block: the bytes of the buffer, and behind them what the block held.\<close>

definition mq_copy_in :: "nat \<Rightarrow> u8 list \<Rightarrow> rt_messagequeue \<Rightarrow> rt_messagequeue" where
  "mq_copy_in msg buffer mq = mq\<lparr>msg_data := (msg_data mq)[msg := buffer @ drop (length buffer) (msg_data mq ! msg)]\<rparr>"

definition mq_fill_tail :: "nat \<Rightarrow> u8 list \<Rightarrow> rt_messagequeue \<Rightarrow> rt_messagequeue" where
  "mq_fill_tail msg buffer mq = mq_copy_in msg buffer (mq\<lparr>msg_next := (msg_next mq)[msg := None]\<rparr>)"

text \<open>The end both senders share: count the message, wake the first receiver.\<close>

definition mq_count :: "rt_messagequeue \<Rightarrow> rt_err_t \<times> ipc_waiter option \<times> rt_messagequeue" where
  "mq_count mq =
     (if mq_entry mq < RT_MQ_ENTRY_MAX then
        let (t, ts) = ipc_list_resume (mq_suspend_thread mq)
        in (RT_EOK, t, mq\<lparr>mq_entry := mq_entry mq + 1, mq_suspend_thread := ts\<rparr>)
      else (- RT_EFULL, None, mq))"

definition mq_link_tail :: "nat \<Rightarrow> rt_messagequeue \<Rightarrow> rt_err_t \<times> ipc_waiter option \<times> rt_messagequeue" where
  "mq_link_tail msg mq =
     (let mq1 = (case msg_queue_tail mq of Some t \<Rightarrow> mq\<lparr>msg_next := (msg_next mq)[t := Some msg]\<rparr> | None \<Rightarrow> mq);
          mq2 = mq1\<lparr>msg_queue_tail := Some msg\<rparr>
      in mq_count (if msg_queue_head mq2 = None then mq2\<lparr>msg_queue_head := Some msg\<rparr> else mq2))"

definition mq_link_head :: "nat \<Rightarrow> rt_messagequeue \<Rightarrow> rt_err_t \<times> ipc_waiter option \<times> rt_messagequeue" where
  "mq_link_head msg mq =
     (let mq1 = mq\<lparr>msg_next := (msg_next mq)[msg := msg_queue_head mq], msg_queue_head := Some msg\<rparr>
      in mq_count (if msg_queue_tail mq1 = None then mq1\<lparr>msg_queue_tail := Some msg\<rparr> else mq1))"

text \<open>The first block leaves the queue; \<open>None\<close> when the queue is empty.\<close>

definition mq_unlink :: "rt_messagequeue \<Rightarrow> (nat \<times> rt_messagequeue) option" where
  "mq_unlink mq =
     (if mq_entry mq = 0 then None
      else case msg_queue_head mq of
        None \<Rightarrow> None
      | Some msg \<Rightarrow>
          let mq1 = mq\<lparr>msg_queue_head := msg_next mq ! msg\<rparr>;
              mq2 = (if msg_queue_tail mq1 = Some msg then mq1\<lparr>msg_queue_tail := None\<rparr> else mq1)
          in Some (msg, mq2\<lparr>mq_entry := mq_entry mq2 - 1\<rparr>))"

definition mq_copy_out :: "nat \<Rightarrow> nat \<Rightarrow> rt_messagequeue \<Rightarrow> u8 list" where
  "mq_copy_out msg sz mq = take (if sz > unat (mq_msg_size mq) then unat (mq_msg_size mq) else sz) (msg_data mq ! msg)"

definition mq_release :: "nat \<Rightarrow> rt_messagequeue \<Rightarrow> ipc_waiter option \<times> rt_messagequeue" where
  "mq_release msg mq =
     (let (t, ts) = ipc_list_resume (suspend_sender_thread mq)
      in (t, mq\<lparr>msg_next := (msg_next mq)[msg := msg_queue_free mq], msg_queue_free := Some msg, suspend_sender_thread := ts\<rparr>))"

section \<open>The calls\<close>

datatype ipc_result = Returned rt_err_t | Suspended

definition ipc_mq_send_wait ::
  "ipc_waiter \<Rightarrow> int \<Rightarrow> u8 list \<Rightarrow> rt_messagequeue \<Rightarrow> ipc_result \<times> ipc_waiter option \<times> rt_messagequeue" where
  "ipc_mq_send_wait self timeout buffer mq =
     (if length buffer > unat (mq_msg_size mq) then (Returned (- RT_ERROR), None, mq)
      else case mq_take_free mq of
        None \<Rightarrow>
          if timeout = 0 then (Returned (- RT_EFULL), None, mq)
          else (Suspended, None, mq\<lparr>suspend_sender_thread := ipc_list_suspend (mq_flag mq) self (suspend_sender_thread mq)\<rparr>)
      | Some (msg, mq1) \<Rightarrow>
          let (ret, woken, mq2) = mq_link_tail msg (mq_fill_tail msg buffer mq1) in (Returned ret, woken, mq2))"

definition ipc_mq_send :: "ipc_waiter \<Rightarrow> u8 list \<Rightarrow> rt_messagequeue \<Rightarrow> ipc_result \<times> ipc_waiter option \<times> rt_messagequeue" where
  "ipc_mq_send self buffer mq = ipc_mq_send_wait self 0 buffer mq"

definition ipc_mq_urgent :: "u8 list \<Rightarrow> rt_messagequeue \<Rightarrow> rt_err_t \<times> ipc_waiter option \<times> rt_messagequeue" where
  "ipc_mq_urgent buffer mq =
     (if length buffer > unat (mq_msg_size mq) then (- RT_ERROR, None, mq)
      else case mq_take_free mq of
        None \<Rightarrow> (- RT_EFULL, None, mq)
      | Some (msg, mq1) \<Rightarrow> mq_link_head msg (mq_copy_in msg buffer mq1))"

definition ipc_mq_recv ::
  "ipc_waiter \<Rightarrow> nat \<Rightarrow> int \<Rightarrow> rt_messagequeue \<Rightarrow> ipc_result \<times> u8 list \<times> ipc_waiter option \<times> rt_messagequeue" where
  "ipc_mq_recv self sz timeout mq =
     (case mq_unlink mq of
        None \<Rightarrow>
          if timeout = 0 then (Returned (- RT_ETIMEOUT), [], None, mq)
          else (Suspended, [], None, mq\<lparr>mq_suspend_thread := ipc_list_suspend (mq_flag mq) self (mq_suspend_thread mq)\<rparr>)
      | Some (msg, mq1) \<Rightarrow>
          let buffer = mq_copy_out msg sz mq1; (woken, mq2) = mq_release msg mq1 in (Returned RT_EOK, buffer, woken, mq2))"

text \<open>\<open>rt_mq_control\<close> with \<open>RT_IPC_CMD_RESET\<close>: all waiting threads are resumed, all blocks freed.\<close>

fun mq_drain :: "nat \<Rightarrow> rt_messagequeue \<Rightarrow> rt_messagequeue" where
  "mq_drain 0 mq = mq"
| "mq_drain (Suc n) mq =
     (case msg_queue_head mq of
        None \<Rightarrow> mq
      | Some msg \<Rightarrow>
          let mq1 = mq\<lparr>msg_queue_head := msg_next mq ! msg\<rparr>;
              mq2 = (if msg_queue_tail mq1 = Some msg then mq1\<lparr>msg_queue_tail := None\<rparr> else mq1)
          in mq_drain n (mq2\<lparr>msg_next := (msg_next mq2)[msg := msg_queue_free mq2], msg_queue_free := Some msg\<rparr>))"

definition ipc_mq_reset :: "rt_messagequeue \<Rightarrow> ipc_waiter list \<times> rt_messagequeue" where
  "ipc_mq_reset mq =
     (let mq1 = mq_drain (length (msg_next mq)) (mq\<lparr>mq_suspend_thread := [], suspend_sender_thread := []\<rparr>)
      in (mq_suspend_thread mq @ suspend_sender_thread mq, mq1\<lparr>mq_entry := 0\<rparr>))"

end
