(* ===== verification/Kernel_Mq_Laws.thy ===== *)
theory Kernel_Mq_Laws
  imports Kernel_Mq
begin

text \<open>
  The message queue of the kernel under any interleaving of senders and receivers: every block of
  the pool is at every moment in the queue, in the free list or in the hands of one caller, the
  queue holds the messages in the order in which they were linked, and no message is damaged. The
  calls of a caller that is not interrupted implement the queue of \<open>Rt_Ipc\<close>, which the components
  use.
\<close>

section \<open>Linked blocks\<close>

fun chain :: "nat option list \<Rightarrow> nat option \<Rightarrow> nat list \<Rightarrow> bool" where
  "chain nx p [] \<longleftrightarrow> p = None"
| "chain nx p (b # bs) \<longleftrightarrow> p = Some b \<and> b < length nx \<and> chain nx (nx ! b) bs"

lemma chain_update [simp]: "b \<notin> set bs \<Longrightarrow> chain (nx[b := v]) p bs = chain nx p bs"
  by (induction bs arbitrary: p) auto

lemma chain_less: "chain nx p bs \<Longrightarrow> x \<in> set bs \<Longrightarrow> x < length nx"
  by (induction bs arbitrary: p) auto

lemma chain_snoc:
  "chain nx p bs \<Longrightarrow> distinct (bs @ [b]) \<Longrightarrow> b < length nx \<Longrightarrow> nx ! b = None \<Longrightarrow>
   (if bs = [] then chain nx (Some b) [b] else chain (nx[last bs := Some b]) p (bs @ [b]))"
proof (induction bs arbitrary: p)
  case (Cons a bs)
  show ?case
  proof (cases "bs = []")
    case False
    have "last bs \<in> set bs" using False by simp
    then have "last bs \<noteq> a" using Cons.prems(2) by auto
    then show ?thesis using Cons.IH [of "nx ! a"] Cons.prems False by auto
  qed (use Cons.prems in auto)
qed simp

section \<open>The invariant\<close>

datatype mq_stage = Filling bool "u8 list" | Filled bool "u8 list" | Reading "u8 list"

definition block_holds :: "rt_messagequeue \<Rightarrow> nat \<Rightarrow> u8 list \<Rightarrow> bool" where
  "block_holds q b buf \<longleftrightarrow> take (length buf) (msg_data q ! b) = buf \<and> length buf \<le> unat (mq_msg_size q)"

text \<open>
  What a caller in the middle of a call relies on: the bytes it wrote or is about to read are in
  its block, and the link of a block that is about to become the tail is cleared.
\<close>

definition stage_ok :: "rt_messagequeue \<Rightarrow> nat \<Rightarrow> mq_stage \<Rightarrow> bool" where
  "stage_ok q b st =
     (case st of
        Filling u buf \<Rightarrow> length buf \<le> unat (mq_msg_size q)
      | Filled u buf \<Rightarrow> block_holds q b buf \<and> (u \<or> msg_next q ! b = None)
      | Reading buf \<Rightarrow> block_holds q b buf)"

definition mq_inv :: "rt_messagequeue \<Rightarrow> (nat \<rightharpoonup> mq_stage) \<Rightarrow> u8 list list \<Rightarrow> nat list \<Rightarrow> nat list \<Rightarrow> bool" where
  "mq_inv q fl msgs qs fs \<longleftrightarrow>
     length (msg_next q) = unat (mq_max_msgs q) \<and> length (msg_data q) = unat (mq_max_msgs q) \<and>
     list_all (\<lambda>d. length d = unat (mq_msg_size q)) (msg_data q) \<and>
     chain (msg_next q) (msg_queue_head q) qs \<and> chain (msg_next q) (msg_queue_free q) fs \<and>
     distinct (qs @ fs) \<and> dom fl \<inter> set (qs @ fs) = {} \<and> dom fl \<union> set (qs @ fs) = {..< unat (mq_max_msgs q)} \<and>
     unat (mq_entry q) = length qs \<and> msg_queue_tail q = (if qs = [] then None else Some (last qs)) \<and>
     list_all2 (block_holds q) qs msgs \<and> (\<forall>b st. fl b = Some st \<longrightarrow> stage_ok q b st)"

lemma mq_invI:
  assumes "length (msg_next q) = unat (mq_max_msgs q)" "length (msg_data q) = unat (mq_max_msgs q)"
    "list_all (\<lambda>d. length d = unat (mq_msg_size q)) (msg_data q)"
    "chain (msg_next q) (msg_queue_head q) qs" "chain (msg_next q) (msg_queue_free q) fs"
    "distinct (qs @ fs)" "dom fl \<inter> set (qs @ fs) = {}" "dom fl \<union> set (qs @ fs) = {..< unat (mq_max_msgs q)}"
    "unat (mq_entry q) = length qs" "msg_queue_tail q = (if qs = [] then None else Some (last qs))"
    "list_all2 (block_holds q) qs msgs" "\<And>b st. fl b = Some st \<Longrightarrow> stage_ok q b st"
  shows "mq_inv q fl msgs qs fs"
  using assms by (simp add: mq_inv_def)

lemma mq_invD:
  assumes "mq_inv q fl msgs qs fs"
  shows "length (msg_next q) = unat (mq_max_msgs q)" "length (msg_data q) = unat (mq_max_msgs q)"
    "list_all (\<lambda>d. length d = unat (mq_msg_size q)) (msg_data q)"
    "chain (msg_next q) (msg_queue_head q) qs" "chain (msg_next q) (msg_queue_free q) fs"
    "distinct (qs @ fs)" "dom fl \<inter> set (qs @ fs) = {}" "dom fl \<union> set (qs @ fs) = {..< unat (mq_max_msgs q)}"
    "unat (mq_entry q) = length qs" "msg_queue_tail q = (if qs = [] then None else Some (last qs))"
    "list_all2 (block_holds q) qs msgs" "\<And>b st. fl b = Some st \<Longrightarrow> stage_ok q b st"
  using assms by (simp_all add: mq_inv_def)

text \<open>A block in the hands of a caller is none of the queued or free ones.\<close>

lemma flight_block:
  assumes "mq_inv q fl msgs qs fs" "fl b = Some st"
  shows "b \<notin> set qs" "b \<notin> set fs" "b < length (msg_next q)" "b < length (msg_data q)" "stage_ok q b st" "length qs < unat (mq_max_msgs q)"
proof -
  note i = mq_invD [OF assms(1)]
  have d: "b \<in> dom fl" using assms(2) by auto
  show f: "b \<notin> set qs" "b \<notin> set fs" using d i(7) by auto
  have r: "b \<in> {..< unat (mq_max_msgs q)}" using d i(8) by blast
  then show "b < length (msg_next q)" "b < length (msg_data q)" using i(1,2) by auto
  show "stage_ok q b st" using assms(2) i(12) by blast
  have "set qs \<subset> {..< unat (mq_max_msgs q)}" using f(1) i(8) r by auto
  then have "card (set qs) < card {..< unat (mq_max_msgs q)}" by (intro psubset_card_mono) auto
  then show "length qs < unat (mq_max_msgs q)" using i(6) by (simp add: distinct_card)
qed

lemma holds_fields [simp]:
  "block_holds (q\<lparr>msg_queue_free := x1\<rparr>) = block_holds q" "block_holds (q\<lparr>msg_queue_head := x1\<rparr>) = block_holds q"
  "block_holds (q\<lparr>msg_queue_tail := x1\<rparr>) = block_holds q" "block_holds (q\<lparr>mq_entry := x2\<rparr>) = block_holds q"
  "block_holds (q\<lparr>msg_next := x3\<rparr>) = block_holds q" "block_holds (q\<lparr>mq_suspend_thread := x4\<rparr>) = block_holds q"
  "block_holds (q\<lparr>suspend_sender_thread := x4\<rparr>) = block_holds q"
  by (simp_all add: block_holds_def fun_eq_iff)

lemma stage_fields [simp]:
  "stage_ok (q\<lparr>msg_queue_free := x1\<rparr>) b st = stage_ok q b st" "stage_ok (q\<lparr>msg_queue_head := x1\<rparr>) b st = stage_ok q b st"
  "stage_ok (q\<lparr>msg_queue_tail := x1\<rparr>) b st = stage_ok q b st" "stage_ok (q\<lparr>mq_entry := x2\<rparr>) b st = stage_ok q b st"
  "stage_ok (q\<lparr>mq_suspend_thread := x4\<rparr>) b st = stage_ok q b st" "stage_ok (q\<lparr>suspend_sender_thread := x4\<rparr>) b st = stage_ok q b st"
  by (simp_all add: stage_ok_def split: mq_stage.split)

lemma stage_simps [simp]:
  "stage_ok q b (Filling u buf) \<longleftrightarrow> length buf \<le> unat (mq_msg_size q)"
  "stage_ok q b (Filled u buf) \<longleftrightarrow> block_holds q b buf \<and> (u \<or> msg_next q ! b = None)"
  "stage_ok q b (Reading buf) \<longleftrightarrow> block_holds q b buf"
  by (simp_all add: stage_ok_def)

lemma stage_next: "b \<noteq> c \<Longrightarrow> stage_ok (q\<lparr>msg_next := (msg_next q)[c := v]\<rparr>) b st = stage_ok q b st"
  by (simp add: stage_ok_def split: mq_stage.split)

section \<open>The parts keep it\<close>

lemma take_free_inv:
  assumes i: "mq_inv q fl msgs qs fs" and t: "mq_take_free q = Some (b, q')" and l: "length buf \<le> unat (mq_msg_size q)"
  shows "\<exists>fs'. fs = b # fs' \<and> mq_inv q' (fl(b \<mapsto> Filling u buf)) msgs qs fs'"
proof -
  note j = mq_invD [OF i]
  have free: "msg_queue_free q = Some b" "q' = q\<lparr>msg_queue_free := msg_next q ! b\<rparr>"
    using t by (auto simp: mq_take_free_def split: option.splits)
  obtain fs' where fs: "fs = b # fs'" using j(5) free(1) by (cases fs) auto
  have "mq_inv q' (fl(b \<mapsto> Filling u buf)) msgs qs fs'"
  proof (rule mq_invI)
    fix c st assume "(fl(b \<mapsto> Filling u buf)) c = Some st"
    then show "stage_ok q' c st" using j(12) [of c st] l by (auto simp: free(2) split: if_splits)
  qed (use j in \<open>auto simp: free(2) fs\<close>)
  then show ?thesis using fs by blast
qed

text \<open>Writing into a block in hand.\<close>

lemma copy_in_holds:
  assumes "b < length (msg_data q)" "length buf \<le> unat (mq_msg_size q)"
  shows "block_holds (mq_copy_in b buf q) b buf" "c \<noteq> b \<Longrightarrow> block_holds (mq_copy_in b buf q) c = block_holds q c"
    "c \<noteq> b \<Longrightarrow> stage_ok (mq_copy_in b buf q) c st = stage_ok q c st"
  using assms by (simp_all add: block_holds_def mq_copy_in_def fun_eq_iff stage_ok_def split: mq_stage.split)

lemma copy_in_lengths:
  assumes "list_all (\<lambda>d. length d = unat (mq_msg_size q)) (msg_data q)" "length buf \<le> unat (mq_msg_size q)" "b < length (msg_data q)"
  shows "list_all (\<lambda>d. length d = unat (mq_msg_size q)) (msg_data (mq_copy_in b buf q))"
  using assms by (simp add: mq_copy_in_def list_all_length nth_list_update)

lemma copy_in_fields [simp]:
  "msg_next (mq_copy_in b buf q) = msg_next q" "mq_max_msgs (mq_copy_in b buf q) = mq_max_msgs q" "mq_msg_size (mq_copy_in b buf q) = mq_msg_size q"
  "msg_queue_head (mq_copy_in b buf q) = msg_queue_head q" "msg_queue_tail (mq_copy_in b buf q) = msg_queue_tail q"
  "msg_queue_free (mq_copy_in b buf q) = msg_queue_free q" "mq_entry (mq_copy_in b buf q) = mq_entry q"
  "length (msg_data (mq_copy_in b buf q)) = length (msg_data q)"
  by (simp_all add: mq_copy_in_def)

lemma list_all2_other: "(\<And>c. c \<in> set qs \<Longrightarrow> P c = Q c) \<Longrightarrow> list_all2 P qs ms = list_all2 Q qs ms"
  by (induction qs arbitrary: ms) (auto simp: list_all2_Cons1)

lemma copy_in_inv:
  assumes i: "mq_inv q fl msgs qs fs" and f: "fl b = Some (Filling u buf)"
  shows "mq_inv (mq_copy_in b buf (q\<lparr>msg_next := (msg_next q)[b := v]\<rparr>)) (fl(b \<mapsto> Filled (u \<or> v \<noteq> None) buf)) msgs qs fs"
proof -
  note j = mq_invD [OF i] and fb = flight_block [OF i f]
  let ?q = "q\<lparr>msg_next := (msg_next q)[b := v]\<rparr>"
  have l: "length buf \<le> unat (mq_msg_size ?q)" "b < length (msg_data ?q)" using fb(4,5) by simp_all
  note c = copy_in_holds [OF l(2,1)]
  show ?thesis
  proof (rule mq_invI)
    show "list_all (\<lambda>d. length d = unat (mq_msg_size (mq_copy_in b buf ?q))) (msg_data (mq_copy_in b buf ?q))"
      using copy_in_lengths [OF _ l] j(3) by simp
    show "list_all2 (block_holds (mq_copy_in b buf ?q)) qs msgs"
      by (rule list_all2_other [THEN iffD2, OF _ j(11)]) (metis fb(1) c(2) holds_fields(5))
    fix d st assume "(fl(b \<mapsto> Filled (u \<or> v \<noteq> None) buf)) d = Some st"
    then show "stage_ok (mq_copy_in b buf ?q) d st"
      using j(12) [of d st] c fb(3) stage_next [of d b q] by (cases "d = b") auto
  qed (use j fb in \<open>auto split: if_splits\<close>)
qed


text \<open>Counting a message cannot overflow while a block is in hand.\<close>

lemma count_ok:
  assumes "unat (mq_entry q) < unat (mq_max_msgs q)"
  shows "fst (mq_count q) = RT_EOK" "snd (snd (mq_count q)) =
    q\<lparr>mq_entry := mq_entry q + 1, mq_suspend_thread := snd (ipc_list_resume (mq_suspend_thread q))\<rparr>"
    "unat (mq_entry q + 1) = unat (mq_entry q) + 1"
proof -
  have m: "unat (mq_max_msgs q) < 2 ^ 16" by (rule unat_u16_less)
  then have "mq_entry q < RT_MQ_ENTRY_MAX" using assms by (simp add: word_less_nat_alt)
  then show "fst (mq_count q) = RT_EOK" "snd (snd (mq_count q)) =
    q\<lparr>mq_entry := mq_entry q + 1, mq_suspend_thread := snd (ipc_list_resume (mq_suspend_thread q))\<rparr>"
    by (simp_all add: mq_count_def case_prod_beta)
  show "unat (mq_entry q + 1) = unat (mq_entry q) + 1" using m assms by (intro unat_inc) simp
qed

lemma flight_removed:
  assumes "dom fl \<inter> X = {}" "dom fl \<union> X = Y" "b \<in> dom fl"
  shows "dom (fl(b := None)) \<inter> (insert b X) = {}" "dom (fl(b := None)) \<union> insert b X = Y"
  using assms by auto

lemma link_tail_inv:
  assumes i: "mq_inv q fl msgs qs fs" and f: "fl b = Some (Filled False buf)" and r: "mq_link_tail b q = (ret, woken, q')"
  shows "ret = RT_EOK \<and> mq_inv q' (fl(b := None)) (msgs @ [buf]) (qs @ [b]) fs"
proof -
  note j = mq_invD [OF i] and fb = flight_block [OF i f]
  define q1 where "q1 = q\<lparr>msg_next := (if qs = [] then msg_next q else (msg_next q)[last qs := Some b]), msg_queue_tail := Some b,
     msg_queue_head := (if qs = [] then Some b else msg_queue_head q)\<rparr>"
  have hd: "(msg_queue_head q = None) = (qs = [])" using j(4) by (cases qs) auto
  have "mq_link_tail b q = mq_count q1"
    using j(10) hd by (auto simp: mq_link_tail_def Let_def q1_def intro!: arg_cong [of _ _ mq_count])
  moreover have q1: "mq_entry q1 = mq_entry q" "mq_max_msgs q1 = mq_max_msgs q" by (simp_all add: q1_def)
  ultimately have ret: "ret = RT_EOK" and q': "q' = q1\<lparr>mq_entry := mq_entry q + 1, mq_suspend_thread := snd (ipc_list_resume (mq_suspend_thread q1))\<rparr>"
    and e: "unat (mq_entry q + 1) = unat (mq_entry q) + 1"
    using count_ok [of q1] r j(9) fb(6) by (auto dest: arg_cong [of _ _ fst] arg_cong [of _ _ "\<lambda>x. snd (snd x)"])
  have n: "msg_next q ! b = None" and h: "block_holds q b buf" using fb(5) by simp_all
  have dis: "distinct (qs @ [b])" using j(6) fb(1) by simp
  have ch: "chain (msg_next q1) (msg_queue_head q1) (qs @ [b])"
    using chain_snoc [OF j(4) dis fb(3) n] fb(3) n by (auto simp: q1_def)
  have ls: "last qs \<notin> set fs \<and> last qs \<notin> dom fl" if "qs \<noteq> []" using j(6,7) last_in_set [OF that] by auto
  then have cf: "chain (msg_next q1) (msg_queue_free q1) fs" using j(5) by (simp add: q1_def)
  note d = flight_removed [of fl "set (qs @ fs)" "{..< unat (mq_max_msgs q)}" b]
  have st: "stage_ok q1 c st = stage_ok q c st" if "c \<in> dom fl" for c st
    using that ls stage_next [of c "last qs" q] by (auto simp: q1_def)
  have hq: "block_holds q' = block_holds q" by (simp add: q' q1_def)
  have "mq_inv q' (fl(b := None)) (msgs @ [buf]) (qs @ [b]) fs"
  proof (rule mq_invI)
    show "dom (fl(b := None)) \<inter> set ((qs @ [b]) @ fs) = {}" "dom (fl(b := None)) \<union> set ((qs @ [b]) @ fs) = {..<unat (mq_max_msgs q')}"
      using d j(7,8) f by (auto simp: q' q1(2))
    show "list_all2 (block_holds q') (qs @ [b]) (msgs @ [buf])" unfolding hq using j(11) h by (simp add: list_all2_appendI)
    fix c st0 assume "(fl(b := None)) c = Some st0"
    then show "stage_ok q' c st0" using st [of c st0] j(12) [of c st0] by (auto simp: q' split: if_splits)
  qed (use j ch cf e fb in \<open>auto simp: q' q1_def\<close>)
  then show ?thesis using ret by simp
qed


lemma link_head_inv:
  assumes i: "mq_inv q fl msgs qs fs" and f: "fl b = Some (Filled u buf)" and r: "mq_link_head b q = (ret, woken, q')"
  shows "ret = RT_EOK \<and> mq_inv q' (fl(b := None)) (buf # msgs) (b # qs) fs"
proof -
  note j = mq_invD [OF i] and fb = flight_block [OF i f]
  define q1 where "q1 = q\<lparr>msg_next := (msg_next q)[b := msg_queue_head q], msg_queue_head := Some b,
     msg_queue_tail := (if qs = [] then Some b else msg_queue_tail q)\<rparr>"
  have "mq_link_head b q = mq_count q1"
    using j(10) by (auto simp: mq_link_head_def Let_def q1_def intro!: arg_cong [of _ _ mq_count])
  moreover have q1: "mq_entry q1 = mq_entry q" "mq_max_msgs q1 = mq_max_msgs q" by (simp_all add: q1_def)
  ultimately have ret: "ret = RT_EOK" and q': "q' = q1\<lparr>mq_entry := mq_entry q + 1, mq_suspend_thread := snd (ipc_list_resume (mq_suspend_thread q1))\<rparr>"
    and e: "unat (mq_entry q + 1) = unat (mq_entry q) + 1"
    using count_ok [of q1] r j(9) fb(6) by (auto dest: arg_cong [of _ _ fst] arg_cong [of _ _ "\<lambda>x. snd (snd x)"])
  have h: "block_holds q b buf" using fb(5) by simp
  note d = flight_removed [of fl "set (qs @ fs)" "{..< unat (mq_max_msgs q)}" b]
  have hq: "block_holds q' = block_holds q" by (simp add: q' q1_def)
  have "mq_inv q' (fl(b := None)) (buf # msgs) (b # qs) fs"
  proof (rule mq_invI)
    show "dom (fl(b := None)) \<inter> set ((b # qs) @ fs) = {}" "dom (fl(b := None)) \<union> set ((b # qs) @ fs) = {..<unat (mq_max_msgs q')}"
      using d j(7,8) f by (auto simp: q' q1(2))
    show "list_all2 (block_holds q') (b # qs) (buf # msgs)" unfolding hq using j(11) h by simp
    fix c st0 assume "(fl(b := None)) c = Some st0"
    then show "stage_ok q' c st0" using stage_next [of c b q] j(12) [of c st0] by (auto simp: q' q1_def split: if_splits)
  qed (use j e fb in \<open>auto simp: q' q1_def\<close>)
  then show ?thesis using ret by simp
qed

lemma unlink_inv:
  assumes i: "mq_inv q fl msgs qs fs" and r: "mq_unlink q = Some (b, q')"
  shows "\<exists>qs'. qs = b # qs' \<and> msgs \<noteq> [] \<and> mq_inv q' (fl(b \<mapsto> Reading (hd msgs))) (tl msgs) qs' fs"
proof -
  note j = mq_invD [OF i]
  have h: "msg_queue_head q = Some b" "mq_entry q \<noteq> 0"
    using r by (auto simp: mq_unlink_def Let_def split: option.splits if_splits)
  obtain qs' where qs: "qs = b # qs'" using j(4) h(1) by (cases qs) auto
  obtain m ms where ms: "msgs = m # ms" using j(11) qs by (cases msgs) auto
  have tl: "(msg_queue_tail q = Some b) = (qs' = [])" using j(6,10) qs by (cases qs' rule: rev_cases) auto
  have q': "q' = q\<lparr>msg_queue_head := msg_next q ! b, msg_queue_tail := (if qs' = [] then None else msg_queue_tail q), mq_entry := mq_entry q - 1\<rparr>"
    using r h tl by (auto simp: mq_unlink_def Let_def split: if_splits)
  have e: "unat (mq_entry q - 1) = length qs'" using j(9) qs h(2) by (simp add: unat_minus_one)
  have "mq_inv q' (fl(b \<mapsto> Reading (hd msgs))) (tl msgs) qs' fs"
  proof (rule mq_invI)
    fix c st assume "(fl(b \<mapsto> Reading (hd msgs))) c = Some st"
    then show "stage_ok q' c st" using j(11) j(12) [of c st] by (auto simp: q' qs ms split: if_splits)
  qed (use j e in \<open>auto simp: q' qs ms\<close>)
  then show ?thesis using qs ms by blast
qed

lemma release_inv:
  assumes i: "mq_inv q fl msgs qs fs" and f: "fl b = Some (Reading buf)" and r: "mq_release b q = (woken, q')"
  shows "mq_inv q' (fl(b := None)) msgs qs (b # fs)"
proof -
  note j = mq_invD [OF i] and fb = flight_block [OF i f]
  have q': "q' = q\<lparr>msg_next := (msg_next q)[b := msg_queue_free q], msg_queue_free := Some b,
      suspend_sender_thread := snd (ipc_list_resume (suspend_sender_thread q))\<rparr>"
    using r by (auto simp: mq_release_def Let_def case_prod_beta)
  note d = flight_removed [of fl "set (qs @ fs)" "{..< unat (mq_max_msgs q)}" b]
  show ?thesis
  proof (rule mq_invI)
    show "dom (fl(b := None)) \<inter> set (qs @ b # fs) = {}" "dom (fl(b := None)) \<union> set (qs @ b # fs) = {..<unat (mq_max_msgs q')}"
      using d j(7,8) f by (auto simp: q')
    fix c st0 assume "(fl(b := None)) c = Some st0"
    then show "stage_ok q' c st0" using stage_next [of c b q] j(12) [of c st0] by (auto simp: q' split: if_splits)
  qed (use j fb in \<open>auto simp: q'\<close>)
qed


lemma mq_inv_waiters:
  "mq_inv (q\<lparr>suspend_sender_thread := ts\<rparr>) = mq_inv q" "mq_inv (q\<lparr>mq_suspend_thread := ts\<rparr>) = mq_inv q"
  by (simp_all add: mq_inv_def fun_eq_iff)

text \<open>A reset: the loop ends within the number of blocks, with every queued block in the free list.\<close>

lemma drain_entry: "mq_drain n (q\<lparr>mq_entry := x\<rparr>) = (mq_drain n q)\<lparr>mq_entry := x\<rparr>"
proof (induction n arbitrary: q)
  case (Suc n)
  show ?case by (cases q) (auto simp: Let_def Suc.IH [symmetric] split: option.split)
qed simp

lemma drain_inv:
  "mq_inv q fl msgs qs fs \<Longrightarrow> suspend_sender_thread q = [] \<Longrightarrow> length qs \<le> n \<Longrightarrow>
   mq_inv ((mq_drain n q)\<lparr>mq_entry := 0\<rparr>) fl [] [] (rev qs @ fs)"
proof (induction qs arbitrary: q msgs fs n)
  case Nil
  note j = mq_invD [OF Nil(1)]
  have "mq_drain n q = q" using j(4) by (cases n) simp_all
  moreover have "q\<lparr>mq_entry := 0\<rparr> = q" using j(9) by (simp add: unsigned_eq_0_iff)
  moreover have "msgs = []" using j(11) by simp
  ultimately show ?case using Nil by simp
next
  case (Cons b qs)
  note j = mq_invD [OF Cons.prems(1)]
  obtain k where n: "n = Suc k" using Cons.prems(3) by (cases n) auto
  have h: "msg_queue_head q = Some b" "mq_entry q \<noteq> 0" using j(4,9) by auto
  define q1 where "q1 = (if msg_queue_tail q = Some b then q\<lparr>msg_queue_head := msg_next q ! b, msg_queue_tail := None\<rparr> else q\<lparr>msg_queue_head := msg_next q ! b\<rparr>)"
  let ?q2 = "q1\<lparr>msg_next := (msg_next q1)[b := msg_queue_free q1], msg_queue_free := Some b\<rparr>"
  have u: "mq_unlink q = Some (b, q1\<lparr>mq_entry := mq_entry q - 1\<rparr>)" using h by (simp add: mq_unlink_def Let_def q1_def)
  obtain i1: "mq_inv (q1\<lparr>mq_entry := mq_entry q - 1\<rparr>) (fl(b \<mapsto> Reading (hd msgs))) (tl msgs) qs fs"
    using unlink_inv [OF Cons.prems(1) u] by auto
  have "b \<notin> dom fl" using j(7) by auto
  then have fl: "(fl(b \<mapsto> Reading (hd msgs)))(b := None) = fl" by auto
  have "mq_release b (q1\<lparr>mq_entry := mq_entry q - 1\<rparr>) = (None, ?q2\<lparr>mq_entry := mq_entry q - 1\<rparr>)"
    using Cons.prems(2) by (simp add: mq_release_def ipc_list_resume_def q1_def)
  from release_inv [OF i1 _ this, of "hd msgs"] have "mq_inv (?q2\<lparr>mq_entry := mq_entry q - 1\<rparr>) fl (tl msgs) qs (b # fs)"
    unfolding fl by simp
  from Cons.IH [OF this, of k] Cons.prems(2,3) n
  have "mq_inv ((mq_drain k ?q2)\<lparr>mq_entry := 0\<rparr>) fl [] [] (rev (b # qs) @ fs)" by (simp add: drain_entry q1_def)
  moreover have "mq_drain n q = mq_drain k ?q2" using h(1) by (simp add: n Let_def q1_def)
  ultimately show ?case by simp
qed

lemma reset_inv: "mq_inv q fl msgs qs fs \<Longrightarrow> mq_inv (snd (ipc_mq_reset q)) fl [] [] (rev qs @ fs)"
proof -
  assume i: "mq_inv q fl msgs qs fs"
  note j = mq_invD [OF i]
  let ?q = "q\<lparr>mq_suspend_thread := [], suspend_sender_thread := []\<rparr>"
  have "length qs \<le> length (msg_next q)"
    using j(1,6,8) card_mono [of "{..<unat (mq_max_msgs q)}" "set qs"] by (auto simp: distinct_card)
  moreover have "mq_inv ?q fl msgs qs fs" using i by (simp add: mq_inv_waiters)
  ultimately show ?thesis using drain_inv [of ?q] by (simp add: ipc_mq_reset_def Let_def)
qed

section \<open>Interleavings\<close>

lemma free_list_chain:
  "n \<le> length nexts \<Longrightarrow> length (fst (mq_free_list n nexts)) = length nexts \<and>
     chain (fst (mq_free_list n nexts)) (snd (mq_free_list n nexts)) (rev [0..<n])"
  by (induction n) (simp_all add: mq_free_list_def case_prod_beta)

lemma create_inv:
  assumes "ipc_mq_create True (Some (nexts, bytes)) sz n flag = Some q" "length nexts = unat n" "length bytes = unat n"
    "\<forall>d \<in> set bytes. length d = unat (ucast (rt_align4 sz) :: u16)"
  shows "mq_inv q Map.empty [] [] (rev [0..<unat n])"
proof -
  have "q = \<lparr>mq_flag = flag, mq_suspend_thread = [], msg_next = fst (mq_free_list (unat n) nexts), msg_data = bytes,
      mq_msg_size = ucast (rt_align4 sz), mq_max_msgs = n, mq_entry = 0, msg_queue_head = None, msg_queue_tail = None,
      msg_queue_free = snd (mq_free_list (unat n) nexts), suspend_sender_thread = []\<rparr>"
    using assms(1) by (simp add: ipc_mq_create_def case_prod_beta)
  then show ?thesis
    using free_list_chain [of "unat n" nexts] assms(2-4) by (intro mq_invI) (auto simp: list_all_iff)
qed

text \<open>
  The queue, the blocks in the hands of callers with what they do with them, and the messages that
  were linked and not yet taken. Any number of callers, threads or interrupts, may be in the
  middle of a call. A thread that has to wait enters one of the two lists.
\<close>

type_synonym mq_state = "rt_messagequeue \<times> (nat \<rightharpoonup> mq_stage) \<times> u8 list list"

inductive mq_step :: "mq_state \<Rightarrow> mq_state \<Rightarrow> bool" where
  take: "mq_take_free q = Some (b, q') \<Longrightarrow> length buf \<le> unat (mq_msg_size q) \<Longrightarrow> mq_step (q, fl, msgs) (q', fl(b \<mapsto> Filling u buf), msgs)"
| fill: "fl b = Some (Filling False buf) \<Longrightarrow> mq_step (q, fl, msgs) (mq_fill_tail b buf q, fl(b \<mapsto> Filled False buf), msgs)"
| fill_urgent: "fl b = Some (Filling True buf) \<Longrightarrow> mq_step (q, fl, msgs) (mq_copy_in b buf q, fl(b \<mapsto> Filled True buf), msgs)"
| link: "fl b = Some (Filled False buf) \<Longrightarrow> mq_link_tail b q = (ret, woken, q') \<Longrightarrow> mq_step (q, fl, msgs) (q', fl(b := None), msgs @ [buf])"
| link_urgent: "fl b = Some (Filled True buf) \<Longrightarrow> mq_link_head b q = (ret, woken, q') \<Longrightarrow> mq_step (q, fl, msgs) (q', fl(b := None), buf # msgs)"
| unlink: "mq_unlink q = Some (b, q') \<Longrightarrow> mq_step (q, fl, msgs) (q', fl(b \<mapsto> Reading (hd msgs)), tl msgs)"
| release: "fl b = Some (Reading buf) \<Longrightarrow> mq_release b q = (woken, q') \<Longrightarrow> mq_step (q, fl, msgs) (q', fl(b := None), msgs)"
| wait_send: "mq_take_free q = None \<Longrightarrow>
    mq_step (q, fl, msgs) (q\<lparr>suspend_sender_thread := ipc_list_suspend (mq_flag q) t (suspend_sender_thread q)\<rparr>, fl, msgs)"
| wait_recv: "mq_unlink q = None \<Longrightarrow>
    mq_step (q, fl, msgs) (q\<lparr>mq_suspend_thread := ipc_list_suspend (mq_flag q) t (mq_suspend_thread q)\<rparr>, fl, msgs)"
| reset: "mq_step (q, fl, msgs) (snd (ipc_mq_reset q), fl, [])"

inductive mq_reach :: "mq_state \<Rightarrow> bool" where
  create: "ipc_mq_create True (Some (nexts, bytes)) sz n flag = Some q \<Longrightarrow> length nexts = unat n \<Longrightarrow> length bytes = unat n \<Longrightarrow>
    \<forall>d \<in> set bytes. length d = unat (ucast (rt_align4 sz) :: u16) \<Longrightarrow> mq_reach (q, Map.empty, [])"
| step: "mq_reach s \<Longrightarrow> mq_step s s' \<Longrightarrow> mq_reach s'"

lemma mq_step_inv:
  assumes "mq_step (q, fl, msgs) (q', fl', msgs')" "mq_inv q fl msgs qs fs"
  shows "\<exists>qs' fs'. mq_inv q' fl' msgs' qs' fs'"
  using assms(1)
proof cases
  case (take b buf u)
  then show ?thesis using take_free_inv [OF assms(2), of b q' buf u] by blast
next
  case (fill b buf)
  then show ?thesis using copy_in_inv [OF assms(2), of b False buf None] by (auto simp: mq_fill_tail_def)
next
  case (fill_urgent b buf)
  then show ?thesis using copy_in_inv [OF assms(2), of b True buf "msg_next q ! b"] by auto
next
  case (link b buf ret woken)
  then show ?thesis using link_tail_inv [OF assms(2)] by blast
next
  case (link_urgent b buf ret woken)
  then show ?thesis using link_head_inv [OF assms(2)] by blast
next
  case (unlink b)
  then show ?thesis using unlink_inv [OF assms(2), of b q'] by auto
next
  case (release b buf woken)
  then show ?thesis using release_inv [OF assms(2)] by blast
next
  case reset
  then show ?thesis using reset_inv [OF assms(2)] by blast
qed (use assms(2) in \<open>auto simp: mq_inv_waiters\<close>)

lemma mq_reach_inv: "mq_reach (q, fl, msgs) \<Longrightarrow> \<exists>qs fs. mq_inv q fl msgs qs fs"
proof (induction "(q, fl, msgs)" arbitrary: q fl msgs rule: mq_reach.induct)
  case (create nexts bytes sz n flag q)
  then show ?case using create_inv by blast
next
  case (step s)
  obtain q0 fl0 msgs0 where s: "s = (q0, fl0, msgs0)" by (cases s)
  then show ?case using step mq_step_inv by metis
qed


lemma holds_copy_out: "block_holds q b m \<Longrightarrow> mq_copy_out b (length m) q = m"
  by (simp add: block_holds_def mq_copy_out_def)

text \<open>
  C13. The kernel queue is safe under preemption: however the callers interleave between their
  critical sections, every block of the pool is in the queue, in the free list or in the hands of
  exactly one caller; the queued blocks hold, in order, the messages that were linked and not yet
  taken, and the counter is their number; a receiver still copying reads its message unchanged; and
  linking a filled block never fails.
\<close>

theorem mq_interleaving_safe:
  assumes "mq_reach (q, fl, msgs)"
  shows "\<exists>qs fs. chain (msg_next q) (msg_queue_head q) qs \<and> chain (msg_next q) (msg_queue_free q) fs \<and>
     distinct (qs @ fs) \<and> dom fl \<inter> set (qs @ fs) = {} \<and> dom fl \<union> set (qs @ fs) = {..< unat (mq_max_msgs q)} \<and>
     unat (mq_entry q) = length msgs \<and> list_all2 (\<lambda>b m. mq_copy_out b (length m) q = m) qs msgs \<and>
     (\<forall>b m. fl b = Some (Reading m) \<longrightarrow> mq_copy_out b (length m) q = m) \<and>
     (\<forall>b m. fl b = Some (Filled False m) \<longrightarrow> fst (mq_link_tail b q) = RT_EOK) \<and>
     (\<forall>b m. fl b = Some (Filled True m) \<longrightarrow> fst (mq_link_head b q) = RT_EOK)"
proof -
  obtain qs fs where i: "mq_inv q fl msgs qs fs" using mq_reach_inv [OF assms] by blast
  note j = mq_invD [OF i]
  have "list_all2 (\<lambda>b m. mq_copy_out b (length m) q = m) qs msgs"
    by (rule list_all2_mono [OF j(11)]) (rule holds_copy_out)
  moreover have "mq_copy_out b (length m) q = m" if "fl b = Some (Reading m)" for b m
    using flight_block(5) [OF i that] by (simp add: holds_copy_out)
  moreover have "fst (mq_link_tail b q) = RT_EOK" if "fl b = Some (Filled False m)" for b m
    using link_tail_inv [OF i that] by (cases "mq_link_tail b q") auto
  moreover have "fst (mq_link_head b q) = RT_EOK" if "fl b = Some (Filled True m)" for b m
    using link_head_inv [OF i that] by (cases "mq_link_head b q") auto
  moreover have "unat (mq_entry q) = length msgs" using j(9,11) by (auto dest: list_all2_lengthD)
  ultimately show ?thesis using j(4-8) by blast
qed

text \<open>A queue of two blocks, and a sender that has filled its block.\<close>

definition demo_mq :: rt_messagequeue where
  "demo_mq = the (ipc_mq_create True (Some ([None, None], [[1, 2, 3, 4], [5, 6, 7, 8]])) 3 2 RT_IPC_FLAG_FIFO)"

lemma demo_mq_create: "ipc_mq_create True (Some ([None, None], [[1, 2, 3, 4], [5, 6, 7, 8]])) 3 2 RT_IPC_FLAG_FIFO = Some demo_mq"
  by (simp add: demo_mq_def ipc_mq_create_def case_prod_beta)

lemma demo_mq_size: "unat (ucast (rt_align4 3) :: u16) = 4" "mq_msg_size demo_mq = 4" "mq_max_msgs demo_mq = 2"
  by (simp_all add: rt_align4_def demo_mq_def ipc_mq_create_def case_prod_beta)

lemma demo_mq_inv: "mq_inv demo_mq Map.empty [] [] [1, 0]"
  using create_inv [OF demo_mq_create] demo_mq_size(1) by (simp add: upt_rec)

theorem mq_interleaving_safe_witness:
  "\<exists>q fl. mq_reach (q, fl, []) \<and> fl 1 = Some (Filled False [9]) \<and> fst (mq_link_tail 1 q) = RT_EOK"
proof -
  have r0: "mq_reach (demo_mq, Map.empty, [])"
    by (rule mq_reach.create [OF demo_mq_create]) (simp_all add: demo_mq_size)
  have "msg_queue_free demo_mq = Some 1" using mq_invD(5) [OF demo_mq_inv] by simp
  then obtain q1 where t: "mq_take_free demo_mq = Some (1, q1)" by (simp add: mq_take_free_def)
  have r2: "mq_reach (mq_fill_tail 1 [9] q1, [1 \<mapsto> Filled False [9]], [])"
    using mq_reach.step [OF mq_reach.step [OF r0 mq_step.take [OF t, where buf = "[9]" and u = False]] mq_step.fill [of _ 1 "[9]"]]
    by (simp add: demo_mq_size)
  then show ?thesis using mq_interleaving_safe [OF r2] by (intro exI [of _ "mq_fill_tail 1 [9] q1"]) auto
qed

section \<open>The queue the components use\<close>

definition mq_view :: "rt_messagequeue \<Rightarrow> u8 list list \<Rightarrow> bool" where
  "mq_view q msgs \<longleftrightarrow> (\<exists>qs fs. mq_inv q Map.empty msgs qs fs)"

abbreviation mq_spec :: "rt_messagequeue \<Rightarrow> u8 list list \<Rightarrow> u8 list rt_mq" where
  "mq_spec q msgs \<equiv> \<lparr>mq_msgs = msgs, mq_blocks = unat (mq_max_msgs q)\<rparr>"

lemma free_iff_room:
  assumes i: "mq_inv q Map.empty msgs qs fs"
  shows "mq_take_free q = None \<longleftrightarrow> length msgs \<ge> unat (mq_max_msgs q)"
proof -
  note j = mq_invD [OF i]
  have "length qs + length fs = unat (mq_max_msgs q)"
    using j(6,8) distinct_card [of "qs @ fs"] by simp
  moreover have "mq_take_free q = None \<longleftrightarrow> fs = []" using j(5) by (cases fs) (auto simp: mq_take_free_def)
  ultimately show ?thesis using list_all2_lengthD [OF j(11)] by (cases fs) auto
qed

lemma send_view:
  assumes "mq_view q msgs" "mq_take_free q = Some (b, q1)" "length buf \<le> unat (mq_msg_size q)"
  shows "\<exists>woken q2. mq_link_tail b (mq_fill_tail b buf q1) = (RT_EOK, woken, q2) \<and> mq_view q2 (msgs @ [buf])"
    "\<exists>woken q2. mq_link_head b (mq_copy_in b buf q1) = (RT_EOK, woken, q2) \<and> mq_view q2 (buf # msgs)"
proof -
  obtain qs fs where i: "mq_inv q Map.empty msgs qs fs" using assms(1) by (auto simp: mq_view_def)
  have i1: "\<exists>fs'. mq_inv q1 [b \<mapsto> Filling u buf] msgs qs fs'" for u
    using take_free_inv [OF i assms(2,3), of u] by auto
  obtain fa where "mq_inv q1 [b \<mapsto> Filling False buf] msgs qs fa" using i1 by blast
  from copy_in_inv [OF this, of b False buf None] have a: "mq_inv (mq_fill_tail b buf q1) [b \<mapsto> Filled False buf] msgs qs fa"
    by (simp add: mq_fill_tail_def)
  show "\<exists>woken q2. mq_link_tail b (mq_fill_tail b buf q1) = (RT_EOK, woken, q2) \<and> mq_view q2 (msgs @ [buf])"
    using link_tail_inv [OF a, of b buf] by (cases "mq_link_tail b (mq_fill_tail b buf q1)") (auto simp: mq_view_def)
  obtain fb where "mq_inv q1 [b \<mapsto> Filling True buf] msgs qs fb" using i1 by blast
  from copy_in_inv [OF this, of b True buf "msg_next q1 ! b"] have c: "mq_inv (mq_copy_in b buf q1) [b \<mapsto> Filled True buf] msgs qs fb"
    by simp
  show "\<exists>woken q2. mq_link_head b (mq_copy_in b buf q1) = (RT_EOK, woken, q2) \<and> mq_view q2 (buf # msgs)"
    using link_head_inv [OF c, of b True buf] by (cases "mq_link_head b (mq_copy_in b buf q1)") (auto simp: mq_view_def)
qed


text \<open>
  C21. The message queue calls of the kernel implement the queue the components are modelled with: on
  a queue that holds some messages, a send, an urgent send and a receive return the error code of
  that queue, leave its messages, and a receive delivers the bytes of the first message; when there
  is none, a receiver that waits is suspended.
\<close>

theorem mq_calls_refine:
  assumes v: "mq_view q msgs" and l: "length buf \<le> unat (mq_msg_size q)"
  shows "(\<exists>woken q'. ipc_mq_send t buf q = (Returned (fst (rt_mq_send (mq_spec q msgs) buf)), woken, q') \<and>
       mq_view q' (mq_msgs (snd (rt_mq_send (mq_spec q msgs) buf)))) \<and>
     (\<exists>woken q'. ipc_mq_urgent buf q = (fst (rt_mq_urgent (mq_spec q msgs) buf), woken, q') \<and>
       mq_view q' (mq_msgs (snd (rt_mq_urgent (mq_spec q msgs) buf)))) \<and>
     (case rt_mq_recv (mq_spec q msgs) of
        None \<Rightarrow> \<exists>q'. ipc_mq_recv t sz (- 1) q = (Suspended, [], None, q') \<and> t \<in> set (mq_suspend_thread q') \<and> mq_view q' msgs
      | Some (m, s) \<Rightarrow> \<exists>r woken q'. ipc_mq_recv t sz (- 1) q = (Returned RT_EOK, r, woken, q') \<and>
          (sz < length m \<or> take (length m) r = m) \<and> mq_view q' (mq_msgs s))"
proof (intro conjI)
  obtain qs fs where i: "mq_inv q Map.empty msgs qs fs" using v by (auto simp: mq_view_def)
  note j = mq_invD [OF i] and f = free_iff_room [OF i]
  show "\<exists>woken q'. ipc_mq_send t buf q = (Returned (fst (rt_mq_send (mq_spec q msgs) buf)), woken, q') \<and>
       mq_view q' (mq_msgs (snd (rt_mq_send (mq_spec q msgs) buf)))"
    using f l v send_view(1) [OF v _ l]
    by (cases "mq_take_free q") (fastforce simp: ipc_mq_send_def ipc_mq_send_wait_def rt_mq_send_def)+
  show "\<exists>woken q'. ipc_mq_urgent buf q = (fst (rt_mq_urgent (mq_spec q msgs) buf), woken, q') \<and>
       mq_view q' (mq_msgs (snd (rt_mq_urgent (mq_spec q msgs) buf)))"
    using f l v send_view(2) [OF v _ l]
    by (cases "mq_take_free q") (fastforce simp: ipc_mq_urgent_def rt_mq_urgent_def)+
  show "case rt_mq_recv (mq_spec q msgs) of
        None \<Rightarrow> \<exists>q'. ipc_mq_recv t sz (- 1) q = (Suspended, [], None, q') \<and> t \<in> set (mq_suspend_thread q') \<and> mq_view q' msgs
      | Some (m, s) \<Rightarrow> \<exists>r woken q'. ipc_mq_recv t sz (- 1) q = (Returned RT_EOK, r, woken, q') \<and>
          (sz < length m \<or> take (length m) r = m) \<and> mq_view q' (mq_msgs s)"
  proof (cases msgs)
    case Nil
    then have "mq_unlink q = None" using j(9,11) by (simp add: mq_unlink_def unsigned_eq_0_iff)
    then show ?thesis
      using Nil i by (auto simp: rt_mq_recv_def ipc_mq_recv_def mq_view_def mq_inv_waiters set_ipc_list_suspend)
  next
    case (Cons m ms)
    then obtain b qs' where qs: "qs = b # qs'" using j(11) by (cases qs) auto
    have "mq_entry q \<noteq> 0" "msg_queue_head q = Some b" using j(4,9) qs by auto
    then obtain q1 where u: "mq_unlink q = Some (b, q1)" by (auto simp: mq_unlink_def Let_def)
    from unlink_inv [OF i u] Cons qs have i1: "mq_inv q1 [b \<mapsto> Reading m] ms qs' fs" by auto
    obtain woken q2 where r: "mq_release b q1 = (woken, q2)" by (cases "mq_release b q1")
    have "mq_view q2 ms" using release_inv [OF i1 _ r] by (auto simp: mq_view_def)
    moreover have "sz < length m \<or> take (length m) (mq_copy_out b sz q1) = m"
      using flight_block(5) [OF i1, of b "Reading m"] by (auto simp: block_holds_def mq_copy_out_def min_def)
    ultimately show ?thesis using Cons u r by (simp add: rt_mq_recv_def ipc_mq_recv_def Let_def)
  qed
qed


theorem mq_calls_refine_witness:
  "\<exists>woken q'. ipc_mq_urgent [9, 10] demo_mq = (RT_EOK, woken, q') \<and> mq_view q' [[9, 10]]"
proof -
  have "mq_view demo_mq []" using demo_mq_inv by (auto simp: mq_view_def)
  from mq_calls_refine [OF this, of "[9, 10]"] show ?thesis by (simp add: demo_mq_size rt_mq_urgent_def)
qed

end
