(* ===== verification/Kernel_Event.thy ===== *)
theory Kernel_Event
  imports Kernel_Mq
begin

text \<open>
  The event sets of the kernel, \<^verbatim>\<open>rt-thread/src/ipc.c\<close>: a word of pending bits and the list of the
  threads that wait for some or all bits of a mask. A send walks the list and resumes every thread
  whose condition is met; such a thread has received its bits before it runs. A receive that has to
  wait ends in \<open>Suspended\<close>. Assertions, hooks and the scheduler call are left out.
\<close>

abbreviation RT_EVENT_FLAG_AND :: u8 where "RT_EVENT_FLAG_AND \<equiv> 0x01"
abbreviation RT_EVENT_FLAG_OR :: u8 where "RT_EVENT_FLAG_OR \<equiv> 0x02"
abbreviation RT_EVENT_FLAG_CLEAR :: u8 where "RT_EVENT_FLAG_CLEAR \<equiv> 0x04"

record evt_waiter = ipc_waiter +
  event_set :: u32
  event_info :: u8

record rt_event =
  ev_flag :: ipc_flag
  ev_set :: u32
  ev_suspend_thread :: "evt_waiter list"

definition ipc_event_init :: "ipc_flag \<Rightarrow> rt_event" where
  "ipc_event_init flag = \<lparr>ev_flag = flag, ev_set = 0, ev_suspend_thread = []\<rparr>"

text \<open>
  The condition of a waiting thread, with the bits it receives: \<open>None\<close> when it is not met.
\<close>

definition evt_received :: "u8 \<Rightarrow> u32 \<Rightarrow> u32 \<Rightarrow> u32 option" where
  "evt_received info awaited pending =
     (if info AND RT_EVENT_FLAG_AND \<noteq> 0 then (if awaited AND pending = awaited then Some awaited else None)
      else if info AND RT_EVENT_FLAG_OR \<noteq> 0 then (if awaited AND pending \<noteq> 0 then Some (awaited AND pending) else None)
      else None)"

text \<open>
  The walk of \<open>rt_event_send\<close> over the waiting threads: the threads it resumes with their received
  bits, the bits left pending, the threads left waiting, and whether a thread with neither of the
  two conditions ended the walk.
\<close>

fun evt_walk :: "u32 \<Rightarrow> evt_waiter list \<Rightarrow> evt_waiter list \<times> u32 \<times> evt_waiter list \<times> bool" where
  "evt_walk pending [] = ([], pending, [], True)"
| "evt_walk pending (t # ts) =
     (if event_info t AND (RT_EVENT_FLAG_AND OR RT_EVENT_FLAG_OR) = 0 then ([], pending, t # ts, False)
      else case evt_received (event_info t) (event_set t) pending of
        None \<Rightarrow> let (woken, p, rest, ok) = evt_walk pending ts in (woken, p, t # rest, ok)
      | Some bits \<Rightarrow>
          let pending1 = (if event_info t AND RT_EVENT_FLAG_CLEAR \<noteq> 0 then pending AND NOT bits else pending);
              (woken, p, rest, ok) = evt_walk pending1 ts
          in (t\<lparr>event_set := bits\<rparr> # woken, p, rest, ok))"

definition ipc_event_send :: "u32 \<Rightarrow> rt_event \<Rightarrow> rt_err_t \<times> evt_waiter list \<times> rt_event" where
  "ipc_event_send bits ev =
     (if bits = 0 then (- RT_ERROR, [], ev)
      else let (woken, p, rest, ok) = evt_walk (ev_set ev OR bits) (ev_suspend_thread ev)
           in (if ok then RT_EOK else - RT_EINVAL, woken, ev\<lparr>ev_set := p, ev_suspend_thread := rest\<rparr>))"

text \<open>The result, and the bits stored through \<open>recved\<close>.\<close>

definition ipc_event_recv :: "nat \<Rightarrow> u8 \<Rightarrow> u32 \<Rightarrow> u8 \<Rightarrow> int \<Rightarrow> rt_event \<Rightarrow> ipc_result \<times> u32 \<times> rt_event" where
  "ipc_event_recv self prio awaited option timeout ev =
     (if awaited = 0 then (Returned (- RT_ERROR), 0, ev)
      else if evt_received option awaited (ev_set ev) \<noteq> None then
        (Returned RT_EOK, ev_set ev AND awaited,
         if option AND RT_EVENT_FLAG_CLEAR \<noteq> 0 then ev\<lparr>ev_set := ev_set ev AND NOT awaited\<rparr> else ev)
      else if timeout = 0 then (Returned (- RT_ETIMEOUT), 0, ev)
      else (Suspended, 0, ev\<lparr>ev_suspend_thread := ipc_list_suspend (ev_flag ev)
              \<lparr>wt_thread = self, wt_priority = prio, event_set = awaited, event_info = option\<rparr> (ev_suspend_thread ev)\<rparr>))"

section \<open>No wake-up is lost\<close>

definition evt_option :: "u8 \<Rightarrow> bool" where
  "evt_option info \<longleftrightarrow> info AND (RT_EVENT_FLAG_AND OR RT_EVENT_FLAG_OR) \<noteq> 0"

definition evt_quiet :: "u32 \<Rightarrow> evt_waiter \<Rightarrow> bool" where
  "evt_quiet pending t \<longleftrightarrow> evt_option (event_info t) \<and> event_set t \<noteq> 0 \<and> evt_received (event_info t) (event_set t) pending = None"

text \<open>Fewer pending bits meet no new condition.\<close>

lemma and_mono:
  fixes m p p' :: u32
  assumes "p' AND p = p'"
  shows "m AND p' = m \<Longrightarrow> m AND p = m" "m AND p = 0 \<Longrightarrow> m AND p' = 0"
proof -
  assume m: "m AND p' = m"
  have "(m AND p') AND p = m AND p'" using assms by (simp only: and.assoc)
  then show "m AND p = m" by (simp only: m)
next
  assume "m AND p = 0"
  have "m AND p' = m AND (p' AND p)" using assms by simp
  also have "\<dots> = (m AND p) AND p'" by (simp only: ac_simps)
  finally show "m AND p' = 0" using \<open>m AND p = 0\<close> by simp
qed

lemma quiet_less:
  assumes "evt_quiet p t" "p' AND p = p'"
  shows "evt_quiet p' t"
  using assms(1) and_mono [OF assms(2), of "event_set t"]
  unfolding evt_quiet_def evt_received_def by (auto split: if_split_asm)

definition evt_clear :: "evt_waiter \<Rightarrow> u32 \<Rightarrow> u32 \<Rightarrow> u32" where
  "evt_clear t bits p = (if event_info t AND RT_EVENT_FLAG_CLEAR \<noteq> 0 then p AND NOT bits else p)"

lemma walk_cases:
  assumes "evt_option (event_info t)" "evt_walk p (t # ts) = (woken, p', rest, ok)"
  obtains (kept) r where "evt_received (event_info t) (event_set t) p = None" "evt_walk p ts = (woken, p', r, ok)" "rest = t # r"
  | (resumed) bits w where "evt_received (event_info t) (event_set t) p = Some bits"
      "evt_walk (evt_clear t bits p) ts = (w, p', rest, ok)" "woken = t\<lparr>event_set := bits\<rparr> # w"
proof (cases "evt_received (event_info t) (event_set t) p")
  case None
  obtain w q r k where "evt_walk p ts = (w, q, r, k)" by (cases "evt_walk p ts") 
  then show ?thesis using assms None kept by (simp add: evt_option_def)
next
  case (Some bits)
  obtain w q r k where e: "evt_walk (evt_clear t bits p) ts = (w, q, r, k)" by (cases "evt_walk (evt_clear t bits p) ts")
  have "evt_walk p (t # ts) = (t\<lparr>event_set := bits\<rparr> # w, q, r, k)"
    using assms(1) Some e by (simp add: evt_option_def evt_clear_def)
  then show ?thesis using assms(2) Some e resumed by simp
qed

lemma sub_and: "a AND b = a \<Longrightarrow> b AND c = b \<Longrightarrow> a AND c = (a :: u32)"
  by (metis and.assoc)

lemma walk_less:
  "list_all (\<lambda>t. evt_option (event_info t)) ts \<Longrightarrow> evt_walk p ts = (woken, p', rest, ok) \<Longrightarrow> p' AND p = p' \<and> ok"
proof (induction ts arbitrary: p woken p' rest ok)
  case (Cons t ts)
  have "evt_option (event_info t)" using Cons.prems(1) by simp
  from this Cons.prems(2) show ?case
  proof (cases rule: walk_cases)
    case (resumed bits w)
    have "evt_clear t bits p AND p = evt_clear t bits p" by (simp add: evt_clear_def ac_simps)
    then show ?thesis using Cons.IH [OF _ resumed(2)] Cons.prems(1) sub_and by auto
  next
    case (kept r)
    then show ?thesis using Cons.IH [OF _ kept(2)] Cons.prems(1) by simp
  qed
qed simp

lemma walk_quiet:
  "list_all (\<lambda>t. evt_option (event_info t) \<and> event_set t \<noteq> 0) ts \<Longrightarrow> evt_walk p ts = (woken, p', rest, ok) \<Longrightarrow> list_all (evt_quiet p') rest"
proof (induction ts arbitrary: p woken p' rest ok)
  case (Cons t ts)
  have o: "evt_option (event_info t)" "list_all (\<lambda>t. evt_option (event_info t)) ts" using Cons.prems(1) by (simp_all add: list_all_iff)
  from o(1) Cons.prems(2) show ?case
  proof (cases rule: walk_cases)
    case (kept r)
    have "evt_quiet p t" using kept(1) Cons.prems(1) by (simp add: evt_quiet_def)
    then show ?thesis using quiet_less walk_less [OF o(2) kept(2)] Cons.IH [OF _ kept(2)] Cons.prems(1) kept(3) by auto
  next
    case (resumed bits w)
    then show ?thesis using Cons.IH [OF _ resumed(2)] Cons.prems(1) by simp
  qed
qed simp

text \<open>With waiting threads that take what they receive, every bit goes to one thread or stays pending.\<close>

abbreviation taking :: "evt_waiter \<Rightarrow> bool" where
  "taking t \<equiv> event_info t = RT_EVENT_FLAG_OR OR RT_EVENT_FLAG_CLEAR"

lemma walk_conserves:
  "list_all taking ts \<Longrightarrow> evt_walk p ts = (woken, p', rest, ok) \<Longrightarrow>
   foldr (\<lambda>t a. event_set t OR a) woken p' = p \<and> list_all (\<lambda>t. event_set t \<noteq> 0 \<and> event_set t AND p' = 0) woken"
proof (induction ts arbitrary: p woken p' rest ok)
  case (Cons t ts)
  have o: "evt_option (event_info t)" "list_all (\<lambda>t. evt_option (event_info t)) ts"
    using Cons.prems(1) by (auto simp: evt_option_def list_all_iff)
  from o(1) Cons.prems(2) show ?case
  proof (cases rule: walk_cases)
    case (resumed bits w)
    have t: "taking t" using Cons.prems(1) by simp
    have b: "bits = event_set t AND p" "bits \<noteq> 0" using resumed(1) t by (auto simp: evt_received_def split: if_splits)
    have c: "evt_clear t bits p = p AND NOT bits" using t by (simp add: evt_clear_def)
    have "foldr (\<lambda>t a. event_set t OR a) w p' = p AND NOT bits" "list_all (\<lambda>t. event_set t \<noteq> 0 \<and> event_set t AND p' = 0) w"
      using Cons.IH [OF _ resumed(2)] Cons.prems(1) c by auto
    moreover have "bits OR (p AND NOT bits) = p" unfolding b(1) by (rule bit_word_eqI) (auto simp: bit_simps)
    moreover have "bits AND p' = 0"
    proof -
      have "p' AND (p AND NOT bits) = p'" using walk_less [OF o(2) resumed(2)] c by simp
      then have "bits AND p' = bits AND (p' AND (p AND NOT bits))" by (simp only:)
      also have "\<dots> = 0" by (rule bit_word_eqI) (auto simp: bit_simps)
      finally show ?thesis .
    qed
    ultimately show ?thesis using b(2) resumed(3) by simp
  next
    case (kept r)
    then show ?thesis using Cons.IH [OF _ kept(2)] Cons.prems(1) by simp
  qed
qed simp

text \<open>
  The sends and the receives of an event set, in any order; the options are those of the callers,
  a condition with or without the taking of the bits.
\<close>

inductive evt_reach :: "rt_event \<Rightarrow> bool" where
  init: "evt_reach (ipc_event_init flag)"
| send: "evt_reach ev \<Longrightarrow> ipc_event_send bits ev = (r, woken, ev') \<Longrightarrow> evt_reach ev'"
| recv: "evt_reach ev \<Longrightarrow> evt_option info \<Longrightarrow> ipc_event_recv self prio awaited info timeout ev = (r, got, ev') \<Longrightarrow> evt_reach ev'"

lemma quiet_clear: "evt_quiet p t \<Longrightarrow> evt_quiet (p AND NOT m) t"
  by (erule quiet_less) (simp add: ac_simps)

lemma quiet_all_set: "list_all (evt_quiet p) ts \<longleftrightarrow> (\<forall>t \<in> set ts. evt_quiet p t)"
  by (simp add: list_all_iff)

lemma send_quiet:
  assumes "list_all (evt_quiet (ev_set ev)) (ev_suspend_thread ev)" "ipc_event_send bits ev = (r, woken, ev')"
  shows "list_all (evt_quiet (ev_set ev')) (ev_suspend_thread ev')"
proof (cases "bits = 0")
  case False
  obtain w p rest ok where e: "evt_walk (ev_set ev OR bits) (ev_suspend_thread ev) = (w, p, rest, ok)"
    by (cases "evt_walk (ev_set ev OR bits) (ev_suspend_thread ev)")
  have "list_all (\<lambda>t. evt_option (event_info t) \<and> event_set t \<noteq> 0) (ev_suspend_thread ev)"
    using assms(1) by (auto simp: evt_quiet_def list_all_iff)
  from walk_quiet [OF this e] show ?thesis using assms(2) False e by (auto simp: ipc_event_send_def)
qed (use assms in \<open>simp add: ipc_event_send_def\<close>)

lemma recv_quiet:
  assumes "list_all (evt_quiet (ev_set ev)) (ev_suspend_thread ev)" "evt_option info"
    "ipc_event_recv self prio awaited info timeout ev = (r, got, ev')"
  shows "list_all (evt_quiet (ev_set ev')) (ev_suspend_thread ev')"
  using assms quiet_clear
  by (auto simp: ipc_event_recv_def list_all_iff evt_quiet_def [of _ "\<lparr>wt_thread = _, wt_priority = _, event_set = _, event_info = _\<rparr>"] split: if_splits)

lemma reach_quiet: "evt_reach ev \<Longrightarrow> list_all (evt_quiet (ev_set ev)) (ev_suspend_thread ev)"
proof (induction rule: evt_reach.induct)
  case (send ev bits r woken ev')
  then show ?case using send_quiet by blast
next
  case (recv ev info self prio awaited timeout r got ev')
  then show ?case using recv_quiet by blast
qed (simp add: ipc_event_init_def)

lemma send_conserves:
  assumes "list_all taking (ev_suspend_thread ev)" "bits \<noteq> 0" "ipc_event_send bits ev = (r, woken, ev')"
  shows "r = RT_EOK \<and> foldr (\<lambda>t a. event_set t OR a) woken (ev_set ev') = ev_set ev OR bits \<and>
     (\<forall>t \<in> set woken. event_set t \<noteq> 0 \<and> event_set t AND ev_set ev' = 0)"
proof -
  obtain w p rest ok where e: "evt_walk (ev_set ev OR bits) (ev_suspend_thread ev) = (w, p, rest, ok)"
    by (cases "evt_walk (ev_set ev OR bits) (ev_suspend_thread ev)")
  have "list_all (\<lambda>t. evt_option (event_info t)) (ev_suspend_thread ev)"
    using assms(1) by (auto simp: evt_option_def list_all_iff)
  from walk_less [OF this e] walk_conserves [OF assms(1) e] show ?thesis
    using assms e by (auto simp: ipc_event_send_def list_all_iff)
qed



lemma walk_one:
  assumes "taking t"
  shows "evt_walk p [t] = (case rt_event_recv_or_clear p (event_set t) of
       Some (got, rest) \<Rightarrow> ([t\<lparr>event_set := got\<rparr>], rest, [], True) | None \<Rightarrow> ([], p, [t], True))"
proof -
  have "p AND NOT (event_set t AND p) = p AND NOT (event_set t)" by (rule bit_word_eqI) (auto simp: bit_simps)
  then show ?thesis using assms
    by (simp add: rt_event_recv_or_clear_def evt_received_def and.commute [of "event_set t"] del: bit.de_Morgan_conj)
qed

text \<open>
  The event words of the components are what the kernel does. A receive with the options of
  the firmware returns and takes exactly the bits that \<open>rt_event_recv_or_clear\<close> gives, and waits
  exactly when it gives none; a send with no thread waiting is \<open>rt_event_send\<close>; a send while one
  thread waits resumes it with what a receive after the send would have given it, or leaves it
  waiting when that is nothing.
\<close>

theorem event_calls_refine:
  assumes "awaited \<noteq> 0" "timeout \<noteq> 0"
  shows "(case rt_event_recv_or_clear (ev_set ev) awaited of
       Some (got, rest) \<Rightarrow> ipc_event_recv self prio awaited (RT_EVENT_FLAG_OR OR RT_EVENT_FLAG_CLEAR) timeout ev
            = (Returned RT_EOK, got, ev\<lparr>ev_set := rest\<rparr>)
     | None \<Rightarrow> fst (ipc_event_recv self prio awaited (RT_EVENT_FLAG_OR OR RT_EVENT_FLAG_CLEAR) timeout ev) = Suspended) \<and>
     (ev_suspend_thread ev = [] \<longrightarrow>
        ipc_event_send bits ev = (fst (rt_event_send (ev_set ev) bits), [], ev\<lparr>ev_set := snd (rt_event_send (ev_set ev) bits)\<rparr>)) \<and>
     (ev_suspend_thread ev = [t] \<and> taking t \<and> bits \<noteq> 0 \<longrightarrow>
        (case rt_event_recv_or_clear (snd (rt_event_send (ev_set ev) bits)) (event_set t) of
           Some (got, rest) \<Rightarrow> ipc_event_send bits ev = (RT_EOK, [t\<lparr>event_set := got\<rparr>], ev\<lparr>ev_set := rest, ev_suspend_thread := []\<rparr>)
         | None \<Rightarrow> ipc_event_send bits ev = (RT_EOK, [], ev\<lparr>ev_set := snd (rt_event_send (ev_set ev) bits)\<rparr>)))"
proof (intro conjI impI)
  show "ev_suspend_thread ev = [] \<Longrightarrow>
      ipc_event_send bits ev = (fst (rt_event_send (ev_set ev) bits), [], ev\<lparr>ev_set := snd (rt_event_send (ev_set ev) bits)\<rparr>)"
    by (cases ev) (simp add: ipc_event_send_def rt_event_send_def)
next
  assume t: "ev_suspend_thread ev = [t] \<and> taking t \<and> bits \<noteq> 0"
  show "case rt_event_recv_or_clear (snd (rt_event_send (ev_set ev) bits)) (event_set t) of
           Some (got, rest) \<Rightarrow> ipc_event_send bits ev = (RT_EOK, [t\<lparr>event_set := got\<rparr>], ev\<lparr>ev_set := rest, ev_suspend_thread := []\<rparr>)
         | None \<Rightarrow> ipc_event_send bits ev = (RT_EOK, [], ev\<lparr>ev_set := snd (rt_event_send (ev_set ev) bits)\<rparr>)"
    using t by (cases ev) (simp add: ipc_event_send_def rt_event_send_def walk_one del: evt_walk.simps split: option.split)
qed (simp add: assms ipc_event_recv_def rt_event_recv_or_clear_def evt_received_def and.commute)

theorem event_calls_refine_witness:
  "(3 :: u32) \<noteq> 0 \<and> (- 1 :: int) \<noteq> 0 \<and>
     ipc_event_recv 7 3 3 6 (- 1) \<lparr>ev_flag = RT_IPC_FLAG_PRIO, ev_set = 5, ev_suspend_thread = []\<rparr>
       = (Returned RT_EOK, 1, \<lparr>ev_flag = RT_IPC_FLAG_PRIO, ev_set = 4, ev_suspend_thread = []\<rparr>)"
  using event_calls_refine [where awaited = 3 and timeout = "- 1" and self = 7 and prio = 3
      and ev = "\<lparr>ev_flag = RT_IPC_FLAG_PRIO, ev_set = 5, ev_suspend_thread = []\<rparr>"]
  by (simp add: rt_event_recv_or_clear_def)

end
