(* ===== verification/Kernel_Mutex.thy ===== *)
theory Kernel_Mutex
  imports Kernel_Mq
begin

text \<open>
  The mutexes of the kernel, \<^verbatim>\<open>rt-thread/src/ipc.c\<close>, with which the threads share the data of an
  axis: nested taking by the owner, the handing over to the first waiting thread, and the
  inheritance of priorities. The priorities of the threads are a function; the handing over happens
  in the release, so a resumed thread owns the mutex before it runs. The result \<open>None\<close> is the use of
  a NULL owner, which is shown not to happen. Hooks, debug output and the scheduler call are left out.
\<close>

abbreviation RT_MUTEX_HOLD_MAX :: u8 where "RT_MUTEX_HOLD_MAX \<equiv> 0xFF"
abbreviation RT_MUTEX_VALUE_MAX :: u16 where "RT_MUTEX_VALUE_MAX \<equiv> 0xFFFF"

record rt_mutex =
  mx_value :: u16
  mx_original_priority :: u8
  mx_hold :: u8
  mx_owner :: "nat option"
  mx_suspend_thread :: "nat list"

type_synonym priorities = "nat \<Rightarrow> u8"

definition ipc_mutex_init :: rt_mutex where
  "ipc_mutex_init = \<lparr>mx_value = 1, mx_original_priority = 0xFF, mx_hold = 0, mx_owner = None, mx_suspend_thread = []\<rparr>"

text \<open>\<open>_ipc_list_suspend\<close> reads the priorities the threads have now; the flag is always PRIO.\<close>

definition waiter_of :: "priorities \<Rightarrow> nat \<Rightarrow> ipc_waiter" where
  "waiter_of pr t = \<lparr>wt_thread = t, wt_priority = pr t\<rparr>"

definition mutex_suspend :: "priorities \<Rightarrow> nat \<Rightarrow> nat list \<Rightarrow> nat list" where
  "mutex_suspend pr t ts = map wt_thread (ipc_list_suspend RT_IPC_FLAG_PRIO (waiter_of pr t) (map (waiter_of pr) ts))"

definition ipc_mutex_take :: "nat \<Rightarrow> int \<Rightarrow> priorities \<times> rt_mutex \<Rightarrow> (ipc_result \<times> priorities \<times> rt_mutex) option" where
  "ipc_mutex_take self timeout = (\<lambda>(pr, mx).
     if mx_owner mx = Some self then
       (if mx_hold mx < RT_MUTEX_HOLD_MAX then Some (Returned RT_EOK, pr, mx\<lparr>mx_hold := mx_hold mx + 1\<rparr>)
        else Some (Returned (- RT_EFULL), pr, mx))
     else if mx_value mx > 0 then
       let mx1 = mx\<lparr>mx_value := mx_value mx - 1, mx_owner := Some self, mx_original_priority := pr self\<rparr>
       in (if mx_hold mx1 < RT_MUTEX_HOLD_MAX then Some (Returned RT_EOK, pr, mx1\<lparr>mx_hold := mx_hold mx1 + 1\<rparr>)
           else Some (Returned (- RT_EFULL), pr, mx1))
     else if timeout = 0 then Some (Returned (- RT_ETIMEOUT), pr, mx)
     else
       (case mx_owner mx of
          None \<Rightarrow> None
        | Some owner \<Rightarrow>
            let pr1 = (if pr self < pr owner then pr(owner := pr self) else pr)
            in Some (Suspended, pr1, mx\<lparr>mx_suspend_thread := mutex_suspend pr1 self (mx_suspend_thread mx)\<rparr>)))"

text \<open>With the thread that is resumed.\<close>

definition ipc_mutex_release :: "nat \<Rightarrow> priorities \<times> rt_mutex \<Rightarrow> rt_err_t \<times> nat option \<times> priorities \<times> rt_mutex" where
  "ipc_mutex_release self = (\<lambda>(pr, mx).
     if mx_owner mx \<noteq> Some self then (- RT_ERROR, None, pr, mx)
     else
       let mx1 = mx\<lparr>mx_hold := mx_hold mx - 1\<rparr> in
       if mx_hold mx1 \<noteq> 0 then (RT_EOK, None, pr, mx1)
       else
         let pr1 = (if mx_original_priority mx1 \<noteq> pr self then pr(self := mx_original_priority mx1) else pr) in
         (case mx_suspend_thread mx1 of
            t # ts \<Rightarrow>
              let mx2 = mx1\<lparr>mx_owner := Some t, mx_original_priority := pr1 t\<rparr>
              in if mx_hold mx2 < RT_MUTEX_HOLD_MAX then (RT_EOK, Some t, pr1, mx2\<lparr>mx_hold := mx_hold mx2 + 1, mx_suspend_thread := ts\<rparr>)
                 else (- RT_EFULL, None, pr1, mx2)
          | [] \<Rightarrow>
              if mx_value mx1 < RT_MUTEX_VALUE_MAX
              then (RT_EOK, None, pr1, mx1\<lparr>mx_value := mx_value mx1 + 1, mx_owner := None, mx_original_priority := 0xFF\<rparr>)
              else (- RT_EFULL, None, pr1, mx1)))"

text \<open>\<open>_thread_timeout\<close>: a waiting thread leaves the list.\<close>

definition mutex_timeout :: "nat \<Rightarrow> rt_mutex \<Rightarrow> rt_mutex" where
  "mutex_timeout t mx = mx\<lparr>mx_suspend_thread := removeAll t (mx_suspend_thread mx)\<rparr>"

section \<open>Mutual exclusion and inheritance\<close>

text \<open>
  A set of mutexes and any number of threads, each with its base priority. A thread that waits does
  nothing, and a thread takes a mutex only while it holds no other one, which is how the
  arbitration module uses them.
\<close>

type_synonym mx_state = "priorities \<times> (nat \<Rightarrow> rt_mutex)"

definition waits :: "(nat \<Rightarrow> rt_mutex) \<Rightarrow> nat \<Rightarrow> bool" where
  "waits ms t \<longleftrightarrow> (\<exists>i. t \<in> set (mx_suspend_thread (ms i)))"

inductive mx_step :: "mx_state \<Rightarrow> mx_state \<Rightarrow> bool" where
  take: "\<not> waits ms self \<Longrightarrow> \<forall>j. mx_owner (ms j) = Some self \<longrightarrow> j = i \<Longrightarrow>
    ipc_mutex_take self timeout (pr, ms i) = Some (r, pr', mx) \<Longrightarrow> mx_step (pr, ms) (pr', ms(i := mx))"
| release: "\<not> waits ms self \<Longrightarrow> ipc_mutex_release self (pr, ms i) = (r, woken, pr', mx) \<Longrightarrow> mx_step (pr, ms) (pr', ms(i := mx))"
| timeout: "t \<in> set (mx_suspend_thread (ms i)) \<Longrightarrow> mx_step (pr, ms) (pr, ms(i := mutex_timeout t (ms i)))"

inductive mx_reach :: "priorities \<Rightarrow> mx_state \<Rightarrow> bool" for base where
  init: "mx_reach base (base, \<lambda>_. ipc_mutex_init)"
| step: "mx_reach base s \<Longrightarrow> mx_step s s' \<Longrightarrow> mx_reach base s'"

text \<open>One mutex: free, or owned by a thread that no waiting thread outranks; the waiting threads in order.\<close>

definition mx_ok :: "priorities \<Rightarrow> priorities \<Rightarrow> rt_mutex \<Rightarrow> bool" where
  "mx_ok base pr mx \<longleftrightarrow>
     distinct (mx_suspend_thread mx) \<and> sorted_wrt (\<lambda>a b. base a \<le> base b) (mx_suspend_thread mx) \<and>
     (case mx_owner mx of
        None \<Rightarrow> mx_value mx = 1 \<and> mx_hold mx = 0 \<and> mx_suspend_thread mx = []
      | Some t \<Rightarrow> mx_value mx = 0 \<and> mx_hold mx \<noteq> 0 \<and> mx_original_priority mx = base t \<and> t \<notin> set (mx_suspend_thread mx) \<and>
          pr t \<le> base t \<and> (\<forall>s \<in> set (mx_suspend_thread mx). pr t \<le> base s))"

text \<open>A thread is at one mutex at most; only an owner has another priority than its own.\<close>

definition at_mutex :: "rt_mutex \<Rightarrow> nat \<Rightarrow> bool" where
  "at_mutex mx t \<longleftrightarrow> mx_owner mx = Some t \<or> t \<in> set (mx_suspend_thread mx)"

definition mx_inv :: "priorities \<Rightarrow> mx_state \<Rightarrow> bool" where
  "mx_inv base = (\<lambda>(pr, ms). (\<forall>i. mx_ok base pr (ms i)) \<and>
     (\<forall>i j t. at_mutex (ms i) t \<longrightarrow> at_mutex (ms j) t \<longrightarrow> i = j) \<and>
     (\<forall>t. (\<forall>i. mx_owner (ms i) \<noteq> Some t) \<longrightarrow> pr t = base t))"

lemma mutex_suspend_Nil [simp]: "mutex_suspend pr t [] = [t]"
  by (simp add: mutex_suspend_def ipc_list_suspend_def waiter_of_def)

lemma mutex_suspend_Cons: "mutex_suspend pr t (s # ss) = (if pr t < pr s then t # s # ss else s # mutex_suspend pr t ss)"
proof -
  have "map wt_thread (map (waiter_of pr) xs) = xs" for xs by (simp add: waiter_of_def comp_def)
  then show ?thesis by (simp add: mutex_suspend_def ipc_list_suspend_def) (simp add: waiter_of_def)
qed

lemma set_mutex_suspend [simp]: "set (mutex_suspend pr t ts) = insert t (set ts)"
  by (induction ts) (auto simp: mutex_suspend_Cons)

lemma distinct_mutex_suspend: "distinct ts \<Longrightarrow> t \<notin> set ts \<Longrightarrow> distinct (mutex_suspend pr t ts)"
  by (induction ts) (auto simp: mutex_suspend_Cons)

lemma sorted_mutex_suspend:
  "sorted_wrt (\<lambda>a b. base a \<le> base b) ts \<Longrightarrow> \<forall>s \<in> insert t (set ts). pr s = base s \<Longrightarrow> sorted_wrt (\<lambda>a b. base a \<le> base b) (mutex_suspend pr t ts)"
  by (induction ts) (auto simp: mutex_suspend_Cons)

lemma mx_inv_init: "mx_inv base (base, \<lambda>_. ipc_mutex_init)"
  by (simp add: mx_inv_def mx_ok_def ipc_mutex_init_def at_mutex_def)

text \<open>What a step at one mutex has to keep so that the invariant of all of them is kept.\<close>

lemma mx_inv_local:
  assumes inv: "mx_inv base (pr, ms)" and ok: "mx_ok base pr' mx"
    and at: "\<forall>t. at_mutex mx t \<longrightarrow> at_mutex (ms i) t \<or> (\<forall>j. \<not> at_mutex (ms j) t)"
    and pr: "\<forall>t. pr' t \<noteq> pr t \<longrightarrow> mx_owner (ms i) = Some t"
    and own: "\<forall>t. mx_owner mx \<noteq> Some t \<longrightarrow> (\<forall>j. j \<noteq> i \<longrightarrow> mx_owner (ms j) \<noteq> Some t) \<longrightarrow> pr' t = base t"
  shows "mx_inv base (pr', ms(i := mx))"
proof -
  have j: "mx_ok base pr' (ms j)" if "j \<noteq> i" for j
  proof -
    have o: "mx_ok base pr (ms j)" using inv by (simp add: mx_inv_def)
    have "pr' t = pr t" if "mx_owner (ms j) = Some t" for t
    proof (rule ccontr)
      assume "pr' t \<noteq> pr t"
      then have "at_mutex (ms i) t" "at_mutex (ms j) t" using pr that by (auto simp: at_mutex_def)
      then show False using inv \<open>j \<noteq> i\<close> by (auto simp: mx_inv_def)
    qed
    then show ?thesis using o by (auto simp: mx_ok_def split: option.splits)
  qed
  moreover have "pr' t = base t" if "\<forall>j. mx_owner ((ms(i := mx)) j) \<noteq> Some t" for t
  proof -
    have "mx_owner mx \<noteq> Some t" "\<forall>j. j \<noteq> i \<longrightarrow> mx_owner (ms j) \<noteq> Some t" using that by (metis fun_upd_apply)+
    then show ?thesis using own by blast
  qed
  moreover have "k = l" if "at_mutex ((ms(i := mx)) k) t" "at_mutex ((ms(i := mx)) l) t" for k l t
  proof -
    have u: "a = b" if "at_mutex (ms a) t" "at_mutex (ms b) t" for a b using inv that by (auto simp: mx_inv_def)
    show ?thesis
    proof (cases "k = i"; cases "l = i")
      assume c: "k = i" "l \<noteq> i"
      then have "at_mutex mx t" "at_mutex (ms l) t" using that by simp_all
      then show ?thesis using at u c by metis
    next
      assume c: "k \<noteq> i" "l = i"
      then have "at_mutex mx t" "at_mutex (ms k) t" using that by simp_all
      then show ?thesis using at u c by metis
    next
      assume "k \<noteq> i" "l \<noteq> i"
      then show ?thesis using that u by simp
    qed simp
  qed
  ultimately show ?thesis unfolding mx_inv_def prod.case using ok by (metis fun_upd_apply)
qed

lemma mx_invD:
  assumes "mx_inv base (pr, ms)"
  shows "mx_ok base pr (ms i)" "at_mutex (ms i) t \<Longrightarrow> at_mutex (ms j) t \<Longrightarrow> i = j" "\<forall>i. mx_owner (ms i) \<noteq> Some t \<Longrightarrow> pr t = base t"
  using assms unfolding mx_inv_def prod.case by blast+

lemma mx_base:
  assumes "mx_inv base (pr, ms)" "mx_owner (ms i) \<noteq> Some t" "\<forall>j. j \<noteq> i \<longrightarrow> mx_owner (ms j) \<noteq> Some t"
  shows "pr t = base t"
  using mx_invD(3) [OF assms(1)] assms(2,3) by metis

lemma waiting_base:
  assumes "mx_inv base (pr, ms)" "s \<in> set (mx_suspend_thread (ms i))"
  shows "pr s = base s" "mx_owner (ms i) \<noteq> Some s"
proof -
  show o: "mx_owner (ms i) \<noteq> Some s" using mx_invD(1) [OF assms(1), of i] assms(2) by (auto simp: mx_ok_def)
  have "mx_owner (ms j) \<noteq> Some s" for j
    using mx_invD(2) [OF assms(1), of i s j] assms(2) o by (auto simp: at_mutex_def)
  then show "pr s = base s" using mx_invD(3) [OF assms(1)] by blast
qed

lemma take_suspends:
  assumes inv: "mx_inv base (pr, ms)" and w: "\<not> waits ms self" and own: "\<forall>j. mx_owner (ms j) \<noteq> Some self" and o: "mx_owner (ms i) = Some own"
  defines "pr1 \<equiv> if pr self < pr own then pr(own := pr self) else pr"
  shows "mx_inv base (pr1, ms(i := (ms i)\<lparr>mx_suspend_thread := mutex_suspend pr1 self (mx_suspend_thread (ms i))\<rparr>))"
proof (rule mx_inv_local [OF inv])
  let ?ts = "mx_suspend_thread (ms i)"
  have b: "pr self = base self" using mx_invD(3) [OF inv] own by blast
  have ne: "self \<noteq> own" "self \<notin> set ?ts" using own o w by (auto simp: waits_def)
  have p: "pr1 t = pr t" if "t \<noteq> own" for t using that by (simp add: pr1_def)
  have ws: "\<forall>s \<in> insert self (set ?ts). pr1 s = base s"
    using waiting_base [OF inv, of _ i] p ne b o by fastforce
  have ok: "mx_ok base pr (ms i)" by (rule mx_invD(1) [OF inv])
  have "pr1 own \<le> pr own" "pr1 own \<le> pr self" by (auto simp: pr1_def)
  then show "mx_ok base pr1 ((ms i)\<lparr>mx_suspend_thread := mutex_suspend pr1 self ?ts\<rparr>)"
    using ok o ne b ws by (auto simp: mx_ok_def distinct_mutex_suspend sorted_mutex_suspend intro: order_trans)
  show "\<forall>t. at_mutex ((ms i)\<lparr>mx_suspend_thread := mutex_suspend pr1 self ?ts\<rparr>) t \<longrightarrow> at_mutex (ms i) t \<or> (\<forall>j. \<not> at_mutex (ms j) t)"
    using own w by (auto simp: at_mutex_def waits_def)
  show "\<forall>t. pr1 t \<noteq> pr t \<longrightarrow> mx_owner (ms i) = Some t" using p o by metis
  show "\<forall>t. mx_owner ((ms i)\<lparr>mx_suspend_thread := mutex_suspend pr1 self ?ts\<rparr>) \<noteq> Some t \<longrightarrow>
      (\<forall>j. j \<noteq> i \<longrightarrow> mx_owner (ms j) \<noteq> Some t) \<longrightarrow> pr1 t = base t"
    using o p mx_invD(3) [OF inv] by (metis option.inject rt_mutex.select_convs(4) rt_mutex.surjective rt_mutex.update_convs(5))
qed

lemma mx_inv_same:
  assumes inv: "mx_inv base (pr, ms)" and m: "mx_ok base pr m" "mx_owner m = mx_owner (ms i)" "set (mx_suspend_thread m) \<subseteq> set (mx_suspend_thread (ms i))"
  shows "mx_inv base (pr, ms(i := m))"
proof (rule mx_inv_local [OF inv m(1)])
  show "\<forall>t. at_mutex m t \<longrightarrow> at_mutex (ms i) t \<or> (\<forall>j. \<not> at_mutex (ms j) t)" using m by (auto simp: at_mutex_def)
  show "\<forall>t. mx_owner m \<noteq> Some t \<longrightarrow> (\<forall>j. j \<noteq> i \<longrightarrow> mx_owner (ms j) \<noteq> Some t) \<longrightarrow> pr t = base t"
    using mx_invD(3) [OF inv] m(2) by metis
qed simp

lemma mutex_take_inv:
  assumes inv: "mx_inv base (pr, ms)" and w: "\<not> waits ms self" and own: "\<forall>j. mx_owner (ms j) = Some self \<longrightarrow> j = i"
    and take: "ipc_mutex_take self timeout (pr, ms i) = Some (r, pr', mx)"
  shows "mx_inv base (pr', ms(i := mx))"
proof -
  have ok: "mx_ok base pr (ms i)" by (rule mx_invD(1) [OF inv])
  show ?thesis
  proof (cases "mx_owner (ms i) = Some self")
    case True
    have "mx_hold (ms i) + 1 \<noteq> 0" if "mx_hold (ms i) < 0xFF" using that by (auto simp: eq_neg_iff_add_eq_0 [symmetric])
    then show ?thesis using take True ok inv by (auto intro!: mx_inv_same simp: ipc_mutex_take_def mx_ok_def split: if_splits)
  next
    case ns: False
    then have none: "\<forall>j. mx_owner (ms j) \<noteq> Some self" using own by metis
    have b: "pr self = base self" using mx_invD(3) [OF inv] none by blast
    show ?thesis
    proof (cases "mx_owner (ms i)")
      case None
      then have "pr' = pr \<and> mx = (ms i)\<lparr>mx_value := 0, mx_owner := Some self, mx_original_priority := base self, mx_hold := 1\<rparr>"
        using take ok b by (auto simp: ipc_mutex_take_def mx_ok_def Let_def)
      then show ?thesis
        using None ok b none w mx_base [OF inv, of i]
        by (intro mx_inv_local [OF inv]) (auto simp: mx_ok_def at_mutex_def waits_def)
    next
      case (Some own')
      then have "mx_value (ms i) = 0" using ok by (simp add: mx_ok_def)
      then show ?thesis
        using take ns Some inv take_suspends [OF inv w none Some]
        by (auto simp: ipc_mutex_take_def Let_def split: if_splits)
    qed
  qed
qed

lemma mutex_release_inv:
  assumes inv: "mx_inv base (pr, ms)" and w: "\<not> waits ms self" and rel: "ipc_mutex_release self (pr, ms i) = (r, woken, pr', mx)"
  shows "mx_inv base (pr', ms(i := mx))"
proof (cases "mx_owner (ms i) = Some self")
  case False
  then have "pr' = pr" "mx = ms i" using rel by (simp_all add: ipc_mutex_release_def)
  then show ?thesis using inv by simp
next
  case own: True
  let ?m = "ms i"
  have ok: "mx_ok base pr ?m" by (rule mx_invD(1) [OF inv])
  have others: "\<forall>j. j \<noteq> i \<longrightarrow> mx_owner (ms j) \<noteq> Some self" using mx_invD(2) [OF inv] own by (metis at_mutex_def)
  show ?thesis
  proof (cases "mx_hold ?m - 1 = 0")
    case False
    then have eq: "pr' = pr" "mx = ?m\<lparr>mx_hold := mx_hold ?m - 1\<rparr>" using rel own by (simp_all add: ipc_mutex_release_def)
    have "mx_ok base pr mx" using ok False own by (simp add: eq mx_ok_def)
    then have "mx_inv base (pr, ms(i := mx))" by (rule mx_inv_same [OF inv]) (simp_all add: eq)
    then show ?thesis by (simp only: eq(1))
  next
    case last: True
    define pr1 where "pr1 = pr(self := base self)"
    have orig: "mx_original_priority ?m = base self" using ok own by (simp add: mx_ok_def)
    then have pr1: "(if mx_original_priority ?m \<noteq> pr self then pr(self := mx_original_priority ?m) else pr) = pr1" by (auto simp: pr1_def)
    show ?thesis
    proof (cases "mx_suspend_thread ?m")
      case Nil
      then have eq: "pr' = pr1" "mx = ?m\<lparr>mx_hold := 0, mx_value := 1, mx_owner := None, mx_original_priority := 0xFF\<rparr>"
        using rel own last ok pr1 by (simp_all add: ipc_mutex_release_def Let_def mx_ok_def split: if_splits)
      show ?thesis unfolding eq
      proof (rule mx_inv_local [OF inv])
        show "\<forall>t. mx_owner (?m\<lparr>mx_hold := 0, mx_value := 1, mx_owner := None, mx_original_priority := 0xFF\<rparr>) \<noteq> Some t \<longrightarrow>
            (\<forall>j. j \<noteq> i \<longrightarrow> mx_owner (ms j) \<noteq> Some t) \<longrightarrow> pr1 t = base t"
          using mx_invD(3) [OF inv] own by (metis fun_upd_apply option.inject pr1_def)
      qed (use Nil own in \<open>auto simp: mx_ok_def at_mutex_def pr1_def\<close>)
    next
      case (Cons t ts)
      have t: "t \<noteq> self" "pr1 t = base t" using waiting_base [OF inv, of t i] Cons own by (auto simp: pr1_def)
      let ?mx = "?m\<lparr>mx_owner := Some t, mx_original_priority := base t, mx_hold := 1, mx_suspend_thread := ts\<rparr>"
      have eq: "pr' = pr1" "mx = ?mx"
        using rel own last pr1 t Cons by (auto simp add: ipc_mutex_release_def Let_def split: if_splits)
      show ?thesis unfolding eq
      proof (rule mx_inv_local [OF inv])
        show "mx_ok base pr1 ?mx" using ok own Cons t by (simp add: mx_ok_def)
        show "\<forall>s. mx_owner ?mx \<noteq> Some s \<longrightarrow> (\<forall>j. j \<noteq> i \<longrightarrow> mx_owner (ms j) \<noteq> Some s) \<longrightarrow> pr1 s = base s"
          using mx_invD(3) [OF inv] own by (metis fun_upd_apply option.inject pr1_def)
      qed (use Cons own in \<open>auto simp: at_mutex_def pr1_def\<close>)
    qed
  qed
qed

lemma mutex_timeout_inv:
  assumes inv: "mx_inv base (pr, ms)"
  shows "mx_inv base (pr, ms(i := mutex_timeout t (ms i)))"
proof (rule mx_inv_same [OF inv])
  show "mx_ok base pr (mutex_timeout t (ms i))"
    using mx_invD(1) [OF inv, of i]
    by (auto simp: mutex_timeout_def mx_ok_def removeAll_filter_not_eq sorted_wrt_filter split: option.splits)
qed (auto simp: mutex_timeout_def)

lemma mx_step_inv: "mx_step s s' \<Longrightarrow> mx_inv base s \<Longrightarrow> mx_inv base s'"
  by (induction rule: mx_step.induct) (auto intro: mutex_take_inv mutex_release_inv mutex_timeout_inv)

lemma mx_reach_inv: "mx_reach base s \<Longrightarrow> mx_inv base s"
  by (induction rule: mx_reach.induct) (auto intro: mx_inv_init mx_step_inv)

lemma owner_runs:
  assumes inv: "mx_inv base (pr, ms)" and o: "mx_owner (ms i) = Some t"
  shows "\<not> waits ms t" "mx_original_priority (ms i) = base t" "pr t \<le> base t" "\<forall>s \<in> set (mx_suspend_thread (ms i)). pr t \<le> pr s"
proof -
  have "t \<notin> set (mx_suspend_thread (ms j))" for j
    using mx_invD(2) [OF inv, of i t j] o waiting_base(2) [OF inv, of t j] by (auto simp: at_mutex_def)
  then show "\<not> waits ms t" by (simp add: waits_def)
qed (use mx_invD(1) [OF inv, of i] o waiting_base(1) [OF inv, of _ i] in \<open>auto simp: mx_ok_def\<close>)

lemma take_result:
  assumes inv: "mx_inv base (pr, ms)" and t: "ipc_mutex_take self timeout (pr, ms i) = Some (r, pr', mx)"
  shows "r = Returned RT_EOK \<Longrightarrow> mx_owner mx = Some self \<and> mx_owner (ms i) \<in> {None, Some self}"
    and "timeout \<noteq> 0 \<Longrightarrow> mx_owner (ms i) \<noteq> Some self \<Longrightarrow> r \<in> {Returned RT_EOK, Suspended}"
  using t mx_invD(1) [OF inv, of i] by (auto simp: ipc_mutex_take_def mx_ok_def Let_def split: if_splits option.splits)

lemma release_result:
  assumes inv: "mx_inv base (pr, ms)" and o: "mx_owner (ms i) = Some self"
    and rel: "ipc_mutex_release self (pr, ms i) = (r, woken, pr', mx)" and free: "mx_owner mx \<noteq> Some self"
  shows "r = RT_EOK" "woken = mx_owner mx" "pr' self = base self"
    "woken = (case mx_suspend_thread (ms i) of [] \<Rightarrow> None | t # ts \<Rightarrow> Some t)"
    "\<forall>t. woken = Some t \<longrightarrow> (\<forall>s \<in> set (mx_suspend_thread (ms i)). pr t \<le> pr s)"
  using rel o free mx_invD(1) [OF inv, of i] waiting_base(1) [OF inv, of _ i]
  by (auto simp: ipc_mutex_release_def mx_ok_def Let_def split: if_splits list.splits)

text \<open>
  C20. With threads that hold one mutex at a time, in every order of takes, nested takes, releases and
  expired waits: a take never meets a mutex without an owner to wait for, it succeeds only on a mutex
  that is free or its own, and with a time to wait it fails only when it is nested too deeply; a free
  mutex has nobody waiting; an owner waits for no mutex and its priority is at least that of every
  thread waiting for it; the release that ends its ownership gives it its own priority back and
  hands the mutex to a waiting thread of the highest priority; and a thread that owns nothing runs with its own
  priority.
\<close>

theorem mutex_priority_inheritance:
  assumes "mx_reach base (pr, ms)"
  shows "(\<exists>r pr' mx. ipc_mutex_take self timeout (pr, ms i) = Some (r, pr', mx) \<and>
        (r = Returned RT_EOK \<longrightarrow> mx_owner mx = Some self \<and> mx_owner (ms i) \<in> {None, Some self}) \<and>
        (timeout \<noteq> 0 \<longrightarrow> mx_owner (ms i) \<noteq> Some self \<longrightarrow> r \<in> {Returned RT_EOK, Suspended})) \<and>
     (mx_owner (ms i) = None \<longrightarrow> mx_suspend_thread (ms i) = []) \<and>
     (mx_owner (ms i) = Some t \<longrightarrow> \<not> waits ms t \<and> (\<forall>s \<in> set (mx_suspend_thread (ms i)). pr t \<le> pr s) \<and>
        (\<forall>r woken pr' mx. ipc_mutex_release t (pr, ms i) = (r, woken, pr', mx) \<and> mx_owner mx \<noteq> Some t \<longrightarrow>
           r = RT_EOK \<and> woken = mx_owner mx \<and> pr' t = base t \<and>
           woken = (case mx_suspend_thread (ms i) of [] \<Rightarrow> None | w # ws \<Rightarrow> Some w) \<and>
           (\<forall>w. woken = Some w \<longrightarrow> (\<forall>s \<in> set (mx_suspend_thread (ms i)). pr w \<le> pr s)))) \<and>
     ((\<forall>j. mx_owner (ms j) \<noteq> Some t) \<longrightarrow> pr t = base t)"
proof (intro conjI)
  note inv = mx_reach_inv [OF assms]
  note ok = mx_invD(1) [OF inv, of i]
  have "ipc_mutex_take self timeout (pr, ms i) \<noteq> None"
    using ok by (auto simp: ipc_mutex_take_def mx_ok_def Let_def split: option.splits)
  then obtain r pr' mx where t: "ipc_mutex_take self timeout (pr, ms i) = Some (r, pr', mx)" by auto
  show "\<exists>r pr' mx. ipc_mutex_take self timeout (pr, ms i) = Some (r, pr', mx) \<and>
        (r = Returned RT_EOK \<longrightarrow> mx_owner mx = Some self \<and> mx_owner (ms i) \<in> {None, Some self}) \<and>
        (timeout \<noteq> 0 \<longrightarrow> mx_owner (ms i) \<noteq> Some self \<longrightarrow> r \<in> {Returned RT_EOK, Suspended})"
    using t take_result [OF inv t] by blast
  show "mx_owner (ms i) = None \<longrightarrow> mx_suspend_thread (ms i) = []" using ok by (auto simp: mx_ok_def)
  show "mx_owner (ms i) = Some t \<longrightarrow> \<not> waits ms t \<and> (\<forall>s \<in> set (mx_suspend_thread (ms i)). pr t \<le> pr s) \<and>
        (\<forall>r woken pr' mx. ipc_mutex_release t (pr, ms i) = (r, woken, pr', mx) \<and> mx_owner mx \<noteq> Some t \<longrightarrow>
           r = RT_EOK \<and> woken = mx_owner mx \<and> pr' t = base t \<and>
           woken = (case mx_suspend_thread (ms i) of [] \<Rightarrow> None | w # ws \<Rightarrow> Some w) \<and>
           (\<forall>w. woken = Some w \<longrightarrow> (\<forall>s \<in> set (mx_suspend_thread (ms i)). pr w \<le> pr s)))"
    by (intro impI conjI allI; (elim conjE)?) (rule owner_runs [OF inv] release_result(1,2,3,4) [OF inv] release_result(5) [OF inv, THEN spec, THEN mp]; assumption)+
  show "(\<forall>j. mx_owner (ms j) \<noteq> Some t) \<longrightarrow> pr t = base t" using mx_invD(3) [OF inv] by blast
qed

text \<open>
  Thread 7 of priority 20 holds the mutex when thread 8 of priority 10 comes: it runs with priority
  10 until the release hands the mutex over.
\<close>

theorem mutex_priority_inheritance_witness:
  "\<exists>pr ms. mx_reach (\<lambda>t. if t = 8 then 10 else 20) (pr, ms) \<and> mx_owner (ms 0) = Some 7 \<and> mx_suspend_thread (ms 0) = [8] \<and> pr 7 = 10 \<and>
     (\<forall>r woken pr' mx. ipc_mutex_release 7 (pr, ms 0) = (r, woken, pr', mx) \<and> mx_owner mx \<noteq> Some 7 \<longrightarrow>
        r = RT_EOK \<and> woken = Some 8 \<and> mx_owner mx = Some 8 \<and> pr' 7 = 20)"
proof -
  let ?base = "\<lambda>t :: nat. if t = 8 then 10 else 20 :: u8"
  define m1 where "m1 = \<lparr>mx_value = 0, mx_original_priority = 20, mx_hold = 1, mx_owner = Some (7 :: nat), mx_suspend_thread = []\<rparr>"
  define s1 where "s1 = (\<lambda>_ :: nat. ipc_mutex_init)(0 := m1)"
  define pr where "pr = ?base(7 := 10)"
  define ms where "ms = s1(0 := m1\<lparr>mx_suspend_thread := [8]\<rparr>)"
  have t1: "ipc_mutex_take 7 (- 1) (?base, ipc_mutex_init) = Some (Returned RT_EOK, ?base, m1)"
    by (simp add: ipc_mutex_take_def ipc_mutex_init_def m1_def)
  have t2: "ipc_mutex_take 8 (- 1) (?base, s1 0) = Some (Suspended, pr, m1\<lparr>mx_suspend_thread := [8]\<rparr>)"
    by (simp add: ipc_mutex_take_def s1_def m1_def pr_def)
  have r1: "mx_reach ?base (?base, s1)" unfolding s1_def
    by (rule mx_reach.step [OF mx_reach.init mx_step.take [where ms = "\<lambda>_. ipc_mutex_init" and i = 0, OF _ _ t1]]) (simp_all add: waits_def ipc_mutex_init_def)
  have r2: "mx_reach ?base (pr, ms)" unfolding ms_def
    by (rule mx_reach.step [OF r1 mx_step.take [where ms = s1 and i = 0, OF _ _ t2]]) (auto simp: waits_def s1_def m1_def ipc_mutex_init_def)
  have "mx_owner (ms 0) = Some 7" "mx_suspend_thread (ms 0) = [8]" "pr 7 = 10" by (simp_all add: ms_def m1_def pr_def)
  then show ?thesis using r2 mutex_priority_inheritance [OF r2, of 7 0 0 7] by (intro exI [of _ pr] exI [of _ ms]) auto
qed

end
