(* ===== verification/Kernel_Sem.thy ===== *)
theory Kernel_Sem
  imports Kernel_Mq
begin

text \<open>
  The semaphores of the kernel, \<^verbatim>\<open>rt-thread/src/ipc.c\<close>, with which the commands of the PWM output wake
  its thread: a count, and the threads that wait for it. A release with threads waiting resumes the first of
  them and leaves the count alone. Hooks, debug output and the object registry are left out.
\<close>

abbreviation RT_SEM_VALUE_MAX :: u16 where "RT_SEM_VALUE_MAX \<equiv> 0xFFFF"

record rt_semaphore =
  sem_flag :: ipc_flag
  sem_value :: u16
  sem_suspend_thread :: "ipc_waiter list"

text \<open>The result \<open>None\<close> is the failed assertion on the value.\<close>

definition ipc_sem_init :: "u32 \<Rightarrow> ipc_flag \<Rightarrow> rt_semaphore option" where
  "ipc_sem_init value flag =
     (if value < 0x10000 then Some \<lparr>sem_flag = flag, sem_value = ucast value, sem_suspend_thread = []\<rparr> else None)"

definition ipc_sem_take :: "ipc_waiter \<Rightarrow> int \<Rightarrow> rt_semaphore \<Rightarrow> ipc_result \<times> rt_semaphore" where
  "ipc_sem_take self timeout sem =
     (if sem_value sem > 0 then (Returned RT_EOK, sem\<lparr>sem_value := sem_value sem - 1\<rparr>)
      else if timeout = 0 then (Returned (- RT_ETIMEOUT), sem)
      else (Suspended, sem\<lparr>sem_suspend_thread := ipc_list_suspend (sem_flag sem) self (sem_suspend_thread sem)\<rparr>))"

definition ipc_sem_trytake :: "ipc_waiter \<Rightarrow> rt_semaphore \<Rightarrow> ipc_result \<times> rt_semaphore" where
  "ipc_sem_trytake self sem = ipc_sem_take self 0 sem"

text \<open>With the thread that is resumed.\<close>

definition ipc_sem_release :: "rt_semaphore \<Rightarrow> rt_err_t \<times> ipc_waiter option \<times> rt_semaphore" where
  "ipc_sem_release sem =
     (if sem_suspend_thread sem \<noteq> []
      then let (woken, ts) = ipc_list_resume (sem_suspend_thread sem) in (RT_EOK, woken, sem\<lparr>sem_suspend_thread := ts\<rparr>)
      else if sem_value sem < RT_SEM_VALUE_MAX then (RT_EOK, None, sem\<lparr>sem_value := sem_value sem + 1\<rparr>)
      else (- RT_EFULL, None, sem))"

text \<open>The reset; the resumed threads return an error.\<close>

definition ipc_sem_control :: "bool \<Rightarrow> u32 \<Rightarrow> rt_semaphore \<Rightarrow> rt_err_t \<times> ipc_waiter list \<times> rt_semaphore" where
  "ipc_sem_control reset arg sem =
     (if reset then (RT_EOK, sem_suspend_thread sem, sem\<lparr>sem_suspend_thread := [], sem_value := ucast arg\<rparr>)
      else (- RT_ERROR, [], sem))"

definition ipc_sem_timeout :: "ipc_waiter \<Rightarrow> rt_semaphore \<Rightarrow> rt_semaphore" where
  "ipc_sem_timeout t sem = sem\<lparr>sem_suspend_thread := removeAll t (sem_suspend_thread sem)\<rparr>"

section \<open>Counting\<close>

text \<open>
  Every sequence of calls, with the count at the start or the last reset, and since then the releases that
  succeeded and the takes that were granted, at once or by a release. A thread that waits makes no call.
\<close>

inductive sem_reach :: "nat \<Rightarrow> nat \<Rightarrow> nat \<Rightarrow> rt_semaphore \<Rightarrow> bool" where
  init: "ipc_sem_init v fl = Some sem \<Longrightarrow> sem_reach (unat v) 0 0 sem"
| take: "sem_reach n g k sem \<Longrightarrow> self \<notin> set (sem_suspend_thread sem) \<Longrightarrow> ipc_sem_take self timeout sem = (r, sem') \<Longrightarrow>
    sem_reach n g (if r = Returned RT_EOK then Suc k else k) sem'"
| release: "sem_reach n g k sem \<Longrightarrow> ipc_sem_release sem = (r, woken, sem') \<Longrightarrow>
    sem_reach n (if r = RT_EOK then Suc g else g) (if woken = None then k else Suc k) sem'"
| timeout: "sem_reach n g k sem \<Longrightarrow> sem_reach n g k (ipc_sem_timeout t sem)"
| reset: "sem_reach n g k sem \<Longrightarrow> ipc_sem_control True arg sem = (r, woken, sem') \<Longrightarrow> sem_reach (unat (ucast arg :: u16)) 0 0 sem'"

definition sem_ok :: "nat \<Rightarrow> nat \<Rightarrow> nat \<Rightarrow> rt_semaphore \<Rightarrow> bool" where
  "sem_ok n g k sem \<longleftrightarrow> n + g = k + unat (sem_value sem) \<and> (sem_suspend_thread sem \<noteq> [] \<longrightarrow> sem_value sem = 0) \<and>
     distinct (sem_suspend_thread sem) \<and>
     (sem_flag sem = RT_IPC_FLAG_PRIO \<longrightarrow> sorted_wrt (\<lambda>a b. wt_priority a \<le> wt_priority b) (sem_suspend_thread sem))"

lemma prio_insert_distinct: "distinct ts \<Longrightarrow> t \<notin> set ts \<Longrightarrow> distinct (prio_insert t ts)"
  by (induction ts) auto

lemma prio_insert_sorted:
  "sorted_wrt (\<lambda>a b. wt_priority a \<le> wt_priority b) ts \<Longrightarrow> sorted_wrt (\<lambda>a b. wt_priority a \<le> wt_priority b) (prio_insert t ts)"
  by (induction ts) auto

lemma sem_count_down: "0 < (v :: u16) \<Longrightarrow> unat v = Suc (unat (v - 1))"
  using unat_minus_one [of v] unat_gt_0 [of v] by fastforce

lemma sem_count_up: "(v :: u16) < 0xFFFF \<Longrightarrow> unat (v + 1) = Suc (unat v)"
  by (simp add: unat_word_ariths word_less_nat_alt)

lemma sem_take_ok:
  assumes "sem_ok n g k sem" "self \<notin> set (sem_suspend_thread sem)" "ipc_sem_take self timeout sem = (r, sem')"
  shows "sem_ok n g (if r = Returned RT_EOK then Suc k else k) sem'"
proof (cases "sem_value sem > 0")
  case True
  then show ?thesis using assms sem_count_down [OF True] by (auto simp: ipc_sem_take_def sem_ok_def)
next
  case False
  then have "sem_value sem = 0" by (simp add: word_gt_0)
  then show ?thesis using assms prio_insert_distinct prio_insert_sorted
    by (cases "sem_flag sem") (auto simp: ipc_sem_take_def sem_ok_def ipc_list_suspend_def split: if_splits)
qed

lemma sem_release_ok:
  assumes "sem_ok n g k sem" "ipc_sem_release sem = (r, woken, sem')"
  shows "sem_ok n (if r = RT_EOK then Suc g else g) (if woken = None then k else Suc k) sem'"
proof (cases "sem_suspend_thread sem")
  case Nil
  then show ?thesis using assms sem_count_up [of "sem_value sem"] by (auto simp: ipc_sem_release_def sem_ok_def split: if_splits)
next
  case (Cons t ts)
  then show ?thesis using assms by (auto simp: ipc_sem_release_def ipc_list_resume_def sem_ok_def)
qed

lemma sem_timeout_ok: "sem_ok n g k sem \<Longrightarrow> sem_ok n g k (ipc_sem_timeout t sem)"
  by (auto simp: sem_ok_def ipc_sem_timeout_def removeAll_filter_not_eq intro!: sorted_wrt_filter)

lemma sem_reach_ok: "sem_reach n g k sem \<Longrightarrow> sem_ok n g k sem"
proof (induction rule: sem_reach.induct)
  case (init v fl sem)
  then have "v < 0x10000" "sem = \<lparr>sem_flag = fl, sem_value = ucast v, sem_suspend_thread = []\<rparr>" by (auto simp: ipc_sem_init_def split: if_splits)
  moreover from this have "unat (ucast v :: u16) = unat v" by (simp add: unsigned_ucast_eq word_less_nat_alt take_bit_nat_eq_self)
  ultimately show ?case by (simp add: sem_ok_def)
next
  case (take n g k sem self timeout r sem')
  then show ?case using sem_take_ok by blast
next
  case (release n g k sem r woken sem')
  then show ?case using sem_release_ok by blast
next
  case (reset n g k sem arg r woken sem')
  then show ?case by (auto simp: sem_ok_def ipc_sem_control_def)
qed (rule sem_timeout_ok)

text \<open>
  The count is exact: initial count and successful releases are the takes that were granted and the count that is
  left, nobody waits while the count is positive, a release is refused only at the largest count and
  otherwise wakes the first waiting thread, with the flag for priorities a most urgent one.
\<close>

theorem semaphore_counts:
  assumes "sem_reach n g k sem"
  shows "n + g = k + unat (sem_value sem) \<and> (sem_value sem > 0 \<longrightarrow> sem_suspend_thread sem = []) \<and>
    (fst (ipc_sem_release sem) \<noteq> RT_EOK \<longleftrightarrow> sem_value sem = RT_SEM_VALUE_MAX) \<and>
    (\<forall>t. fst (snd (ipc_sem_release sem)) = Some t \<longleftrightarrow> sem_suspend_thread sem \<noteq> [] \<and> t = hd (sem_suspend_thread sem)) \<and>
    (sem_flag sem = RT_IPC_FLAG_PRIO \<longrightarrow> (\<forall>t \<in> set (sem_suspend_thread sem). wt_priority (hd (sem_suspend_thread sem)) \<le> wt_priority t))"
proof -
  have ok: "sem_ok n g k sem" using assms by (rule sem_reach_ok)
  have "sem_value sem < RT_SEM_VALUE_MAX \<or> sem_value sem = RT_SEM_VALUE_MAX"
    using unat_u16_less [of "sem_value sem"] by (auto simp: word_less_nat_alt word_unat_eq_iff)
  then show ?thesis using ok by (cases "sem_suspend_thread sem") (auto simp: sem_ok_def ipc_sem_release_def ipc_list_resume_def)
qed

end
