(* ===== verification/Kernel_Timer.thy ===== *)
theory Kernel_Timer
  imports Prelude
begin

text \<open>
  The timers of the kernel, \<^verbatim>\<open>rt-thread/src/timer.c\<close>, in the configuration of this firmware: one skip
  list level, so one list of timers ordered by the time of their expiry, and no software timers.
  Every delay of a thread is one of these timers. The tick is a 32-bit counter that wraps around
  after 49 days, and all comparisons are differences modulo \<open>2 ^ 32\<close>. The function that an expired
  timer calls acts on a state of its own and on no timer, which holds for the timers of threads; the
  hooks, the debug output and the counter that chooses skip list levels are left out.
\<close>

abbreviation RT_TICK_MAX :: u32 where "RT_TICK_MAX \<equiv> 0xFFFFFFFF"
abbreviation RT_TICK_HALF :: u32 where "RT_TICK_HALF \<equiv> 0x7FFFFFFF"
abbreviation RT_TIMER_FLAG_ACTIVATED :: u8 where "RT_TIMER_FLAG_ACTIVATED \<equiv> 1"
abbreviation RT_TIMER_FLAG_PERIODIC :: u8 where "RT_TIMER_FLAG_PERIODIC \<equiv> 2"

record rt_timer =
  tm_flag :: u8
  tm_init_tick :: u32
  tm_timeout_tick :: u32

text \<open>The timer objects, and \<open>_timer_list\<close> as the list of the started ones.\<close>

record timer_sys =
  ts_timers :: "nat \<Rightarrow> rt_timer"
  ts_list :: "nat list"

definition tm_activated :: "rt_timer \<Rightarrow> bool" where
  "tm_activated t \<longleftrightarrow> tm_flag t AND RT_TIMER_FLAG_ACTIVATED \<noteq> 0"

definition tm_periodic :: "rt_timer \<Rightarrow> bool" where
  "tm_periodic t \<longleftrightarrow> tm_flag t AND RT_TIMER_FLAG_PERIODIC \<noteq> 0"

definition tm_clear_activated :: "rt_timer \<Rightarrow> rt_timer" where
  "tm_clear_activated t = t\<lparr>tm_flag := tm_flag t AND NOT RT_TIMER_FLAG_ACTIVATED\<rparr>"

definition tm_upd :: "nat \<Rightarrow> (rt_timer \<Rightarrow> rt_timer) \<Rightarrow> timer_sys \<Rightarrow> timer_sys" where
  "tm_upd i f s = s\<lparr>ts_timers := (ts_timers s)(i := f (ts_timers s i))\<rparr>"

text \<open>\<open>rt_timer_init\<close>; the result \<open>None\<close> is a failed assertion.\<close>

definition rt_timer_init :: "nat \<Rightarrow> u32 \<Rightarrow> u8 \<Rightarrow> timer_sys \<Rightarrow> timer_sys option" where
  "rt_timer_init i time flag s =
     (if time < RT_TICK_HALF
      then Some (tm_upd i (\<lambda>_. \<lparr>tm_flag = flag AND NOT RT_TIMER_FLAG_ACTIVATED, tm_init_tick = time, tm_timeout_tick = 0\<rparr>) s)
      else None)"

definition timer_remove :: "nat \<Rightarrow> timer_sys \<Rightarrow> timer_sys" where
  "timer_remove i s = s\<lparr>ts_list := removeAll i (ts_list s)\<rparr>"

text \<open>The search of \<open>rt_timer_start\<close> and the insertion behind the place it stops at.\<close>

primrec timer_insert :: "(nat \<Rightarrow> rt_timer) \<Rightarrow> nat \<Rightarrow> nat list \<Rightarrow> nat list" where
  "timer_insert tm i [] = [i]"
| "timer_insert tm i (t # ts) =
     (let d = tm_timeout_tick (tm t) - tm_timeout_tick (tm i)
      in if d = 0 then t # timer_insert tm i ts
         else if d < RT_TICK_HALF then i # t # ts
         else t # timer_insert tm i ts)"

definition rt_timer_start :: "u32 \<Rightarrow> nat \<Rightarrow> timer_sys \<Rightarrow> timer_sys" where
  "rt_timer_start tick i s =
     (let s1 = tm_upd i tm_clear_activated (timer_remove i s);
          s2 = tm_upd i (\<lambda>t. t\<lparr>tm_timeout_tick := tick + tm_init_tick t\<rparr>) s1;
          s3 = s2\<lparr>ts_list := timer_insert (ts_timers s2) i (ts_list s2)\<rparr>
      in tm_upd i (\<lambda>t. t\<lparr>tm_flag := tm_flag t OR RT_TIMER_FLAG_ACTIVATED\<rparr>) s3)"

definition rt_timer_stop :: "nat \<Rightarrow> timer_sys \<Rightarrow> rt_err_t \<times> timer_sys" where
  "rt_timer_stop i s =
     (if \<not> tm_activated (ts_timers s i) then (- RT_ERROR, s)
      else (RT_EOK, tm_upd i tm_clear_activated (timer_remove i s)))"

datatype timer_ctrl = RT_TIMER_CTRL_SET_TIME | RT_TIMER_CTRL_GET_TIME | RT_TIMER_CTRL_SET_ONESHOT
  | RT_TIMER_CTRL_SET_PERIODIC | RT_TIMER_CTRL_GET_STATE | RT_TIMER_CTRL_GET_REMAIN_TIME

text \<open>With the value of the argument after the call; \<open>GET_REMAIN_TIME\<close> gives the tick of the expiry.\<close>

definition rt_timer_control :: "nat \<Rightarrow> timer_ctrl \<Rightarrow> u32 \<Rightarrow> timer_sys \<Rightarrow> (u32 \<times> timer_sys) option" where
  "rt_timer_control i cmd arg s =
     (case cmd of
        RT_TIMER_CTRL_GET_TIME \<Rightarrow> Some (tm_init_tick (ts_timers s i), s)
      | RT_TIMER_CTRL_SET_TIME \<Rightarrow>
          if arg < RT_TICK_HALF then Some (arg, tm_upd i (\<lambda>t. t\<lparr>tm_init_tick := arg\<rparr>) s) else None
      | RT_TIMER_CTRL_SET_ONESHOT \<Rightarrow> Some (arg, tm_upd i (\<lambda>t. t\<lparr>tm_flag := tm_flag t AND NOT RT_TIMER_FLAG_PERIODIC\<rparr>) s)
      | RT_TIMER_CTRL_SET_PERIODIC \<Rightarrow> Some (arg, tm_upd i (\<lambda>t. t\<lparr>tm_flag := tm_flag t OR RT_TIMER_FLAG_PERIODIC\<rparr>) s)
      | RT_TIMER_CTRL_GET_STATE \<Rightarrow> Some (if tm_activated (ts_timers s i) then 1 else 0, s)
      | RT_TIMER_CTRL_GET_REMAIN_TIME \<Rightarrow> Some (tm_timeout_tick (ts_timers s i), s))"

text \<open>One round of the loop of \<open>rt_timer_check\<close> for the first timer of the list.\<close>

definition timer_expire :: "u32 \<Rightarrow> nat \<Rightarrow> timer_sys \<Rightarrow> timer_sys" where
  "timer_expire tick i s =
     (let s1 = timer_remove i s;
          s2 = (if tm_periodic (ts_timers s i) then s1 else tm_upd i tm_clear_activated s1)
      in if tm_periodic (ts_timers s2 i) \<and> tm_activated (ts_timers s2 i)
         then rt_timer_start tick i (tm_upd i tm_clear_activated s2) else s2)"

text \<open>
  The loop does not end for a periodic timer of zero ticks, so it is a partial function. The check runs
  with the interrupts disabled: the tick does not change meanwhile.
\<close>

partial_function (option) rt_timer_check :: "(nat \<Rightarrow> 'w \<Rightarrow> 'w) \<Rightarrow> u32 \<Rightarrow> timer_sys \<Rightarrow> 'w \<Rightarrow> (timer_sys \<times> 'w) option" where
  "rt_timer_check timeout_func tick s w =
     (case ts_list s of
        [] \<Rightarrow> Some (s, w)
      | i # _ \<Rightarrow>
          if tick - tm_timeout_tick (ts_timers s i) < RT_TICK_HALF
          then rt_timer_check timeout_func tick (timer_expire tick i s) (timeout_func i w)
          else Some (s, w))"

definition rt_timer_next_timeout_tick :: "timer_sys \<Rightarrow> u32" where
  "rt_timer_next_timeout_tick s = (case ts_list s of [] \<Rightarrow> RT_TICK_MAX | i # _ \<Rightarrow> tm_timeout_tick (ts_timers s i))"

section \<open>Time left\<close>

text \<open>
  The abstract state: the ticks every started timer has left, counted from a tick that lies at most
  one tick back.
\<close>

definition left :: "u32 \<Rightarrow> timer_sys \<Rightarrow> nat \<Rightarrow> nat" where
  "left tick s i = unat (tm_timeout_tick (ts_timers s i) - tick)"

definition tm_left :: "u32 \<Rightarrow> timer_sys \<Rightarrow> nat \<Rightarrow> nat option" where
  "tm_left tick s i = (if i \<in> set (ts_list s) then Some (left tick s i) else None)"

definition tm_wf :: "u32 \<Rightarrow> nat \<Rightarrow> timer_sys \<Rightarrow> bool" where
  "tm_wf tick bound s \<longleftrightarrow> distinct (ts_list s) \<and> sorted_wrt (\<lambda>i j. left tick s i \<le> left tick s j) (ts_list s) \<and>
     (\<forall>i \<in> set (ts_list s). left tick s i < bound) \<and> (\<forall>i. tm_activated (ts_timers s i) \<longleftrightarrow> i \<in> set (ts_list s)) \<and>
     (\<forall>i. tm_init_tick (ts_timers s i) < RT_TICK_HALF)"

lemma diff_shift: "a - b = (a - c) - (b - c :: u32)"
  by simp

lemma half_diff:
  assumes "unat (x :: u32) \<le> 0x7FFFFFFF" "unat y \<le> 0x7FFFFFFF" "unat x < 0x7FFFFFFF \<or> 0 < unat y"
  shows "x - y < RT_TICK_HALF \<longleftrightarrow> unat y \<le> unat x"
  using assms by (cases "y \<le> x") (auto simp: word_less_nat_alt word_le_nat_alt unat_sub_if')

lemma expired_iff:
  assumes "unat (x :: u32) \<le> 0x7FFFFFFF"
  shows "1 - x < RT_TICK_HALF \<longleftrightarrow> unat x \<le> 1"
  using assms by (cases "x \<le> 1") (auto simp: word_less_nat_alt word_le_nat_alt unat_sub_if')

lemma timer_flag_bits:
  "tm_activated t \<longleftrightarrow> bit (tm_flag t) 0" "tm_periodic t \<longleftrightarrow> bit (tm_flag t) 1"
  using and_exp_eq_0_iff_not_bit [of "tm_flag t" 0] and_exp_eq_0_iff_not_bit [of "tm_flag t" 1]
  by (simp_all add: tm_activated_def tm_periodic_def)

lemma tm_upd_fields [simp]:
  "ts_list (tm_upd i f s) = ts_list s" "ts_timers (tm_upd i f s) = (ts_timers s)(i := f (ts_timers s i))"
  "ts_list (timer_remove i s) = removeAll i (ts_list s)" "ts_timers (timer_remove i s) = ts_timers s"
  by (simp_all add: tm_upd_def timer_remove_def)

lemma tm_clear_fields [simp]:
  "tm_init_tick (tm_clear_activated t) = tm_init_tick t" "tm_timeout_tick (tm_clear_activated t) = tm_timeout_tick t"
  "\<not> tm_activated (tm_clear_activated t)" "tm_periodic (tm_clear_activated t) = tm_periodic t"
  by (simp_all add: timer_flag_bits) (simp_all add: tm_clear_activated_def bit_simps)

lemma timer_insert_set [simp]: "set (timer_insert tm i ts) = insert i (set ts)"
  by (induction ts) (auto simp: Let_def)

lemma timer_insert_distinct: "distinct ts \<Longrightarrow> i \<notin> set ts \<Longrightarrow> distinct (timer_insert tm i ts)"
  by (induction ts) (auto simp: Let_def)

lemma timer_insert_filter: "\<not> P i \<Longrightarrow> filter P (timer_insert tm i ts) = filter P ts"
  by (induction ts) (auto simp: Let_def)

definition started :: "u32 \<Rightarrow> rt_timer \<Rightarrow> rt_timer" where
  "started tick t = t\<lparr>tm_flag := (tm_flag t AND NOT RT_TIMER_FLAG_ACTIVATED) OR RT_TIMER_FLAG_ACTIVATED, tm_timeout_tick := tick + tm_init_tick t\<rparr>"

lemma started_fields [simp]:
  "tm_init_tick (started tick t) = tm_init_tick t" "tm_timeout_tick (started tick t) = tick + tm_init_tick t"
  "tm_activated (started tick t)" "tm_periodic (started tick t) = tm_periodic t"
  by (simp_all add: timer_flag_bits) (simp_all add: started_def bit_simps)

lemma timer_insert_cong:
  assumes "\<And>t. tm_timeout_tick (f t) = tm_timeout_tick (g t)"
  shows "timer_insert f i ts = timer_insert g i ts"
  by (induction ts) (simp_all add: assms)

lemma start_fields:
  "ts_timers (rt_timer_start tick i s) = (ts_timers s)(i := started tick (ts_timers s i))"
  "ts_list (rt_timer_start tick i s) = timer_insert ((ts_timers s)(i := started tick (ts_timers s i))) i (removeAll i (ts_list s))"
proof -
  have "tm_clear_activated t\<lparr>tm_timeout_tick := tick + tm_init_tick t, tm_flag := tm_flag (tm_clear_activated t) OR RT_TIMER_FLAG_ACTIVATED\<rparr> = started tick t"
    for t by (cases t) (simp add: started_def tm_clear_activated_def)
  then show "ts_timers (rt_timer_start tick i s) = (ts_timers s)(i := started tick (ts_timers s i))"
    by (simp add: rt_timer_start_def Let_def)
  show "ts_list (rt_timer_start tick i s) = timer_insert ((ts_timers s)(i := started tick (ts_timers s i))) i (removeAll i (ts_list s))"
    by (simp add: rt_timer_start_def Let_def) (rule timer_insert_cong, simp)
qed

lemma expire_periodic: "tm_periodic (ts_timers s i) \<Longrightarrow> tm_activated (ts_timers s i) \<Longrightarrow> timer_expire tick i s = rt_timer_start tick i s"
proof (rule timer_sys.equality)
  assume a: "tm_periodic (ts_timers s i)" "tm_activated (ts_timers s i)"
  have c: "started tick (tm_clear_activated t) = started tick t" for t
    by (simp add: started_def tm_clear_activated_def ac_simps)
  show "ts_timers (timer_expire tick i s) = ts_timers (rt_timer_start tick i s)"
    "ts_list (timer_expire tick i s) = ts_list (rt_timer_start tick i s)"
    using a by (simp_all add: timer_expire_def start_fields c)
qed simp

lemma expire_one_shot:
  "\<not> tm_periodic (ts_timers s i) \<Longrightarrow> timer_expire tick i s = tm_upd i tm_clear_activated (timer_remove i s)"
  by (simp add: timer_expire_def)

text \<open>The order of the list is the order of the time left, as long as no two times are half the counter apart.\<close>

lemma timer_insert_sorted:
  fixes key :: "nat \<Rightarrow> nat"
  assumes key: "\<And>t. key t = unat (tm_timeout_tick (tm t) - base)"
    and "\<forall>t \<in> insert i (set ts). key t \<le> 0x7FFFFFFF" "0 < key i \<or> (\<forall>t \<in> set ts. key t < 0x7FFFFFFF)"
    and "sorted_wrt (\<lambda>i j. key i \<le> key j) ts"
  shows "sorted_wrt (\<lambda>i j. key i \<le> key j) (timer_insert tm i ts)"
  using assms(2-)
proof (induction ts)
  case (Cons t ts)
  have h: "tm_timeout_tick (tm t) - tm_timeout_tick (tm i) < RT_TICK_HALF \<longleftrightarrow> key i \<le> key t"
    using half_diff [of "tm_timeout_tick (tm t) - base" "tm_timeout_tick (tm i) - base"] Cons.prems by (auto simp: key)
  have "key t = key i" if "tm_timeout_tick (tm t) - tm_timeout_tick (tm i) = 0" using that by (simp add: key)
  then show ?case using Cons h by (auto simp: Let_def intro: order_trans)
qed simp

lemma start_wf:
  assumes wf: "tm_wf base bound s" and n: "n = unat (tick + tm_init_tick (ts_timers s i) - base)" "n < bound"
    and b: "bound \<le> 0x7FFFFFFF \<or> bound \<le> 0x80000000 \<and> 0 < n"
  shows "tm_wf base bound (rt_timer_start tick i s)" "tm_left base (rt_timer_start tick i s) = (tm_left base s)(i \<mapsto> n)"
proof -
  let ?s = "rt_timer_start tick i s"
  have l: "left base ?s j = (if j = i then n else left base s j)" for j by (simp add: left_def start_fields n)
  then show "tm_left base ?s = (tm_left base s)(i \<mapsto> n)" by (auto simp: tm_left_def start_fields)
  have d: "distinct (removeAll i (ts_list s))" "\<forall>j \<in> set (removeAll i (ts_list s)). left base s j < bound"
    and act: "\<forall>j. tm_activated (ts_timers s j) \<longleftrightarrow> j \<in> set (ts_list s)" and ini: "\<forall>j. tm_init_tick (ts_timers s j) < RT_TICK_HALF"
    using wf by (auto simp: tm_wf_def distinct_removeAll)
  have "sorted_wrt (\<lambda>i j. left base s i \<le> left base s j) (removeAll i (ts_list s))"
    using wf by (simp add: tm_wf_def removeAll_filter_not_eq sorted_wrt_filter)
  then have s: "sorted_wrt (\<lambda>i j. left base ?s i \<le> left base ?s j) (removeAll i (ts_list s))"
    by (rule sorted_wrt_mono_rel [rotated]) (simp add: l)
  have "sorted_wrt (\<lambda>i j. left base ?s i \<le> left base ?s j) (ts_list ?s)"
    unfolding start_fields(2)
  proof (rule timer_insert_sorted [OF _ _ _ s])
    have lt: "\<forall>t \<in> insert i (set (removeAll i (ts_list s))). left base ?s t < bound" using n(2) d(2) by (auto simp: l)
    then show "\<forall>t \<in> insert i (set (removeAll i (ts_list s))). left base ?s t \<le> 0x7FFFFFFF" using b by fastforce
    show "0 < left base ?s i \<or> (\<forall>t \<in> set (removeAll i (ts_list s)). left base ?s t < 0x7FFFFFFF)" using lt b l by fastforce
  qed (simp add: left_def start_fields)
  then show "tm_wf base bound ?s"
    using d act ini n(2) by (auto simp: tm_wf_def l) (auto simp: start_fields timer_insert_distinct split: if_splits)
qed

lemma stop_wf:
  assumes wf: "tm_wf base bound s"
  shows "tm_wf base bound (tm_upd i tm_clear_activated (timer_remove i s))"
    "tm_left base (tm_upd i tm_clear_activated (timer_remove i s)) = (tm_left base s)(i := None)"
proof -
  have l: "left base (tm_upd i tm_clear_activated (timer_remove i s)) = left base s" by (simp add: left_def fun_eq_iff)
  show "tm_wf base bound (tm_upd i tm_clear_activated (timer_remove i s))"
    using wf unfolding tm_wf_def l by (simp add: distinct_removeAll) (simp add: removeAll_filter_not_eq sorted_wrt_filter)
  show "tm_left base (tm_upd i tm_clear_activated (timer_remove i s)) = (tm_left base s)(i := None)"
    by (auto simp: tm_left_def l)
qed

text \<open>The state at a tick, seen from the tick before, while the expired timers are worked off.\<close>

abbreviation tm_checking :: "u32 \<Rightarrow> timer_sys \<Rightarrow> bool" where
  "tm_checking tick \<equiv> tm_wf tick 0x80000000"

definition periods_ok :: "timer_sys \<Rightarrow> bool" where
  "periods_ok s \<longleftrightarrow> (\<forall>i. tm_periodic (ts_timers s i) \<longrightarrow> tm_init_tick (ts_timers s i) \<noteq> 0)"

definition period_of :: "timer_sys \<Rightarrow> nat \<Rightarrow> nat option" where
  "period_of s i = (if tm_periodic (ts_timers s i) then Some (unat (tm_init_tick (ts_timers s i))) else None)"

lemma expire_wf:
  assumes wf: "tm_checking tick s" and i: "i \<in> set (ts_list s)" and per: "periods_ok s"
  shows "tm_checking tick (timer_expire (tick + 1) i s)" "periods_ok (timer_expire (tick + 1) i s)"
    "period_of (timer_expire (tick + 1) i s) = period_of s"
    "tm_left tick (timer_expire (tick + 1) i s) = (tm_left tick s)(i := map_option Suc (period_of s i))"
    "left tick s i \<le> 1 \<Longrightarrow> filter (\<lambda>j. left tick (timer_expire (tick + 1) i s) j \<le> 1) (ts_list (timer_expire (tick + 1) i s))
       = filter (\<lambda>j. left tick s j \<le> 1) (removeAll i (ts_list s))"
proof -
  let ?t = "ts_timers s i"
  let ?s = "timer_expire (tick + 1) i s"
  have "tm_checking tick ?s \<and> periods_ok ?s \<and> period_of ?s = period_of s \<and>
    tm_left tick ?s = (tm_left tick s)(i := map_option Suc (period_of s i)) \<and>
    (left tick s i \<le> 1 \<longrightarrow> filter (\<lambda>j. left tick ?s j \<le> 1) (ts_list ?s) = filter (\<lambda>j. left tick s j \<le> 1) (removeAll i (ts_list s)))"
  proof (cases "tm_periodic ?t")
    case True
    define n where "n = Suc (unat (tm_init_tick ?t))"
    have e: "?s = rt_timer_start (tick + 1) i s" using expire_periodic [OF True] wf i by (simp add: tm_wf_def)
    have h: "tm_init_tick ?t < RT_TICK_HALF" "tm_init_tick ?t \<noteq> 0" using wf per True by (auto simp: tm_wf_def periods_ok_def)
    have "n = unat (tm_init_tick ?t + 1)" using h by (simp add: n_def unat_inc word_less_nat_alt)
    then have n: "n = unat (tick + 1 + tm_init_tick ?t - tick)" by (simp add: ac_simps)
    have b: "n < 0x80000000" "1 < n" using h by (auto simp: n_def word_less_nat_alt unat_gt_0)
    note st = start_wf [OF wf n b(1)]
    have "filter (\<lambda>j. left tick ?s j \<le> 1) (ts_list ?s) = filter (\<lambda>j. left tick ?s j \<le> 1) (removeAll i (ts_list s))"
      unfolding e start_fields(2) by (rule timer_insert_filter) (use n b in \<open>simp add: left_def start_fields\<close>)
    also have "\<dots> = filter (\<lambda>j. left tick s j \<le> 1) (removeAll i (ts_list s))"
      by (rule filter_cong) (auto simp: e left_def start_fields)
    finally show ?thesis
      using st b True per by (auto simp: e periods_ok_def period_of_def n_def start_fields fun_eq_iff)
  next
    case False
    then show ?thesis
      using stop_wf [OF wf, of i] per
      by (auto simp: expire_one_shot periods_ok_def period_of_def fun_eq_iff left_def intro!: filter_cong)
  qed
  then show "tm_checking tick ?s" "periods_ok ?s" "period_of ?s = period_of s"
    "tm_left tick ?s = (tm_left tick s)(i := map_option Suc (period_of s i))"
    "left tick s i \<le> 1 \<Longrightarrow> filter (\<lambda>j. left tick ?s j \<le> 1) (ts_list ?s) = filter (\<lambda>j. left tick s j \<le> 1) (removeAll i (ts_list s))"
    by blast+
qed

lemma check_expires:
  assumes "tm_checking tick s" "periods_ok s" "xs = filter (\<lambda>j. left tick s j \<le> 1) (ts_list s)"
  shows "\<exists>s'. rt_timer_check f (tick + 1) s w = Some (s', fold f xs w) \<and> tm_checking tick s' \<and> periods_ok s' \<and> period_of s' = period_of s \<and>
    tm_left tick s' = (\<lambda>i. if i \<in> set xs then map_option Suc (period_of s i) else tm_left tick s i)"
  using assms
proof (induction xs arbitrary: s w)
  case Nil
  have "\<not> tick + 1 - tm_timeout_tick (ts_timers s i) < RT_TICK_HALF" if "ts_list s = i # is" for i "is"
  proof -
    have "left tick s i > 1" "left tick s i < 0x80000000" using Nil that by (auto simp: tm_wf_def filter_empty_conv split: if_splits)
    then show ?thesis using expired_iff [of "tm_timeout_tick (ts_timers s i) - tick"] by (simp add: left_def algebra_simps)
  qed
  then have "rt_timer_check f (tick + 1) s w = Some (s, w)" by (subst rt_timer_check.simps) (simp split: list.split)
  then show ?case using Nil by simp
next
  case (Cons x xs)
  have "x \<in> set (filter (\<lambda>j. left tick s j \<le> 1) (ts_list s))" unfolding Cons.prems(3) [symmetric] by simp
  then have x: "x \<in> set (ts_list s)" "left tick s x \<le> 1" by simp_all
  obtain "is" where l: "ts_list s = x # is"
  proof (cases "ts_list s")
    case (Cons i "is")
    then have "left tick s i \<le> 1" using x Cons.prems(1) by (auto simp: tm_wf_def)
    then show ?thesis using that Cons Cons.prems(3) by simp
  qed (use x in simp)
  have "x \<notin> set is" using Cons.prems(1) l by (simp add: tm_wf_def)
  then have xs: "xs = filter (\<lambda>j. left tick s j \<le> 1) (removeAll x (ts_list s))" using Cons.prems(3) l x by simp
  note ex = expire_wf [OF Cons.prems(1) x(1) Cons.prems(2)]
  obtain s' where s': "rt_timer_check f (tick + 1) (timer_expire (tick + 1) x s) (f x w) = Some (s', fold f xs (f x w))"
    "tm_checking tick s'" "periods_ok s'" "period_of s' = period_of s"
    "tm_left tick s' = (\<lambda>i. if i \<in> set xs then map_option Suc (period_of s i) else tm_left tick (timer_expire (tick + 1) x s) i)"
    using Cons.IH [OF ex(1,2) xs [folded ex(5) [OF x(2)]], of "f x w"] unfolding ex(3) by blast
  have "tick + 1 - tm_timeout_tick (ts_timers s x) < RT_TICK_HALF"
    using expired_iff [of "tm_timeout_tick (ts_timers s x) - tick"] x by (simp add: left_def algebra_simps)
  then have "rt_timer_check f (tick + 1) s w = Some (s', fold f (x # xs) w)"
    by (subst rt_timer_check.simps) (simp add: l s'(1))
  then show ?case using s' ex(4) by (intro exI [of _ s']) auto
qed

text \<open>Between the ticks.\<close>

abbreviation tm_ok :: "u32 \<Rightarrow> timer_sys \<Rightarrow> bool" where
  "tm_ok tick s \<equiv> tm_wf tick 0x7FFFFFFF s \<and> periods_ok s"

definition tick_left :: "(nat \<Rightarrow> nat option) \<Rightarrow> (nat \<Rightarrow> nat option) \<Rightarrow> nat \<Rightarrow> nat option" where
  "tick_left per lf i = (case lf i of None \<Rightarrow> None | Some r \<Rightarrow> if r \<le> 1 then per i else Some (r - 1))"

text \<open>
  One tick: the check ends, calls the expired timers and counts the others down by one. This is
  the contract of the timers.
\<close>

lemma tick_refines:
  assumes ok: "tm_ok tick s"
  obtains s' fired where "rt_timer_check f (tick + 1) s w = Some (s', fold f fired w)" "tm_ok (tick + 1) s'" "period_of s' = period_of s"
    "tm_left (tick + 1) s' = tick_left (period_of s) (tm_left tick s)" "distinct fired" "set fired = {i. tm_left tick s i \<in> {Some 0, Some 1}}"
proof -
  define xs where "xs = filter (\<lambda>j. left tick s j \<le> 1) (ts_list s)"
  have chk: "tm_checking tick s" "periods_ok s" using ok by (auto simp: tm_wf_def)
  obtain s' where s': "rt_timer_check f (tick + 1) s w = Some (s', fold f xs w)" "tm_checking tick s'" "periods_ok s'" "period_of s' = period_of s"
    and l: "tm_left tick s' = (\<lambda>i. if i \<in> set xs then map_option Suc (period_of s i) else tm_left tick s i)"
    using check_expires [OF chk xs_def, of f w] by blast
  have bound: "r < 0x7FFFFFFF" if "tm_left tick s i = Some r" for i r using that ok by (auto simp: tm_left_def tm_wf_def split: if_splits)
  have per: "0 < r \<and> r < 0x7FFFFFFF" if "period_of s i = Some r" for i r
  proof -
    have "tm_init_tick (ts_timers s i) \<noteq> 0" "tm_init_tick (ts_timers s i) < RT_TICK_HALF" "r = unat (tm_init_tick (ts_timers s i))"
      using that ok by (auto simp: period_of_def periods_ok_def tm_wf_def split: if_splits)
    then show ?thesis by (simp add: word_less_nat_alt unat_gt_0)
  qed
  have big: "1 < r \<and> r \<le> 0x7FFFFFFF" if "tm_left tick s' i = Some r" for i r
    using that bound [of i] per [of i] by (auto simp: l xs_def tm_left_def split: if_splits)
  have step: "left (tick + 1) s' i = left tick s' i - 1" if "i \<in> set (ts_list s')" for i
  proof -
    have "tm_timeout_tick (ts_timers s' i) - tick \<noteq> 0" using big [of i "left tick s' i"] that by (auto simp: tm_left_def left_def)
    then show ?thesis by (simp add: left_def unat_minus_one flip: diff_diff_add)
  qed
  have mem: "i \<in> set (ts_list s') \<Longrightarrow> 1 < left tick s' i \<and> left tick s' i \<le> 0x7FFFFFFF" for i using big [of i "left tick s' i"] by (simp add: tm_left_def)
  have "sorted_wrt (\<lambda>i j. left tick s' i \<le> left tick s' j) (ts_list s')" using s'(2) by (simp add: tm_wf_def)
  then have "sorted_wrt (\<lambda>i j. left (tick + 1) s' i \<le> left (tick + 1) s' j) (ts_list s')"
    by (rule sorted_wrt_mono_rel [rotated]) (simp add: step diff_le_mono)
  moreover have "\<forall>i \<in> set (ts_list s'). left (tick + 1) s' i < 0x7FFFFFFF" using mem step by fastforce
  ultimately have ok': "tm_ok (tick + 1) s'" using s'(2,3) by (simp add: tm_wf_def)
  have "tm_left (tick + 1) s' i = map_option (\<lambda>r. r - 1) (tm_left tick s' i)" for i by (simp add: tm_left_def step)
  moreover have "i \<in> set xs \<longleftrightarrow> tm_left tick s i \<in> {Some 0, Some 1}" for i by (auto simp: xs_def tm_left_def)
  moreover have "map_option (\<lambda>r. r - 1) (map_option Suc p) = p" for p by (cases p) simp_all
  ultimately have "tm_left (tick + 1) s' i = tick_left (period_of s) (tm_left tick s) i" "i \<in> set xs \<longleftrightarrow> tm_left tick s i \<in> {Some 0, Some 1}" for i
    by (auto simp: tick_left_def l split: option.splits)
  moreover have "distinct xs" using chk(1) by (simp add: xs_def tm_wf_def)
  ultimately show ?thesis using that [OF s'(1) ok' s'(4)] by blast
qed

section \<open>Exact delays\<close>

text \<open>
  Runs of events, and the contract of things that count down the ticks: an event that spares one of them
  lets the ticks it has left pass by one at a tick, and it comes up in the tick that uses up the last one.
\<close>

primrec ev_run :: "('e \<Rightarrow> 's \<Rightarrow> 's option) \<Rightarrow> 'e list \<Rightarrow> 's \<Rightarrow> 's option" where
  "ev_run event [] s = Some s"
| "ev_run event (e # es) s = Option.bind (event e s) (ev_run event es)"

lemma ev_run_append: "ev_run event (es @ fs) s = Option.bind (ev_run event es s) (ev_run event fs)"
  by (induction es arbitrary: s) (auto split: Option.bind_splits)

locale countdown =
  fixes ok :: "'s \<Rightarrow> bool" and left :: "'s \<Rightarrow> nat \<Rightarrow> nat option" and up :: "'s \<Rightarrow> nat \<Rightarrow> bool"
    and event :: "'e \<Rightarrow> 's \<Rightarrow> 's option" and allowed :: "'e \<Rightarrow> bool" and is_tick :: "'e \<Rightarrow> bool" and spares :: "nat \<Rightarrow> 'e \<Rightarrow> bool"
  assumes ok_kept: "ok s \<Longrightarrow> allowed e \<Longrightarrow> event e s = Some s' \<Longrightarrow> ok s'"
    and passes: "ok s \<Longrightarrow> allowed e \<Longrightarrow> event e s = Some s' \<Longrightarrow> spares i e \<Longrightarrow> left s i = Some r \<Longrightarrow> \<not> (is_tick e \<and> r \<le> 1) \<Longrightarrow>
      \<not> up s' i \<and> left s' i = Some (if is_tick e then r - 1 else r)"
    and ends: "ok s \<Longrightarrow> allowed e \<Longrightarrow> event e s = Some s' \<Longrightarrow> spares i e \<Longrightarrow> left s i = Some r \<Longrightarrow> is_tick e \<Longrightarrow> r \<le> 1 \<Longrightarrow> up s' i"
begin

lemma run_ok: "ok s \<Longrightarrow> list_all allowed es \<Longrightarrow> ev_run event es s = Some s' \<Longrightarrow> ok s'"
  by (induction es arbitrary: s) (auto simp: bind_eq_Some_conv intro: ok_kept)

lemma run_left:
  assumes "ok s" "list_all allowed es" "ev_run event es s = Some s'" "list_all (spares i) es" "left s i = Some r" "\<not> up s i" "length (filter is_tick es) < max 1 r"
  shows "\<not> up s' i" "left s' i = Some (r - length (filter is_tick es))"
proof -
  have "\<not> up s' i \<and> left s' i = Some (r - length (filter is_tick es))"
    using assms
  proof (induction es arbitrary: s r)
    case (Cons e es)
    obtain s1 where e: "event e s = Some s1" "ev_run event es s1 = Some s'" using Cons.prems(3) by (auto simp: bind_eq_Some_conv)
    have a: "allowed e" "list_all allowed es" using Cons.prems(2) by simp_all
    have "\<not> (is_tick e \<and> r \<le> 1)" using Cons.prems(7) by auto
    then have s1: "\<not> up s1 i" "left s1 i = Some (if is_tick e then r - 1 else r)"
      using passes [OF Cons.prems(1) a(1) e(1) _ Cons.prems(5)] Cons.prems(4) by simp_all
    have "length (filter is_tick es) < max 1 (if is_tick e then r - 1 else r)" using Cons.prems(7) by (auto split: if_splits)
    then show ?case using Cons.IH [OF ok_kept [OF Cons.prems(1) a(1) e(1)] a(2) e(2) _ s1(2,1)] Cons.prems(4) by (auto split: if_splits)
  qed simp
  then show "\<not> up s' i" "left s' i = Some (r - length (filter is_tick es))" by simp_all
qed

lemma run_tick:
  assumes ok: "ok s" "list_all allowed es" and run: "ev_run event es s = Some s1" "list_all (spares i) es"
    and e: "allowed e" "event e s1 = Some s'" "spares i e" "is_tick e"
    and r: "left s i = Some r" "\<not> up s i" "length (filter is_tick es) < max 1 r"
  shows "up s' i \<longleftrightarrow> Suc (length (filter is_tick es)) = max 1 r"
proof -
  note l = run_left(2) [OF ok run r]
  note s1 = run_ok [OF ok run(1)]
  have "r - length (filter is_tick es) \<le> 1 \<longleftrightarrow> Suc (length (filter is_tick es)) = max 1 r" using r(3) by (auto simp: max_def)
  then show ?thesis
    using passes [OF s1 e(1,2,3) l] ends [OF s1 e(1,2,3) l e(4)] by blast
qed

end

datatype timer_ev = Tick | Start nat | Stop nat | Set_Time nat u32

text \<open>The state has the timers that expired in the last event.\<close>

type_synonym timer_state = "nat list \<times> u32 \<times> timer_sys"

fun timer_event :: "timer_ev \<Rightarrow> timer_state \<Rightarrow> timer_state option" where
  "timer_event Tick (_, tick, s) =
     map_option (\<lambda>(s', fired). (fired, tick + 1, s')) (rt_timer_check (\<lambda>i fired. fired @ [i]) (tick + 1) s [])"
| "timer_event (Start i) (_, tick, s) = Some ([], tick, rt_timer_start tick i s)"
| "timer_event (Stop i) (_, tick, s) = Some ([], tick, snd (rt_timer_stop i s))"
| "timer_event (Set_Time i n) (_, tick, s) = map_option (\<lambda>(_, s'). ([], tick, s')) (rt_timer_control i RT_TIMER_CTRL_SET_TIME n s)"

text \<open>No event sets a timer to zero ticks, which a periodic one does not survive.\<close>

definition event_ok :: "timer_ev \<Rightarrow> bool" where
  "event_ok e \<longleftrightarrow> (case e of Set_Time i n \<Rightarrow> 0 < n \<and> n < RT_TICK_HALF | _ \<Rightarrow> True)"

definition spares :: "nat \<Rightarrow> timer_ev \<Rightarrow> bool" where
  "spares i e \<longleftrightarrow> e \<noteq> Start i \<and> e \<noteq> Stop i"

definition ticks :: "timer_ev list \<Rightarrow> nat" where
  "ticks es = length (filter (\<lambda>e. e = Tick) es)"

definition timers_idle :: "timer_sys \<Rightarrow> bool" where
  "timers_idle s \<longleftrightarrow> ts_list s = [] \<and> (\<forall>i. \<not> tm_activated (ts_timers s i) \<and> tm_init_tick (ts_timers s i) < RT_TICK_HALF) \<and> periods_ok s"

lemma fold_snoc [simp]: "fold (\<lambda>i xs. xs @ [i]) ys xs = xs @ ys"
  by (induction ys arbitrary: xs) simp_all

lemma start_ok:
  assumes "tm_ok tick s"
  shows "tm_ok tick (rt_timer_start tick i s)" "tm_left tick (rt_timer_start tick i s) = (tm_left tick s)(i \<mapsto> unat (tm_init_tick (ts_timers s i)))"
proof -
  have n: "unat (tm_init_tick (ts_timers s i)) < 0x7FFFFFFF" using assms by (auto simp: tm_wf_def word_less_nat_alt)
  have "tm_wf tick 0x7FFFFFFF s" using assms by simp
  note st = start_wf [OF this _ n, of tick i]
  show "tm_ok tick (rt_timer_start tick i s)" using st(1) assms by (simp add: periods_ok_def start_fields)
  show "tm_left tick (rt_timer_start tick i s) = (tm_left tick s)(i \<mapsto> unat (tm_init_tick (ts_timers s i)))" using st(2) by simp
qed

lemma stop_ok:
  assumes "tm_ok tick s"
  shows "tm_ok tick (snd (rt_timer_stop i s))" "tm_left tick (snd (rt_timer_stop i s)) = (tm_left tick s)(i := None)"
proof -
  have wf: "tm_wf tick 0x7FFFFFFF s" using assms by simp
  have "(tm_left tick s)(i := None) = tm_left tick s" if "\<not> tm_activated (ts_timers s i)"
    using that wf by (auto simp: tm_wf_def tm_left_def)
  then show "tm_ok tick (snd (rt_timer_stop i s))" "tm_left tick (snd (rt_timer_stop i s)) = (tm_left tick s)(i := None)"
    using stop_wf [OF wf, of i] assms by (auto simp: rt_timer_stop_def periods_ok_def)
qed

lemma set_time_ok:
  assumes "tm_ok tick s" "n < RT_TICK_HALF" "0 < n \<or> \<not> tm_periodic (ts_timers s i)"
  obtains s' where "rt_timer_control i RT_TIMER_CTRL_SET_TIME n s = Some (n, s')" "tm_ok tick s'" "tm_left tick s' = tm_left tick s"
    "ts_timers s' = (ts_timers s)(i := (ts_timers s i)\<lparr>tm_init_tick := n\<rparr>)"
proof -
  let ?s = "tm_upd i (\<lambda>t. t\<lparr>tm_init_tick := n\<rparr>) s"
  have l: "left tick ?s = left tick s" by (simp add: left_def fun_eq_iff)
  then have "tm_left tick ?s = tm_left tick s" by (simp add: tm_left_def fun_eq_iff)
  moreover have "tm_ok tick ?s" using assms unfolding tm_wf_def l by (auto simp: periods_ok_def timer_flag_bits)
  ultimately show ?thesis using that [of ?s] assms(2) by (simp add: rt_timer_control_def)
qed

text \<open>Every event succeeds, and counts down what it does not touch.\<close>

lemma event_refines:
  assumes ok: "tm_ok tick s" "event_ok e"
  obtains fired tick' s' where "timer_event e (fired0, tick, s) = Some (fired, tick', s')" "tm_ok tick' s'"
    "\<And>i r. spares i e \<Longrightarrow> tm_left tick s i = Some r \<Longrightarrow> i \<in> set fired \<longleftrightarrow> e = Tick \<and> r \<le> 1"
    "\<And>i r. spares i e \<Longrightarrow> tm_left tick s i = Some r \<Longrightarrow> \<not> (e = Tick \<and> r \<le> 1) \<Longrightarrow> tm_left tick' s' i = Some (if e = Tick then r - 1 else r)"
proof (cases e)
  case Tick
  obtain s' fired where t: "rt_timer_check (\<lambda>i fired. fired @ [i]) (tick + 1) s [] = Some (s', fired)" "tm_ok (tick + 1) s'"
    "tm_left (tick + 1) s' = tick_left (period_of s) (tm_left tick s)" "set fired = {i. tm_left tick s i \<in> {Some 0, Some 1}}"
    by (rule tick_refines [OF ok(1), where f = "\<lambda>i fired. fired @ [i]" and w = "[]"]) simp
  have "r \<le> 1 \<longleftrightarrow> r = 0 \<or> r = 1" for r :: nat by auto
  then show ?thesis using t by (intro that [of fired "tick + 1" s']) (simp_all add: Tick tick_left_def)
next
  case (Start j)
  then show ?thesis using start_ok [OF ok(1), of j] by (intro that [of "[]" tick "rt_timer_start tick j s"]) (simp_all add: spares_def)
next
  case (Stop j)
  then show ?thesis using stop_ok [OF ok(1), of j] by (intro that [of "[]" tick "snd (rt_timer_stop j s)"]) (simp_all add: spares_def)
next
  case (Set_Time j n)
  obtain s' where "rt_timer_control j RT_TIMER_CTRL_SET_TIME n s = Some (n, s')" "tm_ok tick s'" "tm_left tick s' = tm_left tick s"
    by (rule set_time_ok [OF ok(1), of n j]) (use ok(2) Set_Time in \<open>simp_all add: event_ok_def\<close>)
  then show ?thesis using Set_Time by (intro that [of "[]" tick s']) simp_all
qed

interpretation timers: countdown "\<lambda>(_, tick, s). tm_ok tick s" "\<lambda>(_, tick, s). tm_left tick s" "\<lambda>(fired, _) i. i \<in> set fired"
  timer_event event_ok "\<lambda>e. e = Tick" spares
proof
  fix st st' :: timer_state and e :: timer_ev and i r
  assume ok: "case st of (_, tick, s) \<Rightarrow> tm_ok tick s" and e: "event_ok e" "timer_event e st = Some st'"
  obtain fired0 tick s where st: "st = (fired0, tick, s)" by (cases st)
  have oks: "tm_ok tick s" using ok by (simp add: st)
  obtain fired tick' s' where ev: "timer_event e (fired0, tick, s) = Some (fired, tick', s')" "tm_ok tick' s'"
    and f: "\<And>i r. spares i e \<Longrightarrow> tm_left tick s i = Some r \<Longrightarrow> i \<in> set fired \<longleftrightarrow> e = Tick \<and> r \<le> 1"
    and l: "\<And>i r. spares i e \<Longrightarrow> tm_left tick s i = Some r \<Longrightarrow> \<not> (e = Tick \<and> r \<le> 1) \<Longrightarrow> tm_left tick' s' i = Some (if e = Tick then r - 1 else r)"
    using event_refines [OF oks e(1), of fired0] by blast
  have st': "st' = (fired, tick', s')" "tm_ok tick' s'" using e(2) ev by (simp_all add: st)
  show "case st' of (_, tick, s) \<Rightarrow> tm_ok tick s" using st' by simp
  assume i: "spares i e" "(case st of (_, tick, s) \<Rightarrow> tm_left tick s) i = Some r"
  show "(case st' of (fired, _) \<Rightarrow> \<lambda>i. i \<in> set fired) i" if "e = Tick" "r \<le> 1" using f i that by (simp add: st st')
  show "\<not> (case st' of (fired, _) \<Rightarrow> \<lambda>i. i \<in> set fired) i \<and> (case st' of (_, tick, s) \<Rightarrow> tm_left tick s) i = Some (if e = Tick then r - 1 else r)"
    if "\<not> (e = Tick \<and> r \<le> 1)" using f l i that by (simp add: st st')
qed

lemma timer_run_total:
  assumes "tm_ok tick s" "list_all event_ok es"
  obtains fired' tick' s' where "ev_run timer_event es (fired, tick, s) = Some (fired', tick', s')" "tm_ok tick' s'"
proof -
  have "\<exists>fired' tick' s'. ev_run timer_event es (fired, tick, s) = Some (fired', tick', s') \<and> tm_ok tick' s'"
    using assms
  proof (induction es arbitrary: fired tick s)
    case (Cons e es)
    obtain f1 t1 s1 where e: "timer_event e (fired, tick, s) = Some (f1, t1, s1)" "tm_ok t1 s1"
      by (rule event_refines [OF Cons.prems(1), of e fired]) (use Cons.prems(2) in auto)
    then show ?case using Cons.IH [of t1 s1 f1] Cons.prems(2) by simp
  qed simp
  then show ?thesis using that by blast
qed

text \<open>
  C17. Delays are exact, across the wrap-around of the tick. Whatever was started, stopped and set before, after a
  timer is started with \<open>n\<close> ticks the checks of all later ticks end, it does not expire while fewer
  than \<open>n\<close> ticks have passed, and it expires in the \<open>n\<close>-th tick, the first one for \<open>n = 0\<close>, whatever
  happens to the other timers meanwhile.
\<close>

theorem timer_fires_exactly:
  assumes "timers_idle s0" "list_all event_ok before" "ev_run timer_event before ([], tick0, s0) = Some (fired, tick, s)"
    and "n = unat (tm_init_tick (ts_timers s i))"
    and "list_all event_ok es" "list_all (spares i) es" "ticks es < max 1 n"
  shows "\<exists>f1 t1 s1 f2 t2 s2. ev_run timer_event (Start i # es) (fired, tick, s) = Some (f1, t1, s1) \<and> i \<notin> set f1 \<and>
    timer_event Tick (f1, t1, s1) = Some (f2, t2, s2) \<and> (i \<in> set f2 \<longleftrightarrow> Suc (ticks es) = max 1 n)"
proof -
  have "tm_ok tick0 s0" using assms(1) by (simp add: timers_idle_def tm_wf_def)
  then have ok: "tm_ok tick s" using timers.run_ok [OF _ assms(2,3)] by simp
  let ?st = "([], tick, rt_timer_start tick i s)"
  have st: "tm_ok tick (rt_timer_start tick i s)" "tm_left tick (rt_timer_start tick i s) i = Some n"
    using start_ok [OF ok, of i] assms(4) by simp_all
  obtain f1 t1 s1 where r: "ev_run timer_event es ?st = Some (f1, t1, s1)" "tm_ok t1 s1" using timer_run_total [OF st(1) assms(5)] by metis
  obtain f2 t2 s2 where t: "timer_event Tick (f1, t1, s1) = Some (f2, t2, s2)"
    by (rule event_refines [OF r(2), of Tick f1]) (simp_all add: event_ok_def)
  have "i \<notin> set f1" using timers.run_left(1) [of ?st es "(f1, t1, s1)" i n] st r assms(5-7) by (simp add: ticks_def)
  moreover have "i \<in> set f2 \<longleftrightarrow> Suc (ticks es) = max 1 n"
    using timers.run_tick [of ?st es "(f1, t1, s1)" i Tick "(f2, t2, s2)" n] st r t assms(5-7)
    by (auto simp: ticks_def event_ok_def spares_def)
  moreover have "ev_run timer_event (Start i # es) (fired, tick, s) = Some (f1, t1, s1)" using r by simp
  ultimately show ?thesis using t by blast
qed

text \<open>Timer 3 is started for three ticks at the tick \<open>2 ^ 32 - 2\<close>, while timer 4 expires in each tick.\<close>

definition demo_timers :: timer_sys where
  "demo_timers = \<lparr>ts_timers = (\<lambda>i. if i = 4 then \<lparr>tm_flag = RT_TIMER_FLAG_PERIODIC, tm_init_tick = 1, tm_timeout_tick = 0\<rparr>
     else \<lparr>tm_flag = 0, tm_init_tick = 3, tm_timeout_tick = 0\<rparr>), ts_list = []\<rparr>"

theorem timer_fires_exactly_witness:
  "timers_idle demo_timers \<and> ev_run timer_event [Start 4] ([], 0xFFFFFFFE, demo_timers) = Some ([], 0xFFFFFFFE, rt_timer_start 0xFFFFFFFE 4 demo_timers) \<and>
   (\<exists>f1 t1 s1 f2 t2 s2. ev_run timer_event (Start 3 # [Tick, Tick]) ([], 0xFFFFFFFE, rt_timer_start 0xFFFFFFFE 4 demo_timers) = Some (f1, t1, s1) \<and>
      3 \<notin> set f1 \<and> timer_event Tick (f1, t1, s1) = Some (f2, t2, s2) \<and> 3 \<in> set f2)"
proof -
  have idle: "timers_idle demo_timers"
    by (simp add: timers_idle_def demo_timers_def periods_ok_def tm_activated_def tm_periodic_def)
  have before: "ev_run timer_event [Start 4] ([], 0xFFFFFFFE, demo_timers) = Some ([], 0xFFFFFFFE, rt_timer_start 0xFFFFFFFE 4 demo_timers)" by simp
  have n: "3 = unat (tm_init_tick (ts_timers (rt_timer_start 0xFFFFFFFE 4 demo_timers) 3))" by (simp add: start_fields demo_timers_def)
  have es: "list_all event_ok [Start 4]" "list_all event_ok [Tick, Tick]" "list_all (spares 3) [Tick, Tick]" "ticks [Tick, Tick] < max 1 3"
    by (simp_all add: event_ok_def spares_def ticks_def)
  have "Suc (ticks [Tick, Tick]) = max 1 3" by (simp add: ticks_def)
  then show ?thesis using idle before timer_fires_exactly [OF idle es(1) before n es(2-4)] by metis
qed

end
