(* ===== verification/Kernel_Sched.thy ===== *)
theory Kernel_Sched
  imports Kernel_Timer
begin

text \<open>
  The scheduler of the kernel on one processor, \<^verbatim>\<open>rt-thread/src/scheduler.c\<close>, with the thread operations of
  \<^verbatim>\<open>rt-thread/src/thread.c\<close> that move threads between its states, and the tick interrupt of
  \<^verbatim>\<open>rt-thread/src/clock.c\<close>: 32 lists of ready threads, the bitmap of the lists that are not empty, the
  running thread, which is in no list, and the timer of every thread, which has the number of its
  thread. A result \<open>None\<close> is a failed assertion or the use of an empty list. The switch of the
  processor context, the check of the stack canary, signals, hooks and debug output are left out.
\<close>

abbreviation RT_THREAD_INIT :: u8 where "RT_THREAD_INIT \<equiv> 0"
abbreviation RT_THREAD_READY :: u8 where "RT_THREAD_READY \<equiv> 1"
abbreviation RT_THREAD_SUSPEND :: u8 where "RT_THREAD_SUSPEND \<equiv> 2"
abbreviation RT_THREAD_RUNNING :: u8 where "RT_THREAD_RUNNING \<equiv> 3"
abbreviation RT_THREAD_STAT_MASK :: u8 where "RT_THREAD_STAT_MASK \<equiv> 7"
abbreviation RT_THREAD_STAT_YIELD :: u8 where "RT_THREAD_STAT_YIELD \<equiv> 8"

record kthread =
  th_stat :: u8
  th_current_priority :: u8
  th_number_mask :: u32
  th_init_tick :: u32
  th_remaining_tick :: u32
  th_error :: rt_err_t

record sched =
  sc_table :: "nat \<Rightarrow> nat list"
  sc_group :: u32
  sc_current :: "nat option"
  sc_current_priority :: u8
  sc_lock_nest :: "16 word"
  sc_threads :: "nat \<Rightarrow> kthread"
  sc_timers :: timer_sys
  sc_tick :: u32

definition th_upd :: "nat \<Rightarrow> (kthread \<Rightarrow> kthread) \<Rightarrow> sched \<Rightarrow> sched" where
  "th_upd t f s = s\<lparr>sc_threads := (sc_threads s)(t := f (sc_threads s t))\<rparr>"

text \<open>The state of a thread, and the assignment of a state that keeps the other bits.\<close>

definition tstat :: "sched \<Rightarrow> nat \<Rightarrow> u8" where
  "tstat s t = th_stat (sc_threads s t) AND RT_THREAD_STAT_MASK"

definition tprio :: "sched \<Rightarrow> nat \<Rightarrow> nat" where
  "tprio s t = unat (th_current_priority (sc_threads s t))"

definition set_stat :: "nat \<Rightarrow> u8 \<Rightarrow> sched \<Rightarrow> sched" where
  "set_stat t k = th_upd t (\<lambda>th. th\<lparr>th_stat := k OR (th_stat th AND NOT RT_THREAD_STAT_MASK)\<rparr>)"

text \<open>\<open>__rt_ffs\<close>: one plus the number of the lowest set bit, 0 for 0.\<close>

definition rt_ffs :: "u32 \<Rightarrow> nat" where
  "rt_ffs w = (case List.find (bit w) [0..<32] of None \<Rightarrow> 0 | Some i \<Rightarrow> Suc i)"

definition get_highest_priority_thread :: "sched \<Rightarrow> (nat \<times> nat) option" where
  "get_highest_priority_thread s =
     (let p = rt_ffs (sc_group s) - 1
      in case sc_table s p of [] \<Rightarrow> None | t # _ \<Rightarrow> Some (t, p))"

definition rt_schedule_insert_thread :: "nat \<Rightarrow> sched \<Rightarrow> sched" where
  "rt_schedule_insert_thread t s =
     (if sc_current s = Some t then set_stat t RT_THREAD_RUNNING s
      else
        let s1 = set_stat t RT_THREAD_READY s;
            p = tprio s1 t
        in s1\<lparr>sc_table := (sc_table s1)(p := sc_table s1 p @ [t]), sc_group := sc_group s1 OR th_number_mask (sc_threads s1 t)\<rparr>)"

text \<open>The node of the thread leaves the list it is in.\<close>

definition tlist_remove :: "nat \<Rightarrow> sched \<Rightarrow> sched" where
  "tlist_remove t s = s\<lparr>sc_table := (\<lambda>p. removeAll t (sc_table s p))\<rparr>"

definition rt_schedule_remove_thread :: "nat \<Rightarrow> sched \<Rightarrow> sched" where
  "rt_schedule_remove_thread t s =
     (let s1 = tlist_remove t s
      in if sc_table s1 (tprio s1 t) = []
         then s1\<lparr>sc_group := sc_group s1 AND NOT (th_number_mask (sc_threads s1 t))\<rparr> else s1)"

definition rt_schedule :: "sched \<Rightarrow> sched option" where
  "rt_schedule s =
     (if sc_lock_nest s \<noteq> 0 \<or> sc_group s = 0 then Some s
      else
        case (get_highest_priority_thread s, sc_current s) of
          (Some (highest, p), Some c) \<Rightarrow>
            let running = (tstat s c = RT_THREAD_RUNNING);
                keep = (running \<and> (tprio s c < p \<or> tprio s c = p \<and> th_stat (sc_threads s c) AND RT_THREAD_STAT_YIELD = 0));
                to_thread = (if keep then c else highest);
                need_insert_from_thread = (running \<and> \<not> keep);
                s1 = (if running then th_upd c (\<lambda>th. th\<lparr>th_stat := th_stat th AND NOT RT_THREAD_STAT_YIELD\<rparr>) s else s)
            in if to_thread \<noteq> c
               then
                 let s2 = s1\<lparr>sc_current_priority := of_nat p, sc_current := Some to_thread\<rparr>;
                     s3 = (if need_insert_from_thread then rt_schedule_insert_thread c s2 else s2)
                 in Some (set_stat to_thread RT_THREAD_RUNNING (rt_schedule_remove_thread to_thread s3))
               else Some (set_stat c RT_THREAD_RUNNING (rt_schedule_remove_thread c s1))
        | _ \<Rightarrow> None)"

definition rt_system_scheduler_init :: "sched \<Rightarrow> sched" where
  "rt_system_scheduler_init s = s\<lparr>sc_lock_nest := 0, sc_table := (\<lambda>_. []), sc_group := 0\<rparr>"

definition rt_system_scheduler_start :: "sched \<Rightarrow> sched option" where
  "rt_system_scheduler_start s =
     map_option (\<lambda>(t, p). th_upd t (\<lambda>th. th\<lparr>th_stat := RT_THREAD_RUNNING\<rparr>) (rt_schedule_remove_thread t (s\<lparr>sc_current := Some t\<rparr>)))
       (get_highest_priority_thread s)"

definition rt_enter_critical :: "sched \<Rightarrow> sched" where
  "rt_enter_critical s = s\<lparr>sc_lock_nest := sc_lock_nest s + 1\<rparr>"

definition rt_exit_critical :: "sched \<Rightarrow> sched option" where
  "rt_exit_critical s =
     (let s1 = s\<lparr>sc_lock_nest := sc_lock_nest s - 1\<rparr>
      in if sint (sc_lock_nest s1) \<le> 0
         then (let s2 = s1\<lparr>sc_lock_nest := 0\<rparr> in if sc_current s2 \<noteq> None then rt_schedule s2 else Some s2)
         else Some s1)"

section \<open>Threads\<close>

definition th_timer_stop :: "nat \<Rightarrow> sched \<Rightarrow> sched" where
  "th_timer_stop t s = s\<lparr>sc_timers := snd (rt_timer_stop t (sc_timers s))\<rparr>"

definition rt_thread_resume :: "nat \<Rightarrow> sched \<Rightarrow> rt_err_t \<times> sched" where
  "rt_thread_resume t s =
     (if tstat s t \<noteq> RT_THREAD_SUSPEND then (- RT_ERROR, s)
      else (RT_EOK, rt_schedule_insert_thread t (th_timer_stop t (tlist_remove t s))))"

definition rt_thread_suspend :: "nat \<Rightarrow> sched \<Rightarrow> (rt_err_t \<times> sched) option" where
  "rt_thread_suspend t s =
     (if sc_current s \<noteq> Some t then None
      else if tstat s t \<noteq> RT_THREAD_READY \<and> tstat s t \<noteq> RT_THREAD_RUNNING then Some (- RT_ERROR, s)
      else Some (RT_EOK, th_timer_stop t (set_stat t RT_THREAD_SUSPEND (rt_schedule_remove_thread t s))))"

definition rt_thread_startup :: "nat \<Rightarrow> sched \<Rightarrow> sched option" where
  "rt_thread_startup t s =
     (if tstat s t \<noteq> RT_THREAD_INIT then None
      else
        let s1 = th_upd t (\<lambda>th. th\<lparr>th_number_mask := push_bit (unat (th_current_priority th)) 1, th_stat := RT_THREAD_SUSPEND\<rparr>) s;
            s2 = snd (rt_thread_resume t s1)
        in if sc_current s2 \<noteq> None then rt_schedule s2 else Some s2)"

definition rt_thread_yield :: "sched \<Rightarrow> sched option" where
  "rt_thread_yield s =
     Option.bind (sc_current s) (\<lambda>t.
       rt_schedule (th_upd t (\<lambda>th. th\<lparr>th_remaining_tick := th_init_tick th, th_stat := th_stat th OR RT_THREAD_STAT_YIELD\<rparr>) s))"

text \<open>Up to the call of \<open>rt_schedule\<close> that lets the other threads run, and the result when the thread runs again.\<close>

definition rt_thread_sleep :: "u32 \<Rightarrow> sched \<Rightarrow> sched option" where
  "rt_thread_sleep tick s =
     Option.bind (sc_current s) (\<lambda>t.
     Option.bind (rt_thread_suspend t (th_upd t (\<lambda>th. th\<lparr>th_error := RT_EOK\<rparr>) s)) (\<lambda>(_, s1).
     Option.bind (rt_timer_control t RT_TIMER_CTRL_SET_TIME tick (sc_timers s1)) (\<lambda>(_, tm).
       rt_schedule (s1\<lparr>sc_timers := rt_timer_start (sc_tick s1) t tm\<rparr>))))"

definition sleep_result :: "nat \<Rightarrow> sched \<Rightarrow> rt_err_t \<times> sched" where
  "sleep_result t s =
     (let s1 = (if th_error (sc_threads s t) = - RT_ETIMEOUT then th_upd t (\<lambda>th. th\<lparr>th_error := RT_EOK\<rparr>) s else s)
      in (th_error (sc_threads s1 t), s1))"

definition rt_tick_from_millisecond :: "int \<Rightarrow> u32" where
  "rt_tick_from_millisecond ms = (if ms < 0 then - 1 else of_int (1000 * (ms div 1000)) + of_int ((1000 * (ms mod 1000) + 999) div 1000))"

definition rt_thread_mdelay :: "int \<Rightarrow> sched \<Rightarrow> sched option" where
  "rt_thread_mdelay ms = rt_thread_sleep (rt_tick_from_millisecond ms)"

definition thread_change_priority :: "nat \<Rightarrow> u8 \<Rightarrow> sched \<Rightarrow> sched" where
  "thread_change_priority t prio s =
     (let set_prio = th_upd t (\<lambda>th. th\<lparr>th_current_priority := prio, th_number_mask := push_bit (unat prio) 1\<rparr>)
      in if tstat s t = RT_THREAD_READY
         then rt_schedule_insert_thread t (set_prio (rt_schedule_remove_thread t s))
         else set_prio s)"

definition thread_timeout :: "nat \<Rightarrow> sched \<Rightarrow> sched option" where
  "thread_timeout t s =
     (if tstat s t \<noteq> RT_THREAD_SUSPEND then None
      else rt_schedule (rt_schedule_insert_thread t (tlist_remove t (th_upd t (\<lambda>th. th\<lparr>th_error := - RT_ETIMEOUT\<rparr>) s))))"

text \<open>The functions called by the timers leave the timers alone, so those are put back after the check.\<close>

definition rt_tick_increase :: "sched \<Rightarrow> sched option" where
  "rt_tick_increase s =
     Option.bind (sc_current s) (\<lambda>t.
       let s1 = th_upd t (\<lambda>th. th\<lparr>th_remaining_tick := th_remaining_tick th - 1\<rparr>) (s\<lparr>sc_tick := sc_tick s + 1\<rparr>);
           s2 = (if th_remaining_tick (sc_threads s1 t) = 0
                 then rt_schedule (th_upd t (\<lambda>th. th\<lparr>th_remaining_tick := th_init_tick th, th_stat := th_stat th OR RT_THREAD_STAT_YIELD\<rparr>) s1)
                 else Some s1)
       in Option.bind (rt_timer_check (\<lambda>i w. Option.bind w (thread_timeout i)) (sc_tick s1) (sc_timers s1) s2) (\<lambda>(tm, w).
            map_option (\<lambda>s3. s3\<lparr>sc_timers := tm\<rparr>) w))"

section \<open>The lists and the bitmap\<close>

text \<open>
  The lists hold the ready threads, except those of a set that are being moved, each in the list of its
  priority; the bitmap tells the lists that are not empty.
\<close>

definition mask_ok :: "sched \<Rightarrow> nat \<Rightarrow> bool" where
  "mask_ok s t \<longleftrightarrow> tprio s t < 32 \<and> (tstat s t \<noteq> RT_THREAD_INIT \<longrightarrow> th_number_mask (sc_threads s t) = push_bit (tprio s t) 1)"

definition wfx :: "nat set \<Rightarrow> sched \<Rightarrow> bool" where
  "wfx X s \<longleftrightarrow> (\<forall>p. distinct (sc_table s p)) \<and>
     (\<forall>p t. t \<in> set (sc_table s p) \<longleftrightarrow> t \<notin> X \<and> tstat s t = RT_THREAD_READY \<and> tprio s t = p) \<and>
     (\<forall>p < 32. bit (sc_group s) p \<longleftrightarrow> sc_table s p \<noteq> []) \<and> (\<forall>t. t \<notin> X \<longrightarrow> mask_ok s t)"

lemma stat_bits:
  "(k OR (x AND - 8)) AND 7 = k AND (7 :: u8)" "(x OR 8) AND 7 = x AND (7 :: u8)" "(x AND - 9) AND 7 = x AND (7 :: u8)" "(x AND - 9) AND 8 = (0 :: u8)"
proof -
  have seven: "bit (7 :: u8) n \<longleftrightarrow> n < 3" and eight: "bit (8 :: u8) n \<longleftrightarrow> n = 3" for n
    using bit_mask_iff [of 3 n, where 'a = u8] bit_exp_iff [of 3 n, where 'a = u8]
    by (auto simp: mask_numeral possible_bit_word)
  have "- 8 = NOT (7 :: u8)" "- 9 = NOT (8 :: u8)" by simp_all
  then show "(k OR (x AND - 8)) AND 7 = k AND (7 :: u8)" "(x OR 8) AND 7 = x AND (7 :: u8)"
    "(x AND - 9) AND 7 = x AND (7 :: u8)" "(x AND - 9) AND 8 = (0 :: u8)"
    by (simp only:, intro bit_eqI, auto simp only: bit_and_iff bit_or_iff bit_not_iff seven eight bit_0_eq bot_apply bot_bool_def)+
qed

lemma bit_mask_word: "n < 32 \<Longrightarrow> bit (2 ^ n :: u32) p \<longleftrightarrow> p = n"
  by (auto simp: bit_exp_iff possible_bit_word)

lemma th_upd_fields [simp]:
  "sc_table (th_upd t f s) = sc_table s" "sc_group (th_upd t f s) = sc_group s" "sc_current (th_upd t f s) = sc_current s"
  "sc_lock_nest (th_upd t f s) = sc_lock_nest s" "sc_timers (th_upd t f s) = sc_timers s" "sc_tick (th_upd t f s) = sc_tick s"
  "sc_threads (th_upd t f s) = (sc_threads s)(t := f (sc_threads s t))"
  by (simp_all add: th_upd_def)

lemma set_stat_fields [simp]:
  "sc_table (set_stat t k s) = sc_table s" "sc_group (set_stat t k s) = sc_group s" "sc_current (set_stat t k s) = sc_current s"
  "sc_lock_nest (set_stat t k s) = sc_lock_nest s" "sc_timers (set_stat t k s) = sc_timers s" "sc_tick (set_stat t k s) = sc_tick s"
  "tprio (set_stat t k s) = tprio s" "th_number_mask (sc_threads (set_stat t k s) u) = th_number_mask (sc_threads s u)"
  by (simp_all add: set_stat_def tprio_def fun_eq_iff)

lemma tstat_set_stat: "tstat (set_stat t k s) u = (if u = t then k AND 7 else tstat s u)"
  by (simp add: tstat_def set_stat_def stat_bits)

lemma remove_fields [simp]:
  "sc_table (tlist_remove t s) = (\<lambda>p. removeAll t (sc_table s p))" "sc_current (tlist_remove t s) = sc_current s"
  "sc_lock_nest (tlist_remove t s) = sc_lock_nest s" "sc_timers (tlist_remove t s) = sc_timers s" "sc_tick (tlist_remove t s) = sc_tick s"
  "sc_threads (tlist_remove t s) = sc_threads s" "sc_group (tlist_remove t s) = sc_group s"
  "sc_table (rt_schedule_remove_thread t s) = (\<lambda>p. removeAll t (sc_table s p))" "sc_current (rt_schedule_remove_thread t s) = sc_current s"
  "sc_lock_nest (rt_schedule_remove_thread t s) = sc_lock_nest s" "sc_timers (rt_schedule_remove_thread t s) = sc_timers s"
  "sc_tick (rt_schedule_remove_thread t s) = sc_tick s" "sc_threads (rt_schedule_remove_thread t s) = sc_threads s"
  by (simp_all add: tlist_remove_def rt_schedule_remove_thread_def Let_def)

lemma stat_prio_cong:
  "sc_threads s = sc_threads s' \<Longrightarrow> tstat s = tstat s'" "sc_threads s = sc_threads s' \<Longrightarrow> tprio s = tprio s'"
  "sc_threads s = sc_threads s' \<Longrightarrow> mask_ok s = mask_ok s'"
  by (simp_all add: tstat_def tprio_def mask_ok_def fun_eq_iff)

lemmas remove_stat [simp] =
  stat_prio_cong [OF remove_fields(6)] stat_prio_cong [OF remove_fields(13)]

lemma insert_fields [simp]:
  "sc_current (rt_schedule_insert_thread t s) = sc_current s" "sc_lock_nest (rt_schedule_insert_thread t s) = sc_lock_nest s"
  "sc_timers (rt_schedule_insert_thread t s) = sc_timers s" "sc_tick (rt_schedule_insert_thread t s) = sc_tick s"
  "tprio (rt_schedule_insert_thread t s) = tprio s"
  "tstat (rt_schedule_insert_thread t s) u = (if u \<noteq> t then tstat s u else if sc_current s = Some t then RT_THREAD_RUNNING else RT_THREAD_READY)"
  "th_number_mask (sc_threads (rt_schedule_insert_thread t s) u) = th_number_mask (sc_threads s u)"
  by (simp_all add: rt_schedule_insert_thread_def Let_def tstat_set_stat tprio_def tstat_def)
    (auto simp: set_stat_def stat_bits tprio_def fun_eq_iff)

text \<open>Taking a thread out, changing it, and putting it back.\<close>

lemma wfx_remove:
  assumes "wfx {} s" "tstat s t \<noteq> RT_THREAD_INIT"
  shows "wfx {t} (rt_schedule_remove_thread t s)"
proof -
  have m: "th_number_mask (sc_threads s t) = push_bit (tprio s t) 1" "tprio s t < 32" using assms by (auto simp: wfx_def mask_ok_def)
  have e: "removeAll t (sc_table s p) = sc_table s p" if "p \<noteq> tprio s t" for p
    using assms(1) that by (auto simp: wfx_def intro!: removeAll_id)
  have b: "bit (sc_group (rt_schedule_remove_thread t s)) p \<longleftrightarrow> removeAll t (sc_table s p) \<noteq> []" if p: "p < 32" for p
  proof (cases "p = tprio s t")
    case True
    have "bit (sc_group s) p" if "removeAll t (sc_table s p) \<noteq> []"
    proof -
      have "sc_table s p \<noteq> []" using that by auto
      then show ?thesis using assms(1) p by (simp add: wfx_def)
    qed
    then show ?thesis using True p m by (auto simp: rt_schedule_remove_thread_def Let_def bit_simps bit_mask_word stat_prio_cong(2) [OF remove_fields(6)])
  next
    case False
    then show ?thesis
      using assms(1) p m e [OF False]
      by (auto simp: rt_schedule_remove_thread_def Let_def wfx_def bit_and_iff bit_not_iff bit_mask_word stat_prio_cong(2) [OF remove_fields(6)] possible_bit_word)
  qed
  then show ?thesis using assms(1) unfolding wfx_def by (auto simp: distinct_removeAll)
qed

lemma wfx_upd: "wfx {t} s \<Longrightarrow> wfx {t} (th_upd t f s)"
  by (simp add: wfx_def tstat_def tprio_def mask_ok_def)

lemma wfx_close: "wfx {t} s \<Longrightarrow> tstat s t \<noteq> RT_THREAD_READY \<Longrightarrow> mask_ok s t \<Longrightarrow> wfx {} s"
  by (auto simp: wfx_def)

lemma wfx_open: "wfx {} s \<Longrightarrow> tstat s t \<noteq> RT_THREAD_READY \<Longrightarrow> wfx {t} s"
  by (auto simp: wfx_def)

lemma wfx_insert:
  assumes wf: "wfx {t} s" and m: "tprio s t < 32" "th_number_mask (sc_threads s t) = push_bit (tprio s t) 1"
  shows "wfx {} (rt_schedule_insert_thread t s)"
proof (cases "sc_current s = Some t")
  case True
  then have "rt_schedule_insert_thread t s = set_stat t RT_THREAD_RUNNING s" by (simp add: rt_schedule_insert_thread_def)
  then show ?thesis
    using wfx_upd [OF wf] m by (auto intro!: wfx_close [of t] simp: tstat_set_stat mask_ok_def) (simp add: set_stat_def)
next
  case False
  define s1 where "s1 = rt_schedule_insert_thread t s"
  have tab: "sc_table s1 = (sc_table s)(tprio s t := sc_table s (tprio s t) @ [t])"
    and grp: "sc_group s1 = sc_group s OR 2 ^ tprio s t"
    using False m by (simp_all add: s1_def rt_schedule_insert_thread_def Let_def)
  have st: "tstat s1 u = (if u = t then RT_THREAD_READY else tstat s u)" "tprio s1 = tprio s"
    "th_number_mask (sc_threads s1 u) = th_number_mask (sc_threads s u)" for u
    using False by (simp_all add: s1_def)
  have "bit (sc_group s1) p \<longleftrightarrow> sc_table s1 p \<noteq> []" if "p < 32" for p
    using wf that m(1) by (auto simp: tab grp wfx_def bit_or_iff bit_mask_word)
  moreover have "mask_ok s1 u" for u using wf m by (cases "u = t") (auto simp: mask_ok_def st wfx_def)
  ultimately show ?thesis using wf unfolding s1_def [symmetric] wfx_def by (auto simp: tab st)
qed

lemma rt_ffs_least:
  assumes "w \<noteq> 0"
  shows "rt_ffs w - 1 < 32" "bit w (rt_ffs w - 1)" "\<forall>j < rt_ffs w - 1. \<not> bit w j"
proof -
  have "List.find (bit w) [0..<32] \<noteq> None"
  proof
    assume "List.find (bit w) [0..<32] = None"
    then have "\<forall>i < 32. \<not> bit w i" by (auto simp: find_None_iff)
    then have "w = 0" by (auto intro!: bit_eqI simp: bit_imp_le_length dest: bit_imp_le_length)
    then show False using assms by simp
  qed
  then obtain i where f: "List.find (bit w) [0..<32] = Some i" by blast
  then have "i < 32" "bit w i" "\<forall>j < i. \<not> bit w j" by (auto simp: find_Some_iff)
  then show "rt_ffs w - 1 < 32" "bit w (rt_ffs w - 1)" "\<forall>j < rt_ffs w - 1. \<not> bit w j" using f by (simp_all add: rt_ffs_def)
qed

lemma highest_spec:
  assumes wf: "wfx {} s" and g: "sc_group s \<noteq> 0"
  obtains t p where "get_highest_priority_thread s = Some (t, p)" "tprio s t = p" "tstat s t = RT_THREAD_READY"
    "\<forall>u. tstat s u = RT_THREAD_READY \<longrightarrow> p \<le> tprio s u"
proof -
  let ?p = "rt_ffs (sc_group s) - 1"
  note f = rt_ffs_least [OF g]
  have "sc_table s ?p \<noteq> []" using wf f by (simp add: wfx_def)
  then obtain t ts where t: "sc_table s ?p = t # ts" by (auto simp: neq_Nil_conv)
  then have m: "tprio s t = ?p" "tstat s t = RT_THREAD_READY" using wf by (auto simp: wfx_def) (metis list.set_intros(1))+
  have "?p \<le> tprio s u" if u: "tstat s u = RT_THREAD_READY" for u
  proof (rule ccontr)
    assume "\<not> ?p \<le> tprio s u"
    then have "\<not> bit (sc_group s) (tprio s u)" "tprio s u < 32" using f by auto
    then have "sc_table s (tprio s u) = []" using wf by (simp add: wfx_def)
    moreover have "u \<in> set (sc_table s (tprio s u))" using wf u by (simp add: wfx_def)
    ultimately show False by simp
  qed
  then show ?thesis using that [of t ?p] t m by (simp add: get_highest_priority_thread_def Let_def)
qed

lemma group_ready: "wfx {} s \<Longrightarrow> sc_group s \<noteq> 0 \<longleftrightarrow> (\<exists>t. tstat s t = RT_THREAD_READY)"
proof
  assume wf: "wfx {} s" and "\<exists>t. tstat s t = RT_THREAD_READY"
  then obtain t where "tstat s t = RT_THREAD_READY" by blast
  then have "t \<in> set (sc_table s (tprio s t))" "tprio s t < 32" using wf by (simp_all add: wfx_def mask_ok_def)
  then have "sc_table s (tprio s t) \<noteq> []" "tprio s t < 32" by auto
  then have "bit (sc_group s) (tprio s t)" using wf by (simp add: wfx_def)
  then show "sc_group s \<noteq> 0" by auto
qed (use highest_spec in blast)

section \<open>Scheduling\<close>

definition runnable :: "sched \<Rightarrow> nat \<Rightarrow> bool" where
  "runnable s t \<longleftrightarrow> tstat s t = RT_THREAD_READY \<or> tstat s t = RT_THREAD_RUNNING"

text \<open>What scheduling leaves alone.\<close>

definition same_threads :: "sched \<Rightarrow> sched \<Rightarrow> bool" where
  "same_threads s s' \<longleftrightarrow> tprio s' = tprio s \<and> sc_timers s' = sc_timers s \<and> sc_tick s' = sc_tick s \<and> sc_lock_nest s' = sc_lock_nest s \<and>
     runnable s' = runnable s \<and> (\<forall>t. \<not> runnable s t \<longrightarrow> tstat s' t = tstat s t)"

text \<open>One thread runs, the lists are in order, and no ready thread is more urgent while the scheduler is not locked.\<close>

definition sched_core :: "sched \<Rightarrow> bool" where
  "sched_core s \<longleftrightarrow> wfx {} s \<and> (\<exists>c. sc_current s = Some c \<and> tstat s c = RT_THREAD_RUNNING \<and> (\<forall>t. t \<noteq> c \<longrightarrow> tstat s t \<noteq> RT_THREAD_RUNNING))"

definition urgent :: "sched \<Rightarrow> bool" where
  "urgent s \<longleftrightarrow> sc_lock_nest s = 0 \<longrightarrow> (\<forall>c t. sc_current s = Some c \<longrightarrow> tstat s t = RT_THREAD_READY \<longrightarrow> tprio s c \<le> tprio s t)"

text \<open>The state in which \<open>rt_schedule\<close> is called: the current thread runs or has just been suspended.\<close>

definition ready_to_schedule :: "sched \<Rightarrow> nat \<Rightarrow> bool" where
  "ready_to_schedule s c \<longleftrightarrow> wfx {} s \<and> sc_current s = Some c \<and> (\<forall>t. t \<noteq> c \<longrightarrow> tstat s t \<noteq> RT_THREAD_RUNNING) \<and>
     (tstat s c = RT_THREAD_RUNNING \<or> tstat s c = RT_THREAD_SUSPEND \<and> sc_lock_nest s = 0 \<and> sc_group s \<noteq> 0)"

lemma stat_values: "(3 :: u8) AND 7 = 3" "(2 :: u8) AND 7 = 2" "(1 :: u8) AND 7 = 1"
  by simp_all

lemma wfx_yield:
  assumes "wfx {} s" "tstat s c = RT_THREAD_RUNNING"
  shows "wfx {} (th_upd c (\<lambda>th. th\<lparr>th_stat := th_stat th AND NOT RT_THREAD_STAT_YIELD\<rparr>) s)"
    "tstat (th_upd c (\<lambda>th. th\<lparr>th_stat := th_stat th AND NOT RT_THREAD_STAT_YIELD\<rparr>) s) = tstat s"
    "tprio (th_upd c (\<lambda>th. th\<lparr>th_stat := th_stat th AND NOT RT_THREAD_STAT_YIELD\<rparr>) s) = tprio s"
  using assms by (auto simp: tstat_def tprio_def stat_bits wfx_def mask_ok_def fun_eq_iff)

text \<open>To the most urgent ready thread: the running thread goes to the end of its list unless it was suspended.\<close>

lemma switch_ok:
  fixes p :: u8
  assumes wf: "wfx {} s" and cur: "sc_current s = Some c" "\<forall>t. t \<noteq> c \<longrightarrow> tstat s t \<noteq> RT_THREAD_RUNNING" "tstat s c \<in> {RT_THREAD_RUNNING, RT_THREAD_SUSPEND}"
    and to: "tstat s to = RT_THREAD_READY" "\<forall>u. tstat s u = RT_THREAD_READY \<longrightarrow> tprio s to \<le> tprio s u"
    and c: "tstat s c = RT_THREAD_RUNNING \<Longrightarrow> tprio s to \<le> tprio s c"
  defines "s2 \<equiv> s\<lparr>sc_current_priority := p, sc_current := Some to\<rparr>"
  defines "s3 \<equiv> if tstat s c = RT_THREAD_RUNNING then rt_schedule_insert_thread c s2 else s2"
  defines "s4 \<equiv> set_stat to RT_THREAD_RUNNING (rt_schedule_remove_thread to s3)"
  shows "sched_core s4" "urgent s4" "same_threads s s4"
proof -
  have ne: "c \<noteq> to" using to(1) cur(3) by auto
  have s2: "wfx {} s2" "tstat s2 = tstat s" "tprio s2 = tprio s" "sc_threads s2 = sc_threads s" "sc_current s2 = Some to"
    using wf by (simp_all add: s2_def wfx_def tstat_def tprio_def mask_ok_def fun_eq_iff)
  have mc: "mask_ok s c" using wf by (simp add: wfx_def)
  have s3: "wfx {} s3" "tprio s3 = tprio s" "tstat s3 u = (if u = c \<and> tstat s c = RT_THREAD_RUNNING then RT_THREAD_READY else tstat s u)" for u
    using wfx_insert [OF wfx_open [OF s2(1), of c]] s2 ne mc by (auto simp: s3_def mask_ok_def)
  have s4: "tprio s4 = tprio s" "tstat s4 u = (if u = to then RT_THREAD_RUNNING else tstat s3 u)" for u
    by (simp_all add: s4_def tstat_set_stat s3(2))
  have "tstat s3 to = RT_THREAD_READY" using s3(3) ne to by simp
  then have "wfx {to} (rt_schedule_remove_thread to s3)" by (intro wfx_remove s3(1)) simp
  then have "wfx {to} s4" by (simp add: s4_def set_stat_def wfx_upd)
  moreover have "mask_ok s4 to" using s3(1) \<open>tstat s3 to = RT_THREAD_READY\<close> by (simp add: s4_def mask_ok_def tstat_set_stat wfx_def)
  ultimately have "wfx {} s4" by (intro wfx_close [of to s4]) (simp_all add: s4)
  moreover have cur4: "sc_current s4 = Some to" "sc_timers s4 = sc_timers s" "sc_tick s4 = sc_tick s" "sc_lock_nest s4 = sc_lock_nest s"
    by (simp_all add: s4_def s3_def s2_def)
  moreover have "\<forall>u. u \<noteq> to \<longrightarrow> tstat s4 u \<noteq> RT_THREAD_RUNNING" using cur(2) by (auto simp: s4 s3(3))
  ultimately show "sched_core s4" unfolding sched_core_def by (simp add: s4)
  show "urgent s4" using cur4(1) to(2) c by (auto simp: urgent_def s4 s3(3))
  show "same_threads s s4" using cur(2) to(1) cur4 ne by (auto simp: same_threads_def runnable_def s4 s3(3) fun_eq_iff)
qed

text \<open>The current thread stays: it runs and is at least as urgent as every ready thread.\<close>

lemma stay_ok:
  assumes wf: "wfx {} s" and cur: "sc_current s = Some c" "\<forall>t. t \<noteq> c \<longrightarrow> tstat s t \<noteq> RT_THREAD_RUNNING" "tstat s c = RT_THREAD_RUNNING"
    and u: "\<forall>u. tstat s u = RT_THREAD_READY \<longrightarrow> tprio s c \<le> tprio s u"
  defines "s4 \<equiv> set_stat c RT_THREAD_RUNNING (rt_schedule_remove_thread c s)"
  shows "sched_core s4" "urgent s4" "same_threads s s4"
proof -
  have s4: "tprio s4 = tprio s" "tstat s4 u = tstat s u" for u using cur(3) by (simp_all add: s4_def tstat_set_stat)
  have "wfx {c} (rt_schedule_remove_thread c s)" by (rule wfx_remove [OF wf]) (simp add: cur(3))
  then have "wfx {c} s4" by (simp add: s4_def set_stat_def wfx_upd)
  moreover have "mask_ok s4 c" using wf cur(3) by (simp add: s4_def mask_ok_def tstat_set_stat wfx_def)
  ultimately have "wfx {} s4" by (intro wfx_close [of c s4]) (simp_all add: s4 cur(3))
  moreover have cur4: "sc_current s4 = Some c" "sc_timers s4 = sc_timers s" "sc_tick s4 = sc_tick s" "sc_lock_nest s4 = sc_lock_nest s"
    using cur(1) by (simp_all add: s4_def)
  ultimately show "sched_core s4" unfolding sched_core_def s4 using cur(2,3) by blast
  show "urgent s4" using cur4 u by (simp add: urgent_def s4)
  show "same_threads s s4" using cur4 by (simp add: same_threads_def runnable_def s4 fun_eq_iff)
qed

text \<open>
  Scheduling succeeds, and then a thread runs that no ready thread outranks; the set of the threads
  that could run is the same.
\<close>

lemma schedule_ok:
  assumes pre: "ready_to_schedule s c"
  obtains s' where "rt_schedule s = Some s'" "sched_core s'" "urgent s'" "same_threads s s'"
proof (cases "sc_lock_nest s \<noteq> 0 \<or> sc_group s = 0")
  case True
  then have "tstat s c = RT_THREAD_RUNNING" using pre by (auto simp: ready_to_schedule_def)
  then have "sched_core s" using pre unfolding ready_to_schedule_def sched_core_def by blast
  moreover have "urgent s" using True group_ready [of s] \<open>sched_core s\<close> unfolding urgent_def sched_core_def by blast
  moreover have "rt_schedule s = Some s" using True by (simp add: rt_schedule_def)
  ultimately show ?thesis using that by (simp add: same_threads_def)
next
  case False
  have wf: "wfx {} s" and cur: "sc_current s = Some c" "\<forall>t. t \<noteq> c \<longrightarrow> tstat s t \<noteq> RT_THREAD_RUNNING"
    and st: "tstat s c \<in> {RT_THREAD_RUNNING, RT_THREAD_SUSPEND}" using pre by (auto simp: ready_to_schedule_def)
  obtain to p where h: "get_highest_priority_thread s = Some (to, p)" "tprio s to = p" "tstat s to = RT_THREAD_READY"
    "\<forall>u. tstat s u = RT_THREAD_READY \<longrightarrow> p \<le> tprio s u" using highest_spec [OF wf] False by blast
  have ne: "to \<noteq> c" using h(3) st by auto
  define y where "y = (if tstat s c = RT_THREAD_RUNNING then th_upd c (\<lambda>th. th\<lparr>th_stat := th_stat th AND NOT RT_THREAD_STAT_YIELD\<rparr>) s else s)"
  have y: "wfx {} y" "tstat y = tstat s" "tprio y = tprio s" "sc_current y = sc_current s" "same_threads s y"
    using wf wfx_yield [OF wf] cur(1) by (auto simp: y_def same_threads_def runnable_def fun_eq_iff)
  have tr: "same_threads y s' \<Longrightarrow> same_threads s s'" for s' using y(5) by (auto simp: same_threads_def)
  show ?thesis
  proof (cases "tstat s c = RT_THREAD_RUNNING \<and> (tprio s c < p \<or> tprio s c = p \<and> th_stat (sc_threads s c) AND RT_THREAD_STAT_YIELD = 0)")
    case True
    have "rt_schedule s = Some (set_stat c RT_THREAD_RUNNING (rt_schedule_remove_thread c y))"
      using False True h(1) cur(1) by (simp add: rt_schedule_def y_def)
    moreover have "\<forall>u. tstat s u = RT_THREAD_READY \<longrightarrow> tprio s c \<le> tprio s u" using True h(4) by fastforce
    ultimately show ?thesis using that stay_ok [of y c, unfolded y(2-4)] y(1) cur True tr by simp
  next
    case sw: False
    let ?s2 = "y\<lparr>sc_current_priority := of_nat p, sc_current := Some to\<rparr>"
    have "rt_schedule s = Some (set_stat to RT_THREAD_RUNNING (rt_schedule_remove_thread to
        (if tstat s c = RT_THREAD_RUNNING then rt_schedule_insert_thread c ?s2 else ?s2)))"
      using False sw h(1) cur(1) ne by (auto simp: rt_schedule_def y_def Let_def)
    moreover have "tstat s c = RT_THREAD_RUNNING \<Longrightarrow> tprio s to \<le> tprio s c" using sw h(2) by auto
    ultimately show ?thesis
      using that switch_ok [of y c to "of_nat p", unfolded y(2-4)] y(1,2) cur st h(2-4) tr by simp
  qed
qed

end
