(* ===== verification/Kernel_Sched_Laws.thy ===== *)
theory Kernel_Sched_Laws
  imports Kernel_Sched
begin

text \<open>
  The calls that threads and interrupts make, in any order: every one of them succeeds, and with
  the scheduler not locked a thread runs that no ready thread outranks. A thread that sleeps is
  ready again exactly with the tick that ends its time. The idle thread never waits.
\<close>

datatype kernel_ev = K_Yield | K_Sleep u32 | K_Suspend | K_Resume nat | K_Priority nat u8 | K_Startup nat | K_Lock | K_Unlock | K_Tick

text \<open>
  The way the other parts of the kernel use these calls: a call that waits suspends its thread and
  schedules, one that ends the waiting of a thread or changes a priority schedules afterwards. There is one
  exception: the release of a mutex for which nobody waits any more restores the priority of its owner and does
  not schedule; \<open>priority_restored_without_schedule\<close> shows the state that leaves behind.
\<close>

fun kernel_event :: "kernel_ev \<Rightarrow> sched \<Rightarrow> sched option" where
  "kernel_event K_Yield s = rt_thread_yield s"
| "kernel_event (K_Sleep n) s = rt_thread_sleep n s"
| "kernel_event K_Suspend s = Option.bind (sc_current s) (\<lambda>t. Option.bind (rt_thread_suspend t s) (\<lambda>(_, s1). rt_schedule s1))"
| "kernel_event (K_Resume t) s = rt_schedule (snd (rt_thread_resume t s))"
| "kernel_event (K_Priority t p) s = rt_schedule (thread_change_priority t p s)"
| "kernel_event (K_Startup t) s = rt_thread_startup t s"
| "kernel_event K_Lock s = Some (rt_enter_critical s)"
| "kernel_event K_Unlock s = rt_exit_critical s"
| "kernel_event K_Tick s = rt_tick_increase s"

text \<open>Who may call what: the idle thread and the holder of the scheduler lock do not wait.\<close>

definition may :: "nat \<Rightarrow> kernel_ev \<Rightarrow> sched \<Rightarrow> bool" where
  "may idle e s \<longleftrightarrow>
     (case e of
        K_Sleep n \<Rightarrow> sc_current s \<noteq> Some idle \<and> sc_lock_nest s = 0 \<and> n < RT_TICK_HALF
      | K_Suspend \<Rightarrow> sc_current s \<noteq> Some idle \<and> sc_lock_nest s = 0
      | K_Priority t p \<Rightarrow> p < 32
      | K_Startup t \<Rightarrow> tstat s t = RT_THREAD_INIT
      | K_Lock \<Rightarrow> sc_lock_nest s < 0x7FFF
      | _ \<Rightarrow> True)"

definition sleep_left :: "sched \<Rightarrow> nat \<Rightarrow> nat option" where
  "sleep_left s = tm_left (sc_tick s) (sc_timers s)"

text \<open>Only suspended threads have a timer running, and no thread timer is periodic.\<close>

definition timers_inv :: "sched \<Rightarrow> bool" where
  "timers_inv s \<longleftrightarrow> tm_ok (sc_tick s) (sc_timers s) \<and> period_of (sc_timers s) = (\<lambda>_. None) \<and>
     (\<forall>t. sleep_left s t \<noteq> None \<longrightarrow> tstat s t = RT_THREAD_SUSPEND)"

definition kernel_inv :: "nat \<Rightarrow> sched \<Rightarrow> bool" where
  "kernel_inv idle s \<longleftrightarrow> sched_core s \<and> urgent s \<and> timers_inv s \<and> runnable s idle"

lemma coreD:
  assumes "sched_core s"
  obtains c where "sc_current s = Some c" "tstat s c = RT_THREAD_RUNNING" "\<forall>t. t \<noteq> c \<longrightarrow> tstat s t \<noteq> RT_THREAD_RUNNING" "wfx {} s"
  using assms unfolding sched_core_def by blast

lemma core_ready: "sched_core s \<Longrightarrow> sc_current s = Some c \<Longrightarrow> ready_to_schedule s c"
  unfolding sched_core_def ready_to_schedule_def by auto

lemma timers_inv_same: "same_threads s s' \<Longrightarrow> timers_inv s \<Longrightarrow> timers_inv s'"
  unfolding same_threads_def timers_inv_def sleep_left_def by (auto simp: runnable_def)

text \<open>Every call ends with scheduling; this is what it has to prepare.\<close>

lemma schedule_inv:
  assumes "ready_to_schedule s c" "timers_inv s" "runnable s idle"
  obtains s' where "rt_schedule s = Some s'" "kernel_inv idle s'" "same_threads s s'"
proof -
  obtain s' where s': "rt_schedule s = Some s'" "sched_core s'" "urgent s'" "same_threads s s'" by (rule schedule_ok [OF assms(1)])
  then have "kernel_inv idle s'" using assms(2,3) timers_inv_same [OF s'(4)] by (simp add: kernel_inv_def same_threads_def)
  then show ?thesis using that s' by blast
qed

text \<open>Updates of a thread that leave its state and its priority.\<close>

definition keeps :: "(kthread \<Rightarrow> kthread) \<Rightarrow> bool" where
  "keeps f \<longleftrightarrow> (\<forall>th. th_stat (f th) AND 7 = th_stat th AND 7 \<and> th_current_priority (f th) = th_current_priority th \<and> th_number_mask (f th) = th_number_mask th)"

lemma keeps_fields:
  assumes "keeps f"
  shows "tstat (th_upd t f s) = tstat s" "tprio (th_upd t f s) = tprio s" "wfx X (th_upd t f s) = wfx X s"
    "runnable (th_upd t f s) = runnable s" "timers_inv (th_upd t f s) = timers_inv s" "sleep_left (th_upd t f s) = sleep_left s"
    "sched_core (th_upd t f s) = sched_core s" "urgent (th_upd t f s) = urgent s"
    "ready_to_schedule (th_upd t f s) c = ready_to_schedule s c"
proof -
  show st: "tstat (th_upd t f s) = tstat s" and p: "tprio (th_upd t f s) = tprio s"
    using assms by (simp_all add: keeps_def tstat_def tprio_def fun_eq_iff)
  have m: "mask_ok (th_upd t f s) = mask_ok s" using assms by (simp add: mask_ok_def st p fun_eq_iff keeps_def)
  show wf: "wfx X (th_upd t f s) = wfx X s" for X unfolding wfx_def st p m by simp
  show "runnable (th_upd t f s) = runnable s" by (simp add: runnable_def st fun_eq_iff)
  show sl: "sleep_left (th_upd t f s) = sleep_left s" by (simp add: sleep_left_def)
  show "timers_inv (th_upd t f s) = timers_inv s" unfolding timers_inv_def st sl by simp
  show "sched_core (th_upd t f s) = sched_core s" unfolding sched_core_def st wf by simp
  show "urgent (th_upd t f s) = urgent s" unfolding urgent_def st p by simp
  show "ready_to_schedule (th_upd t f s) c = ready_to_schedule s c" unfolding ready_to_schedule_def st wf by simp
qed

lemma keeps_rules:
  "keeps (\<lambda>th. th\<lparr>th_remaining_tick := th_init_tick th, th_stat := th_stat th OR RT_THREAD_STAT_YIELD\<rparr>)"
  "keeps (\<lambda>th. th\<lparr>th_remaining_tick := th_remaining_tick th - 1\<rparr>)" "keeps (\<lambda>th. th\<lparr>th_error := e\<rparr>)"
  by (simp_all add: keeps_def stat_bits)

lemma tlist_remove_idle: "wfx {} s \<Longrightarrow> tstat s t \<noteq> RT_THREAD_READY \<Longrightarrow> tlist_remove t s = s"
  by (rule sched.equality) (auto simp: tlist_remove_def wfx_def fun_eq_iff intro!: removeAll_id)

text \<open>A suspended thread becomes ready.\<close>

lemma insert_ready:
  assumes "sched_core s" "tstat s t = RT_THREAD_SUSPEND" "sc_current s = Some c"
  shows "ready_to_schedule (rt_schedule_insert_thread t s) c" "runnable (rt_schedule_insert_thread t s) u \<longleftrightarrow> u = t \<or> runnable s u"
    "\<not> runnable s u \<Longrightarrow> u \<noteq> t \<Longrightarrow> tstat (rt_schedule_insert_thread t s) u = tstat s u"
proof -
  obtain c' where c': "sc_current s = Some c'" "tstat s c' = RT_THREAD_RUNNING" "\<forall>t. t \<noteq> c' \<longrightarrow> tstat s t \<noteq> RT_THREAD_RUNNING" "wfx {} s"
    by (rule coreD [OF assms(1)])
  then have c: "c' = c" "t \<noteq> c" using assms(2,3) by auto
  have "mask_ok s t" using c'(4) by (simp add: wfx_def)
  then have "wfx {} (rt_schedule_insert_thread t s)"
    using assms(2) by (intro wfx_insert wfx_open [OF c'(4)]) (simp_all add: mask_ok_def)
  then show "ready_to_schedule (rt_schedule_insert_thread t s) c" using c' c by (simp add: ready_to_schedule_def)
  show "runnable (rt_schedule_insert_thread t s) u \<longleftrightarrow> u = t \<or> runnable s u" using c assms(3) by (auto simp: runnable_def)
qed simp

lemma timers_upd_fields [simp]:
  "tstat (s\<lparr>sc_timers := tm\<rparr>) = tstat s" "tprio (s\<lparr>sc_timers := tm\<rparr>) = tprio s" "mask_ok (s\<lparr>sc_timers := tm\<rparr>) = mask_ok s"
  "wfx X (s\<lparr>sc_timers := tm\<rparr>) = wfx X s" "runnable (s\<lparr>sc_timers := tm\<rparr>) = runnable s"
  "ready_to_schedule (s\<lparr>sc_timers := tm\<rparr>) c = ready_to_schedule s c" "sched_core (s\<lparr>sc_timers := tm\<rparr>) = sched_core s" "urgent (s\<lparr>sc_timers := tm\<rparr>) = urgent s"
  by (simp_all add: tstat_def tprio_def mask_ok_def wfx_def runnable_def ready_to_schedule_def sched_core_def urgent_def fun_eq_iff)

lemma period_of_kept:
  "period_of (snd (rt_timer_stop i s)) = period_of s" "period_of (rt_timer_start tick i s) = period_of s"
  by (auto simp: period_of_def rt_timer_stop_def start_fields fun_eq_iff)

lemma runnable_not_suspended: "runnable s t \<Longrightarrow> tstat s t \<noteq> RT_THREAD_SUSPEND"
  by (auto simp: runnable_def)

lemma suspend_prepares:
  assumes inv: "kernel_inv idle s" and c: "sc_current s = Some c" "c \<noteq> idle" "sc_lock_nest s = 0"
  obtains s1 where "rt_thread_suspend c s = Some (RT_EOK, s1)" "ready_to_schedule s1 c" "timers_inv s1" "runnable s1 idle" "tstat s1 c = RT_THREAD_SUSPEND"
    "sleep_left s1 = (sleep_left s)(c := None)" "sc_tick s1 = sc_tick s"
proof -
  have sched_core: "sched_core s" and tm: "timers_inv s" and idl: "runnable s idle" using inv by (simp_all add: kernel_inv_def)
  have st: "tstat s c = RT_THREAD_RUNNING" and oth: "\<forall>t. t \<noteq> c \<longrightarrow> tstat s t \<noteq> RT_THREAD_RUNNING" and wf: "wfx {} s"
    using sched_core c(1) unfolding sched_core_def by auto
  define s0 where "s0 = set_stat c RT_THREAD_SUSPEND (rt_schedule_remove_thread c s)"
  define s1 where "s1 = th_timer_stop c s0"
  have s1_eq: "s1 = s0\<lparr>sc_timers := snd (rt_timer_stop c (sc_timers s))\<rparr>" by (simp add: s1_def th_timer_stop_def s0_def)
  have s0: "tstat s0 u = (if u = c then RT_THREAD_SUSPEND else tstat s u)" "tprio s0 = tprio s" "sc_current s0 = Some c"
    "sc_lock_nest s0 = 0" "sc_tick s0 = sc_tick s" for u
    using c by (simp_all add: s0_def tstat_set_stat)
  have "wfx {c} (rt_schedule_remove_thread c s)" by (rule wfx_remove [OF wf]) (simp add: st)
  then have "wfx {c} s0" by (simp add: s0_def set_stat_def wfx_upd)
  moreover have "mask_ok s0 c" using wf st by (simp add: mask_ok_def s0_def tstat_set_stat wfx_def)
  ultimately have wf0: "wfx {} s0" by (intro wfx_close [of c s0]) (simp_all add: s0)
  have i0: "tstat s0 idle = RT_THREAD_READY" using idl c(2) oth by (auto simp: s0 runnable_def)
  then have "sc_group s0 \<noteq> 0" using group_ready [OF wf0] by blast
  then have "ready_to_schedule s1 c" using wf0 oth by (simp add: s1_eq ready_to_schedule_def s0)
  moreover have "runnable s1 idle" using i0 by (simp add: s1_eq runnable_def)
  moreover have sl: "sleep_left s1 = (sleep_left s)(c := None)"
    using stop_ok(2) [of "sc_tick s" "sc_timers s" c] tm by (simp add: sleep_left_def s1_eq s0 timers_inv_def)
  moreover have "timers_inv s1"
    using stop_ok(1) [of "sc_tick s" "sc_timers s" c] tm unfolding timers_inv_def sl by (simp add: s1_eq s0 period_of_kept)
  moreover have "rt_thread_suspend c s = Some (RT_EOK, s1)" using c(1) st by (simp add: rt_thread_suspend_def s1_def s0_def)
  moreover have "tstat s1 c = RT_THREAD_SUSPEND" "sc_tick s1 = sc_tick s" by (simp_all add: s1_eq s0)
  ultimately show ?thesis using that by blast
qed

text \<open>What an event does to the time that a sleeping thread has left.\<close>

definition counts :: "kernel_ev \<Rightarrow> sched \<Rightarrow> sched \<Rightarrow> bool" where
  "counts e s s' \<longleftrightarrow> (\<forall>i r. sleep_left s i = Some r \<longrightarrow> e \<noteq> K_Resume i \<longrightarrow>
     (if e = K_Tick \<and> r \<le> 1 then runnable s' i else sleep_left s' i = Some (if e = K_Tick then r - 1 else r)))"

lemma same_left: "same_threads s s' \<Longrightarrow> sleep_left s' = sleep_left s"
  by (simp add: same_threads_def sleep_left_def)

lemma scheduled_event:
  assumes "ready_to_schedule s1 c" "timers_inv s1" "runnable s1 idle" "kernel_event e s = rt_schedule s1" "e \<noteq> K_Tick"
    and "\<And>i. sleep_left s i \<noteq> None \<Longrightarrow> e \<noteq> K_Resume i \<Longrightarrow> sleep_left s1 i = sleep_left s i"
  shows "\<exists>s'. kernel_event e s = Some s' \<and> kernel_inv idle s' \<and> counts e s s'"
proof -
  obtain s' where s': "rt_schedule s1 = Some s'" "kernel_inv idle s'" "same_threads s1 s'" by (rule schedule_inv [OF assms(1,2,3)])
  then show ?thesis using assms(4-6) by (simp add: counts_def same_left [OF s'(3)])
qed

lemma left_suspended: "timers_inv s \<Longrightarrow> tstat s t \<noteq> RT_THREAD_SUSPEND \<Longrightarrow> sleep_left s t = None"
  unfolding timers_inv_def by blast

lemma inv_current:
  assumes "kernel_inv idle s"
  obtains c where "sc_current s = Some c" "tstat s c = RT_THREAD_RUNNING" "sleep_left s c = None"
proof -
  obtain c where c: "sc_current s = Some c" "tstat s c = RT_THREAD_RUNNING" using assms unfolding kernel_inv_def sched_core_def by blast
  have "sleep_left s c = None" using assms c(2) by (intro left_suspended) (simp_all add: kernel_inv_def)
  then show ?thesis using that c by blast
qed

lemma yield_event:
  assumes inv: "kernel_inv idle s"
  shows "\<exists>s'. kernel_event K_Yield s = Some s' \<and> kernel_inv idle s' \<and> counts K_Yield s s'"
proof -
  obtain c where c: "sc_current s = Some c" by (rule inv_current [OF inv])
  let ?s = "th_upd c (\<lambda>th. th\<lparr>th_remaining_tick := th_init_tick th, th_stat := th_stat th OR RT_THREAD_STAT_YIELD\<rparr>) s"
  note k = keeps_fields [OF keeps_rules(1), where t = c and s = s]
  show ?thesis
    by (rule scheduled_event [of ?s c]) (use inv c core_ready [of s c] in \<open>simp_all add: k kernel_inv_def rt_thread_yield_def\<close>)
qed

lemma suspend_event:
  assumes inv: "kernel_inv idle s" and m: "may idle K_Suspend s"
  shows "\<exists>s'. kernel_event K_Suspend s = Some s' \<and> kernel_inv idle s' \<and> counts K_Suspend s s'"
proof -
  obtain c where c: "sc_current s = Some c" "sleep_left s c = None" by (rule inv_current [OF inv])
  obtain s1 where s1: "rt_thread_suspend c s = Some (RT_EOK, s1)" "ready_to_schedule s1 c" "timers_inv s1" "runnable s1 idle"
    "sleep_left s1 = (sleep_left s)(c := None)"
    using suspend_prepares [OF inv c(1)] m c(1) by (auto simp: may_def)
  show ?thesis by (rule scheduled_event [OF s1(2,3,4)]) (use c s1 in auto)
qed

lemma sleep_prepares:
  assumes inv: "kernel_inv idle s" and m: "may idle (K_Sleep n) s" and c: "sc_current s = Some c"
  obtains s2 where "kernel_event (K_Sleep n) s = rt_schedule s2" "ready_to_schedule s2 c" "timers_inv s2" "runnable s2 idle"
    "sleep_left s2 = (sleep_left s)(c \<mapsto> unat n)"
proof -
  let ?s = "th_upd c (\<lambda>th. th\<lparr>th_error := RT_EOK\<rparr>) s"
  note k = keeps_fields [OF keeps_rules(3) [where e = RT_EOK], where t = c and s = s]
  have "kernel_inv idle ?s" using inv by (simp add: kernel_inv_def k)
  then obtain s1 where s1: "rt_thread_suspend c ?s = Some (RT_EOK, s1)" "ready_to_schedule s1 c" "timers_inv s1" "runnable s1 idle" "tstat s1 c = RT_THREAD_SUSPEND"
    "sleep_left s1 = (sleep_left s)(c := None)" "sc_tick s1 = sc_tick s"
    using suspend_prepares [of idle ?s c] m c by (auto simp: may_def k)
  have np: "\<not> tm_periodic (ts_timers (sc_timers s1) i)" for i using s1(3) by (auto simp: timers_inv_def period_of_def fun_eq_iff split: if_splits)
  have n: "n < RT_TICK_HALF" using m by (simp add: may_def)
  have ok1: "tm_ok (sc_tick s1) (sc_timers s1)" using s1(3) by (simp add: timers_inv_def)
  obtain tm where tm: "rt_timer_control c RT_TIMER_CTRL_SET_TIME n (sc_timers s1) = Some (n, tm)" "tm_ok (sc_tick s1) tm"
    "tm_left (sc_tick s1) tm = sleep_left s1" "ts_timers tm = (ts_timers (sc_timers s1))(c := (ts_timers (sc_timers s1) c)\<lparr>tm_init_tick := n\<rparr>)"
    unfolding sleep_left_def by (rule set_time_ok [OF ok1 n]) (use np in auto)
  define s2 where "s2 = s1\<lparr>sc_timers := rt_timer_start (sc_tick s1) c tm\<rparr>"
  have sl: "sleep_left s2 = (sleep_left s)(c \<mapsto> unat n)"
    using start_ok(2) [OF tm(2), of c] s1(6) tm(3,4) by (simp add: sleep_left_def s2_def)
  have "period_of tm = (\<lambda>_. None)" using np by (auto simp: period_of_def tm(4) fun_eq_iff timer_flag_bits)
  then have "timers_inv s2"
    using start_ok(1) [OF tm(2), of c] s1(3,5,6) unfolding timers_inv_def sl by (auto simp: s2_def period_of_kept)
  moreover have "kernel_event (K_Sleep n) s = rt_schedule s2" using c s1(1) tm(1) by (simp add: rt_thread_sleep_def s2_def)
  ultimately show ?thesis using that sl s1 by (simp add: s2_def)
qed

lemma sleep_event:
  assumes inv: "kernel_inv idle s" and m: "may idle (K_Sleep n) s"
  shows "\<exists>s'. kernel_event (K_Sleep n) s = Some s' \<and> kernel_inv idle s' \<and> counts (K_Sleep n) s s'"
proof -
  obtain c where c: "sc_current s = Some c" "sleep_left s c = None" by (rule inv_current [OF inv])
  obtain s2 where s2: "kernel_event (K_Sleep n) s = rt_schedule s2" "ready_to_schedule s2 c" "timers_inv s2" "runnable s2 idle"
    "sleep_left s2 = (sleep_left s)(c \<mapsto> unat n)" by (rule sleep_prepares [OF inv m c(1)])
  show ?thesis by (rule scheduled_event [OF s2(2,3,4,1)]) (use c s2(5) in auto)
qed

lemma resume_prepares:
  assumes sched_core: "sched_core s" and tm: "timers_inv s" and r: "runnable s idle" and t: "tstat s t = RT_THREAD_SUSPEND" and c: "sc_current s = Some c"
  defines "s1 \<equiv> snd (rt_thread_resume t s)"
  shows "ready_to_schedule s1 c" "timers_inv s1" "runnable s1 idle" "sleep_left s1 = (sleep_left s)(t := None)" "sc_current s1 = Some c"
proof -
  have wf: "wfx {} s" using sched_core by (simp add: sched_core_def)
  define s0 where "s0 = th_timer_stop t s"
  have s0_eq: "s0 = s\<lparr>sc_timers := snd (rt_timer_stop t (sc_timers s))\<rparr>" by (simp add: s0_def th_timer_stop_def)
  have s1: "s1 = rt_schedule_insert_thread t s0" using t tlist_remove_idle [OF wf, of t] by (simp add: s1_def rt_thread_resume_def s0_def)
  note ins = insert_ready [of s0 t c]
  have pre: "sched_core s0" "tstat s0 t = RT_THREAD_SUSPEND" "sc_current s0 = Some c" using sched_core t c by (simp_all add: s0_eq)
  show "ready_to_schedule s1 c" "runnable s1 idle" "sc_current s1 = Some c" using ins(1,2) [OF pre] r pre(3) by (simp_all add: s1 s0_eq)
  show sl: "sleep_left s1 = (sleep_left s)(t := None)"
    using stop_ok(2) [of "sc_tick s" "sc_timers s" t] tm by (simp add: sleep_left_def s1 s0_eq timers_inv_def)
  have "tstat s1 u = RT_THREAD_SUSPEND" if "sleep_left s1 u \<noteq> None" for u
  proof -
    have u: "u \<noteq> t" "sleep_left s u \<noteq> None" using that unfolding sl by (auto split: if_splits)
    then have "tstat s u = RT_THREAD_SUSPEND" using tm unfolding timers_inv_def by blast
    then show ?thesis using u(1) by (simp add: s1 s0_eq)
  qed
  then show "timers_inv s1"
    using stop_ok(1) [of "sc_tick s" "sc_timers s" t] tm by (simp add: timers_inv_def) (simp add: s1 s0_eq period_of_kept timers_inv_def)
qed

lemma resume_event:
  assumes inv: "kernel_inv idle s"
  shows "\<exists>s'. kernel_event (K_Resume t) s = Some s' \<and> kernel_inv idle s' \<and> counts (K_Resume t) s s'"
proof -
  obtain c where c: "sc_current s = Some c" by (rule inv_current [OF inv])
  show ?thesis
  proof (cases "tstat s t = RT_THREAD_SUSPEND")
    case True
    note p = resume_prepares [OF _ _ _ True c, of idle]
    show ?thesis by (rule scheduled_event [of "snd (rt_thread_resume t s)" c]) (use p inv in \<open>auto simp: kernel_inv_def\<close>)
  next
    case False
    then show ?thesis
      by (intro scheduled_event [of s c]) (use inv c core_ready [of s c] in \<open>auto simp: kernel_inv_def rt_thread_resume_def\<close>)
  qed
qed

lemma priority_event:
  assumes inv: "kernel_inv idle s" and p: "p < 32"
  shows "\<exists>s'. kernel_event (K_Priority t p) s = Some s' \<and> kernel_inv idle s' \<and> counts (K_Priority t p) s s'"
proof -
  let ?set = "th_upd t (\<lambda>th. th\<lparr>th_current_priority := p, th_number_mask := push_bit (unat p) 1\<rparr>)"
  define s1 where "s1 = thread_change_priority t p s"
  obtain c where c: "sc_current s = Some c" "tstat s c = RT_THREAD_RUNNING" "\<forall>u. u \<noteq> c \<longrightarrow> tstat s u \<noteq> RT_THREAD_RUNNING" and wf: "wfx {} s"
    using inv coreD [of s] unfolding kernel_inv_def by metis
  have p32: "unat p < 32" using p by (simp add: word_less_nat_alt)
  have st: "tstat (th_upd t (\<lambda>th. th\<lparr>th_current_priority := p, th_number_mask := 2 ^ unat p\<rparr>) x) = tstat x" for x by (simp add: tstat_def fun_eq_iff)
  have "wfx {} s1 \<and> tstat s1 = tstat s \<and> sc_current s1 = sc_current s \<and> sc_timers s1 = sc_timers s \<and> sc_tick s1 = sc_tick s \<and> sc_lock_nest s1 = sc_lock_nest s"
  proof (cases "tstat s t = RT_THREAD_READY")
    case True
    then have ne: "sc_current s \<noteq> Some t" using c by auto
    have s1: "s1 = rt_schedule_insert_thread t (?set (rt_schedule_remove_thread t s))" using True by (simp add: s1_def thread_change_priority_def)
    have "wfx {t} (?set (rt_schedule_remove_thread t s))" by (intro wfx_upd wfx_remove wf) (simp add: True)
    then have "wfx {} s1" unfolding s1 by (rule wfx_insert) (simp_all add: tprio_def p32)
    moreover have "tstat s1 u = tstat s u" for u using True ne by (simp add: s1 st)
    ultimately show ?thesis by (simp add: s1 fun_eq_iff)
  next
    case False
    then have s1: "s1 = ?set s" by (simp add: s1_def thread_change_priority_def)
    have "wfx {t} s1" unfolding s1 by (intro wfx_upd wfx_open wf False)
    moreover have "mask_ok s1 t" by (simp add: s1 mask_ok_def tprio_def p32)
    ultimately have "wfx {} s1" using False by (intro wfx_close [of t s1]) (simp_all add: s1 st)
    then show ?thesis by (simp add: s1 st)
  qed
  then have f: "wfx {} s1" "tstat s1 = tstat s" "sc_current s1 = sc_current s" "sc_timers s1 = sc_timers s" "sc_tick s1 = sc_tick s" "sc_lock_nest s1 = sc_lock_nest s"
    by simp_all
  then have "ready_to_schedule s1 c" using c by (simp add: ready_to_schedule_def)
  moreover have sl: "sleep_left s1 = sleep_left s" by (simp add: sleep_left_def f)
  moreover have "timers_inv s1" "runnable s1 idle" using inv by (simp_all add: kernel_inv_def timers_inv_def sl f runnable_def)
  ultimately show ?thesis by (intro scheduled_event [of s1 c]) (simp_all add: s1_def)
qed

lemma startup_event:
  assumes inv: "kernel_inv idle s" and t: "tstat s t = RT_THREAD_INIT"
  shows "\<exists>s'. kernel_event (K_Startup t) s = Some s' \<and> kernel_inv idle s' \<and> counts (K_Startup t) s s'"
proof -
  define s1 where "s1 = th_upd t (\<lambda>th. th\<lparr>th_number_mask := push_bit (unat (th_current_priority th)) 1, th_stat := RT_THREAD_SUSPEND\<rparr>) s"
  obtain c where c: "sc_current s = Some c" "tstat s c = RT_THREAD_RUNNING" "\<forall>u. u \<noteq> c \<longrightarrow> tstat s u \<noteq> RT_THREAD_RUNNING" and wf: "wfx {} s"
    using inv coreD [of s] unfolding kernel_inv_def by metis
  have ne: "t \<noteq> c" using t c(2) by auto
  have st: "tstat s1 u = (if u = t then RT_THREAD_SUSPEND else tstat s u)" "tprio s1 u = tprio s u" for u by (simp_all add: s1_def tstat_def tprio_def)
  have "wfx {t} s1" unfolding s1_def using t by (intro wfx_upd wfx_open wf) simp
  moreover have "mask_ok s1 t" using wf by (simp add: mask_ok_def wfx_def st) (simp add: s1_def tprio_def)
  ultimately have "wfx {} s1" by (intro wfx_close [of t s1]) (simp_all add: st)
  moreover have cur: "sc_current s1 = Some c" using c by (simp add: s1_def)
  ultimately have sched_core: "sched_core s1" unfolding sched_core_def using c(2,3) ne by (simp add: st)
  have sl: "sleep_left s1 = sleep_left s" by (simp add: sleep_left_def s1_def)
  have none: "sleep_left s t = None" using inv t by (intro left_suspended) (simp_all add: kernel_inv_def)
  have tm: "timers_inv s1" using inv none by (auto simp: kernel_inv_def timers_inv_def sl st) (auto simp: s1_def)
  have r: "runnable s1 idle" using inv t by (auto simp: kernel_inv_def runnable_def st)
  note p = resume_prepares [OF sched_core tm r _ cur, of t]
  have e: "kernel_event (K_Startup t) s = rt_schedule (snd (rt_thread_resume t s1))"
    using t p(5) unfolding kernel_event.simps rt_thread_startup_def s1_def [symmetric] by (simp add: st Let_def)
  show ?thesis by (rule scheduled_event [OF p(1,2,3) e]) (use p(4) none in \<open>auto simp: st sl\<close>)
qed

lemma lock_event:
  assumes inv: "kernel_inv idle s" and m: "may idle K_Lock s"
  shows "\<exists>s'. kernel_event K_Lock s = Some s' \<and> kernel_inv idle s' \<and> counts K_Lock s s'"
proof -
  let ?s = "rt_enter_critical s"
  have f: "tstat ?s = tstat s" "sleep_left ?s = sleep_left s" "runnable ?s = runnable s" "wfx {} ?s = wfx {} s" "sc_current ?s = sc_current s"
    "sc_timers ?s = sc_timers s" "sc_tick ?s = sc_tick s"
    by (simp_all add: rt_enter_critical_def tstat_def sleep_left_def runnable_def wfx_def tprio_def mask_ok_def fun_eq_iff)
  have "sc_lock_nest ?s \<noteq> 0" using m by (auto simp: may_def rt_enter_critical_def eq_neg_iff_add_eq_0 [symmetric])
  then have "urgent ?s" by (simp add: urgent_def)
  then have "kernel_inv idle ?s" using inv by (simp add: kernel_inv_def sched_core_def timers_inv_def f)
  then show ?thesis by (simp add: counts_def f)
qed

lemma unlock_event:
  assumes inv: "kernel_inv idle s"
  shows "\<exists>s'. kernel_event K_Unlock s = Some s' \<and> kernel_inv idle s' \<and> counts K_Unlock s s'"
proof -
  obtain c where c: "sc_current s = Some c" by (rule inv_current [OF inv])
  let ?s = "\<lambda>l. s\<lparr>sc_lock_nest := l\<rparr>"
  have f: "tstat (?s l) = tstat s" "sleep_left (?s l) = sleep_left s" "runnable (?s l) = runnable s" "wfx {} (?s l) = wfx {} s" for l
    by (simp_all add: tstat_def sleep_left_def runnable_def wfx_def tprio_def mask_ok_def fun_eq_iff)
  have k: "sched_core (?s l)" "timers_inv (?s l)" "runnable (?s l) idle" for l using inv by (simp_all add: kernel_inv_def sched_core_def timers_inv_def f)
  show ?thesis
  proof (cases "sint (sc_lock_nest s - 1) \<le> 0")
    case True
    then have "kernel_event K_Unlock s = rt_schedule (?s 0)" using c by (simp add: rt_exit_critical_def)
    then show ?thesis using k core_ready [OF k(1) [of 0], of c] c by (intro scheduled_event [of "?s 0" c]) (simp_all add: f)
  next
    case False
    then have "sc_lock_nest s - 1 \<noteq> 0" by auto
    then have "urgent (?s (sc_lock_nest s - 1))" by (simp add: urgent_def)
    then show ?thesis using False k [of "sc_lock_nest s - 1"] by (simp add: rt_exit_critical_def kernel_inv_def counts_def f)
  qed
qed

section \<open>The tick\<close>

text \<open>The expired threads become ready one after the other.\<close>

lemma timeout_step:
  assumes "sched_core s" "tstat s t = RT_THREAD_SUSPEND"
  obtains s' where "thread_timeout t s = Some s'" "sched_core s'" "urgent s'" "sc_timers s' = sc_timers s" "sc_tick s' = sc_tick s"
    "\<And>u. runnable s' u \<longleftrightarrow> u = t \<or> runnable s u" "\<And>u. \<not> runnable s u \<Longrightarrow> u \<noteq> t \<Longrightarrow> tstat s' u = tstat s u"
proof -
  let ?e = "th_upd t (\<lambda>th. th\<lparr>th_error := - RT_ETIMEOUT\<rparr>) s"
  note k = keeps_fields [OF keeps_rules(3) [where e = "- RT_ETIMEOUT"], where t = t and s = s]
  obtain c where c: "sc_current s = Some c" using assms(1) by (auto simp: sched_core_def)
  have e: "sched_core ?e" "tstat ?e t = RT_THREAD_SUSPEND" "sc_current ?e = Some c" "wfx {} ?e" using assms c by (simp_all add: k) (simp add: sched_core_def)
  note ins = insert_ready [OF e(1,2,3)]
  obtain s' where s': "rt_schedule (rt_schedule_insert_thread t ?e) = Some s'" "sched_core s'" "urgent s'" "same_threads (rt_schedule_insert_thread t ?e) s'"
    by (rule schedule_ok [OF ins(1)])
  have "thread_timeout t s = Some s'" using assms(2) s'(1) tlist_remove_idle [OF e(4), of t] e(2) by (simp add: thread_timeout_def)
  moreover have "sc_timers s' = sc_timers s" "sc_tick s' = sc_tick s" and r: "runnable s' u \<longleftrightarrow> u = t \<or> runnable s u" for u
    using s'(4) ins(2) [of u] by (simp_all add: same_threads_def k)
  moreover have "tstat s' u = tstat s u" if "\<not> runnable s u" "u \<noteq> t" for u
    using s'(4) ins(2,3) [of u] that by (simp add: same_threads_def k)
  ultimately show ?thesis using that [OF _ s'(2,3)] by blast
qed

lemma fold_None: "fold (\<lambda>i w. Option.bind w (f i)) xs None = None"
  by (induction xs) simp_all

lemma timeouts_fold:
  assumes "sched_core s" "urgent s" "distinct xs" "\<forall>t \<in> set xs. tstat s t = RT_THREAD_SUSPEND"
  shows "\<exists>s'. fold (\<lambda>i w. Option.bind w (thread_timeout i)) xs (Some s) = Some s' \<and> sched_core s' \<and> urgent s' \<and> sc_timers s' = sc_timers s \<and>
    sc_tick s' = sc_tick s \<and> (\<forall>u. runnable s' u \<longleftrightarrow> u \<in> set xs \<or> runnable s u) \<and> (\<forall>u. \<not> runnable s u \<longrightarrow> u \<notin> set xs \<longrightarrow> tstat s' u = tstat s u)"
  using assms
proof (induction xs arbitrary: s)
  case (Cons t xs)
  have t: "tstat s t = RT_THREAD_SUSPEND" using Cons.prems(4) by simp
  obtain s1 where s1: "thread_timeout t s = Some s1" "sched_core s1" "urgent s1" "sc_timers s1 = sc_timers s" "sc_tick s1 = sc_tick s"
    "\<And>u. runnable s1 u \<longleftrightarrow> u = t \<or> runnable s u" "\<And>u. \<not> runnable s u \<Longrightarrow> u \<noteq> t \<Longrightarrow> tstat s1 u = tstat s u"
    using timeout_step [OF Cons.prems(1) t] by metis
  have "tstat s1 u = RT_THREAD_SUSPEND" if u: "u \<in> set xs" for u
  proof -
    have "tstat s u = RT_THREAD_SUSPEND" "u \<noteq> t" using Cons.prems(3,4) u by auto
    then show ?thesis using s1(7) [of u] by (simp add: runnable_def)
  qed
  then obtain s' where s': "fold (\<lambda>i w. Option.bind w (thread_timeout i)) xs (Some s1) = Some s'" "sched_core s'" "urgent s'" "sc_timers s' = sc_timers s"
    "sc_tick s' = sc_tick s" "\<forall>u. runnable s' u \<longleftrightarrow> u \<in> set xs \<or> runnable s1 u" "\<forall>u. \<not> runnable s1 u \<longrightarrow> u \<notin> set xs \<longrightarrow> tstat s' u = tstat s1 u"
    using Cons.IH [OF s1(2,3)] Cons.prems(3) s1(4,5) by auto
  then show ?case using s1 by (intro exI [of _ s']) auto
qed simp

text \<open>The time slice of the running thread, before the timers.\<close>

lemma slice_step:
  assumes inv: "kernel_inv idle s" and c: "sc_current s = Some c"
  defines "s1 \<equiv> th_upd c (\<lambda>th. th\<lparr>th_remaining_tick := th_remaining_tick th - 1\<rparr>) (s\<lparr>sc_tick := sc_tick s + 1\<rparr>)"
  obtains s2 where "(if th_remaining_tick (sc_threads s1 c) = 0
      then rt_schedule (th_upd c (\<lambda>th. th\<lparr>th_remaining_tick := th_init_tick th, th_stat := th_stat th OR RT_THREAD_STAT_YIELD\<rparr>) s1) else Some s1) = Some s2"
    "sched_core s2" "urgent s2" "sc_timers s2 = sc_timers s" "sc_tick s2 = sc_tick s + 1" "runnable s2 = runnable s" "\<And>u. \<not> runnable s u \<Longrightarrow> tstat s2 u = tstat s u"
proof -
  let ?t = "s\<lparr>sc_tick := sc_tick s + 1\<rparr>"
  have t: "tstat ?t = tstat s" "runnable ?t = runnable s" "sched_core ?t = sched_core s" "urgent ?t = urgent s"
    by (simp_all add: tstat_def runnable_def sched_core_def urgent_def wfx_def mask_ok_def tprio_def fun_eq_iff)
  note k = keeps_fields [OF keeps_rules(2), where t = c and s = ?t, folded s1_def]
  have s1: "sched_core s1" "urgent s1" "tstat s1 = tstat s" "runnable s1 = runnable s" "sc_timers s1 = sc_timers s" "sc_tick s1 = sc_tick s + 1" "sc_current s1 = Some c"
    using inv c by (simp_all add: k t kernel_inv_def) (simp_all add: s1_def)
  show ?thesis
  proof (cases "th_remaining_tick (sc_threads s1 c) = 0")
    case True
    let ?y = "th_upd c (\<lambda>th. th\<lparr>th_remaining_tick := th_init_tick th, th_stat := th_stat th OR RT_THREAD_STAT_YIELD\<rparr>) s1"
    note ky = keeps_fields [OF keeps_rules(1), where t = c and s = s1]
    have "ready_to_schedule ?y c" using core_ready [OF s1(1,7)] by (simp add: ky)
    then obtain s2 where s2: "rt_schedule ?y = Some s2" "sched_core s2" "urgent s2" "same_threads ?y s2" by (rule schedule_ok)
    then show ?thesis using that [of s2] True s1 by (simp add: same_threads_def ky)
  qed (use that [of s1] s1 in simp)
qed

lemma tick_event:
  assumes inv: "kernel_inv idle s"
  shows "\<exists>s'. kernel_event K_Tick s = Some s' \<and> kernel_inv idle s' \<and> counts K_Tick s s'"
proof -
  obtain c where c: "sc_current s = Some c" by (rule inv_current [OF inv])
  define s1 where "s1 = th_upd c (\<lambda>th. th\<lparr>th_remaining_tick := th_remaining_tick th - 1\<rparr>) (s\<lparr>sc_tick := sc_tick s + 1\<rparr>)"
  define w where "w = (if th_remaining_tick (sc_threads s1 c) = 0
      then rt_schedule (th_upd c (\<lambda>th. th\<lparr>th_remaining_tick := th_init_tick th, th_stat := th_stat th OR RT_THREAD_STAT_YIELD\<rparr>) s1) else Some s1)"
  obtain s2 where s2: "w = Some s2" "sched_core s2" "urgent s2" "sc_timers s2 = sc_timers s" "sc_tick s2 = sc_tick s + 1" "runnable s2 = runnable s"
    "\<And>u. \<not> runnable s u \<Longrightarrow> tstat s2 u = tstat s u"
    unfolding w_def s1_def by (rule slice_step [OF inv c]) blast
  have tm: "timers_inv s" using inv by (simp add: kernel_inv_def)
  then have "tm_ok (sc_tick s) (sc_timers s)" by (simp add: timers_inv_def)
  then obtain tm' fired where f: "rt_timer_check (\<lambda>i w. Option.bind w (thread_timeout i)) (sc_tick s + 1) (sc_timers s) w = Some (tm', fold (\<lambda>i w. Option.bind w (thread_timeout i)) fired w)"
    "tm_ok (sc_tick s + 1) tm'" "period_of tm' = period_of (sc_timers s)" "distinct fired"
    "tm_left (sc_tick s + 1) tm' = tick_left (period_of (sc_timers s)) (sleep_left s)" "set fired = {i. sleep_left s i \<in> {Some 0, Some 1}}"
    unfolding sleep_left_def by (rule tick_refines)
  have np: "period_of (sc_timers s) = (\<lambda>_. None)" using tm by (simp add: timers_inv_def)
  have sus: "tstat s t = RT_THREAD_SUSPEND" "\<not> runnable s t" if "sleep_left s t \<noteq> None" for t
    using tm that unfolding timers_inv_def by (auto simp: runnable_def)
  have "\<forall>t \<in> set fired. tstat s2 t = RT_THREAD_SUSPEND" using sus s2(7) by (auto simp: f(6))
  then obtain s3 where s3: "fold (\<lambda>i w. Option.bind w (thread_timeout i)) fired (Some s2) = Some s3" "sched_core s3" "urgent s3" "sc_tick s3 = sc_tick s + 1"
    "\<forall>u. runnable s3 u \<longleftrightarrow> u \<in> set fired \<or> runnable s u" "\<forall>u. \<not> runnable s u \<longrightarrow> u \<notin> set fired \<longrightarrow> tstat s3 u = tstat s u"
    using timeouts_fold [OF s2(2,3) f(4)] s2(5-7) by auto
  let ?s = "s3\<lparr>sc_timers := tm'\<rparr>"
  have sl: "sleep_left ?s = tick_left (\<lambda>_. None) (sleep_left s)" by (simp add: sleep_left_def s3(4) f(5) np)
  have l: "sleep_left ?s t = Some r' \<longleftrightarrow> (\<exists>r. sleep_left s t = Some r \<and> 1 < r \<and> r' = r - 1)" for t r'
    by (auto simp: sl tick_left_def split: option.splits if_splits)
  have "tstat ?s t = RT_THREAD_SUSPEND" if a: "sleep_left ?s t \<noteq> None" for t
  proof -
    obtain r where r: "sleep_left s t = Some r" "1 < r" using a l by blast
    then have "t \<notin> set fired" by (auto simp: f(6))
    then show ?thesis using sus [of t] r s3(6) by simp
  qed
  then have "timers_inv ?s" using f(2,3) np by (simp add: timers_inv_def s3(4))
  moreover have "runnable ?s idle" using s3(5) inv by (simp add: kernel_inv_def)
  ultimately have "kernel_inv idle ?s" using s3(2,3) by (simp add: kernel_inv_def)
  moreover have "counts K_Tick s ?s" using s3(5) l by (auto simp: counts_def f(6) le_Suc_eq)
  moreover have "kernel_event K_Tick s = Option.bind (rt_timer_check (\<lambda>i w. Option.bind w (thread_timeout i)) (sc_tick s1) (sc_timers s1) w)
      (\<lambda>(tm, w). map_option (\<lambda>s3. s3\<lparr>sc_timers := tm\<rparr>) w)"
    unfolding kernel_event.simps rt_tick_increase_def c bind.simps Let_def s1_def w_def ..
  then have "kernel_event K_Tick s = Some ?s" using f(1) s3(1) by (simp add: s2(1) s1_def)
  ultimately show ?thesis by blast
qed

section \<open>Every order of calls\<close>

lemma event_inv:
  assumes "kernel_inv idle s" "may idle e s"
  shows "\<exists>s'. kernel_event e s = Some s' \<and> kernel_inv idle s' \<and> counts e s s'"
proof (cases e)
  case K_Yield
  then show ?thesis using yield_event [OF assms(1)] by simp
next
  case (K_Sleep n)
  then show ?thesis using sleep_event [OF assms(1), of n] assms(2) by (simp del: kernel_event.simps)
next
  case K_Suspend
  then show ?thesis using suspend_event [OF assms(1)] assms(2) by (simp del: kernel_event.simps)
next
  case (K_Resume t)
  then show ?thesis using resume_event [OF assms(1), of t] by (simp del: kernel_event.simps)
next
  case (K_Priority t p)
  then show ?thesis using priority_event [OF assms(1), of p t] assms(2) by (simp add: may_def del: kernel_event.simps)
next
  case (K_Startup t)
  then show ?thesis using startup_event [OF assms(1), of t] assms(2) by (simp add: may_def del: kernel_event.simps)
next
  case K_Lock
  then show ?thesis using lock_event [OF assms(1)] assms(2) by (simp del: kernel_event.simps)
next
  case K_Unlock
  then show ?thesis using unlock_event [OF assms(1)] by (simp del: kernel_event.simps)
next
  case K_Tick
  then show ?thesis using tick_event [OF assms(1)] by (simp del: kernel_event.simps)
qed

text \<open>The start: the threads that were started before the scheduler are ready, and the scheduler chooses one.\<close>

definition boot_state :: "sched \<Rightarrow> bool" where
  "boot_state s \<longleftrightarrow> sc_current s = None \<and>
     (\<forall>t. th_stat (sc_threads s t) = RT_THREAD_INIT \<and> tprio s t < 32) \<and> timers_idle (sc_timers s) \<and> period_of (sc_timers s) = (\<lambda>_. None)"

fun startup_all :: "nat list \<Rightarrow> sched \<Rightarrow> sched option" where
  "startup_all [] s = Some s"
| "startup_all (t # ts) s = Option.bind (rt_thread_startup t s) (startup_all ts)"

inductive kernel_reach :: "nat \<Rightarrow> sched \<Rightarrow> bool" for idle where
  boot: "boot_state s0 \<Longrightarrow> distinct ts \<Longrightarrow> idle \<in> set ts \<Longrightarrow> startup_all ts (rt_system_scheduler_init s0) = Some s1 \<Longrightarrow> rt_system_scheduler_start s1 = Some s \<Longrightarrow> kernel_reach idle s"
| event: "kernel_reach idle s \<Longrightarrow> may idle e s \<Longrightarrow> kernel_event e s = Some s' \<Longrightarrow> kernel_reach idle s'"

text \<open>Before the scheduler runs, the started threads are ready.\<close>

definition booting :: "nat set \<Rightarrow> sched \<Rightarrow> bool" where
  "booting X s \<longleftrightarrow> wfx {} s \<and> sc_current s = None \<and> sc_lock_nest s = 0 \<and> tm_ok (sc_tick s) (sc_timers s) \<and> sleep_left s = (\<lambda>_. None) \<and>
     period_of (sc_timers s) = (\<lambda>_. None) \<and> (\<forall>t. tstat s t = (if t \<in> X then RT_THREAD_READY else RT_THREAD_INIT))"

lemma booting_start: "boot_state s \<Longrightarrow> booting {} (rt_system_scheduler_init s)"
  by (auto simp: rt_system_scheduler_init_def boot_state_def tprio_def booting_def wfx_def tstat_def mask_ok_def timers_idle_def tm_wf_def sleep_left_def tm_left_def)

lemma booting_startup:
  assumes b: "booting X s" and t: "t \<notin> X"
  obtains s' where "rt_thread_startup t s = Some s'" "booting (insert t X) s'"
proof -
  define s1 where "s1 = th_upd t (\<lambda>th. th\<lparr>th_number_mask := push_bit (unat (th_current_priority th)) 1, th_stat := RT_THREAD_SUSPEND\<rparr>) s"
  have st: "tstat s1 u = (if u = t then RT_THREAD_SUSPEND else tstat s u)" "tprio s1 u = tprio s u" for u by (simp_all add: s1_def tstat_def tprio_def)
  have wf: "wfx {} s" and ti: "tstat s t = RT_THREAD_INIT" using b t by (auto simp: booting_def)
  have w: "wfx {t} s1" unfolding s1_def using ti by (intro wfx_upd wfx_open wf) simp
  have m: "mask_ok s1 t" using wf by (simp add: mask_ok_def wfx_def st) (simp add: s1_def tprio_def)
  have "wfx {} s1" using w m by (intro wfx_close [of t s1]) (simp_all add: st)
  then have tl: "tlist_remove t s1 = s1" by (rule tlist_remove_idle) (simp add: st)
  define s2 where "s2 = rt_schedule_insert_thread t (th_timer_stop t s1)"
  have ts: "th_timer_stop t s1 = s1\<lparr>sc_timers := snd (rt_timer_stop t (sc_timers s))\<rparr>" by (simp add: th_timer_stop_def s1_def)
  have f: "sc_current s1 = None" "sc_lock_nest s1 = 0" "sc_tick s1 = sc_tick s" using b by (simp_all add: s1_def booting_def)
  have "wfx {} s2" unfolding s2_def using w m by (intro wfx_insert) (simp_all add: ts mask_ok_def st)
  moreover have "tm_ok (sc_tick s) (sc_timers s)" using b by (simp add: booting_def)
  note stop = stop_ok [OF this, of t]
  ultimately have "booting (insert t X) s2"
    using b stop f by (auto simp: booting_def s2_def ts st sleep_left_def period_of_kept)
  moreover have "rt_thread_startup t s = Some s2"
  proof -
    have "snd (rt_thread_resume t s1) = s2" by (simp add: rt_thread_resume_def st tl s2_def)
    moreover have "sc_current s2 = None" using f by (simp add: s2_def ts)
    ultimately show ?thesis using ti unfolding rt_thread_startup_def s1_def [symmetric] by (simp add: Let_def)
  qed
  ultimately show ?thesis using that by blast
qed

lemma booting_all: "booting X s \<Longrightarrow> distinct ts \<Longrightarrow> set ts \<inter> X = {} \<Longrightarrow> startup_all ts s = Some s' \<Longrightarrow> booting (set ts \<union> X) s'"
proof (induction ts arbitrary: X s)
  case (Cons t ts)
  obtain s1 where s1: "rt_thread_startup t s = Some s1" "booting (insert t X) s1" by (rule booting_startup [OF Cons.prems(1)]) (use Cons.prems(3) in auto)
  have "booting (set ts \<union> insert t X) s'" by (rule Cons.IH [OF s1(2)]) (use Cons.prems s1(1) in auto)
  then show ?case by simp
qed simp

lemma scheduler_start:
  assumes b: "booting X s" and i: "idle \<in> X"
  obtains s' where "rt_system_scheduler_start s = Some s'" "kernel_inv idle s'"
proof -
  have wf: "wfx {} s" and st: "tstat s u = (if u \<in> X then RT_THREAD_READY else RT_THREAD_INIT)" for u using b by (simp_all add: booting_def)
  have "sc_group s \<noteq> 0" using group_ready [OF wf] i st by auto
  then obtain t p where h: "get_highest_priority_thread s = Some (t, p)" "tprio s t = p" "tstat s t = RT_THREAD_READY"
    "\<forall>u. tstat s u = RT_THREAD_READY \<longrightarrow> p \<le> tprio s u" by (rule highest_spec [OF wf])
  define s0 where "s0 = s\<lparr>sc_current := Some t\<rparr>"
  define s' where "s' = th_upd t (\<lambda>th. th\<lparr>th_stat := RT_THREAD_RUNNING\<rparr>) (rt_schedule_remove_thread t s0)"
  have s0: "wfx {} s0" "tstat s0 = tstat s" using wf by (simp_all add: s0_def wfx_def tstat_def tprio_def mask_ok_def fun_eq_iff)
  have st': "tstat s' u = (if u = t then RT_THREAD_RUNNING else tstat s u)" "tprio s' u = tprio s u" for u
    by (simp_all add: s'_def tstat_def tprio_def s0_def)
  have "wfx {t} s'" unfolding s'_def by (intro wfx_upd wfx_remove s0(1)) (simp add: s0 h)
  moreover have "mask_ok s' t" using wf h(3) by (simp add: mask_ok_def st' wfx_def) (simp add: s'_def s0_def)
  ultimately have "wfx {} s'" by (intro wfx_close [of t s']) (simp_all add: st')
  moreover have f: "sc_current s' = Some t" "sc_timers s' = sc_timers s" "sc_tick s' = sc_tick s" by (simp_all add: s'_def s0_def)
  ultimately have "sched_core s'" unfolding sched_core_def by (simp add: st' st)
  moreover have "urgent s'" using f(1) h(2,4) by (simp add: urgent_def st')
  moreover have "timers_inv s'" using b by (simp add: timers_inv_def booting_def sleep_left_def f)
  moreover have "runnable s' idle" using i by (simp add: runnable_def st' st)
  moreover have "rt_system_scheduler_start s = Some s'" using h(1) by (simp add: rt_system_scheduler_start_def s'_def s0_def)
  ultimately show ?thesis using that by (simp add: kernel_inv_def)
qed

lemma kernel_reach_inv: "kernel_reach idle s \<Longrightarrow> kernel_inv idle s"
proof (induction rule: kernel_reach.induct)
  case (boot s0 ts s1 s)
  have "booting (set ts) s1" using booting_all [OF booting_start [OF boot(1)] boot(2) _ boot(4)] by simp
  then show ?case using scheduler_start boot(3,5) by (metis option.inject)
next
  case (event s e s')
  then show ?case using event_inv [of idle s e] by auto
qed

text \<open>
  C15. The most urgent thread runs. From the start of the scheduler, in every order of the calls of
  threads and of interrupts, every call succeeds, exactly one thread runs, the ready
  threads are in the list of their priority, once each, the bitmap tells the lists that are not
  empty, and as long as the scheduler is not locked no ready thread has a higher priority than the
  running one.
\<close>

theorem scheduler_runs_most_urgent:
  assumes "kernel_reach idle s"
  shows "(\<exists>c. sc_current s = Some c \<and> (\<forall>t. tstat s t = RT_THREAD_RUNNING \<longleftrightarrow> t = c) \<and>
        (sc_lock_nest s = 0 \<longrightarrow> (\<forall>t. tstat s t = RT_THREAD_READY \<longrightarrow> tprio s c \<le> tprio s t))) \<and>
     (\<forall>p t. t \<in> set (sc_table s p) \<longleftrightarrow> tstat s t = RT_THREAD_READY \<and> tprio s t = p) \<and> (\<forall>p. distinct (sc_table s p)) \<and>
     (\<forall>p < 32. bit (sc_group s) p \<longleftrightarrow> sc_table s p \<noteq> []) \<and> (may idle e s \<longrightarrow> kernel_event e s \<noteq> None)"
proof -
  have inv: "kernel_inv idle s" by (rule kernel_reach_inv [OF assms])
  then obtain c where c: "sc_current s = Some c" "tstat s c = RT_THREAD_RUNNING" "\<forall>t. t \<noteq> c \<longrightarrow> tstat s t \<noteq> RT_THREAD_RUNNING" "wfx {} s"
    unfolding kernel_inv_def using coreD by metis
  have "sc_lock_nest s = 0 \<longrightarrow> (\<forall>t. tstat s t = RT_THREAD_READY \<longrightarrow> tprio s c \<le> tprio s t)" using inv c(1) by (simp add: kernel_inv_def urgent_def)
  moreover have "tstat s t = RT_THREAD_RUNNING \<longleftrightarrow> t = c" for t using c(2,3) by metis
  moreover have "may idle e s \<longrightarrow> kernel_event e s \<noteq> None" using event_inv [OF inv, of e] by auto
  ultimately show ?thesis using c(1,4) by (simp add: wfx_def)
qed

text \<open>
  The owner of a mutex that inherited a priority from a thread whose waiting has ended releases the mutex: its own
  priority is restored by \<open>thread_change_priority\<close> alone, and it goes on running although a ready thread outranks it.
\<close>

theorem priority_restored_without_schedule:
  assumes "kernel_reach idle s" "sc_current s = Some c" "tstat s t = RT_THREAD_READY" "tprio s t < unat original"
  shows "let s' = thread_change_priority c original s in sc_current s' = Some c \<and> tstat s' t = RT_THREAD_READY \<and> tprio s' t < tprio s' c"
proof -
  have "kernel_inv idle s" by (rule kernel_reach_inv [OF assms(1)])
  then have "tstat s c = RT_THREAD_RUNNING" unfolding kernel_inv_def using coreD [of s] assms(2) by (metis option.inject)
  then have "t \<noteq> c" "tstat s c \<noteq> RT_THREAD_READY" using assms(3) by auto
  then show ?thesis using assms by (simp add: thread_change_priority_def Let_def th_upd_def tprio_def tstat_def)
qed

definition kernel_call :: "nat \<Rightarrow> kernel_ev \<Rightarrow> sched \<Rightarrow> sched option" where
  "kernel_call idle e s = (if may idle e s then kernel_event e s else None)"

interpretation sleeping: countdown "kernel_inv idle" sleep_left runnable "kernel_call idle" "\<lambda>_. True" "\<lambda>e. e = K_Tick" "\<lambda>i e. e \<noteq> K_Resume i"
  for idle
proof
  fix s s' e i r
  assume inv: "kernel_inv idle s" and e: "kernel_call idle e s = Some s'"
  then have s': "kernel_inv idle s'" "counts e s s'" using event_inv [OF inv, of e] by (auto simp: kernel_call_def split: if_splits)
  show "kernel_inv idle s'" by fact
  assume i: "e \<noteq> K_Resume i" "sleep_left s i = Some r"
  show "runnable s' i" if "e = K_Tick" "r \<le> 1" using s'(2) i that by (simp add: counts_def)
  assume n: "\<not> (e = K_Tick \<and> r \<le> 1)"
  then have l: "sleep_left s' i = Some (if e = K_Tick then r - 1 else r)" using s'(2) i unfolding counts_def by meson
  then have "tstat s' i = RT_THREAD_SUSPEND" using s'(1) unfolding kernel_inv_def timers_inv_def by blast
  then show "\<not> runnable s' i \<and> sleep_left s' i = Some (if e = K_Tick then r - 1 else r)" using l by (simp add: runnable_def)
qed

lemma mdelay_ticks: "0 \<le> ms \<Longrightarrow> ms < 2 ^ 32 \<Longrightarrow> unat (rt_tick_from_millisecond ms) = nat ms"
proof -
  assume ms: "0 \<le> ms" "ms < 2 ^ 32"
  have "(1000 * k + 999) div 1000 = k" for k :: int using div_mult_self4 [of 1000 k 999] by simp
  then have "rt_tick_from_millisecond ms = of_int (1000 * (ms div 1000)) + of_int (ms mod 1000)" using ms(1) by (simp add: rt_tick_from_millisecond_def)
  also have "\<dots> = of_int (1000 * (ms div 1000) + ms mod 1000)" by (simp only: of_int_add)
  also have "1000 * (ms div 1000) + ms mod 1000 = ms" by simp
  finally have "rt_tick_from_millisecond ms = of_int ms" .
  then show ?thesis using ms by (simp add: unat_eq_nat_uint uint_word_of_int)
qed

definition kticks :: "kernel_ev list \<Rightarrow> nat" where
  "kticks es = length (filter (\<lambda>e. e = K_Tick) es)"

text \<open>
  C16. A delay ends exactly in time. A thread that delays itself by a number of milliseconds is suspended
  at once, and in every order of calls and interrupts that does not resume it, it stays
  suspended while fewer ticks than that have passed and can run again with the tick that completes them, the
  first one for a delay of zero.
\<close>

theorem mdelay_wakes_exactly:
  assumes "kernel_reach idle s" "sc_current s = Some t" "t \<noteq> idle" "sc_lock_nest s = 0" "0 \<le> ms" "ms < 0x7FFFFFFF"
    and "K_Resume t \<notin> set es" "kticks es < max 1 (nat ms)"
  shows "\<exists>s0. rt_thread_mdelay ms s = Some s0 \<and>
    (\<forall>s1. ev_run (kernel_call idle) es s0 = Some s1 \<longrightarrow>
       tstat s1 t = RT_THREAD_SUSPEND \<and>
       (\<exists>s2. kernel_event K_Tick s1 = Some s2 \<and> (runnable s2 t \<longleftrightarrow> Suc (kticks es) = max 1 (nat ms))))"
proof -
  let ?n = "rt_tick_from_millisecond ms"
  have n: "unat ?n = nat ms" using assms(5,6) by (intro mdelay_ticks) simp_all
  have inv: "kernel_inv idle s" by (rule kernel_reach_inv [OF assms(1)])
  have m: "may idle (K_Sleep ?n) s" using assms n by (simp add: may_def word_less_nat_alt)
  obtain s2 where s2: "kernel_event (K_Sleep ?n) s = rt_schedule s2" "ready_to_schedule s2 t" "timers_inv s2" "runnable s2 idle"
    "sleep_left s2 = (sleep_left s)(t \<mapsto> nat ms)" using sleep_prepares [OF inv m assms(2)] n by metis
  obtain s0 where s0: "rt_schedule s2 = Some s0" "kernel_inv idle s0" "same_threads s2 s0" by (rule schedule_inv [OF s2(2,3,4)])
  have l: "sleep_left s0 t = Some (nat ms)" using same_left [OF s0(3)] s2(5) by simp
  have susp: "tstat x t = RT_THREAD_SUSPEND" "\<not> runnable x t" if "kernel_inv idle x" "sleep_left x t \<noteq> None" for x
    using that unfolding kernel_inv_def timers_inv_def by (auto simp: runnable_def)
  have r0: "\<not> runnable s0 t" using susp(2) [OF s0(2)] l by simp
  have "tstat s1 t = RT_THREAD_SUSPEND \<and> (\<exists>s2. kernel_event K_Tick s1 = Some s2 \<and> (runnable s2 t \<longleftrightarrow> Suc (kticks es) = max 1 (nat ms)))"
    if run: "ev_run (kernel_call idle) es s0 = Some s1" for s1
  proof -
    have sp: "list_all (\<lambda>_. True) es" "list_all (\<lambda>e. e \<noteq> K_Resume t) es" using assms(7) by (auto simp: list_all_iff)
    have i1: "kernel_inv idle s1" by (rule sleeping.run_ok [OF s0(2) sp(1) run])
    have "sleep_left s1 t \<noteq> None" using sleeping.run_left(2) [OF s0(2) sp(1) run sp(2) l r0] assms(8) by (simp add: kticks_def)
    then have "tstat s1 t = RT_THREAD_SUSPEND" by (rule susp(1) [OF i1])
    moreover have "may idle K_Tick s1" by (simp add: may_def)
    moreover from this obtain s3 where s3: "kernel_event K_Tick s1 = Some s3" using event_inv [OF i1] by blast
    ultimately show ?thesis
      using sleeping.run_tick [OF s0(2) sp(1) run sp(2) TrueI _ _ refl l r0, of s3] assms(8) by (simp add: kticks_def kernel_call_def)
  qed
  moreover have "rt_thread_mdelay ms s = Some s0" using s2(1) s0(1) by (simp add: rt_thread_mdelay_def)
  ultimately show ?thesis by blast
qed

text \<open>Thread 0 is the idle thread, with the lowest priority, and thread 1 has priority 10.\<close>

definition demo_sched :: sched where
  "demo_sched = \<lparr>sc_table = (\<lambda>_. []), sc_group = 0, sc_current = None, sc_current_priority = 0, sc_lock_nest = 0,
     sc_threads = (\<lambda>t. \<lparr>th_stat = RT_THREAD_INIT, th_current_priority = (if t = 1 then 10 else 31), th_number_mask = 0,
       th_init_tick = 20, th_remaining_tick = 20, th_error = RT_EOK\<rparr>),
     sc_timers = \<lparr>ts_timers = (\<lambda>_. \<lparr>tm_flag = 0, tm_init_tick = 0, tm_timeout_tick = 0\<rparr>), ts_list = []\<rparr>, sc_tick = 0xFFFFFFFF\<rparr>"

definition demo_kernel :: "sched option" where
  "demo_kernel = Option.bind (startup_all [0, 1] (rt_system_scheduler_init demo_sched)) rt_system_scheduler_start"

lemma demo_kernel_reach:
  obtains s where "demo_kernel = Some s" "kernel_reach 0 s" "sc_current s = Some 1" "sc_lock_nest s = 0"
proof -
  have "map_option (\<lambda>s. (sc_current s, sc_lock_nest s)) demo_kernel = Some (Some 1, 0)" by code_simp
  then obtain s where s: "demo_kernel = Some s" "sc_current s = Some 1" "sc_lock_nest s = 0" by auto
  then obtain s1 where "startup_all [0, 1] (rt_system_scheduler_init demo_sched) = Some s1" "rt_system_scheduler_start s1 = Some s" by (auto simp: demo_kernel_def bind_eq_Some_conv)
  moreover have "boot_state demo_sched"
    by (simp add: boot_state_def demo_sched_def tprio_def timers_idle_def tm_activated_def periods_ok_def tm_periodic_def period_of_def fun_eq_iff)
  ultimately have "kernel_reach 0 s" by (intro kernel_reach.boot [of demo_sched "[0, 1]"]) simp_all
  then show ?thesis using that s by blast
qed

theorem scheduler_runs_most_urgent_witness:
  "\<exists>s. kernel_reach 0 s \<and> sc_current s = Some 1 \<and> tstat s 1 = RT_THREAD_RUNNING \<and> may 0 K_Yield s \<and> kernel_event K_Yield s \<noteq> None"
proof -
  obtain s where s: "kernel_reach 0 s" "sc_current s = Some 1" by (rule demo_kernel_reach)
  moreover have "may 0 K_Yield s" by (simp add: may_def)
  moreover have "tstat s 1 = RT_THREAD_RUNNING \<and> kernel_event K_Yield s \<noteq> None"
    using scheduler_runs_most_urgent [OF s(1), of K_Yield] s(2) \<open>may 0 K_Yield s\<close> by auto
  ultimately show ?thesis by blast
qed

theorem mdelay_wakes_exactly_witness:
  "\<exists>s s0. kernel_reach 0 s \<and> sc_current s = Some 1 \<and> rt_thread_mdelay 2 s = Some s0 \<and>
     (\<forall>s1. ev_run (kernel_call 0) [K_Tick] s0 = Some s1 \<longrightarrow> tstat s1 1 = RT_THREAD_SUSPEND \<and> (\<exists>s2. kernel_event K_Tick s1 = Some s2 \<and> runnable s2 1))"
proof -
  obtain s where s: "kernel_reach 0 s" "sc_current s = Some 1" "sc_lock_nest s = 0" by (rule demo_kernel_reach)
  have k: "kticks [K_Tick] < max 1 (nat 2)" "Suc (kticks [K_Tick]) = max 1 (nat 2)" by (simp_all add: kticks_def)
  have e: "K_Resume 1 \<notin> set [K_Tick]" by simp
  obtain s0 where "rt_thread_mdelay 2 s = Some s0" "\<forall>s1. ev_run (kernel_call 0) [K_Tick] s0 = Some s1 \<longrightarrow>
      tstat s1 1 = RT_THREAD_SUSPEND \<and> (\<exists>s2. kernel_event K_Tick s1 = Some s2 \<and> (runnable s2 1 \<longleftrightarrow> Suc (kticks [K_Tick]) = max 1 (nat 2)))"
    using mdelay_wakes_exactly [OF s(1,2) _ s(3) _ _ e k(1)] by auto
  then show ?thesis using s unfolding k(2) by blast
qed

end
