(* ===== verification/Kernel_Heap.thy ===== *)
theory Kernel_Heap
  imports Prelude
begin

text \<open>
  The heap of the kernel, \<^verbatim>\<open>rt-thread/src/mem.c\<close>, from which threads, stacks and message queues are
  created: blocks with a header in front, chained by offsets in both directions, first fit, and joining of
  neighbouring free blocks. The memory is a function from offsets to headers; the data of the blocks is
  not modelled, and their owners stay inside them. Sizes of requests are 32-bit words, since rounding them up can
  overflow. Object type checks, debug output and thread names are left out; the result \<open>None\<close> is a failed
  assertion.
\<close>

abbreviation RT_ALIGN_SIZE :: nat where "RT_ALIGN_SIZE \<equiv> 4"
abbreviation SIZEOF_STRUCT_MEM :: nat where "SIZEOF_STRUCT_MEM \<equiv> 12"
abbreviation MIN_SIZE_ALIGNED :: nat where "MIN_SIZE_ALIGNED \<equiv> 12"

text \<open>\<open>pool_ptr\<close>: the address of the heap with the mark in its lowest bit, or 0.\<close>

datatype pool_ptr = Pool_0 | Mem_Freed | Mem_Used

record mem_item =
  pool_ptr :: pool_ptr
  it_next :: nat
  it_prev :: nat

record small_mem =
  sm_items :: "nat \<Rightarrow> mem_item"
  sm_lfree :: nat
  mem_size_aligned :: nat
  sm_used :: nat
  sm_max :: nat

definition heap_end :: "small_mem \<Rightarrow> nat" where
  "heap_end m = mem_size_aligned m + SIZEOF_STRUCT_MEM"

definition it_upd :: "nat \<Rightarrow> (mem_item \<Rightarrow> mem_item) \<Rightarrow> small_mem \<Rightarrow> small_mem" where
  "it_upd p f m = m\<lparr>sm_items := (sm_items m)(p := f (sm_items m p))\<rparr>"

definition mem_isused :: "small_mem \<Rightarrow> nat \<Rightarrow> bool" where
  "mem_isused m p \<longleftrightarrow> pool_ptr (sm_items m p) = Mem_Used"

definition rt_align :: "u32 \<Rightarrow> u32" where
  "rt_align sz = (sz + 3) AND NOT 3"

text \<open>\<open>rt_smem_init\<close>, with the first and the last address it may use.\<close>

definition rt_smem_init :: "nat \<Rightarrow> nat \<Rightarrow> (nat \<Rightarrow> mem_item) \<Rightarrow> small_mem option" where
  "rt_smem_init begin_align end_align mem =
     (if end_align > 2 * SIZEOF_STRUCT_MEM \<and> end_align - 2 * SIZEOF_STRUCT_MEM \<ge> begin_align
      then
        let sz = end_align - begin_align - 2 * SIZEOF_STRUCT_MEM; e = sz + SIZEOF_STRUCT_MEM
        in Some \<lparr>sm_items = mem(0 := \<lparr>pool_ptr = Mem_Freed, it_next = e, it_prev = 0\<rparr>, e := \<lparr>pool_ptr = Mem_Used, it_next = e, it_prev = e\<rparr>),
             sm_lfree = 0, mem_size_aligned = sz, sm_used = 0, sm_max = 0\<rparr>
      else None)"

text \<open>Joining a block with the one behind it: the same assignments forward and backward.\<close>

definition smem_join :: "nat \<Rightarrow> nat \<Rightarrow> small_mem \<Rightarrow> small_mem" where
  "smem_join outer inner m =
     (let a = (if sm_lfree m = inner then m\<lparr>sm_lfree := outer\<rparr> else m);
          a = it_upd inner (\<lambda>i. i\<lparr>pool_ptr := Pool_0\<rparr>) a;
          n = it_next (sm_items a inner);
          a = it_upd outer (\<lambda>i. i\<lparr>it_next := n\<rparr>) a
      in it_upd n (\<lambda>i. i\<lparr>it_prev := outer\<rparr>) a)"

definition plug_holes :: "nat \<Rightarrow> small_mem \<Rightarrow> small_mem" where
  "plug_holes mem m =
     (let nmem = it_next (sm_items m mem);
          m1 = (if mem \<noteq> nmem \<and> \<not> mem_isused m nmem \<and> nmem \<noteq> heap_end m then smem_join mem nmem m else m);
          pmem = it_prev (sm_items m1 mem)
      in if pmem \<noteq> mem \<and> \<not> mem_isused m1 pmem then smem_join pmem mem m1 else m1)"

text \<open>The loops of the allocation: first fit from the lowest free block, and the search for the next lowest one.\<close>

partial_function (option) smem_find :: "small_mem \<Rightarrow> nat \<Rightarrow> nat \<Rightarrow> nat option option" where
  "smem_find m sz ptr =
     (if ptr \<le> mem_size_aligned m - sz
      then if \<not> mem_isused m ptr \<and> it_next (sm_items m ptr) - (ptr + SIZEOF_STRUCT_MEM) \<ge> sz then Some (Some ptr)
           else smem_find m sz (it_next (sm_items m ptr))
      else Some None)"

partial_function (option) smem_lowest :: "small_mem \<Rightarrow> nat \<Rightarrow> nat option" where
  "smem_lowest m p = (if mem_isused m p \<and> p \<noteq> heap_end m then smem_lowest m (it_next (sm_items m p)) else Some p)"

declare smem_find.simps [code] smem_lowest.simps [code]

definition smem_account :: "nat \<Rightarrow> small_mem \<Rightarrow> small_mem" where
  "smem_account n m = (let u = sm_used m + n in m\<lparr>sm_used := u, sm_max := (if sm_max m < u then u else sm_max m)\<rparr>)"

text \<open>The new block at the end of a block that is split, used by the allocation and the reallocation.\<close>

definition smem_split :: "nat \<Rightarrow> nat \<Rightarrow> small_mem \<Rightarrow> small_mem" where
  "smem_split ptr ptr2 m =
     (let n = it_next (sm_items m ptr);
          a = it_upd ptr2 (\<lambda>_. \<lparr>pool_ptr = Mem_Freed, it_next = n, it_prev = ptr\<rparr>) m;
          a = it_upd ptr (\<lambda>i. i\<lparr>it_next := ptr2\<rparr>) a
      in if n \<noteq> mem_size_aligned m + SIZEOF_STRUCT_MEM then it_upd n (\<lambda>i. i\<lparr>it_prev := ptr2\<rparr>) a else a)"

definition smem_take :: "nat \<Rightarrow> nat \<Rightarrow> small_mem \<Rightarrow> (nat option \<times> small_mem) option" where
  "smem_take sz ptr m =
     (let n = it_next (sm_items m ptr);
          m1 = (if n - (ptr + SIZEOF_STRUCT_MEM) \<ge> sz + SIZEOF_STRUCT_MEM + MIN_SIZE_ALIGNED
                then smem_account (sz + SIZEOF_STRUCT_MEM) (smem_split ptr (ptr + SIZEOF_STRUCT_MEM + sz) m)
                else smem_account (n - ptr) m);
          m2 = it_upd ptr (\<lambda>i. i\<lparr>pool_ptr := Mem_Used\<rparr>) m1
      in Option.bind (if ptr = sm_lfree m2 then map_option (\<lambda>l. m2\<lparr>sm_lfree := l\<rparr>) (smem_lowest m2 ptr) else Some m2) (\<lambda>m3.
         if ptr + SIZEOF_STRUCT_MEM + sz \<le> heap_end m3 then Some (Some (ptr + SIZEOF_STRUCT_MEM), m3) else None))"

definition rt_smem_alloc :: "u32 \<Rightarrow> small_mem \<Rightarrow> (nat option \<times> small_mem) option" where
  "rt_smem_alloc sz m =
     (if sz = 0 then Some (None, m)
      else
        let s = rt_align sz;
            s = (if unat s < MIN_SIZE_ALIGNED then MIN_SIZE_ALIGNED else unat s)
        in if s > mem_size_aligned m then Some (None, m)
           else Option.bind (smem_find m s (sm_lfree m)) (\<lambda>r. case r of None \<Rightarrow> Some (None, m) | Some ptr \<Rightarrow> smem_take s ptr m))"

definition rt_smem_free :: "nat \<Rightarrow> small_mem \<Rightarrow> small_mem option" where
  "rt_smem_free rmem m =
     (let mem = rmem - SIZEOF_STRUCT_MEM
      in if rmem mod RT_ALIGN_SIZE \<noteq> 0 \<or> rmem < SIZEOF_STRUCT_MEM \<or> \<not> mem_isused m mem \<or> rmem \<ge> heap_end m \<or>
            pool_ptr (sm_items m (it_next (sm_items m mem))) = Pool_0 then None
         else
           let a = it_upd mem (\<lambda>i. i\<lparr>pool_ptr := Mem_Freed\<rparr>) m;
               a = (if mem < sm_lfree a then a\<lparr>sm_lfree := mem\<rparr> else a);
               a = a\<lparr>sm_used := sm_used a - (it_next (sm_items a mem) - mem)\<rparr>
           in Some (plug_holes mem a))"

text \<open>Cutting the end off a used block, and the reallocation, without the copy of the data.\<close>

definition smem_shrink :: "nat \<Rightarrow> nat \<Rightarrow> nat \<Rightarrow> small_mem \<Rightarrow> small_mem" where
  "smem_shrink ptr sz newsize m =
     (let a = m\<lparr>sm_used := sm_used m - (sz - newsize)\<rparr>;
          ptr2 = ptr + SIZEOF_STRUCT_MEM + newsize;
          a = smem_split ptr ptr2 a;
          a = (if ptr2 < sm_lfree a then a\<lparr>sm_lfree := ptr2\<rparr> else a)
      in plug_holes ptr2 a)"

definition rt_smem_realloc :: "nat option \<Rightarrow> u32 \<Rightarrow> small_mem \<Rightarrow> (nat option \<times> small_mem) option" where
  "rt_smem_realloc rmem newsize m =
     (let s = rt_align newsize
      in if unat s > mem_size_aligned m then Some (None, m)
         else if s = 0 then (case rmem of None \<Rightarrow> Some (None, m) | Some r \<Rightarrow> map_option (Pair None) (rt_smem_free r m))
         else (case rmem of
           None \<Rightarrow> rt_smem_alloc s m
         | Some r \<Rightarrow>
             if r mod RT_ALIGN_SIZE \<noteq> 0 \<or> r < SIZEOF_STRUCT_MEM \<or> r \<ge> heap_end m then None
             else
               let ptr = r - SIZEOF_STRUCT_MEM;
                   sz = it_next (sm_items m ptr) - ptr - SIZEOF_STRUCT_MEM
               in if sz = unat s then Some (Some r, m)
                  else if unat s + SIZEOF_STRUCT_MEM + 12 < sz
                  then Some (Some r, smem_shrink ptr sz (unat s) m)
                  else
                    Option.bind (rt_smem_alloc s m) (\<lambda>(nmem, m1).
                      if nmem \<noteq> None then map_option (Pair nmem) (rt_smem_free r m1) else Some (None, m1))))"

text \<open>
  The calls of \<^verbatim>\<open>rt-thread/src/kservice.c\<close> on the system heap, each one critical section. The memory that
  \<open>rt_calloc\<close> clears is the product of its arguments as a word.
\<close>

definition rt_malloc :: "u32 \<Rightarrow> small_mem \<Rightarrow> (nat option \<times> small_mem) option" where
  "rt_malloc sz m = rt_smem_alloc sz m"

definition rt_realloc :: "nat option \<Rightarrow> u32 \<Rightarrow> small_mem \<Rightarrow> (nat option \<times> small_mem) option" where
  "rt_realloc rmem newsize m = rt_smem_realloc rmem newsize m"

definition rt_calloc :: "u32 \<Rightarrow> u32 \<Rightarrow> small_mem \<Rightarrow> (nat option \<times> small_mem) option" where
  "rt_calloc count sz m = rt_malloc (count * sz) m"

definition rt_free :: "nat option \<Rightarrow> small_mem \<Rightarrow> small_mem option" where
  "rt_free rmem m = (case rmem of None \<Rightarrow> Some m | Some r \<Rightarrow> rt_smem_free r m)"

definition rt_memory_info :: "small_mem \<Rightarrow> nat \<times> nat \<times> nat" where
  "rt_memory_info m = (mem_size_aligned m, sm_used m, sm_max m)"

end
