(* ===== verification/Kernel_Heap_Blocks.thy ===== *)
theory Kernel_Heap_Blocks
  imports Kernel_Heap
begin

text \<open>
  The heap as a list of blocks, each with its length, header included, and whether it is used. The operations on
  headers implement first fit, splitting and joining on this list, and keep it free of adjacent free blocks.
\<close>

type_synonym block = "nat \<times> bool"

definition lens :: "block list \<Rightarrow> nat" where
  "lens xs = sum_list (map fst xs)"

lemma lens_simps [simp]: "lens [] = 0" "lens (x # xs) = fst x + lens xs" "lens (xs @ ys) = lens xs + lens ys"
  by (simp_all add: lens_def)

definition tag_of :: "bool \<Rightarrow> pool_ptr" where
  "tag_of u = (if u then Mem_Used else Mem_Freed)"

lemma tag_of_used [simp]: "tag_of u = Mem_Used \<longleftrightarrow> u" "tag_of u \<noteq> Pool_0"
  by (simp_all add: tag_of_def)

text \<open>The headers from an offset on, given the offset of the block in front.\<close>

primrec segs :: "(nat \<Rightarrow> mem_item) \<Rightarrow> nat \<Rightarrow> nat \<Rightarrow> block list \<Rightarrow> bool" where
  "segs it q p [] = True"
| "segs it q p (x # xs) = (pool_ptr (it p) = tag_of (snd x) \<and> it_next (it p) = p + fst x \<and> it_prev (it p) = q \<and>
     12 \<le> fst x \<and> 4 dvd fst x \<and> segs it p (p + fst x) xs)"

primrec lastpos :: "nat \<Rightarrow> nat \<Rightarrow> block list \<Rightarrow> nat" where
  "lastpos q p [] = q"
| "lastpos q p (x # xs) = lastpos p (p + fst x) xs"

lemma segs_append: "segs it q p (xs @ ys) \<longleftrightarrow> segs it q p xs \<and> segs it (lastpos q p xs) (p + lens xs) ys"
  by (induction xs arbitrary: q p) (auto simp: ac_simps)

lemma lastpos_snoc [simp]: "lastpos q p (xs @ [x]) = p + lens xs"
  by (induction xs arbitrary: q p) (auto simp: ac_simps)

lemma segs_upd [simp]: "r < p \<or> p + lens xs \<le> r \<Longrightarrow> segs (it(r := i)) q p xs = segs it q p xs"
  by (induction xs arbitrary: q p) (auto simp: ac_simps)

lemma segs_prev: "segs it q p xs \<Longrightarrow> segs (it(p := (it p)\<lparr>it_prev := q'\<rparr>)) q' p xs"
  by (cases xs) auto

lemma segs_dvd: "segs it q p xs \<Longrightarrow> 4 dvd lens xs"
  by (induction xs arbitrary: q p) auto

definition heap_segs :: "small_mem \<Rightarrow> block list \<Rightarrow> bool" where
  "heap_segs m xs \<longleftrightarrow> segs (sm_items m) 0 0 xs \<and> lens xs = heap_end m \<and> pool_ptr (sm_items m (heap_end m)) = Mem_Used \<and>
     it_next (sm_items m (heap_end m)) = heap_end m"

lemma it_upd_fields [simp]:
  "sm_items (it_upd p f m) = (sm_items m)(p := f (sm_items m p))" "sm_lfree (it_upd p f m) = sm_lfree m" "heap_end (it_upd p f m) = heap_end m"
  "mem_size_aligned (it_upd p f m) = mem_size_aligned m" "sm_used (it_upd p f m) = sm_used m" "sm_max (it_upd p f m) = sm_max m"
  by (simp_all add: it_upd_def heap_end_def)

lemma heap_segs_cong:
  "sm_items m = sm_items m' \<Longrightarrow> mem_size_aligned m = mem_size_aligned m' \<Longrightarrow> heap_segs m xs = heap_segs m' xs"
  by (simp add: heap_segs_def heap_end_def)

lemma heap_end_upd [simp]: "heap_end (m\<lparr>sm_lfree := l\<rparr>) = heap_end m" "heap_end (m\<lparr>sm_used := l\<rparr>) = heap_end m"
  "heap_end (m\<lparr>sm_max := l\<rparr>) = heap_end m"
  by (simp_all add: heap_end_def)

text \<open>The three ways in which the headers change.\<close>

lemma mark_segs:
  assumes "heap_segs m (as @ (n, u) # bs)"
  shows "heap_segs (it_upd (lens as) (\<lambda>i. i\<lparr>pool_ptr := tag_of v\<rparr>) m) (as @ (n, v) # bs)"
proof -
  have "0 < n" "lens as < heap_end m" using assms by (auto simp: heap_segs_def segs_append)
  then show ?thesis using assms by (simp add: heap_segs_def segs_append)
qed

lemma split_segs:
  assumes h: "heap_segs m (as @ (n, u) # bs)" and k: "12 \<le> k" "k + 12 \<le> n" "4 dvd k"
  shows "heap_segs (smem_split (lens as) (lens as + k) m) (as @ (k, u) # (n - k, False) # bs)"
proof -
  let ?p = "lens as"
  let ?it = "(sm_items m)(?p + k := \<lparr>pool_ptr = Mem_Freed, it_next = ?p + n, it_prev = ?p\<rparr>, ?p := (sm_items m ?p)\<lparr>it_next := ?p + k\<rparr>)"
  have s: "segs (sm_items m) 0 0 as" "pool_ptr (sm_items m ?p) = tag_of u" "it_next (sm_items m ?p) = ?p + n" "it_prev (sm_items m ?p) = lastpos 0 0 as"
    "4 dvd n" "segs (sm_items m) ?p (?p + n) bs" and e: "heap_end m = ?p + n + lens bs" "heap_end m = mem_size_aligned m + 12"
    "pool_ptr (sm_items m (heap_end m)) = Mem_Used" "it_next (sm_items m (heap_end m)) = heap_end m"
    using h by (auto simp: heap_segs_def segs_append heap_end_def)
  have d: "4 dvd n - k" using s(5) k by (simp add: dvd_diff_nat)
  show ?thesis
  proof (cases bs)
    case Nil
    then show ?thesis using s e k d by (simp add: heap_segs_def segs_append smem_split_def Let_def tag_of_def)
  next
    case (Cons b cs)
    then have b: "12 \<le> fst b" using s(6) by simp
    have "segs (?it(?p + n := (?it (?p + n))\<lparr>it_prev := ?p + k\<rparr>)) (?p + k) (?p + n) bs"
      by (rule segs_prev [of _ ?p]) (use s(6) k in simp)
    then show ?thesis using s e k d Cons b by (simp add: heap_segs_def segs_append smem_split_def Let_def tag_of_def)
  qed
qed

lemma join_segs:
  assumes h: "heap_segs m (as @ (n, u) # (k, w) # cs)"
  shows "heap_segs (smem_join (lens as) (lens as + n) m) (as @ (n + k, u) # cs)"
proof -
  let ?p = "lens as"
  have s: "segs (sm_items m) 0 0 as" "pool_ptr (sm_items m ?p) = tag_of u" "it_next (sm_items m ?p) = ?p + n" "it_prev (sm_items m ?p) = lastpos 0 0 as"
    "12 \<le> n" "12 \<le> k" "4 dvd n" "4 dvd k" "it_next (sm_items m (?p + n)) = ?p + n + k" "segs (sm_items m) (?p + n) (?p + n + k) cs"
    and e: "heap_end m = ?p + n + k + lens cs" "pool_ptr (sm_items m (heap_end m)) = Mem_Used" "it_next (sm_items m (heap_end m)) = heap_end m"
    using h by (auto simp: heap_segs_def segs_append)
  let ?it = "(sm_items m)(?p + n := (sm_items m (?p + n))\<lparr>pool_ptr := Pool_0\<rparr>, ?p := (sm_items m ?p)\<lparr>it_next := ?p + n + k\<rparr>)"
  have "segs (?it(?p + n + k := (?it (?p + n + k))\<lparr>it_prev := ?p\<rparr>)) ?p (?p + n + k) cs"
    by (rule segs_prev [of _ "?p + n"]) (use s in simp)
  moreover define m' where "m' = smem_join ?p (?p + n) m"
  moreover have "sm_items m' = ?it(?p + n + k := (?it (?p + n + k))\<lparr>it_prev := ?p\<rparr>)" "heap_end m' = heap_end m"
    using s by (simp_all add: m'_def smem_join_def Let_def)
  ultimately show ?thesis unfolding m'_def [symmetric] using s e by (auto simp: heap_segs_def segs_append add.assoc)
qed

section \<open>The loops\<close>

definition block_fits :: "nat \<Rightarrow> block \<Rightarrow> bool" where
  "block_fits sz b \<longleftrightarrow> \<not> snd b \<and> sz + 12 \<le> fst b"

lemma lens_ge: "x \<in> set xs \<Longrightarrow> fst x \<le> lens xs"
  by (induction xs) auto

lemma find_first_fit:
  assumes "segs (sm_items m) q p xs" "p + lens xs = heap_end m" "sz \<le> mem_size_aligned m"
  shows "smem_find m sz p = Some (if \<exists>x \<in> set xs. block_fits sz x then Some (p + lens (takeWhile (\<lambda>x. \<not> block_fits sz x) xs)) else None)"
  using assms
proof (induction xs arbitrary: q p)
  case Nil
  then have "\<not> p \<le> mem_size_aligned m - sz" by (simp add: heap_end_def)
  then show ?case by (subst smem_find.simps) simp
next
  case (Cons x xs)
  have x: "mem_isused m p \<longleftrightarrow> snd x" "it_next (sm_items m p) = p + fst x" "12 \<le> fst x" using Cons.prems(1) by (simp_all add: mem_isused_def)
  have IH: "smem_find m sz (p + fst x) = Some (if \<exists>x \<in> set xs. block_fits sz x then Some (p + fst x + lens (takeWhile (\<lambda>x. \<not> block_fits sz x) xs)) else None)"
    by (rule Cons.IH [of p]) (use Cons.prems in simp_all)
  show ?case
  proof (cases "p \<le> mem_size_aligned m - sz")
    case True
    have "\<not> mem_isused m p \<and> it_next (sm_items m p) - (p + 12) \<ge> sz \<longleftrightarrow> block_fits sz x" using x by (auto simp: block_fits_def)
    then show ?thesis using True IH x(2) by (subst smem_find.simps) (simp add: ac_simps)
  next
    case False
    have "\<not> block_fits sz y" if "y \<in> set (x # xs)" for y
      using lens_ge [OF that] False Cons.prems(2,3) by (auto simp: block_fits_def heap_end_def)
    then show ?thesis using False by (subst smem_find.simps) auto
  qed
qed

lemma lowest_free:
  assumes "segs (sm_items m) q p xs" "p + lens xs = heap_end m"
  shows "smem_lowest m p = Some (p + lens (takeWhile snd xs))"
  using assms
proof (induction xs arbitrary: q p)
  case Nil
  then show ?case by (subst smem_lowest.simps) simp
next
  case (Cons x xs)
  have x: "mem_isused m p \<longleftrightarrow> snd x" "it_next (sm_items m p) = p + fst x" "12 \<le> fst x" using Cons.prems(1) by (simp_all add: mem_isused_def)
  have "smem_lowest m (p + fst x) = Some (p + fst x + lens (takeWhile snd xs))" by (rule Cons.IH [of p]) (use Cons.prems in simp_all)
  then show ?case using x Cons.prems(2) by (subst smem_lowest.simps) (simp add: ac_simps)
qed

section \<open>Allocation and release on the list of blocks\<close>

text \<open>The whole state: no two free blocks side by side, the lowest free block, and the memory in use.\<close>

definition apart :: "block list \<Rightarrow> bool" where
  "apart xs \<longleftrightarrow> successively (\<lambda>a b. snd a \<or> snd b) xs"

definition heap_rep :: "small_mem \<Rightarrow> block list \<Rightarrow> bool" where
  "heap_rep m xs \<longleftrightarrow> heap_segs m xs \<and> apart xs \<and> (\<forall>x \<in> set xs. snd x \<longrightarrow> 16 \<le> fst x) \<and> sm_lfree m = lens (takeWhile snd xs) \<and> sm_used m = lens (filter snd xs) \<and> sm_used m \<le> sm_max m"

lemma apart_append: "apart (xs @ ys) \<longleftrightarrow> apart xs \<and> apart ys \<and> (xs = [] \<or> ys = [] \<or> snd (last xs) \<or> snd (hd ys))"
  by (auto simp: apart_def successively_append_iff)

lemma apart_Cons: "apart (x # ys) \<longleftrightarrow> apart ys \<and> (ys = [] \<or> snd x \<or> snd (hd ys))"
  by (cases ys) (auto simp: apart_def)

lemma apart_Nil [simp]: "apart []"
  by (simp add: apart_def)

definition taken :: "nat \<Rightarrow> nat \<Rightarrow> block list" where
  "taken sz n = (if sz + 36 \<le> n then [(sz + 12, True), (n - (sz + 12), False)] else [(n, True)])"

lemma lowest_after:
  "lens (takeWhile snd (as @ (n, False) # bs)) = (if \<forall>a \<in> set as. snd a then lens as else lens (takeWhile snd as))"
  by (simp add: takeWhile_append)

lemma segs_min: "segs it q p xs \<Longrightarrow> x \<in> set xs \<Longrightarrow> 12 \<le> fst x"
  by (induction xs arbitrary: q p) auto

lemma lowest_before:
  assumes "segs it q p as" "\<not> (\<forall>a \<in> set as. snd a)"
  shows "lens (takeWhile snd as) < lens as"
proof -
  have "dropWhile snd as \<noteq> []" using assms(2) by (simp add: dropWhile_eq_Nil_conv)
  then have "hd (dropWhile snd as) \<in> set as" by (metis hd_in_set set_dropWhileD)
  then have "12 \<le> lens (dropWhile snd as)"
    using segs_min [OF assms(1)] lens_ge [of "hd (dropWhile snd as)" "dropWhile snd as"] \<open>dropWhile snd as \<noteq> []\<close> by (metis hd_in_set order_trans)
  moreover have "lens as = lens (takeWhile snd as) + lens (dropWhile snd as)" by (metis lens_simps(3) takeWhile_dropWhile_id)
  ultimately show ?thesis by simp
qed

lemma account_fields [simp]:
  "sm_items (smem_account n m) = sm_items m" "sm_lfree (smem_account n m) = sm_lfree m" "mem_size_aligned (smem_account n m) = mem_size_aligned m"
  "heap_end (smem_account n m) = heap_end m" "sm_used (smem_account n m) = sm_used m + n" "sm_max (smem_account n m) = max (sm_max m) (sm_used m + n)"
  by (auto simp: smem_account_def Let_def heap_end_def)

lemma split_fields [simp]:
  "sm_lfree (smem_split p q m) = sm_lfree m" "mem_size_aligned (smem_split p q m) = mem_size_aligned m" "heap_end (smem_split p q m) = heap_end m"
  "sm_used (smem_split p q m) = sm_used m" "sm_max (smem_split p q m) = sm_max m"
  by (simp_all add: smem_split_def Let_def)

lemma join_fields [simp]:
  "mem_size_aligned (smem_join p q m) = mem_size_aligned m" "heap_end (smem_join p q m) = heap_end m"
  "sm_used (smem_join p q m) = sm_used m" "sm_max (smem_join p q m) = sm_max m"
  "sm_lfree (smem_join p q m) = (if sm_lfree m = q then p else sm_lfree m)"
  by (simp_all add: smem_join_def Let_def)

lemma take_ok:
  assumes rep: "heap_rep m (as @ (n, False) # bs)" and fit: "sz + 12 \<le> n" and sz: "4 dvd sz" "12 \<le> sz"
  obtains m' where "smem_take sz (lens as) m = Some (Some (lens as + 12), m')" "heap_rep m' (as @ taken sz n @ bs)" "mem_size_aligned m' = mem_size_aligned m"
proof -
  let ?p = "lens as"
  define m1 where "m1 = (if sz + 36 \<le> n then smem_account (sz + 12) (smem_split ?p (?p + 12 + sz) m) else smem_account n m)"
  define m2 where "m2 = it_upd ?p (\<lambda>i. i\<lparr>pool_ptr := Mem_Used\<rparr>) m1"
  define xs where "xs = as @ taken sz n @ bs"
  have h: "heap_segs m (as @ (n, False) # bs)" and e: "heap_end m = ?p + n + lens bs"
    and lf: "sm_lfree m = lens (takeWhile snd (as @ (n, False) # bs))"
    using rep by (auto simp: heap_rep_def heap_segs_def)
  have nx: "it_next (sm_items m ?p) = ?p + n" using h by (simp add: heap_segs_def segs_append)
  have "heap_segs m2 xs"
  proof (cases "sz + 36 \<le> n")
    case True
    have "heap_segs (smem_split ?p (?p + (sz + 12)) m) (as @ (sz + 12, False) # (n - (sz + 12), False) # bs)"
      by (rule split_segs [OF h]) (use True sz in auto)
    then have "heap_segs m1 (as @ (sz + 12, False) # (n - (sz + 12), False) # bs)"
      using True by (simp add: m1_def ac_simps cong: heap_segs_cong)
    then show ?thesis using mark_segs [of m1 as "sz + 12" False _ True] True by (simp add: m2_def xs_def taken_def tag_of_def)
  next
    case False
    have "heap_segs m1 (as @ (n, False) # bs)" using h False by (simp add: m1_def cong: heap_segs_cong)
    then show ?thesis using mark_segs [of m1 as n False bs True] False by (simp add: m2_def xs_def taken_def tag_of_def)
  qed
  moreover have "apart xs" using rep by (auto simp: heap_rep_def xs_def taken_def apart_append apart_Cons)
  moreover have "\<forall>x \<in> set xs. snd x \<longrightarrow> 16 \<le> fst x" using rep fit sz by (auto simp: heap_rep_def xs_def taken_def)
  moreover have f: "sm_used m2 = lens (filter snd xs)" "sm_used m2 \<le> sm_max m2" "mem_size_aligned m2 = mem_size_aligned m" "sm_lfree m2 = sm_lfree m"
    using rep by (auto simp: heap_rep_def m2_def m1_def xs_def taken_def)
  moreover define m3 where "m3 = m2\<lparr>sm_lfree := lens (takeWhile snd xs)\<rparr>"
  ultimately have rep3: "heap_rep m3 xs" by (simp add: heap_rep_def cong: heap_segs_cong)
  have sg: "segs (sm_items m) 0 0 as" "segs (sm_items m2) (lastpos 0 0 as) ?p (taken sz n @ bs)" "?p + lens (taken sz n @ bs) = heap_end m2"
    using h \<open>heap_segs m2 xs\<close> by (auto simp: heap_segs_def segs_append xs_def)
  have "(if ?p = sm_lfree m2 then map_option (\<lambda>l. m2\<lparr>sm_lfree := l\<rparr>) (smem_lowest m2 ?p) else Some m2) = Some m3"
  proof (cases "\<forall>a \<in> set as. snd a")
    case True
    then have "?p = sm_lfree m2" "takeWhile snd xs = as @ takeWhile snd (taken sz n @ bs)"
      by (simp_all add: f(4) lf lowest_after xs_def takeWhile_append)
    then show ?thesis using lowest_free [OF sg(2,3)] by (simp add: m3_def)
  next
    case False
    then have l: "sm_lfree m2 = lens (takeWhile snd as)" "takeWhile snd xs = takeWhile snd as" by (auto simp: f(4) lf lowest_after xs_def takeWhile_append)
    then have "?p \<noteq> sm_lfree m2" using lowest_before [OF sg(1) False] by simp
    then show ?thesis using l by (simp add: m3_def)
  qed
  moreover have "heap_end m3 = heap_end m" using f(3) by (simp add: m3_def heap_end_def)
  moreover have m1: "(if it_next (sm_items m ?p) - (?p + 12) \<ge> sz + 12 + 12 then smem_account (sz + 12) (smem_split ?p (?p + 12 + sz) m)
      else smem_account (it_next (sm_items m ?p) - ?p) m) = m1" using fit by (auto simp: m1_def nx)
  ultimately have "smem_take sz ?p m = Some (Some (?p + 12), m3)"
    unfolding smem_take_def Let_def m1 m2_def [symmetric] using e fit by simp
  then show ?thesis using that rep3 f(3) by (simp add: xs_def m3_def)
qed

text \<open>The size that is really looked for.\<close>

definition alloc_size :: "u32 \<Rightarrow> nat" where
  "alloc_size sz = max 12 (unat (rt_align sz))"

lemma align_div: "unat (rt_align sz) = unat (sz + 3) div 4 * 4"
proof -
  have three: "bit (3 :: u32) n \<longleftrightarrow> n < 2" for n using bit_mask_iff [of 2 n, where 'a = u32] by (auto simp: mask_numeral possible_bit_word)
  have "rt_align sz = push_bit 2 (drop_bit 2 (sz + 3))"
  proof (rule bit_eqI)
    fix n assume n: "possible_bit TYPE(32 word) n"
    have "\<not> n < 2 \<Longrightarrow> Suc (Suc (n - 2)) = n" by simp
    then show "bit (rt_align sz) n = bit (push_bit 2 (drop_bit 2 (sz + 3))) n"
      using n unfolding rt_align_def bit_and_iff bit_not_iff three bit_push_bit_iff bit_drop_bit_eq possible_bit_word
      by (cases "n < 2") simp_all
  qed
  moreover have "unat (push_bit 2 (drop_bit 2 x)) = unat x div 4 * 4" for x :: u32
  proof -
    have "unat x div 4 < 2 ^ 30" using unat_u32_less [of x] by simp
    then show ?thesis by (simp add: push_bit_eq_mult drop_bit_eq_div unat_word_ariths unat_div)
  qed
  ultimately show ?thesis by simp
qed

lemma align_dvd: "4 dvd unat (rt_align sz)"
  by (simp add: align_div)

lemma align_unat:
  assumes "unat sz + 3 < 2 ^ 32"
  shows "unat (rt_align sz) = (unat sz + 3) div 4 * 4" "unat sz \<le> unat (rt_align sz)"
proof -
  have "unat (sz + 3) = unat sz + 3" using assms by (simp add: unat_word_ariths)
  then show "unat (rt_align sz) = (unat sz + 3) div 4 * 4" "unat sz \<le> unat (rt_align sz)" by (simp_all add: align_div) 
qed

lemma alloc_ok:
  assumes rep: "heap_rep m xs" and sz: "sz \<noteq> 0"
  shows "(\<exists>x \<in> set xs. block_fits (alloc_size sz) x) \<Longrightarrow>
      \<exists>as n bs m'. xs = as @ (n, False) # bs \<and> alloc_size sz + 12 \<le> n \<and> rt_smem_alloc sz m = Some (Some (lens as + 12), m') \<and>
        heap_rep m' (as @ taken (alloc_size sz) n @ bs) \<and> mem_size_aligned m' = mem_size_aligned m"
    and "\<not> (\<exists>x \<in> set xs. block_fits (alloc_size sz) x) \<Longrightarrow> rt_smem_alloc sz m = Some (None, m)"
proof -
  let ?s = "alloc_size sz"
  have s: "(if unat (rt_align sz) < 12 then 12 else unat (rt_align sz)) = ?s" by (simp add: alloc_size_def max_def)
  have alloc: "rt_smem_alloc sz m = (if ?s > mem_size_aligned m then Some (None, m)
      else Option.bind (smem_find m ?s (sm_lfree m)) (\<lambda>r. case r of None \<Rightarrow> Some (None, m) | Some ptr \<Rightarrow> smem_take ?s ptr m))"
    using sz unfolding rt_smem_alloc_def Let_def s by simp
  define us where "us = takeWhile snd xs"
  define ds where "ds = dropWhile snd xs"
  have xs: "xs = us @ ds" by (simp add: us_def ds_def)
  have sg: "segs (sm_items m) 0 0 xs" "lens xs = heap_end m" and lf: "sm_lfree m = lens us" using rep by (auto simp: heap_rep_def heap_segs_def us_def)
  have un: "\<not> block_fits ?s x" if "x \<in> set us" for x using that by (auto simp: us_def block_fits_def dest: set_takeWhileD)
  have find: "smem_find m ?s (sm_lfree m) = Some (if \<exists>x \<in> set ds. block_fits ?s x then Some (lens us + lens (takeWhile (\<lambda>x. \<not> block_fits ?s x) ds)) else None)"
    if "?s \<le> mem_size_aligned m"
    unfolding lf by (rule find_first_fit [of _ "lastpos 0 0 us"]) (use sg xs that in \<open>auto simp: segs_append\<close>)
  {
    assume ex: "\<exists>x \<in> set xs. block_fits ?s x"
    then have exd: "\<exists>x \<in> set ds. block_fits ?s x" using un xs by auto
    define cs where "cs = takeWhile (\<lambda>x. \<not> block_fits ?s x) ds"
    obtain as' x bs where x': "ds = as' @ x # bs" "block_fits ?s x" "\<forall>y \<in> set as'. \<not> block_fits ?s y" using split_list_first_prop [OF exd] by blast
    then have "cs = as'" by (simp add: cs_def)
    then have x: "ds = cs @ x # bs" "block_fits ?s x" using x' by simp_all
    obtain n where n: "x = (n, False)" "?s + 12 \<le> n" using x(2) by (cases x) (auto simp: block_fits_def)
    have le: "?s \<le> mem_size_aligned m" using lens_ge [of x xs] x n sg(2) xs by (auto simp: heap_end_def)
    have rep': "heap_rep m ((us @ cs) @ (n, False) # bs)" using rep xs x(1) n(1) by simp
    obtain m' where m': "smem_take ?s (lens (us @ cs)) m = Some (Some (lens (us @ cs) + 12), m')" "heap_rep m' ((us @ cs) @ taken ?s n @ bs)" "mem_size_aligned m' = mem_size_aligned m"
      by (rule take_ok [OF rep' n(2)]) (use align_dvd [of sz] in \<open>auto simp: alloc_size_def max_def\<close>)
    have "rt_smem_alloc sz m = Some (Some (lens (us @ cs) + 12), m')" using le find [OF le] exd m'(1) by (simp add: alloc cs_def)
    then show "\<exists>as n bs m'. xs = as @ (n, False) # bs \<and> ?s + 12 \<le> n \<and> rt_smem_alloc sz m = Some (Some (lens as + 12), m') \<and>
        heap_rep m' (as @ taken ?s n @ bs) \<and> mem_size_aligned m' = mem_size_aligned m"
      using m' n(2) xs x(1) n(1) by (intro exI [of _ "us @ cs"] exI [of _ n] exI [of _ bs] exI [of _ m']) simp
  next
    assume "\<not> (\<exists>x \<in> set xs. block_fits ?s x)"
    then show "rt_smem_alloc sz m = Some (None, m)" using find xs by (auto simp: alloc)
  }
qed

text \<open>A block that becomes free is joined with the free blocks on both sides.\<close>

definition joined_right :: "nat \<Rightarrow> block list \<Rightarrow> block list" where
  "joined_right n bs = (if bs \<noteq> [] \<and> \<not> snd (hd bs) then (n + fst (hd bs), False) # tl bs else (n, False) # bs)"

definition released :: "block list \<Rightarrow> nat \<Rightarrow> block list \<Rightarrow> block list" where
  "released as n bs =
     (if as \<noteq> [] \<and> \<not> snd (last as)
      then butlast as @ (fst (last as) + fst (hd (joined_right n bs)), False) # tl (joined_right n bs)
      else as @ joined_right n bs)"

lemma isused_at: "heap_segs m (as @ (n, u) # bs) \<Longrightarrow> mem_isused m (lens as) \<longleftrightarrow> u"
  by (simp add: heap_segs_def segs_append mem_isused_def)

lemma plug_ok:
  assumes h: "heap_segs m (as @ (n, False) # bs)"
  defines "m' \<equiv> plug_holes (lens as) m"
  shows "heap_segs m' (released as n bs)" "sm_used m' = sm_used m" "sm_max m' = sm_max m" "mem_size_aligned m' = mem_size_aligned m"
    "sm_lfree m = lens as \<Longrightarrow> (\<forall>a \<in> set as. snd a) \<Longrightarrow> sm_lfree m' = lens as" "sm_lfree m < lens as \<Longrightarrow> sm_lfree m' = sm_lfree m"
proof -
  let ?p = "lens as"
  have s: "it_next (sm_items m ?p) = ?p + n" "12 \<le> n" "heap_end m = ?p + n + lens bs" using h by (auto simp: heap_segs_def segs_append)
  define m1 where "m1 = (if bs \<noteq> [] \<and> \<not> snd (hd bs) then smem_join ?p (?p + n) m else m)"
  define c where "c = fst (hd (joined_right n bs))"
  define cs where "cs = tl (joined_right n bs)"
  have jr: "joined_right n bs = (c, False) # cs" by (simp add: c_def cs_def joined_right_def)
  have h1: "heap_segs m1 (as @ (c, False) # cs)"
    using h join_segs [of m as n False] by (cases bs) (auto simp: m1_def c_def cs_def joined_right_def)
  have c1: "?p \<noteq> ?p + n \<and> \<not> mem_isused m (?p + n) \<and> ?p + n \<noteq> heap_end m \<longleftrightarrow> bs \<noteq> [] \<and> \<not> snd (hd bs)"
  proof (cases bs)
    case (Cons b ds)
    have "mem_isused m (?p + n) \<longleftrightarrow> snd b" using isused_at [of m "as @ [(n, False)]" "fst b" "snd b" ds] h Cons by simp
    moreover have "12 \<le> fst b" using h Cons by (simp add: heap_segs_def segs_append)
    ultimately show ?thesis using Cons s by auto
  qed (use s in simp)
  have pv: "it_prev (sm_items m1 ?p) = lastpos 0 0 as" using h1 by (simp add: heap_segs_def segs_append)
  have m': "m' = (let pmem = lastpos 0 0 as in if pmem \<noteq> ?p \<and> \<not> mem_isused m1 pmem then smem_join pmem ?p m1 else m1)"
    unfolding m'_def plug_holes_def s(1) Let_def c1 m1_def [symmetric] pv ..
  have f1: "sm_used m1 = sm_used m" "sm_max m1 = sm_max m" "mem_size_aligned m1 = mem_size_aligned m"
    "sm_lfree m1 = (if bs \<noteq> [] \<and> \<not> snd (hd bs) \<and> sm_lfree m = ?p + n then ?p else sm_lfree m)" by (simp_all add: m1_def)
  have "heap_segs m' (released as n bs) \<and> sm_used m' = sm_used m \<and> sm_max m' = sm_max m \<and> mem_size_aligned m' = mem_size_aligned m \<and>
    (sm_lfree m = ?p \<longrightarrow> (\<forall>a \<in> set as. snd a) \<longrightarrow> sm_lfree m' = ?p) \<and> (sm_lfree m < ?p \<longrightarrow> sm_lfree m' = sm_lfree m)"
  proof (cases as rule: rev_cases)
    case Nil
    then show ?thesis using m' h1 f1 s by (auto simp: released_def jr)
  next
    case (snoc as' a)
    have a: "12 \<le> fst a" "mem_isused m1 (lens as') \<longleftrightarrow> snd a"
      using h1 by (auto simp: snoc heap_segs_def segs_append mem_isused_def)
    show ?thesis
    proof (cases "snd a")
      case True
      then show ?thesis using m' h1 f1 s snoc a by (auto simp: released_def jr)
    next
      case False
      have j: "heap_segs (smem_join (lens as') (lens as' + fst a) m1) (as' @ (fst a + c, False) # cs)"
        using join_segs [of m1 as' "fst a" False c False cs] h1 snoc False by (cases a) auto
      have m'2: "m' = smem_join (lens as') (lens as' + fst a) m1" using m' snoc a False by (simp add: Let_def)
      have "heap_segs m' (released as n bs)" using j by (simp add: m'2 released_def snoc False c_def [symmetric] cs_def [symmetric])
      then show ?thesis using f1 s a snoc False by (auto simp: m'2)
    qed
  qed
  then show "heap_segs m' (released as n bs)" "sm_used m' = sm_used m" "sm_max m' = sm_max m" "mem_size_aligned m' = mem_size_aligned m"
    "sm_lfree m = lens as \<Longrightarrow> (\<forall>a \<in> set as. snd a) \<Longrightarrow> sm_lfree m' = lens as" "sm_lfree m < lens as \<Longrightarrow> sm_lfree m' = sm_lfree m" by blast+
qed

lemma released_lists:
  assumes "apart as" "apart bs"
  shows "apart (released as n bs)" "lens (filter snd (released as n bs)) = lens (filter snd as) + lens (filter snd bs)"
    "\<forall>x \<in> set (released as n bs). snd x \<longrightarrow> x \<in> set as \<union> set bs"
    "lens (takeWhile snd (released as n bs)) = (if \<forall>a \<in> set as. snd a then lens as else lens (takeWhile snd as))"
proof -
  define c where "c = fst (hd (joined_right n bs))"
  define cs where "cs = tl (joined_right n bs)"
  have jr: "joined_right n bs = (c, False) # cs" "apart cs" "cs = [] \<or> snd (hd cs)" "filter snd cs = filter snd bs" "set cs \<subseteq> set bs"
    using assms(2) by (cases bs; auto simp: c_def cs_def joined_right_def apart_Cons)+
  have "apart (released as n bs) \<and> lens (filter snd (released as n bs)) = lens (filter snd as) + lens (filter snd bs) \<and>
    (\<forall>x \<in> set (released as n bs). snd x \<longrightarrow> x \<in> set as \<union> set bs) \<and>
    lens (takeWhile snd (released as n bs)) = (if \<forall>a \<in> set as. snd a then lens as else lens (takeWhile snd as))"
  proof (cases as rule: rev_cases)
    case Nil
    then show ?thesis using jr by (auto simp: released_def apart_Cons)
  next
    case (snoc as' a)
    show ?thesis
    proof (cases "snd a")
      case True
      then show ?thesis using jr snoc assms(1) by (auto simp: released_def apart_append apart_Cons takeWhile_append)
    next
      case False
      then have a: "a = (fst a, False)" by (cases a) simp
      have "lens (takeWhile snd as) = (if \<forall>x \<in> set as'. snd x then lens as' else lens (takeWhile snd as'))"
        unfolding snoc by (subst a) (rule lowest_after)
      then show ?thesis using jr snoc False assms(1) lowest_after [of as' "fst a + c" cs]
        by (auto simp: released_def apart_append apart_Cons)
    qed
  qed
  then show "apart (released as n bs)" "lens (filter snd (released as n bs)) = lens (filter snd as) + lens (filter snd bs)"
    "\<forall>x \<in> set (released as n bs). snd x \<longrightarrow> x \<in> set as \<union> set bs"
    "lens (takeWhile snd (released as n bs)) = (if \<forall>a \<in> set as. snd a then lens as else lens (takeWhile snd as))" by blast+
qed

lemma free_ok:
  assumes rep: "heap_rep m (as @ (n, True) # bs)"
  obtains m' where "rt_smem_free (lens as + 12) m = Some m'" "heap_rep m' (released as n bs)" "mem_size_aligned m' = mem_size_aligned m"
proof -
  let ?p = "lens as"
  define a where "a = it_upd ?p (\<lambda>i. i\<lparr>pool_ptr := Mem_Freed\<rparr>) m"
  define b where "b = (if ?p < sm_lfree m then a\<lparr>sm_lfree := ?p\<rparr> else a)\<lparr>sm_used := sm_used m - n\<rparr>"
  have h: "heap_segs m (as @ (n, True) # bs)" and ap: "apart as" "apart bs" and u: "sm_used m = lens (filter snd as) + n + lens (filter snd bs)" "sm_used m \<le> sm_max m"
    and n: "16 \<le> n" and big: "\<forall>x \<in> set as \<union> set bs. snd x \<longrightarrow> 16 \<le> fst x"
    and lf: "sm_lfree m = lens (takeWhile snd (as @ (n, True) # bs))"
    using rep by (auto simp: heap_rep_def apart_append apart_Cons)
  have e: "heap_end m = ?p + n + lens bs" "it_next (sm_items m ?p) = ?p + n" "mem_isused m ?p" "segs (sm_items m) 0 0 as" "4 dvd ?p"
    using h segs_dvd [of "sm_items m" 0 0 as] by (auto simp: heap_segs_def segs_append mem_isused_def)
  have nx: "pool_ptr (sm_items m (?p + n)) \<noteq> Pool_0" using h by (cases bs) (auto simp: heap_segs_def segs_append)
  have lfb: "sm_lfree b = (if \<forall>x \<in> set as. snd x then ?p else lens (takeWhile snd as))"
  proof (cases "\<forall>x \<in> set as. snd x")
    case True
    then show ?thesis using n by (simp add: b_def a_def lf takeWhile_append)
  next
    case False
    then obtain x where "x \<in> set as" "\<not> snd x" by blast
    then have "sm_lfree m = lens (takeWhile snd as)" unfolding lf by (simp add: takeWhile_append1)
    then show ?thesis using lowest_before [OF e(4) False] False by (simp add: b_def a_def)
  qed
  have hb: "heap_segs b (as @ (n, False) # bs)"
    using mark_segs [OF h, of False] heap_segs_cong [of b a] by (simp add: a_def b_def tag_of_def)
  note pl = plug_ok [OF hb] and rl = released_lists [OF ap, of n]
  have fr: "rt_smem_free (?p + 12) m = Some (plug_holes ?p b)"
    using e nx n by (auto simp: rt_smem_free_def Let_def b_def a_def mod_eq_0_iff_dvd)
  have "sm_lfree (plug_holes ?p b) = lens (takeWhile snd (released as n bs))"
    using pl(5,6) lfb rl(4) lowest_before [OF e(4)] by (cases "\<forall>x \<in> set as. snd x") auto
  moreover have "sm_used b = lens (filter snd (released as n bs))" using u rl(2) by (simp add: b_def a_def)
  ultimately have "heap_rep (plug_holes ?p b) (released as n bs)"
    using pl(1-3) rl(1,3) big u by (auto simp: heap_rep_def b_def a_def)
  then show ?thesis using that fr pl(4) by (simp add: b_def a_def)
qed

lemma init_ok:
  assumes "rt_smem_init b e mem = Some m" "4 dvd b" "4 dvd e"
  shows "heap_rep m [(e - b - 12, False)]" "mem_size_aligned m = e - b - 24"
proof -
  show "mem_size_aligned m = e - b - 24" using assms(1) by (auto simp: rt_smem_init_def Let_def split: if_splits)
  have "4 dvd e - b - 12" using assms(2,3) by (intro dvd_diff_nat) simp_all
  then show "heap_rep m [(e - b - 12, False)]"
    using assms(1) by (auto simp: rt_smem_init_def Let_def heap_rep_def heap_segs_def heap_end_def tag_of_def apart_Cons split: if_splits)
qed

end
