(* ===== verification/Kernel_Heap_Laws.thy ===== *)
theory Kernel_Heap_Laws
  imports Kernel_Heap_Blocks
begin

text \<open>
  What the clients of the heap rely on, for every sequence of allocations, resizings and releases: blocks that are held
  never overlap, a request is refused only when there is no room for it, and no call fails an assertion.
\<close>

section \<open>The blocks in use\<close>

text \<open>Offset and length of every used block.\<close>

primrec places :: "nat \<Rightarrow> block list \<Rightarrow> (nat \<times> nat) set" where
  "places p [] = {}"
| "places p (x # xs) = (if snd x then {(p, fst x)} else {}) \<union> places (p + fst x) xs"

lemma places_append: "places p (xs @ ys) = places p xs \<union> places (p + lens xs) ys"
  by (induction xs arbitrary: p) (auto simp: ac_simps)

lemma places_bounds: "(p, k) \<in> places q xs \<Longrightarrow> q \<le> p \<and> p + k \<le> q + lens xs"
  by (induction xs arbitrary: q) (fastforce split: if_splits)+

lemma places_split:
  assumes "(p, k) \<in> places q xs"
  obtains as bs where "xs = as @ (k, True) # bs" "p = q + lens as"
  using assms
proof (induction xs arbitrary: q thesis)
  case (Cons x xs)
  consider "snd x" "p = q" "k = fst x" | "(p, k) \<in> places (q + fst x) xs" using Cons.prems(2) by (auto split: if_splits)
  then show ?case
  proof cases
    case 1
    then show ?thesis using Cons.prems(1) [of "[]" xs] by (cases x) simp
  next
    case 2
    then obtain as bs where "xs = as @ (k, True) # bs" "p = q + fst x + lens as" using Cons.IH by blast
    then show ?thesis using Cons.prems(1) [of "x # as" bs] by simp
  qed
qed simp

lemma places_big: "heap_rep m xs \<Longrightarrow> (p, k) \<in> places 0 xs \<Longrightarrow> 16 \<le> k \<and> 4 dvd p \<and> p + k \<le> heap_end m"
proof -
  assume rep: "heap_rep m xs" and pk: "(p, k) \<in> places 0 xs"
  obtain as bs where xs: "xs = as @ (k, True) # bs" "p = 0 + lens as" using pk by (rule places_split)
  have "4 dvd lens as" using rep segs_dvd [of "sm_items m" 0 0 as] by (simp add: heap_rep_def heap_segs_def segs_append xs(1))
  moreover have "lens xs = heap_end m" "16 \<le> k" using rep by (auto simp: heap_rep_def heap_segs_def xs(1))
  ultimately show ?thesis using xs(2) places_bounds [OF pk] by simp
qed

lemma places_disjoint:
  assumes rep: "heap_rep m xs" and pk: "(p, k) \<in> places 0 xs" "(p', k') \<in> places 0 xs" "p \<le> p'"
  shows "(p', k') = (p, k) \<or> p + k \<le> p'"
proof -
  obtain as bs where xs: "xs = as @ (k, True) # bs" "p = 0 + lens as" using pk(1) by (rule places_split)
  have "16 \<le> k'" using places_big [OF rep pk(2)] by simp
  then have "(p', k') \<notin> places 0 as" using places_bounds [of p' k' 0 as] pk(3) xs(2) by auto
  then show ?thesis using pk(2) xs places_bounds [of p' k' "p + k" bs] by (auto simp: places_append)
qed

lemma places_unused:
  assumes rep: "heap_rep m (as @ (n, u) # bs)" and q: "(lens as, k) \<in> places 0 as \<union> places (lens as + n) bs"
  shows False
proof -
  have "12 \<le> n" using rep by (simp add: heap_rep_def heap_segs_def segs_append)
  moreover have "16 \<le> k" by (rule conjunct1 [OF places_big [OF rep, of "lens as"]]) (use q in \<open>auto simp: places_append\<close>)
  ultimately show False using q places_bounds [of "lens as" k 0 as] places_bounds [of "lens as" k "lens as + n" bs] by auto
qed

text \<open>What the operations do with the used blocks.\<close>

lemma places_taken: "sz + 12 \<le> n \<Longrightarrow> places q (as @ taken sz n @ bs) =
    insert (q + lens as, if sz + 36 \<le> n then sz + 12 else n) (places q as \<union> places (q + lens as + n) bs)"
  by (auto simp: taken_def places_append)

lemma places_joined: "places q (joined_right n bs) = places (q + n) bs"
  by (cases bs) (auto simp: joined_right_def ac_simps)

lemma places_released: "places 0 (released as n bs) = places 0 as \<union> places (lens as + n) bs"
proof (cases as rule: rev_cases)
  case (snoc as' a)
  define c where "c = fst (hd (joined_right n bs))"
  define cs where "cs = tl (joined_right n bs)"
  have jr: "joined_right n bs = (c, False) # cs" by (simp add: c_def cs_def joined_right_def)
  have "places (lens as + n) bs = places (lens as + c) cs" using places_joined [of "lens as" n bs] by (simp add: jr)
  then show ?thesis using snoc jr by (auto simp: released_def places_append c_def [symmetric] cs_def [symmetric] ac_simps)
qed (simp add: released_def places_joined)

lemma alloc_places:
  assumes rep: "heap_rep m xs"
  obtains "rt_smem_alloc sz m = Some (None, m)" "sz = 0 \<or> (\<forall>x \<in> set xs. \<not> block_fits (alloc_size sz) x)"
  | r m' xs' k where "rt_smem_alloc sz m = Some (Some r, m')" "heap_rep m' xs'" "heap_end m' = heap_end m" "12 \<le> r" "\<forall>j. (r - 12, j) \<notin> places 0 xs"
      "places 0 xs' = insert (r - 12, k) (places 0 xs)" "alloc_size sz + 12 \<le> k"
proof (cases "sz = 0 \<or> (\<forall>x \<in> set xs. \<not> block_fits (alloc_size sz) x)")
  case True
  then show ?thesis using that(1) alloc_ok(2) [OF rep, of sz] by (auto simp: rt_smem_alloc_def)
next
  case False
  then obtain as n bs m' where a: "xs = as @ (n, False) # bs" "alloc_size sz + 12 \<le> n" "rt_smem_alloc sz m = Some (Some (lens as + 12), m')"
      "heap_rep m' (as @ taken (alloc_size sz) n @ bs)" "mem_size_aligned m' = mem_size_aligned m" using alloc_ok(1) [OF rep, of sz] by blast
  have "places 0 xs = places 0 as \<union> places (lens as + n) bs" by (simp add: a(1) places_append)
  then show ?thesis
    using that(2) [OF a(3,4)] places_taken [OF a(2), of 0 as bs] places_unused [of m as n False bs] rep a(1,2,5) by (force simp: heap_end_def)
qed

lemma free_places:
  assumes rep: "heap_rep m xs" and r: "(r - 12, k) \<in> places 0 xs" "12 \<le> r"
  obtains m' xs' where "rt_smem_free r m = Some m'" "heap_rep m' xs'" "heap_end m' = heap_end m" "places 0 xs' = places 0 xs - {(r - 12, k)}"
proof -
  obtain as bs where xs: "xs = as @ (k, True) # bs" "r - 12 = 0 + lens as" using r(1) by (rule places_split)
  then have rr: "r = lens as + 12" using r(2) by simp
  obtain m' where "rt_smem_free r m = Some m'" "heap_rep m' (released as k bs)" "mem_size_aligned m' = mem_size_aligned m"
    using free_ok [of m as k bs] rep unfolding xs(1) rr by blast
  moreover have "places 0 (released as k bs) = places 0 xs - {(r - 12, k)}"
    using places_unused [of m as k True bs k] rep by (auto simp: places_released places_append xs(1) rr)
  ultimately show ?thesis using that by (simp add: heap_end_def)
qed

lemma shrink_ok:
  assumes rep: "heap_rep m (as @ (k, True) # bs)" and s: "4 dvd s" "4 \<le> s" "s + 36 < k"
  defines "m' \<equiv> smem_shrink (lens as) (k - 12) s m"
  shows "heap_rep m' (released (as @ [(s + 12, True)]) (k - (s + 12)) bs)" "mem_size_aligned m' = mem_size_aligned m"
proof -
  let ?p = "lens as" and ?as = "as @ [(s + 12, True)]"
  define a where "a = smem_split ?p (?p + (s + 12)) (m\<lparr>sm_used := sm_used m - (k - 12 - s)\<rparr>)"
  define b where "b = (if ?p + (s + 12) < sm_lfree a then a\<lparr>sm_lfree := ?p + (s + 12)\<rparr> else a)"
  have h: "heap_segs m (as @ (k, True) # bs)" and ap: "apart ?as" "apart bs" and u: "sm_used m = lens (filter snd as) + k + lens (filter snd bs)" "sm_used m \<le> sm_max m"
    and big: "\<forall>x \<in> set ?as \<union> set bs. snd x \<longrightarrow> 16 \<le> fst x" and lf: "sm_lfree m = lens (takeWhile snd (as @ (k, True) # bs))"
    using rep s by (auto simp: heap_rep_def apart_append apart_Cons)
  have sg: "segs (sm_items m) 0 0 as" using h by (simp add: heap_segs_def segs_append)
  have m': "m' = plug_holes (lens ?as) b" by (simp add: m'_def smem_shrink_def Let_def b_def a_def ac_simps)
  have "heap_segs (m\<lparr>sm_used := sm_used m - (k - 12 - s)\<rparr>) (as @ (k, True) # bs)" by (subst heap_segs_cong [of _ m]) (use h in simp_all)
  from split_segs [OF this, of "s + 12"] have "heap_segs a (?as @ (k - (s + 12), False) # bs)" using s by (simp add: a_def)
  then have hb: "heap_segs b (?as @ (k - (s + 12), False) # bs)" using heap_segs_cong [of b a] by (simp add: b_def)
  note pl = plug_ok [OF hb, folded m'] and rl = released_lists [OF ap, of "k - (s + 12)"]
  have l: "lens (takeWhile snd ?as) < lens ?as" if "\<not> (\<forall>x \<in> set as. snd x)"
    using lowest_before [OF sg that] that by (auto simp: takeWhile_append)
  have lfb: "sm_lfree b = (if \<forall>x \<in> set ?as. snd x then lens ?as else lens (takeWhile snd ?as))"
  proof (cases "\<forall>x \<in> set as. snd x")
    case True
    then show ?thesis using s by (simp add: b_def a_def lf takeWhile_append)
  next
    case False
    then obtain x where "x \<in> set as" "\<not> snd x" by blast
    then have "sm_lfree a = lens (takeWhile snd ?as)" unfolding a_def by (simp add: lf takeWhile_append1)
    then show ?thesis using l [OF False] False by (simp add: b_def)
  qed
  have "sm_lfree m' = lens (takeWhile snd (released ?as (k - (s + 12)) bs))"
    using pl(5,6) lfb rl(4) l by (cases "\<forall>x \<in> set ?as. snd x") auto
  moreover have "sm_used b = lens (filter snd (released ?as (k - (s + 12)) bs))" using u s unfolding rl(2) by (simp add: b_def a_def)
  moreover have "sm_used b \<le> sm_max b" using u by (simp add: b_def a_def)
  ultimately show "heap_rep m' (released ?as (k - (s + 12)) bs)"
    using pl(1-3) rl(1,3) big by (auto simp: heap_rep_def)
  show "mem_size_aligned m' = mem_size_aligned m" using pl(4) by (simp add: b_def a_def)
qed

lemma realloc_places:
  assumes rep: "heap_rep m xs" and r: "(r - 12, k) \<in> places 0 xs" "12 \<le> r" and sz: "unat sz + 3 < 2 ^ 32" "sz \<noteq> 0"
  obtains "rt_smem_realloc (Some r) sz m = Some (None, m)"
  | r' m' xs' k' where "rt_smem_realloc (Some r) sz m = Some (Some r', m')" "heap_rep m' xs'" "heap_end m' = heap_end m" "12 \<le> r'"
      "\<forall>j. (r' - 12, j) \<notin> places 0 xs - {(r - 12, k)}"
      "places 0 xs' = insert (r' - 12, k') (places 0 xs - {(r - 12, k)})" "unat sz + 12 \<le> k'"
proof -
  let ?s = "rt_align sz"
  obtain as bs where xs: "xs = as @ (k, True) # bs" "r - 12 = 0 + lens as" using r(1) by (rule places_split)
  then have rr: "r = lens as + 12" using r(2) by simp
  have s: "unat sz \<le> unat ?s" "?s \<noteq> 0" "4 dvd unat ?s" using align_unat [OF sz(1)] align_dvd [of sz] sz(2) by (auto simp: unat_eq_zero)
  have b: "16 \<le> k" "4 dvd r - 12" "r - 12 + k \<le> heap_end m" using places_big [OF rep r(1)] by auto
  have h: "heap_segs m (as @ (k, True) # bs)" using rep xs(1) by (simp add: heap_rep_def)
  have nx: "it_next (sm_items m (lens as)) = lens as + k" using h by (simp add: heap_segs_def segs_append)
  have un: "(r - 12, j) \<notin> places 0 xs - {(r - 12, k)}" for j
    using places_unused [of m as k True bs j] rep by (auto simp: places_append xs(1) rr)
  have guard: "\<not> (r mod 4 \<noteq> 0 \<or> r < 12 \<or> r \<ge> heap_end m)" using b r(2) by (simp add: rr mod_eq_0_iff_dvd [symmetric]) presburger
  have re: "rt_smem_realloc (Some r) sz m = (if unat ?s > mem_size_aligned m then Some (None, m) else if k - 12 = unat ?s then Some (Some r, m)
      else if unat ?s + 24 < k - 12 then Some (Some r, smem_shrink (lens as) (k - 12) (unat ?s) m)
      else Option.bind (rt_smem_alloc ?s m) (\<lambda>(nmem, m1). if nmem \<noteq> None then map_option (Pair nmem) (rt_smem_free r m1) else Some (None, m1)))"
    using guard s(2) unfolding rt_smem_realloc_def Let_def smem_shrink_def rr by (simp add: nx)
  consider "unat ?s > mem_size_aligned m" | "unat ?s \<le> mem_size_aligned m" "k - 12 = unat ?s" | "unat ?s \<le> mem_size_aligned m" "unat ?s + 36 < k"
    | "unat ?s \<le> mem_size_aligned m" "k - 12 \<noteq> unat ?s" "\<not> unat ?s + 36 < k" by linarith
  then show ?thesis
  proof cases
    case 1
    then show ?thesis using that(1) re by simp
  next
    case 2
    have "places 0 xs = insert (r - 12, k) (places 0 xs - {(r - 12, k)})" using r(1) by blast
    moreover have "unat sz + 12 \<le> k" using 2(2) s(1) b(1) by linarith
    moreover have "rt_smem_realloc (Some r) sz m = Some (Some r, m)" using re 2 by simp
    ultimately show ?thesis using that(2) rep un r(2) by blast
  next
    case 3
    have "4 \<le> unat ?s" using s(2,3) by (metis dvd_imp_le unat_eq_zero zero_less_iff_neq_zero)
    note sh = shrink_ok [OF rep [unfolded xs(1)] s(3) this 3(2)]
    have "places 0 (released (as @ [(unat ?s + 12, True)]) (k - (unat ?s + 12)) bs) = insert (r - 12, unat ?s + 12) (places 0 xs - {(r - 12, k)})"
      using 3 places_unused [of m as k True bs k] rep by (auto simp: places_released places_append xs(1) rr)
    moreover have "rt_smem_realloc (Some r) sz m = Some (Some r, smem_shrink (lens as) (k - 12) (unat ?s) m)"
    proof -
      have "\<not> unat ?s > mem_size_aligned m" "k - 12 \<noteq> unat ?s" "unat ?s + 24 < k - 12" using 3 by linarith+
      then show ?thesis by (simp add: re)
    qed
    moreover have "heap_end (smem_shrink (lens as) (k - 12) (unat ?s) m) = heap_end m" "unat sz + 12 \<le> unat ?s + 12" using sh(2) s(1) by (simp_all add: heap_end_def)
    ultimately show ?thesis using that(2) sh(1) un r(2) by blast
  next
    case 4
    have c4: "\<not> unat ?s > mem_size_aligned m" "k - 12 \<noteq> unat ?s" "\<not> unat ?s + 24 < k - 12" using 4 by linarith+
    obtain q where "unat ?s = 4 * q" using s(3) by (rule dvdE)
    then have s3: "unat ?s + 3 < 2 ^ 32" using unat_u32_less [of ?s] by simp
    show ?thesis
    proof (rule alloc_places [OF rep, of ?s])
      assume "rt_smem_alloc ?s m = Some (None, m)"
      then show ?thesis using that(1) c4 by (simp add: re)
    next
      fix r1 m1 xs1 k1
      assume a: "rt_smem_alloc ?s m = Some (Some r1, m1)" "heap_rep m1 xs1" "heap_end m1 = heap_end m" "12 \<le> r1" "\<forall>j. (r1 - 12, j) \<notin> places 0 xs"
        "places 0 xs1 = insert (r1 - 12, k1) (places 0 xs)" "alloc_size ?s + 12 \<le> k1"
      have "(r - 12, k) \<in> places 0 xs1" using a(6) r(1) by simp
      then obtain m2 xs2 where f: "rt_smem_free r m1 = Some m2" "heap_rep m2 xs2" "heap_end m2 = heap_end m1" "places 0 xs2 = places 0 xs1 - {(r - 12, k)}"
        using free_places [OF a(2) _ r(2)] by metis
      have "(r1 - 12, k1) \<noteq> (r - 12, k)" using a(5) r(1) by auto
      then have "places 0 xs2 = insert (r1 - 12, k1) (places 0 xs - {(r - 12, k)})" using f(4) a(6) by auto
      moreover have "unat sz + 12 \<le> k1" using a(7) s(1) align_unat(2) [OF s3] by (simp add: alloc_size_def)
      moreover have "rt_smem_realloc (Some r) sz m = Some (Some r1, m2)" using c4 a(1) f(1) by (simp add: re)
      moreover have "heap_end m2 = heap_end m" using a(3) f(3) by simp
      ultimately show ?thesis using that(2) f(2) a(4,5) by blast
    qed
  qed
qed

section \<open>Clients of the heap\<close>

text \<open>
  Every sequence of calls from a fresh heap on, with the pointers that the clients hold and the size each was asked
  with. Clients release and resize only what they hold, and requests stay three bytes below the largest word.
\<close>

inductive heap_reach :: "small_mem \<Rightarrow> (nat \<rightharpoonup> u32) \<Rightarrow> bool" where
  hr_init: "rt_smem_init b e mem = Some m \<Longrightarrow> 4 dvd b \<Longrightarrow> 4 dvd e \<Longrightarrow> heap_reach m (\<lambda>_. None)"
| hr_alloc: "heap_reach m h \<Longrightarrow> unat sz + 3 < 2 ^ 32 \<Longrightarrow> rt_malloc sz m = Some (Some r, m') \<Longrightarrow> heap_reach m' (h(r \<mapsto> sz))"
| hr_refused: "heap_reach m h \<Longrightarrow> unat sz + 3 < 2 ^ 32 \<Longrightarrow> rt_malloc sz m = Some (None, m') \<Longrightarrow> heap_reach m' h"
| hr_free: "heap_reach m h \<Longrightarrow> h r = Some sz \<Longrightarrow> rt_free (Some r) m = Some m' \<Longrightarrow> heap_reach m' (h(r := None))"
| hr_resize: "heap_reach m h \<Longrightarrow> h r = Some old \<Longrightarrow> unat sz + 3 < 2 ^ 32 \<Longrightarrow> sz \<noteq> 0 \<Longrightarrow> rt_realloc (Some r) sz m = Some (Some r', m') \<Longrightarrow>
    heap_reach m' ((h(r := None))(r' \<mapsto> sz))"
| hr_kept: "heap_reach m h \<Longrightarrow> h r = Some old \<Longrightarrow> unat sz + 3 < 2 ^ 32 \<Longrightarrow> sz \<noteq> 0 \<Longrightarrow> rt_realloc (Some r) sz m = Some (None, m') \<Longrightarrow>
    heap_reach m' h"

lemma rt_free_Some: "rt_free (Some r) m = rt_smem_free r m"
  by (simp add: rt_free_def)

lemmas malloc_places = alloc_places [folded rt_malloc_def]
lemmas release_places = free_places [folded rt_free_Some]
lemmas resize_places = realloc_places [folded rt_realloc_def]

definition held :: "(nat \<rightharpoonup> u32) \<Rightarrow> (nat \<times> nat) set \<Rightarrow> bool" where
  "held h S \<longleftrightarrow> (\<forall>p k. (p, k) \<in> S \<longrightarrow> h (p + 12) \<noteq> None) \<and>
     (\<forall>r sz. h r = Some sz \<longrightarrow> 12 \<le> r \<and> (\<exists>k. (r - 12, k) \<in> S \<and> unat sz + 12 \<le> k))"

lemma held_get: "held h S \<Longrightarrow> h r = Some sz \<Longrightarrow> \<exists>k. (r - 12, k) \<in> S \<and> unat sz + 12 \<le> k \<and> 12 \<le> r"
  by (auto simp: held_def)

lemma held_insert: "held h S \<Longrightarrow> 12 \<le> r \<Longrightarrow> unat sz + 12 \<le> k \<Longrightarrow> held (h(r \<mapsto> sz)) (insert (r - 12, k) S)"
  unfolding held_def by (intro conjI allI impI) (fastforce split: if_splits)+

lemma held_remove:
  assumes "held h S" "(r - 12, k) \<in> S" "12 \<le> r" "\<And>j. (r - 12, j) \<in> S \<Longrightarrow> j = k"
  shows "held (h(r := None)) (S - {(r - 12, k)})"
  unfolding held_def
proof (intro conjI allI impI)
  fix p j assume p: "(p, j) \<in> S - {(r - 12, k)}"
  then have "p + 12 \<noteq> r" using assms(4) [of j] by auto
  then show "(h(r := None)) (p + 12) \<noteq> None" using p assms(1) by (auto simp: held_def)
next
  fix q sz assume q: "(h(r := None)) q = Some sz"
  then have "q \<noteq> r" "h q = Some sz" by (auto split: if_splits)
  moreover from this obtain j where "(q - 12, j) \<in> S" "unat sz + 12 \<le> j" "12 \<le> q" using held_get [OF assms(1), of q sz] by blast
  ultimately show "12 \<le> q" "\<exists>j. (q - 12, j) \<in> S - {(r - 12, k)} \<and> unat sz + 12 \<le> j" using assms(3) by auto
qed

lemma alloc_size_ge: "unat sz + 3 < 2 ^ 32 \<Longrightarrow> unat sz \<le> alloc_size sz"
  using align_unat(2) [of sz] by (simp add: alloc_size_def)

lemma places_fun: "heap_rep m xs \<Longrightarrow> (p, k) \<in> places 0 xs \<Longrightarrow> (p, j) \<in> places 0 xs \<Longrightarrow> j = k"
  using places_disjoint [of m xs p k p j] places_big [of m xs p k] by auto

theorem heap_invariant:
  assumes "heap_reach m h"
  shows "\<exists>xs. heap_rep m xs \<and> held h (places 0 xs)"
  using assms
proof (induction rule: heap_reach.induct)
  case (hr_init b e mem m)
  then show ?case using init_ok(1) [OF hr_init] by (intro exI [of _ "[(e - b - 12, False)]"]) (simp add: held_def)
next
  case (hr_alloc m h sz r m')
  then obtain xs where xs: "heap_rep m xs" "held h (places 0 xs)" by blast
  have ge: "unat sz + 12 \<le> k" if "alloc_size sz + 12 \<le> k" for k using alloc_size_ge [OF hr_alloc.hyps(2)] that by simp
  show ?case
  proof (rule malloc_places [OF xs(1), of sz])
    fix r1 m1 xs1 k1
    assume "rt_malloc sz m = Some (Some r1, m1)" "heap_rep m1 xs1" "12 \<le> r1" "places 0 xs1 = insert (r1 - 12, k1) (places 0 xs)" "alloc_size sz + 12 \<le> k1"
    then show ?case using hr_alloc.hyps(3) held_insert [OF xs(2) _ ge, of r1 k1] by (intro exI [of _ xs1]) (simp add: fun_upd_def)
  qed (use hr_alloc.hyps(3) in simp)
next
  case (hr_refused m h sz m')
  then obtain xs where xs: "heap_rep m xs" "held h (places 0 xs)" by blast
  show ?case by (rule malloc_places [OF xs(1), of sz]) (use hr_refused xs in auto)
next
  case (hr_free m h r sz m')
  then obtain xs k where xs: "heap_rep m xs" "held h (places 0 xs)" "(r - 12, k) \<in> places 0 xs" "12 \<le> r" using held_get by meson
  have "held (h(r := None)) (places 0 xs - {(r - 12, k)})" using held_remove [OF xs(2-4)] places_fun [OF xs(1,3)] by blast
  then show ?case using release_places [OF xs(1,3,4)] hr_free.hyps(3) by (metis option.inject)
next
  case (hr_resize m h r old sz r' m')
  then obtain xs k where xs: "heap_rep m xs" "held h (places 0 xs)" "(r - 12, k) \<in> places 0 xs" "12 \<le> r" using held_get by meson
  have "held (h(r := None)) (places 0 xs - {(r - 12, k)})" using held_remove [OF xs(2-4)] places_fun [OF xs(1,3)] by blast
  note ins = held_insert [OF this]
  show ?case
  proof (rule resize_places [OF xs(1,3,4) hr_resize.hyps(3,4)])
    fix r1 m1 xs1 k1
    assume "rt_realloc (Some r) sz m = Some (Some r1, m1)" "heap_rep m1 xs1" "12 \<le> r1"
      "places 0 xs1 = insert (r1 - 12, k1) (places 0 xs - {(r - 12, k)})" "unat sz + 12 \<le> k1"
    then show ?case using hr_resize.hyps(5) ins [of r1 sz k1] by (intro exI [of _ xs1]) (simp add: fun_upd_def)
  qed (use hr_resize.hyps(5) in simp)
next
  case (hr_kept m h r old sz m')
  then obtain xs k where xs: "heap_rep m xs" "held h (places 0 xs)" "(r - 12, k) \<in> places 0 xs" "12 \<le> r" using held_get by meson
  show ?case by (rule resize_places [OF xs(1,3,4) hr_kept.hyps(3,4)]) (use hr_kept.hyps(5) xs in auto)
qed

lemma reach_calls:
  assumes "heap_reach m h" "h r = Some sz"
  shows "\<exists>m'. rt_free (Some r) m = Some m'" "unat sz' + 3 < 2 ^ 32 \<Longrightarrow> sz' \<noteq> 0 \<Longrightarrow> \<exists>res m'. rt_realloc (Some r) sz' m = Some (res, m')"
proof -
  obtain xs k where xs: "heap_rep m xs" "(r - 12, k) \<in> places 0 xs" "12 \<le> r" using heap_invariant [OF assms(1)] held_get assms(2) by meson
  show "\<exists>m'. rt_free (Some r) m = Some m'" using release_places [OF xs] by metis
  show "\<exists>res m'. rt_realloc (Some r) sz' m = Some (res, m')" if "unat sz' + 3 < 2 ^ 32" "sz' \<noteq> 0"
    using resize_places [OF xs that] by metis
qed

text \<open>A stretch of memory outside every used block lies in one free block.\<close>

lemma room_in_block:
  assumes "q \<le> p" "p + l \<le> q + lens xs" "0 < l" "apart xs" "\<forall>x \<in> set xs. 0 < fst x"
    "\<forall>(a, k) \<in> places q xs. p + l \<le> a \<or> a + k \<le> p"
  shows "\<exists>x \<in> set xs. \<not> snd x \<and> l \<le> fst x"
  using assms
proof (induction xs arbitrary: q)
  case (Cons x xs)
  show ?case
  proof (cases "q + fst x \<le> p")
    case True
    then have "\<exists>x \<in> set xs. \<not> snd x \<and> l \<le> fst x" using Cons.prems by (intro Cons.IH [of "q + fst x"]) (auto simp: apart_Cons)
    then show ?thesis by simp
  next
    case False
    then have x: "\<not> snd x" using Cons.prems by auto
    have "p + l \<le> q + fst x"
    proof (cases xs)
      case (Cons y ys)
      then have "snd y" using x Cons.prems(4) by (auto simp: apart_Cons)
      then have "(q + fst x, fst y) \<in> places q (x # xs)" "0 < fst y" using Cons Cons.prems(5) by simp_all
      then show ?thesis using Cons.prems(6) False by auto
    qed (use Cons.prems(2) in simp)
    then show ?thesis using x Cons.prems(1) by auto
  qed
qed simp

text \<open>
  C18. Whatever the sequence of allocations, resizings and releases, the memory handed out is aligned, lies inside the
  heap, is as large as asked for, and blocks that are held at the same time never overlap, nor the header of one
  the data of another; allocating, and releasing or resizing a held block, never runs into an assertion.
\<close>

theorem heap_blocks_disjoint:
  assumes "heap_reach m h"
  shows "(\<forall>r sz. h r = Some sz \<longrightarrow> 4 dvd r \<and> 12 \<le> r \<and> r + unat sz \<le> heap_end m) \<and>
    (\<forall>r sz r' sz'. h r = Some sz \<longrightarrow> h r' = Some sz' \<longrightarrow> r < r' \<longrightarrow> r + unat sz + 12 \<le> r') \<and>
    (\<forall>sz. \<exists>res m'. rt_malloc sz m = Some (res, m')) \<and> (\<forall>r sz. h r = Some sz \<longrightarrow> (\<exists>m'. rt_free (Some r) m = Some m')) \<and>
    (\<forall>r sz sz'. h r = Some sz \<longrightarrow> unat sz' + 3 < 2 ^ 32 \<longrightarrow> sz' \<noteq> 0 \<longrightarrow> (\<exists>res m'. rt_realloc (Some r) sz' m = Some (res, m')))"
proof -
  obtain xs where xs: "heap_rep m xs" "held h (places 0 xs)" using heap_invariant [OF assms] by blast
  have "4 dvd r \<and> 12 \<le> r \<and> r + unat sz \<le> heap_end m" if r: "h r = Some sz" for r sz
  proof -
    obtain k where k: "(r - 12, k) \<in> places 0 xs" "unat sz + 12 \<le> k" "12 \<le> r" using held_get [OF xs(2) r] by blast
    then have "4 dvd r - 12" "r - 12 + k \<le> heap_end m" using places_big [OF xs(1) k(1)] by auto
    then show ?thesis using k by presburger
  qed
  moreover have "r + unat sz + 12 \<le> r'" if r: "h r = Some sz" "h r' = Some sz'" "r < r'" for r sz r' sz'
  proof -
    obtain k k' where k: "(r - 12, k) \<in> places 0 xs" "unat sz + 12 \<le> k" "12 \<le> r" "(r' - 12, k') \<in> places 0 xs"
      using held_get [OF xs(2) r(1)] held_get [OF xs(2) r(2)] by blast
    then have "r - 12 + k \<le> r' - 12" using places_disjoint [OF xs(1) k(1,4)] r(3) by (simp add: eq_diff_iff)
    then show ?thesis using k by simp
  qed
  moreover have "\<exists>res m'. rt_malloc sz m = Some (res, m')" for sz using malloc_places [OF xs(1), of sz] by metis
  ultimately show ?thesis using reach_calls [OF assms] by blast
qed

text \<open>A heap of a thousand bytes with two blocks held, after a third one between them has been released.\<close>

definition wit_heap :: small_mem where
  "wit_heap = the (rt_smem_init 0 1000 (\<lambda>_. \<lparr>pool_ptr = Pool_0, it_next = 0, it_prev = 0\<rparr>))"

definition wit_step :: "u32 \<Rightarrow> small_mem \<Rightarrow> small_mem" where
  "wit_step sz m = snd (the (rt_malloc sz m))"

definition wit_used :: small_mem where
  "wit_used = the (rt_free (Some 36) (wit_step 100 (wit_step 30 (wit_step 10 wit_heap))))"

lemma wit_reach: "heap_reach wit_used [12 \<mapsto> 10, 80 \<mapsto> 100]"
proof -
  have "rt_smem_init 0 1000 (\<lambda>_. \<lparr>pool_ptr = Pool_0, it_next = 0, it_prev = 0\<rparr>) = Some wit_heap" by (simp add: wit_heap_def rt_smem_init_def Let_def)
  then have 0: "heap_reach wit_heap (\<lambda>_. None)" by (rule hr_init) simp_all
  have step: "rt_malloc sz m = Some (Some r, wit_step sz m)" if "map_option fst (rt_malloc sz m) = Some (Some r)" for sz m r
    using that by (auto simp: wit_step_def)
  have 1: "heap_reach (wit_step 10 wit_heap) [12 \<mapsto> 10]" by (rule hr_alloc [OF 0 _ step]) (simp, code_simp)
  have 2: "heap_reach (wit_step 30 (wit_step 10 wit_heap)) [12 \<mapsto> 10, 36 \<mapsto> 30]" by (rule hr_alloc [OF 1 _ step]) (simp, code_simp)
  have 3: "heap_reach (wit_step 100 (wit_step 30 (wit_step 10 wit_heap))) [12 \<mapsto> 10, 36 \<mapsto> 30, 80 \<mapsto> 100]"
    by (rule hr_alloc [OF 2 _ step]) (simp, code_simp)
  obtain m where "rt_free (Some 36) (wit_step 100 (wit_step 30 (wit_step 10 wit_heap))) = Some m" using reach_calls(1) [OF 3, of 36 30] by auto
  then have "rt_free (Some 36) (wit_step 100 (wit_step 30 (wit_step 10 wit_heap))) = Some wit_used" by (simp add: wit_used_def)
  then have "heap_reach wit_used ([12 \<mapsto> 10, 36 \<mapsto> 30, 80 \<mapsto> 100](36 := None))" by (rule hr_free [OF 3, of _ 30, rotated]) simp
  moreover have "[12 \<mapsto> 10, 36 \<mapsto> 30, 80 \<mapsto> 100](36 := None) = [12 :: nat \<mapsto> 10 :: u32, 80 \<mapsto> 100]" by (rule ext) simp
  ultimately show ?thesis by metis
qed

theorem heap_blocks_disjoint_witness:
  "heap_reach wit_used [12 \<mapsto> 10, 80 \<mapsto> 100] \<and> (12 :: nat) + unat (10 :: u32) + 12 \<le> 80 \<and> (80 :: nat) + unat (100 :: u32) \<le> heap_end wit_used"
  using conjunct1 [OF heap_blocks_disjoint [OF wit_reach], THEN spec, of 80] wit_reach by simp

text \<open>
  C19. First fit misses nothing: if anywhere in the heap there is a stretch of memory, large enough for the request and
  a header, that no held block touches, the allocation succeeds. With everything released it succeeds for every
  size up to that of the whole heap, so no memory is lost and no fragments stay behind.
\<close>

theorem heap_serves_when_room:
  assumes "heap_reach m h" "sz \<noteq> 0" "p + alloc_size sz + 12 \<le> heap_end m"
    "\<forall>r. h r \<noteq> None \<longrightarrow> p + alloc_size sz + 12 \<le> r - 12 \<or> it_next (sm_items m (r - 12)) \<le> p"
  shows "\<exists>r m'. rt_malloc sz m = Some (Some r, m')"
proof -
  obtain xs where xs: "heap_rep m xs" "held h (places 0 xs)" using heap_invariant [OF assms(1)] by blast
  have "p + (alloc_size sz + 12) \<le> a \<or> a + k \<le> p" if ak: "(a, k) \<in> places 0 xs" for a k
  proof -
    obtain as bs where "xs = as @ (k, True) # bs" "a = 0 + lens as" using ak by (rule places_split)
    then have "it_next (sm_items m a) = a + k" using xs(1) by (simp add: heap_rep_def heap_segs_def segs_append)
    moreover have "h (a + 12) \<noteq> None" using ak xs(2) unfolding held_def by blast
    ultimately show ?thesis using assms(4) [THEN spec, of "a + 12"] by (simp add: add.assoc)
  qed
  moreover have "\<forall>x \<in> set xs. 0 < fst x" "lens xs = heap_end m" "apart xs"
    using xs(1) segs_min [of "sm_items m" 0 0 xs] by (fastforce simp: heap_rep_def heap_segs_def)+
  ultimately have "\<exists>x \<in> set xs. \<not> snd x \<and> alloc_size sz + 12 \<le> fst x"
    using assms(3) by (intro room_in_block [of 0 p]) auto
  then have "\<exists>x \<in> set xs. block_fits (alloc_size sz) x" by (auto simp: block_fits_def)
  then show ?thesis using alloc_ok(1) [OF xs(1) assms(2), folded rt_malloc_def] by blast
qed

theorem heap_serves_when_room_witness: "\<exists>r m'. rt_malloc 700 wit_used = Some (Some r, m')"
proof (rule heap_serves_when_room [OF wit_reach, of _ 192])
  have "alloc_size 700 = 700" "heap_end wit_used = 988" "it_next (sm_items wit_used 0) = 24" "it_next (sm_items wit_used 68) = 180" by code_simp+
  then show "192 + alloc_size 700 + 12 \<le> heap_end wit_used"
    "\<forall>r. [12 \<mapsto> 10, 80 \<mapsto> 100 :: u32] r \<noteq> None \<longrightarrow> 192 + alloc_size 700 + 12 \<le> r - 12 \<or> it_next (sm_items wit_used (r - 12)) \<le> 192" by auto
qed simp

text \<open>The figures of the shell command for the memory are the total of the used blocks, never more than the maximum.\<close>

theorem memory_info_accounts:
  assumes "heap_reach m h"
  shows "\<exists>xs. heap_rep m xs \<and> rt_memory_info m = (lens xs - 12, lens (filter snd xs), sm_max m) \<and> lens (filter snd xs) \<le> sm_max m"
  using heap_invariant [OF assms] by (auto simp: rt_memory_info_def heap_rep_def heap_segs_def heap_end_def)

text \<open>The rounding of a request overflows just below the largest word: such a request is served like one of twelve bytes.\<close>

theorem alloc_huge_is_tiny:
  assumes "2 ^ 32 \<le> unat sz + 3"
  shows "rt_malloc sz m = rt_malloc 12 m"
proof -
  have "unat (sz + 3) = unat sz + 3 - 2 ^ 32" using assms unat_u32_less [of sz] by (simp add: unat_word_ariths mod_if)
  then have "unat (sz + 3) < 4" using unat_u32_less [of sz] by simp
  then have "unat (rt_align sz) = 0" by (simp add: align_div)
  moreover have "unat (rt_align 12) = 12" by (simp add: align_div)
  moreover have "sz \<noteq> 0" using assms by auto
  ultimately show ?thesis by (simp add: rt_malloc_def rt_smem_alloc_def)
qed

text \<open>The size of an array is computed in 32 bits: one of 65537 objects of 65536 bytes gets the room of a single one.\<close>

theorem calloc_product_wraps: "rt_calloc 65537 65536 m = rt_malloc 65536 m"
proof -
  have "(65537 :: u32) * 65536 = 65536" by code_simp
  then show ?thesis by (simp only: rt_calloc_def)
qed

end
