(* ===== verification/Kernel_Printf.thy ===== *)
theory Kernel_Printf
  imports Prelude
begin

text \<open>
  The formatted output of the kernel, \<^verbatim>\<open>rt-thread/src/kservice.c\<close>: \<open>rt_vsnprintf\<close> and
  \<open>print_number\<close>, as this build configures them (with precision, without the special prefix and
  without 64-bit numbers). The buffer is a list of characters; \<open>str\<close> is an offset into it, and
  \<open>end\<close> its length. An argument of a call is a 32-bit integer or a string, \<open>None\<close> for NULL. A call
  whose arguments do not fit its format has no defined behaviour in C; the result is then \<open>None\<close>.
  Field widths are unbounded integers.
\<close>

section \<open>Writing into the buffer\<close>

type_synonym out = "char list \<times> nat"

text \<open>\<open>if (str < end) *str = c; ++ str;\<close>\<close>

definition put :: "nat \<Rightarrow> char \<Rightarrow> out \<Rightarrow> out" where
  "put end c = (\<lambda>(buf, str). (if str < end then buf[str := c] else buf, str + 1))"

text \<open>\<open>while (size-- > 0)\<close> around it, with the value \<open>size\<close> has after the loop.\<close>

definition put_pad :: "nat \<Rightarrow> char \<Rightarrow> int \<Rightarrow> out \<Rightarrow> out" where
  "put_pad end c sz = put end c ^^ nat sz"

definition pad_rest :: "int \<Rightarrow> int" where "pad_rest sz = (if sz > 0 then - 1 else sz - 1)"

definition put_text :: "nat \<Rightarrow> string \<Rightarrow> out \<Rightarrow> out" where
  "put_text end t = fold (put end) t"

section \<open>Numbers\<close>

abbreviation ZEROPAD :: u8 where "ZEROPAD \<equiv> 1"
abbreviation SIGN :: u8 where "SIGN \<equiv> 2"
abbreviation PLUS :: u8 where "PLUS \<equiv> 4"
abbreviation SPACE :: u8 where "SPACE \<equiv> 8"
abbreviation LEFT :: u8 where "LEFT \<equiv> 16"
abbreviation SPECIAL :: u8 where "SPECIAL \<equiv> 32"
abbreviation LARGE :: u8 where "LARGE \<equiv> 64"

abbreviation has_flag :: "u8 \<Rightarrow> u8 \<Rightarrow> bool" where "has_flag b type \<equiv> type AND b \<noteq> 0"

text \<open>\<open>divide\<close>: ten, or sixteen for every other base.\<close>

definition divisor :: "nat \<Rightarrow> nat" where "divisor base = (if base = 10 then 10 else 16)"

definition rt_divide :: "nat \<Rightarrow> u32 \<Rightarrow> nat \<times> u32" where
  "rt_divide base n = (unat n mod divisor base, of_nat (unat n div divisor base))"

definition small_digits :: string where "small_digits = ''0123456789abcdef''"
definition large_digits :: string where "large_digits = ''0123456789ABCDEF''"

text \<open>The digits in \<open>tmp\<close>, the lowest first.\<close>

lemma divide_less: "n \<noteq> 0 \<Longrightarrow> unat (snd (rt_divide base n)) < unat n"
proof -
  assume n: "n \<noteq> 0"
  have "unat n div divisor base < unat n" using n by (simp add: unat_gt_0 divisor_def)
  moreover have "unat n < 2 ^ 32" by (rule unat_u32_less)
  ultimately show ?thesis by (simp add: rt_divide_def unat_less_of_nat)
qed

function tmp_digits :: "string \<Rightarrow> nat \<Rightarrow> u32 \<Rightarrow> string" where
  "tmp_digits digits base num =
     (if num = 0 then [] else digits ! fst (rt_divide base num) # tmp_digits digits base (snd (rt_divide base num)))"
  by pat_completeness auto
termination by (relation "measure (\<lambda>(d, b, n). unat n)") (auto simp: divide_less)

declare tmp_digits.simps [simp del]

text \<open>The second half of \<open>print_number\<close>: padding, sign and digits.\<close>

definition number_out :: "nat \<Rightarrow> char option \<Rightarrow> string \<Rightarrow> int \<Rightarrow> int \<Rightarrow> u8 \<Rightarrow> out \<Rightarrow> out" where
  "number_out end sign tmp s precision type out0 =
     (let c = (if has_flag ZEROPAD type then CHR ''0'' else CHR '' '');
          i = int (length tmp);
          prec = (if i > precision then i else precision);
          size0 = s - prec;
          (size1, out1) =
            (if \<not> has_flag (ZEROPAD OR LEFT) type then
               let sz = (if sign \<noteq> None \<and> size0 > 0 then size0 - 1 else size0) in (pad_rest sz, put_pad end CHR '' '' sz out0)
             else (size0, out0));
          (size2, out2) = (case sign of Some sg \<Rightarrow> (size1 - 1, put end sg out1) | None \<Rightarrow> (size1, out1));
          (size3, out3) = (if \<not> has_flag LEFT type then (pad_rest size2, put_pad end c size2 out2) else (size2, out2));
          out4 = put_pad end CHR ''0'' (prec - i) out3;
          out5 = (if precision \<noteq> 0 then put_text end (rev tmp) out4 else out4)
      in put_pad end CHR '' '' size3 out5)"

definition print_number :: "nat \<Rightarrow> u32 \<Rightarrow> nat \<Rightarrow> int \<Rightarrow> int \<Rightarrow> u8 \<Rightarrow> out \<Rightarrow> out" where
  "print_number end num base s precision type0 =
     (let digits = (if has_flag LARGE type0 then large_digits else small_digits);
          type = (if has_flag LEFT type0 then type0 AND NOT ZEROPAD else type0);
          (sign, n) =
            (if has_flag SIGN type then
               (if sint num < 0 then (Some CHR ''-'', - num)
                else if has_flag PLUS type then (Some CHR ''+'', num)
                else if has_flag SPACE type then (Some CHR '' '', num) else (None, num))
             else (None, num));
          tmp = (if n = 0 then ''0'' else tmp_digits digits base n)
      in number_out end sign tmp s precision type)"

section \<open>The format\<close>

datatype va_item = VaInt u32 | VaStr "string option"

fun fmt_flags :: "u8 \<Rightarrow> string \<Rightarrow> u8 \<times> string" where
  "fmt_flags fl [] = (fl, [])"
| "fmt_flags fl (c # cs) =
     (if c = CHR ''-'' then fmt_flags (fl OR LEFT) cs
      else if c = CHR ''+'' then fmt_flags (fl OR PLUS) cs
      else if c = CHR '' '' then fmt_flags (fl OR SPACE) cs
      else if c = CHR ''#'' then fmt_flags (fl OR SPECIAL) cs
      else if c = CHR ''0'' then fmt_flags (fl OR ZEROPAD) cs
      else (fl, c # cs))"

definition ISDIGIT :: "char \<Rightarrow> bool" where "ISDIGIT c \<longleftrightarrow> 48 \<le> (of_char c :: nat) \<and> (of_char c :: nat) < 58"

fun skip_atoi :: "int \<Rightarrow> string \<Rightarrow> int \<times> string" where
  "skip_atoi i [] = (i, [])"
| "skip_atoi i (c # cs) = (if ISDIGIT c then skip_atoi (i * 10 + (of_char c - 48)) cs else (i, c # cs))"

text \<open>The width and the precision: digits, the next argument, or none.\<close>

definition fmt_number :: "string \<Rightarrow> va_item list \<Rightarrow> (int option \<times> string \<times> va_item list) option" where
  "fmt_number fmt args =
     (case fmt of
        [] \<Rightarrow> Some (None, fmt, args)
      | c # cs \<Rightarrow>
          if ISDIGIT c then (let (i, rest) = skip_atoi 0 fmt in Some (Some i, rest, args))
          else if c = CHR ''*'' then (case args of VaInt n # as \<Rightarrow> Some (Some (sint n), cs, as) | _ \<Rightarrow> None)
          else Some (None, fmt, args))"

record fmt_spec =
  fs_flags :: u8
  field_width :: int
  fs_precision :: int
  qualifier :: "char option"

text \<open>Everything between the percent sign and the conversion.\<close>

definition fmt_width :: "u8 \<Rightarrow> string \<Rightarrow> va_item list \<Rightarrow> (u8 \<times> int \<times> string \<times> va_item list) option" where
  "fmt_width flags fmt args =
     (case fmt_number fmt args of
        None \<Rightarrow> None
      | Some (None, rest, as) \<Rightarrow> Some (flags, - 1, rest, as)
      | Some (Some n, rest, as) \<Rightarrow> if hd fmt = CHR ''*'' \<and> n < 0 then Some (flags OR LEFT, - n, rest, as) else Some (flags, n, rest, as))"

definition fmt_precision :: "string \<Rightarrow> va_item list \<Rightarrow> (int \<times> string \<times> va_item list) option" where
  "fmt_precision fmt args =
     (if fmt \<noteq> [] \<and> hd fmt = CHR ''.'' then
        (case fmt_number (tl fmt) args of
           None \<Rightarrow> None
         | Some (p, rest, as) \<Rightarrow> Some (case p of Some n \<Rightarrow> if n < 0 then 0 else n | None \<Rightarrow> 0, rest, as))
      else Some (- 1, fmt, args))"

definition fmt_qualifier :: "string \<Rightarrow> char option \<times> string" where
  "fmt_qualifier fmt = (if fmt \<noteq> [] \<and> (hd fmt = CHR ''h'' \<or> hd fmt = CHR ''l'') then (Some (hd fmt), tl fmt) else (None, fmt))"

definition fmt_parse :: "string \<Rightarrow> va_item list \<Rightarrow> (fmt_spec \<times> string \<times> va_item list) option" where
  "fmt_parse fmt args =
     (let (flags0, fmt1) = fmt_flags 0 fmt in
      case fmt_width flags0 fmt1 args of
        None \<Rightarrow> None
      | Some (flags, width, fmt2, args2) \<Rightarrow>
          (case fmt_precision fmt2 args2 of
             None \<Rightarrow> None
           | Some (prec, fmt3, args3) \<Rightarrow>
               let (q, fmt4) = fmt_qualifier fmt3
               in Some (\<lparr>fs_flags = flags, field_width = width, fs_precision = prec, qualifier = q\<rparr>, fmt4, args3)))"

section \<open>Conversions\<close>

definition conv_char :: "nat \<Rightarrow> fmt_spec \<Rightarrow> u32 \<Rightarrow> out \<Rightarrow> out" where
  "conv_char end sp n out0 =
     (let w = field_width sp;
          (w1, out1) = (if \<not> has_flag LEFT (fs_flags sp) then (min (w - 1) 0, put_pad end CHR '' '' (w - 1) out0) else (w, out0));
          out2 = put end (char_of (unat (ucast n :: u8))) out1
      in put_pad end CHR '' '' (w1 - 1) out2)"

text \<open>The length of a string argument: the scan stops at the field width.\<close>

definition str_len :: "fmt_spec \<Rightarrow> string \<Rightarrow> nat" where
  "str_len sp s =
     (let len = (if field_width sp < 0 then length s else min (length s) (nat (field_width sp)))
      in if fs_precision sp > 0 \<and> int len > fs_precision sp then nat (fs_precision sp) else len)"

definition conv_string :: "nat \<Rightarrow> fmt_spec \<Rightarrow> string option \<Rightarrow> out \<Rightarrow> out" where
  "conv_string end sp arg out0 =
     (let s = (case arg of None \<Rightarrow> ''(NULL)'' | Some t \<Rightarrow> t);
          len = str_len sp s;
          w = field_width sp;
          (w1, out1) =
            (if \<not> has_flag LEFT (fs_flags sp) then (if int len < w then int len - 1 else w - 1, put_pad end CHR '' '' (w - int len) out0)
             else (w, out0));
          out2 = put_text end (take len s) out1
      in put_pad end CHR '' '' (w1 - int len) out2)"

definition int_arg :: "fmt_spec \<Rightarrow> u8 \<Rightarrow> u32 \<Rightarrow> u32" where
  "int_arg sp flags n =
     (if qualifier sp = Some CHR ''h'' then
        let h = (ucast n :: u16) in if has_flag SIGN flags then scast h else ucast h
      else n)"

definition conv_int :: "nat \<Rightarrow> fmt_spec \<Rightarrow> nat \<Rightarrow> u8 \<Rightarrow> u32 \<Rightarrow> out \<Rightarrow> out" where
  "conv_int end sp base extra n =
     (let flags = fs_flags sp OR extra
      in print_number end (int_arg sp flags n) base (field_width sp) (fs_precision sp) flags)"

definition fmt_conv :: "nat \<Rightarrow> fmt_spec \<Rightarrow> char \<Rightarrow> va_item list \<Rightarrow> out \<Rightarrow> (out \<times> va_item list) option" where
  "fmt_conv end sp k args out0 =
     (if k = CHR ''c'' then (case args of VaInt n # as \<Rightarrow> Some (conv_char end sp n out0, as) | _ \<Rightarrow> None)
      else if k = CHR ''s'' then (case args of VaStr s # as \<Rightarrow> Some (conv_string end sp s out0, as) | _ \<Rightarrow> None)
      else if k = CHR ''p'' then
        (case args of
           VaInt n # as \<Rightarrow>
             Some (if field_width sp = - 1 then print_number end n 16 8 (fs_precision sp) (fs_flags sp OR ZEROPAD) out0
                   else print_number end n 16 (field_width sp) (fs_precision sp) (fs_flags sp) out0, as)
         | _ \<Rightarrow> None)
      else if k = CHR ''%'' then Some (put end CHR ''%'' out0, args)
      else
        (let int = (\<lambda>base extra. case args of VaInt n # as \<Rightarrow> Some (conv_int end sp base extra n out0, as) | _ \<Rightarrow> None) in
         if k = CHR ''o'' then int 8 0
         else if k = CHR ''X'' then int 16 LARGE
         else if k = CHR ''x'' then int 16 0
         else if k = CHR ''d'' \<or> k = CHR ''i'' then int 10 SIGN
         else if k = CHR ''u'' then int 10 0
         else Some (put end k (put end CHR ''%'' out0), args)))"

section \<open>The call\<close>

lemma fmt_flags_length: "length (snd (fmt_flags fl fmt)) \<le> length fmt"
  by (induction fl fmt rule: fmt_flags.induct) (auto simp: le_Suc_eq)

lemma skip_atoi_length: "length (snd (skip_atoi i fmt)) \<le> length fmt"
  by (induction i fmt rule: skip_atoi.induct) (auto simp: le_Suc_eq)

lemma fmt_number_length: "fmt_number fmt args = Some (n, rest, as) \<Longrightarrow> length rest \<le> length fmt"
  using skip_atoi_length [of 0 fmt] by (auto simp: fmt_number_def case_prod_beta Let_def split: list.splits if_splits va_item.splits)

lemma fmt_width_length: "fmt_width fl fmt args = Some (fl', w, rest, as) \<Longrightarrow> length rest \<le> length fmt"
  using fmt_number_length by (auto simp: fmt_width_def split: option.splits if_splits)

lemma fmt_precision_length: "fmt_precision fmt args = Some (p, rest, as) \<Longrightarrow> length rest \<le> length fmt"
  using fmt_number_length [of "tl fmt"] by (cases fmt) (auto simp: fmt_precision_def le_SucI split: option.splits if_splits)

lemma fmt_parse_length: "fmt_parse fmt args = Some (sp, rest, as) \<Longrightarrow> length rest \<le> length fmt"
  using fmt_flags_length [of 0 fmt]
  by (auto simp: fmt_parse_def Let_def fmt_qualifier_def case_prod_beta split: option.splits if_splits
      dest!: fmt_width_length fmt_precision_length)

function vsn_loop :: "nat \<Rightarrow> string \<Rightarrow> va_item list \<Rightarrow> out \<Rightarrow> out option" where
  "vsn_loop end fmt args out =
     (case fmt of
        [] \<Rightarrow> Some out
      | c # cs \<Rightarrow>
          if c \<noteq> CHR ''%'' then vsn_loop end cs args (put end c out)
          else
            (case fmt_parse cs args of
               None \<Rightarrow> None
             | Some (sp, rest, as) \<Rightarrow>
                 (case rest of
                    [] \<Rightarrow> Some (put end CHR ''%'' out)
                  | k # rest' \<Rightarrow>
                      (case fmt_conv end sp k as out of
                         None \<Rightarrow> None
                       | Some (out', as') \<Rightarrow> vsn_loop end rest' as' out'))))"
  by pat_completeness auto
termination
  by (relation "measure (\<lambda>(e, fmt, a, b). length fmt)") (auto dest: fmt_parse_length)

declare vsn_loop.simps [simp del]

definition NUL :: char where "NUL = CHR 0x00"

definition rt_vsnprintf :: "string \<Rightarrow> va_item list \<Rightarrow> char list \<Rightarrow> (nat \<times> char list) option" where
  "rt_vsnprintf fmt args buf0 =
     (let sz = length buf0 in
      case vsn_loop sz fmt args (buf0, 0) of
        None \<Rightarrow> None
      | Some (buf, str) \<Rightarrow>
          Some (str, if sz > 0 then (if str < sz then buf[str := NUL] else buf[sz - 1 := NUL]) else buf))"

end
