(* ===== verification/Kernel_Printf_Laws.thy ===== *)
theory Kernel_Printf_Laws
  imports Kernel_Printf
begin

text \<open>
  The formatted output against the text it stands for: \<open>rt_vsnprintf\<close> writes the text cut to the
  buffer, ends it, touches nothing else and returns the length of the whole text; decimal numbers
  can be read back.
\<close>

section \<open>The text of a number\<close>

lemma put_text_simps [simp]:
  "put_text e [] out = out" "put_text e (c # cs) out = put_text e cs (put e c out)" "put_text e (s @ t) out = put_text e t (put_text e s out)"
  by (simp_all add: put_text_def)

lemma put_pad_text: "put_pad e c n out = put_text e (replicate (nat n) c) out"
proof -
  have "(put e c ^^ k) out = put_text e (replicate k c) out" for k
    by (induction k arbitrary: out) (simp_all add: funpow_Suc_right del: funpow.simps)
  then show ?thesis by (simp add: put_pad_def)
qed

definition sign_text :: "u8 \<Rightarrow> u32 \<Rightarrow> string" where
  "sign_text type num =
     (if has_flag SIGN type then
        (if sint num < 0 then ''-'' else if has_flag PLUS type then ''+'' else if has_flag SPACE type then '' '' else '''')
      else '''')"

definition magnitude :: "u8 \<Rightarrow> u32 \<Rightarrow> u32" where
  "magnitude type num = (if has_flag SIGN type \<and> sint num < 0 then - num else num)"

definition digit_text :: "u8 \<Rightarrow> nat \<Rightarrow> u32 \<Rightarrow> string" where
  "digit_text type base n =
     rev (if n = 0 then ''0'' else tmp_digits (if has_flag LARGE type then large_digits else small_digits) base n)"

definition num_text :: "nat \<Rightarrow> int \<Rightarrow> int \<Rightarrow> u8 \<Rightarrow> u32 \<Rightarrow> string" where
  "num_text base width prec type num =
     (let ds = digit_text type base (magnitude type num);
          sg = sign_text type num;
          body = replicate (nat (prec - int (length ds))) CHR ''0'' @ (if prec = 0 then [] else ds);
          pad = nat (width - max (int (length ds)) prec - int (length sg))
      in if has_flag LEFT type then sg @ body @ replicate pad CHR '' ''
         else if has_flag ZEROPAD type then sg @ replicate pad CHR ''0'' @ body
         else replicate pad CHR '' '' @ sg @ body)"

lemma flag_bits:
  fixes x :: u8
  shows "x AND 1 = 0 \<longleftrightarrow> \<not> bit x 0" "x AND 2 = 0 \<longleftrightarrow> \<not> bit x 1" "x AND 4 = 0 \<longleftrightarrow> \<not> bit x 2" "x AND 8 = 0 \<longleftrightarrow> \<not> bit x 3"
    "x AND 16 = 0 \<longleftrightarrow> \<not> bit x 4" "x AND 64 = 0 \<longleftrightarrow> \<not> bit x 6" "x AND 17 = 0 \<longleftrightarrow> \<not> bit x 0 \<and> \<not> bit x 4"
proof -
  show one: "x AND 1 = 0 \<longleftrightarrow> \<not> bit x 0" "x AND 2 = 0 \<longleftrightarrow> \<not> bit x 1" "x AND 4 = 0 \<longleftrightarrow> \<not> bit x 2" "x AND 8 = 0 \<longleftrightarrow> \<not> bit x 3"
    "x AND 16 = 0 \<longleftrightarrow> \<not> bit x 4" "x AND 64 = 0 \<longleftrightarrow> \<not> bit x 6"
    using and_exp_eq_0_iff_not_bit [of x 0] and_exp_eq_0_iff_not_bit [of x 1] and_exp_eq_0_iff_not_bit [of x 2]
      and_exp_eq_0_iff_not_bit [of x 3] and_exp_eq_0_iff_not_bit [of x 4] and_exp_eq_0_iff_not_bit [of x 6] by simp_all
  have "x AND 17 = (x AND 1) OR (x AND 16)" by (simp flip: bit.conj_disj_distrib)
  then show "x AND 17 = 0 \<longleftrightarrow> \<not> bit x 0 \<and> \<not> bit x 4" using one by (simp add: or_eq_0_iff)
qed

lemma type_bits: "bit ((x :: u8) AND - 2) k \<longleftrightarrow> bit x k \<and> k \<noteq> 0"
proof -
  have "(- 2 :: u8) = NOT 1" by simp
  then show ?thesis by (auto simp: bit_simps simp del: bit.compl_one dest: bit_imp_le_length)
qed

lemma number_out_text:
  "number_out e sign tmp w prec type out =
     put_text e
       (let sg = (case sign of Some c \<Rightarrow> [c] | None \<Rightarrow> []);
            body = replicate (nat (prec - int (length tmp))) CHR ''0'' @ (if prec = 0 then [] else rev tmp);
            pad = nat (w - max (int (length tmp)) prec - int (length sg))
        in if bit type 4 then sg @ body @ replicate pad CHR '' ''
           else if bit type 0 then sg @ replicate pad CHR ''0'' @ body
           else replicate pad CHR '' '' @ sg @ body) out"
proof -
  have m: "(if int (length tmp) > prec then int (length tmp) else prec) = max (int (length tmp)) prec" by simp
  have z: "nat (max (int (length tmp)) prec - int (length tmp)) = nat (prec - int (length tmp))" by simp
  obtain M where M: "max (int (length tmp)) prec = M" by blast
  show ?thesis
    using z unfolding number_out_def m Let_def M
    by (cases sign; cases "bit type 4"; cases "bit type 0") (simp_all add: flag_bits put_pad_text pad_rest_def)
qed

lemma print_number_text: "print_number e num base w prec type out = put_text e (num_text base w prec type num) out"
proof -
  define t where "t = (if has_flag LEFT type then type AND NOT ZEROPAD else type)"
  define sg where "sg = (if bit type 1 then if sint num < 0 then Some CHR ''-'' else if bit type 2 then Some CHR ''+''
      else if bit type 3 then Some CHR '' '' else None else None)"
  define ds where "ds = digit_text type base (magnitude type num)"
  have b: "bit t 4 = bit type 4" "bit t 0 = (bit type 0 \<and> \<not> bit type 4)" "bit t 1 = bit type 1" "bit t 2 = bit type 2" "bit t 3 = bit type 3"
    by (simp_all add: t_def type_bits flag_bits)
  have sn: "(if has_flag SIGN t then
               (if sint num < 0 then (Some CHR ''-'', - num)
                else if has_flag PLUS t then (Some CHR ''+'', num)
                else if has_flag SPACE t then (Some CHR '' '', num) else (None, num))
             else (None, num)) = (sg, magnitude type num)"
    unfolding flag_bits sg_def magnitude_def b by simp
  have p: "print_number e num base w prec type = number_out e sg (rev ds) w prec t"
    unfolding print_number_def Let_def t_def [symmetric] sn by (simp add: ds_def digit_text_def)
  have s: "sign_text type num = (case sg of Some c \<Rightarrow> [c] | None \<Rightarrow> [])"
    unfolding sign_text_def sg_def flag_bits by simp
  show ?thesis unfolding p number_out_text num_text_def Let_def ds_def [symmetric] s flag_bits b by simp
qed

section \<open>The text of a call\<close>

definition str_text :: "fmt_spec \<Rightarrow> string option \<Rightarrow> string" where
  "str_text sp arg =
     (let s = (case arg of None \<Rightarrow> ''(NULL)'' | Some t \<Rightarrow> t);
          t = take (str_len sp s) s;
          pad = replicate (nat (field_width sp) - length t) CHR '' ''
      in if has_flag LEFT (fs_flags sp) then t @ pad else pad @ t)"

definition char_text :: "fmt_spec \<Rightarrow> u32 \<Rightarrow> string" where
  "char_text sp n =
     (let pad = replicate (nat (field_width sp) - 1) CHR '' ''; t = [char_of (unat (ucast n :: u8))]
      in if has_flag LEFT (fs_flags sp) then t @ pad else pad @ t)"

definition int_text :: "fmt_spec \<Rightarrow> nat \<Rightarrow> u8 \<Rightarrow> u32 \<Rightarrow> string" where
  "int_text sp base extra n =
     (let flags = fs_flags sp OR extra in num_text base (field_width sp) (fs_precision sp) flags (int_arg sp flags n))"

text \<open>The text of a conversion, and the arguments that are left.\<close>

definition conv_text :: "fmt_spec \<Rightarrow> char \<Rightarrow> va_item list \<Rightarrow> (string \<times> va_item list) option" where
  "conv_text sp k args =
     (if k = CHR ''%'' then Some (''%'', args)
      else if k = CHR ''s'' then (case args of VaStr s # as \<Rightarrow> Some (str_text sp s, as) | _ \<Rightarrow> None)
      else if k \<notin> set ''cpoXxdiu'' then Some ([CHR ''%'', k], args)
      else case args of
        VaInt n # as \<Rightarrow>
          Some (if k = CHR ''c'' then char_text sp n
                else if k = CHR ''p'' then
                  (if field_width sp = - 1 then num_text 16 8 (fs_precision sp) (fs_flags sp OR ZEROPAD) n
                   else num_text 16 (field_width sp) (fs_precision sp) (fs_flags sp) n)
                else if k = CHR ''o'' then int_text sp 8 0 n
                else if k = CHR ''X'' then int_text sp 16 LARGE n
                else if k = CHR ''x'' then int_text sp 16 0 n
                else if k = CHR ''u'' then int_text sp 10 0 n
                else int_text sp 10 SIGN n, as)
      | _ \<Rightarrow> None)"

function fmt_text :: "string \<Rightarrow> va_item list \<Rightarrow> string option" where
  "fmt_text fmt args =
     (case fmt of
        [] \<Rightarrow> Some []
      | c # cs \<Rightarrow>
          if c \<noteq> CHR ''%'' then map_option ((#) c) (fmt_text cs args)
          else
            (case fmt_parse cs args of
               None \<Rightarrow> None
             | Some (sp, [], as) \<Rightarrow> Some ''%''
             | Some (sp, k # rest, as) \<Rightarrow>
                 (case conv_text sp k as of
                    None \<Rightarrow> None
                  | Some (t, as') \<Rightarrow> map_option ((@) t) (fmt_text rest as'))))"
  by pat_completeness auto
termination
  by (relation "measure (\<lambda>(fmt, a). length fmt)") (auto dest: fmt_parse_length)

declare fmt_text.simps [simp del]

text \<open>Rules to evaluate a format.\<close>

abbreviation spec0 :: fmt_spec where
  "spec0 \<equiv> \<lparr>fs_flags = 0, field_width = - 1, fs_precision = - 1, qualifier = None\<rparr>"

lemma fmt_text_plain: "fmt_text [] args = Some []" "c \<noteq> CHR ''%'' \<Longrightarrow> fmt_text (c # cs) args = map_option ((#) c) (fmt_text cs args)"
  by (simp_all add: fmt_text.simps)

lemma fmt_text_conv:
  "fmt_parse cs args = Some (sp, k # rest, as) \<Longrightarrow> conv_text sp k as = Some (t, as') \<Longrightarrow>
   fmt_text (CHR ''%'' # cs) args = map_option ((@) t) (fmt_text rest as')"
  by (subst fmt_text.simps) simp

lemma conv_text_eval:
  "conv_text sp CHR ''s'' (VaStr s # as) = Some (str_text sp s, as)" "conv_text sp CHR ''u'' (VaInt n # as) = Some (int_text sp 10 0 n, as)"
  "conv_text sp CHR ''d'' (VaInt n # as) = Some (int_text sp 10 SIGN n, as)" "conv_text sp CHR ''x'' (VaInt n # as) = Some (int_text sp 16 0 n, as)"
  by (simp_all add: conv_text_def)

lemma parse_plain:
  assumes "k = CHR ''s'' \<or> k = CHR ''u'' \<or> k = CHR ''d'' \<or> k = CHR ''x''"
  shows "fmt_parse (k # rest) as = Some (spec0, k # rest, as)"
proof -
  have n: "\<not> ISDIGIT k" "k \<noteq> CHR ''*''" "k \<noteq> CHR ''.''" "k \<noteq> CHR ''h''" "k \<noteq> CHR ''l''" using assms by (auto simp: ISDIGIT_def)
  have f: "fmt_flags 0 (k # rest) = (0, k # rest)" using assms by auto
  show ?thesis by (simp add: fmt_parse_def f fmt_width_def fmt_number_def fmt_precision_def fmt_qualifier_def n del: fmt_flags.simps)
qed

lemma str_text_plain: "str_text spec0 (Some s) = s"
  by (simp add: str_text_def str_len_def)

lemma char_conv_text: "conv_char e sp n out = put_text e (char_text sp n) out"
proof -
  have "nat (field_width sp - 1) = nat (field_width sp) - 1" by simp
  then show ?thesis by (simp add: conv_char_def char_text_def put_pad_text Let_def min_def)
qed

lemma str_len_le: "0 \<le> field_width sp \<Longrightarrow> str_len sp s \<le> nat (field_width sp)" "str_len sp s \<le> length s"
  by (auto simp: str_len_def Let_def)

lemma string_conv_text: "conv_string e sp arg out = put_text e (str_text sp arg) out"
proof -
  obtain s where s: "(case arg of None \<Rightarrow> ''(NULL)'' | Some t \<Rightarrow> t) = s" by blast
  have "nat (field_width sp - int (str_len sp s)) = nat (field_width sp) - str_len sp s" by simp
  then show ?thesis
    using str_len_le(2) [of sp s] unfolding conv_string_def str_text_def s Let_def
    by (cases "int (str_len sp s) < field_width sp") (simp_all add: put_pad_text min_def)
qed

lemma int_conv_text: "conv_int e sp base extra n out = put_text e (int_text sp base extra n) out"
  by (simp add: conv_int_def int_text_def print_number_text Let_def)

lemma fmt_conv_text:
  "fmt_conv e sp k args out = map_option (\<lambda>(t, as). (put_text e t out, as)) (conv_text sp k args)"
  unfolding fmt_conv_def conv_text_def Let_def
  by (auto simp: char_conv_text string_conv_text int_conv_text print_number_text split: list.split va_item.split)

lemma vsn_loop_text: "vsn_loop e fmt args out = map_option (\<lambda>t. put_text e t out) (fmt_text fmt args)"
proof (induction fmt args arbitrary: out rule: fmt_text.induct)
  case (1 fmt args)
  show ?case
  proof (cases fmt)
    case (Cons c cs)
    then show ?thesis using 1 unfolding vsn_loop.simps [of e fmt] fmt_text.simps [of fmt]
      by (auto simp: fmt_conv_text option.map_comp comp_def split: option.split list.split)
  qed (simp add: vsn_loop.simps fmt_text.simps)
qed

section \<open>The buffer\<close>

lemma put_text_full: "e \<le> n \<Longrightarrow> put_text e t (buf, n) = (buf, n + length t)"
  by (induction t arbitrary: n) (simp_all add: put_def)

lemma put_text_effect:
  "length buf = e \<Longrightarrow> n \<le> e \<Longrightarrow> put_text e t (buf, n) = (take n buf @ take (e - n) t @ drop (n + length t) buf, n + length t)"
proof (induction t arbitrary: buf n)
  case (Cons c t)
  show ?case
  proof (cases "n < e")
    case True
    then have "put e c (buf, n) = (buf[n := c], n + 1)" by (simp add: put_def)
    moreover have "take (Suc n) (buf[n := c]) = take n buf @ [c]" using True Cons.prems by (simp add: take_Suc_update)
    moreover have "e - n = Suc (e - Suc n)" using True by simp
    ultimately show ?thesis using Cons.IH [of "buf[n := c]" "n + 1"] Cons.prems True by auto
  next
    case False
    then show ?thesis using Cons.prems put_text_full [of e n "c # t"] by simp
  qed
qed simp

text \<open>The buffer that holds a text, cut to its size and ended; behind the end it is as it was.\<close>

definition holding :: "string \<Rightarrow> char list \<Rightarrow> char list" where
  "holding t buf = (if buf = [] then [] else let u = take (length buf - 1) t in u @ NUL # drop (length u + 1) buf)"

lemma vsnprintf_text:
  "rt_vsnprintf fmt args buf = map_option (\<lambda>t. (length t, holding t buf)) (fmt_text fmt args)"
proof -
  have e: "put_text (length buf) t (buf, 0) = (take (length buf) t @ drop (length t) buf, length t)" for t
    using put_text_effect [of buf "length buf" 0 t] by simp
  have fit: "(take (length buf) t @ drop (length t) buf)[length t := NUL] = holding t buf" if "length t < length buf" for t
  proof -
    have "drop (length t) buf = buf ! length t # drop (Suc (length t)) buf" using that by (rule Cons_nth_drop_Suc [symmetric])
    then show ?thesis using that by (auto simp: holding_def Let_def list_update_append)
  qed
  have cut: "(take (length buf) t @ drop (length t) buf)[length buf - 1 := NUL] = holding t buf" if "length buf \<le> length t" "buf \<noteq> []" for t
  proof -
    define u where "u = take (length buf - 1) t"
    have l: "length u = length buf - 1" using that by (simp add: u_def)
    have "take (length buf) t = u @ [t ! (length buf - 1)]"
      unfolding u_def using that take_Suc_conv_app_nth [of "length buf - 1" t] by (cases buf) auto
    then have "(take (length buf) t @ drop (length t) buf)[length buf - 1 := NUL] = u @ [NUL]"
      using that l list_update_length [of u _ "[]" NUL] by simp
    moreover have "holding t buf = u @ [NUL]" unfolding holding_def Let_def u_def [symmetric] using that l by simp
    ultimately show ?thesis by simp
  qed
  show ?thesis
  proof (cases "buf = []")
    case True
    then show ?thesis using e by (auto simp: rt_vsnprintf_def vsn_loop_text holding_def Let_def split: option.split)
  next
    case False
    then show ?thesis using fit cut e by (auto simp: rt_vsnprintf_def vsn_loop_text Let_def not_less split: option.split)
  qed
qed


section \<open>Reading numbers back\<close>

text \<open>The value of decimal digits, the highest first.\<close>

lemma digit_chars: "d < 10 \<Longrightarrow> ISDIGIT (small_digits ! d) \<and> (of_char (small_digits ! d) :: int) = 48 + int d"
proof -
  assume "d < 10"
  then consider "d = 0" | "d = 1" | "d = 2" | "d = 3" | "d = 4" | "d = 5" | "d = 6" | "d = 7" | "d = 8" | "d = 9"
    by (auto simp: less_Suc_eq numeral_eq_Suc)
  then show ?thesis by cases (simp_all add: small_digits_def ISDIGIT_def)
qed

lemma skip_atoi_append: "list_all ISDIGIT s \<Longrightarrow> skip_atoi i (s @ t) = skip_atoi (fst (skip_atoi i s)) t"
  by (induction i s rule: skip_atoi.induct) auto

lemma skip_atoi_digits: "list_all ISDIGIT s \<Longrightarrow> snd (skip_atoi i s) = []"
  by (induction i s rule: skip_atoi.induct) auto

lemma digits_value:
  "list_all ISDIGIT (tmp_digits small_digits 10 n) \<and> fst (skip_atoi 0 (rev (tmp_digits small_digits 10 n))) = int (unat n)"
proof (induction small_digits "10 :: nat" n rule: tmp_digits.induct)
  case (1 n)
  show ?case
  proof (cases "n = 0")
    case False
    let ?q = "snd (rt_divide 10 n)" and ?d = "unat n mod 10"
    have q: "unat ?q = unat n div 10"
      using unat_u32_less [of n] by (simp add: rt_divide_def divisor_def unat_less_of_nat)
    have t: "tmp_digits small_digits 10 n = small_digits ! ?d # tmp_digits small_digits 10 ?q"
      using False by (subst tmp_digits.simps) (simp add: rt_divide_def divisor_def)
    note ih = 1 [OF False]
    have d: "ISDIGIT (small_digits ! ?d)" "(of_char (small_digits ! ?d) :: int) = 48 + int ?d" using digit_chars [of ?d] by auto
    have r: "list_all ISDIGIT (rev (tmp_digits small_digits 10 ?q))" using ih by (simp add: list_all_iff)
    have "fst (skip_atoi 0 (rev (tmp_digits small_digits 10 n))) = int (unat ?q) * 10 + int ?d"
      unfolding t using ih d by (simp add: skip_atoi_append [OF r])
    also have "\<dots> = int (unat n)" unfolding q by (metis div_mult_mod_eq of_nat_add of_nat_mult of_nat_numeral)
    finally show ?thesis using ih d t by simp
  qed (simp add: tmp_digits.simps)
qed

lemma plain_number_text: "num_text 10 (- 1) (- 1) 0 n = digit_text 0 10 n" "sint n \<ge> 0 \<Longrightarrow> num_text 10 (- 1) (- 1) SIGN n = digit_text 0 10 n"
  "sint n < 0 \<Longrightarrow> num_text 10 (- 1) (- 1) SIGN n = CHR ''-'' # digit_text 0 10 (- n)"
  by (simp_all add: num_text_def Let_def sign_text_def magnitude_def digit_text_def)

lemma digit_text_value: "skip_atoi 0 (digit_text 0 10 n) = (int (unat n), [])"
proof (cases "n = 0")
  case False
  then show ?thesis
    using digits_value [of n] skip_atoi_digits [of "rev (tmp_digits small_digits 10 n)" 0] by (simp add: digit_text_def list_all_iff prod_eq_iff)
qed (simp add: digit_text_def ISDIGIT_def)

lemma unat_neg:
  assumes "sint (n :: u32) < 0"
  shows "int (unat (- n)) = - sint n"
proof -
  have "- n = word_of_int (- sint n)" by simp
  moreover have "- sint n \<le> 2 ^ 31" using sint_greater_eq [of n] by simp
  ultimately have "uint (- n) = - sint n" using assms by (simp only: uint_word_of_int) (simp add: mod_pos_pos_trivial)
  then show ?thesis by simp
qed

lemma unat_nonneg:
  assumes "0 \<le> sint (n :: u32)"
  shows "int (unat n) = sint n"
proof -
  have "n = word_of_int (sint n)" by simp
  moreover have "sint n < 2 ^ 31" using sint_less [of n] by simp
  ultimately have "uint n = sint n" using assms uint_word_of_int [of "sint n", where 'a = 32] by (simp add: mod_pos_pos_trivial)
  then show ?thesis by simp
qed

text \<open>
  Decimal output can be read back: for every 32-bit number, what \<open>%u\<close> prints is read by the
  kernel's own \<open>skip_atoi\<close> as that number with nothing left over, and what \<open>%d\<close> prints is a minus
  sign exactly for negative numbers and the absolute value behind it, the smallest number included.
\<close>

theorem decimal_roundtrip:
  "(\<exists>t. rt_vsnprintf ''%u'' [VaInt n] buf = Some (length t, holding t buf) \<and> skip_atoi 0 t = (int (unat n), [])) \<and>
   (\<exists>t. rt_vsnprintf ''%d'' [VaInt n] buf = Some (length ((if sint n < 0 then ''-'' else []) @ t), holding ((if sint n < 0 then ''-'' else []) @ t) buf) \<and>
      skip_atoi 0 t = (\<bar>sint n\<bar>, []))"
proof -
  have u: "fmt_text ''%u'' [VaInt n] = Some (num_text 10 (- 1) (- 1) 0 n)"
    by (simp add: fmt_text_conv [OF parse_plain conv_text_eval(2)] fmt_text_plain int_text_def int_arg_def)
  have d: "fmt_text ''%d'' [VaInt n] = Some (num_text 10 (- 1) (- 1) SIGN n)"
    by (simp add: fmt_text_conv [OF parse_plain conv_text_eval(3)] fmt_text_plain int_text_def int_arg_def)
  have w: "rt_vsnprintf ''%u'' [VaInt n] buf = Some (length (digit_text 0 10 n), holding (digit_text 0 10 n) buf)"
    by (simp add: vsnprintf_text u d plain_number_text)
  show ?thesis
  proof (cases "sint n < 0")
    case True
    then have "rt_vsnprintf ''%d'' [VaInt n] buf = Some (length (''-'' @ digit_text 0 10 (- n)), holding (''-'' @ digit_text 0 10 (- n)) buf)"
      by (simp add: vsnprintf_text u d plain_number_text)
    moreover have "skip_atoi 0 (digit_text 0 10 (- n)) = (\<bar>sint n\<bar>, [])" using True digit_text_value [of "- n"] unat_neg [OF True] by simp
    ultimately show ?thesis using w digit_text_value [of n] True by auto
  next
    case False
    then have "rt_vsnprintf ''%d'' [VaInt n] buf = Some (length (digit_text 0 10 n), holding (digit_text 0 10 n) buf)"
      by (simp add: vsnprintf_text u d plain_number_text)
    moreover have "skip_atoi 0 (digit_text 0 10 n) = (\<bar>sint n\<bar>, [])" using False digit_text_value [of n] unat_nonneg [of n] by simp
    ultimately show ?thesis using w digit_text_value [of n] False by auto
  qed
qed

text \<open>The base of an octal number is not used: its digits are hexadecimal.\<close>

lemma octal_is_hexadecimal: "rt_vsnprintf ''%o'' [VaInt n] buf = rt_vsnprintf ''%x'' [VaInt n] buf"
proof -
  have "tmp_digits d 8 m = tmp_digits d 16 m" for d m
  proof (induction d "8 :: nat" m rule: tmp_digits.induct)
    case (1 d m)
    have "rt_divide 8 m = rt_divide 16 m" by (simp add: rt_divide_def divisor_def)
    then show ?case using 1 by (subst (1 2) tmp_digits.simps) simp
  qed
  then have t: "int_text spec0 8 0 n = int_text spec0 16 0 n" by (simp add: int_text_def num_text_def digit_text_def)
  have o: "fmt_parse ''o'' [VaInt n] = Some (spec0, ''o'', [VaInt n])"
    by (simp add: fmt_parse_def fmt_width_def fmt_number_def fmt_precision_def fmt_qualifier_def ISDIGIT_def)
  have "conv_text spec0 CHR ''o'' [VaInt n] = Some (int_text spec0 16 0 n, [])" by (simp add: conv_text_def t)
  then have "fmt_text ''%o'' [VaInt n] = fmt_text ''%x'' [VaInt n]"
    by (simp add: fmt_text_conv [OF o] fmt_text_conv [OF parse_plain conv_text_eval(4)])
  then show ?thesis by (simp add: vsnprintf_text)
qed

end
