(* ===== verification/Event_Names.thy ===== *)
theory Event_Names
  imports Kernel_Printf_Laws Dev_Events
begin

text \<open>
  The text of a set of system event bits, \<open>Sys_EventBitsName\<close> of \<^verbatim>\<open>Dev/dev_mgr/dev_state.c\<close>, which
  the system thread and the one-second report print, built with the kernel's \<open>rt_snprintf\<close>.
\<close>

section \<open>The function\<close>

definition s_evt_names :: "(u32 \<times> string) list" where
  "s_evt_names =
     [(EVT_SYS_INIT_DONE, ''INIT_DONE''), (EVT_SYS_FAULT, ''FAULT''), (EVT_SYS_EMERGENCY, ''EMERGENCY''),
      (EVT_SYS_RECOVERY, ''RECOVERY''), (EVT_SYS_VOLT_NORMAL, ''VOLT_NORMAL''), (EVT_SYS_VOLT_OVER, ''VOLT_OVER''),
      (EVT_SYS_VOLT_UNDER, ''VOLT_UNDER''), (EVT_SYS_CMD_WORK_ENABLE, ''WORK_ENABLE''), (EVT_SYS_OVER_CURRENT, ''OVER_CURRENT''),
      (EVT_SYS_ROD_LIMIT_FAULT, ''ROD_LIMIT_FAULT''), (EVT_SYS_ST_WORK_ERROR, ''ST_WORK_ERROR''),
      (EVT_SYS_VOLT_RECOVER_WAIT, ''VOLT_RECOVER_WAIT''), (EVT_SYS_POLARITY_CHG, ''POLARITY_CHG'')]"

text \<open>\<open>rt_snprintf (buf + pos, size - pos, \<dots>)\<close>.\<close>

definition rt_snprintf_at :: "nat \<Rightarrow> string \<Rightarrow> va_item list \<Rightarrow> char list \<Rightarrow> (nat \<times> char list) option" where
  "rt_snprintf_at pos fmt args buf = map_option (\<lambda>(n, b). (n, take pos buf @ b)) (rt_vsnprintf fmt args (drop pos buf))"

text \<open>A round of the loop for a bit that is set.\<close>

definition name_add :: "string \<Rightarrow> nat \<times> char list \<Rightarrow> (nat \<times> char list) option" where
  "name_add name = (\<lambda>(pos, buf).
     case rt_snprintf_at pos ''%s%s'' [VaStr (Some (if pos \<noteq> 0 then ''|'' else [])), VaStr (Some name)] buf of
       None \<Rightarrow> None
     | Some (n, buf1) \<Rightarrow>
         if pos + n \<ge> length buf then Some (length buf - 1, buf1[length buf - 1 := NUL]) else Some (pos + n, buf1))"

fun names_loop :: "u32 \<Rightarrow> (u32 \<times> string) list \<Rightarrow> u32 \<Rightarrow> nat \<times> char list \<Rightarrow> (u32 \<times> nat \<times> char list) option" where
  "names_loop bits [] unknown st = Some (unknown, st)"
| "names_loop bits ((b, name) # es) unknown st =
     (if bits AND b \<noteq> 0 then (case name_add name st of None \<Rightarrow> None | Some st1 \<Rightarrow> names_loop bits es (unknown AND NOT b) st1)
      else names_loop bits es unknown st)"

text \<open>An empty buffer stands for a NULL pointer and for a size of zero.\<close>

definition Sys_EventBitsName :: "u32 \<Rightarrow> char list \<Rightarrow> char list option" where
  "Sys_EventBitsName bits buf0 =
     (if buf0 = [] then Some buf0
      else
        let buf1 = buf0[0 := NUL] in
        if bits = 0 then map_option snd (rt_vsnprintf ''NONE'' [] buf1)
        else
          (case names_loop bits s_evt_names bits (0, buf1) of
             None \<Rightarrow> None
           | Some (unknown, pos, buf2) \<Rightarrow>
               if unknown \<noteq> 0 then
                 map_option snd (rt_snprintf_at pos ''%s0x%08x'' [VaStr (Some (if pos \<noteq> 0 then ''|'' else [])), VaInt unknown] buf2)
               else Some buf2))"

section \<open>The text it stands for\<close>

definition join_bar :: "string \<Rightarrow> string \<Rightarrow> string" where
  "join_bar t name = t @ (if t = [] then [] else ''|'') @ name"

definition hex8 :: "u32 \<Rightarrow> string" where "hex8 n = ''0x'' @ num_text 16 8 (- 1) ZEROPAD n"

fun or_bits :: "(u32 \<times> string) list \<Rightarrow> u32" where
  "or_bits [] = 0"
| "or_bits (e # es) = fst e OR or_bits es"

definition bits_text :: "u32 \<Rightarrow> string" where
  "bits_text bits =
     (if bits = 0 then ''NONE''
      else let t = foldl join_bar [] (map snd (filter (\<lambda>(b, _). bits AND b \<noteq> 0) s_evt_names));
               rest = bits AND NOT (or_bits s_evt_names)
           in if rest = 0 then t else join_bar t (hex8 rest))"

text \<open>A C string in a buffer.\<close>

definition cstring :: "char list \<Rightarrow> string" where "cstring buf = takeWhile (\<lambda>c. c \<noteq> NUL) buf"

text \<open>The buffer holds the text so far, cut, and \<open>pos\<close> is where the next name goes.\<close>

definition holds :: "string \<Rightarrow> nat \<times> char list \<Rightarrow> bool" where
  "holds t = (\<lambda>(pos, buf). pos = min (length t) (length buf - 1) \<and> (\<exists>rest. buf = take (length buf - 1) t @ NUL # rest))"

lemma names_text: "fmt_text ''%s%s'' [VaStr (Some a), VaStr (Some b)] = Some (a @ b)"
proof -
  have "fmt_text ''%s'' [VaStr (Some b)] = Some b"
    by (simp add: fmt_text_conv [OF parse_plain conv_text_eval(1)] fmt_text_plain str_text_plain)
  then show ?thesis by (simp add: fmt_text_conv [OF parse_plain conv_text_eval(1)] str_text_plain)
qed

lemma hex_text: "fmt_text ''%s0x%08x'' [VaStr (Some a), VaInt n] = Some (a @ hex8 n)"
proof -
  have "fmt_parse ''08x'' [VaInt n] = Some (\<lparr>fs_flags = ZEROPAD, field_width = 8, fs_precision = - 1, qualifier = None\<rparr>, ''x'', [VaInt n])"
    by (simp add: fmt_parse_def fmt_width_def fmt_number_def fmt_precision_def fmt_qualifier_def ISDIGIT_def)
  from fmt_text_conv [OF this conv_text_eval(4)] have "fmt_text ''%08x'' [VaInt n] = Some (num_text 16 8 (- 1) ZEROPAD n)"
    by (simp add: fmt_text_plain int_text_def int_arg_def)
  then have "fmt_text ''0x%08x'' [VaInt n] = Some (hex8 n)" by (simp add: fmt_text_plain hex8_def)
  then show ?thesis by (simp add: fmt_text_conv [OF parse_plain conv_text_eval(1)] str_text_plain)
qed

lemma snprintf_at_text:
  "fmt_text fmt args = Some t \<Longrightarrow> rt_snprintf_at pos fmt args buf = Some (length t, take pos buf @ holding t (drop pos buf))"
  by (simp add: rt_snprintf_at_def vsnprintf_text)

lemma length_holding: "length (holding t buf) = length buf"
  by (cases buf) (auto simp: holding_def Let_def)

lemma write_holds:
  assumes h: "holds t (pos, buf)" and n: "name \<noteq> []" and s: "s = (if pos \<noteq> 0 then ''|'' else []) @ name"
  defines "buf1 \<equiv> take pos buf @ holding s (drop pos buf)"
  shows "length buf1 = length buf" "holds (join_bar t name) (min (pos + length s) (length buf - 1), buf1)"
proof -
  obtain rest where b: "buf = take (length buf - 1) t @ NUL # rest" and p: "pos = min (length t) (length buf - 1)"
    using h by (auto simp: holds_def)
  have N: "buf \<noteq> []" using b by (metis append_is_Nil_conv list.discI)
  let ?u = "take (length buf - pos - 1) s"
  have lt: "pos < length buf" using N p by (cases buf) auto
  then have d: "drop pos buf \<noteq> []" by simp
  have hb: "holding s (drop pos buf) = ?u @ NUL # drop (length ?u + 1) (drop pos buf)"
    unfolding holding_def Let_def using d by simp
  show l: "length buf1 = length buf" unfolding buf1_def using lt by (simp add: length_holding)
  have tp: "take pos buf = take (length buf - 1) t"
    using p b by (metis append_take_drop_id append_eq_conv_conj length_take)
  have "take (length buf - 1) t @ ?u = take (length buf - 1) (join_bar t name)"
  proof (cases "length t \<le> length buf - 1")
    case True
    then have "pos = length t" using p by simp
    moreover from this have "join_bar t name = t @ s" using s by (simp add: join_bar_def)
    ultimately show ?thesis using True by simp
  next
    case False
    then show ?thesis using p by (simp add: join_bar_def)
  qed
  then have "buf1 = take (length buf - 1) (join_bar t name) @ NUL # drop (length ?u + 1) (drop pos buf)"
    unfolding buf1_def hb tp by simp
  moreover have "min (pos + length s) (length buf - 1) = min (length (join_bar t name)) (length buf - 1)"
    using p s by (auto simp: join_bar_def min_def)
  ultimately show "holds (join_bar t name) (min (pos + length s) (length buf - 1), buf1)" using l by (auto simp: holds_def)
qed

lemma name_add_holds:
  assumes h: "holds t (pos, buf)" and n: "name \<noteq> []"
  shows "\<exists>st. name_add name (pos, buf) = Some st \<and> holds (join_bar t name) st \<and> length (snd st) = length buf"
proof -
  define s where "s = (if pos \<noteq> 0 then ''|'' else []) @ name"
  define buf1 where "buf1 = take pos buf @ holding s (drop pos buf)"
  note w = write_holds [OF h n s_def, folded buf1_def]
  have e: "rt_snprintf_at pos ''%s%s'' [VaStr (Some (if pos \<noteq> 0 then ''|'' else [])), VaStr (Some name)] buf = Some (length s, buf1)"
    unfolding buf1_def s_def by (rule snprintf_at_text [OF names_text])
  show ?thesis
  proof (cases "pos + length s < length buf")
    case True
    then have "min (pos + length s) (length buf - 1) = pos + length s" by simp
    then show ?thesis using w True e by (simp add: name_add_def)
  next
    case False
    then have m: "min (pos + length s) (length buf - 1) = length buf - 1" by simp
    obtain rest where r: "buf1 = take (length buf - 1) (join_bar t name) @ NUL # rest" "length buf - 1 = min (length (join_bar t name)) (length buf - 1)"
      using w m by (auto simp: holds_def)
    then have "buf1[length buf - 1 := NUL] = buf1" by (metis length_take list_update_length)
    then show ?thesis using w m False e by (simp add: name_add_def)
  qed
qed

lemma names_loop_holds:
  assumes "holds t (pos, buf)" "list_all (\<lambda>(b, n). n \<noteq> []) es"
  shows "\<exists>st. names_loop bits es unknown (pos, buf) = Some (unknown AND NOT (or_bits (filter (\<lambda>(b, _). bits AND b \<noteq> 0) es)), st) \<and>
     holds (foldl join_bar t (map snd (filter (\<lambda>(b, _). bits AND b \<noteq> 0) es))) st \<and> length (snd st) = length buf"
  using assms
proof (induction es arbitrary: t pos buf unknown)
  case (Cons e es)
  obtain b n where e: "e = (b, n)" by (cases e)
  show ?case
  proof (cases "bits AND b = 0")
    case True
    then show ?thesis using Cons.IH [OF Cons.prems(1)] Cons.prems(2) by (simp add: e)
  next
    case False
    have "n \<noteq> []" using Cons.prems(2) by (simp add: e)
    from name_add_holds [OF Cons.prems(1) this] obtain pos1 buf1 where
      a: "name_add n (pos, buf) = Some (pos1, buf1)" "holds (join_bar t n) (pos1, buf1)" "length buf1 = length buf" by auto
    have "unknown AND NOT b AND NOT x = unknown AND NOT (b OR x)" for x by (simp add: bit.de_Morgan_disj and.assoc)
    then show ?thesis using Cons.IH [OF a(2), of "unknown AND NOT b"] Cons.prems(2) a False by (simp add: e and.assoc)
  qed
qed simp

text \<open>The bits that remain are those without a name.\<close>

lemma unknown_rest: "bits AND NOT (or_bits (filter (\<lambda>(b, _). bits AND b \<noteq> 0) es)) = bits AND NOT (or_bits es)"
proof (induction es)
  case (Cons e es)
  obtain b n where e: "e = (b, n)" by (cases e)
  have m: "x AND NOT (b OR y) = NOT b AND (x AND NOT y)" for x y by (simp add: ac_simps)
  show ?case
  proof (cases "bits AND b = 0")
    case True
    have n: "NOT b AND (bits AND NOT y) = bits AND NOT y" for y
    proof -
      have "bits AND NOT b = (bits AND b) OR (bits AND NOT b)" unfolding True by simp
      also have "\<dots> = bits" by (simp flip: bit.conj_disj_distrib)
      finally show ?thesis by (metis and.assoc and.commute)
    qed
    have "or_bits (filter (\<lambda>(b, _). bits AND b \<noteq> 0) (e # es)) = or_bits (filter (\<lambda>(b, _). bits AND b \<noteq> 0) es)" using True by (simp add: e)
    then show ?thesis by (simp only: Cons.IH or_bits.simps e fst_conv m n)
  next
    case False
    then have "or_bits (filter (\<lambda>(b, _). bits AND b \<noteq> 0) (e # es)) = b OR or_bits (filter (\<lambda>(b, _). bits AND b \<noteq> 0) es)" by (simp add: e)
    then show ?thesis by (simp only: Cons.IH or_bits.simps e fst_conv m)
  qed
qed simp

section \<open>What is printed\<close>

lemma cstring_cut: "NUL \<notin> set t \<Longrightarrow> buf = take n t @ NUL # rest \<Longrightarrow> cstring buf = take n t"
  by (auto simp: cstring_def takeWhile_append dest: in_set_takeD)

lemma cstring_holds: "holds t (pos, buf) \<Longrightarrow> NUL \<notin> set t \<Longrightarrow> cstring buf = take (length buf - 1) t"
  unfolding holds_def by (auto dest: cstring_cut)

lemma tmp_digits_set: "set (tmp_digits small_digits base n) \<subseteq> set small_digits"
proof (induction small_digits base n rule: tmp_digits.induct)
  case (1 base n)
  have "fst (rt_divide base n) < 16"
    using mod_less_divisor [of 10 "unat n"] mod_less_divisor [of 16 "unat n"] by (auto simp: rt_divide_def divisor_def simp del: mod_less_divisor)
  moreover have "length small_digits = 16" by (simp add: small_digits_def)
  ultimately have "fst (rt_divide base n) < length small_digits" by simp
  then show ?case using 1 by (subst tmp_digits.simps) auto
qed

lemma hex8_chars: "NUL \<notin> set (hex8 n)"
proof -
  have "NUL \<notin> set small_digits" by (simp add: small_digits_def NUL_def)
  then have "NUL \<notin> set (digit_text ZEROPAD 16 m)" for m
    using tmp_digits_set [of 16 m] by (auto simp: digit_text_def) (simp_all add: NUL_def)
  then show ?thesis by (auto simp: hex8_def num_text_def Let_def magnitude_def sign_text_def) (simp_all add: NUL_def)
qed

lemma join_chars: "NUL \<notin> set (join_bar t n) \<longleftrightarrow> NUL \<notin> set t \<and> NUL \<notin> set n"
  by (auto simp: join_bar_def NUL_def)

lemma names_chars: "NUL \<notin> set (foldl join_bar t (map snd (filter P s_evt_names))) \<longleftrightarrow> NUL \<notin> set t"
proof -
  have "list_all (\<lambda>n. NUL \<notin> set n) ns \<Longrightarrow> NUL \<notin> set (foldl join_bar t ns) \<longleftrightarrow> NUL \<notin> set t" for ns
    by (induction ns arbitrary: t) (auto simp: join_chars)
  note fold_chars = this
  have "list_all (\<lambda>e. NUL \<notin> set (snd e)) s_evt_names" by (simp add: s_evt_names_def NUL_def)
  then have "list_all (\<lambda>n. NUL \<notin> set n) (map snd (filter P s_evt_names))" by (auto simp: list_all_iff)
  then show ?thesis by (rule fold_chars)
qed

text \<open>
  The text of a set of event bits: into whatever buffer it is written, the function leaves a
  terminated string that is the names of the bits that are set, in the order of the table and
  separated by bars, with the bits without a name as one hexadecimal number at the end and NONE
  for no bit, cut to one character less than the buffer; it never writes outside the buffer.
\<close>

theorem event_bits_text:
  assumes "buf \<noteq> []"
  shows "\<exists>b. Sys_EventBitsName bits buf = Some b \<and> length b = length buf \<and> cstring b = take (length buf - 1) (bits_text bits)"
proof (cases "bits = 0")
  case True
  let ?b = "buf[0 := NUL]"
  have "fmt_text ''NONE'' [] = Some ''NONE''" by (simp add: fmt_text_plain)
  then have "Sys_EventBitsName bits buf = Some (holding ''NONE'' ?b)" using True assms by (simp add: Sys_EventBitsName_def vsnprintf_text)
  moreover have "cstring (holding ''NONE'' ?b) = take (length buf - 1) ''NONE''"
    by (rule cstring_cut) (use assms in \<open>auto simp: NUL_def holding_def Let_def\<close>)
  ultimately show ?thesis using True by (simp add: length_holding bits_text_def)
next
  case False
  let ?P = "\<lambda>(b, _ :: string). bits AND b \<noteq> 0"
  let ?t = "foldl join_bar [] (map snd (filter ?P s_evt_names))" and ?u = "bits AND NOT (or_bits s_evt_names)"
  have h: "holds [] (0, buf[0 := NUL])" using assms by (cases buf) (auto simp: holds_def)
  have "list_all (\<lambda>(b, n). n \<noteq> []) s_evt_names" by (simp add: s_evt_names_def)
  from names_loop_holds [OF h this, of bits bits] obtain pos b where
    l: "names_loop bits s_evt_names bits (0, buf[0 := NUL]) = Some (?u, pos, b)" "holds ?t (pos, b)" "length b = length buf"
    unfolding unknown_rest by auto
  have c: "NUL \<notin> set ?t" by (simp only: names_chars) simp
  show ?thesis
  proof (cases "?u = 0")
    case True
    then show ?thesis using False assms l cstring_holds [OF l(2) c] by (simp add: Sys_EventBitsName_def bits_text_def Let_def)
  next
    case u: False
    define s where "s = (if pos \<noteq> 0 then ''|'' else []) @ hex8 ?u"
    have n: "hex8 ?u \<noteq> []" by (simp add: hex8_def)
    note w = write_holds [OF l(2) n s_def]
    have "Sys_EventBitsName bits buf = Some (take pos b @ holding s (drop pos b))"
      using False assms u snprintf_at_text [OF hex_text, of pos _ ?u b] by (simp add: Sys_EventBitsName_def l(1) s_def)
    moreover have "cstring (take pos b @ holding s (drop pos b)) = take (length buf - 1) (join_bar ?t (hex8 ?u))"
      using cstring_holds [OF w(2)] c hex8_chars w(1) l(3) by (simp add: join_chars)
    ultimately show ?thesis using False u w(1) l(3) by (simp add: bits_text_def Let_def)
  qed
qed

theorem event_bits_text_witness:
  "replicate 16 CHR ''x'' \<noteq> [] \<and>
   (\<exists>b. Sys_EventBitsName (EVT_SYS_FAULT OR EVT_SYS_VOLT_OVER OR EVT_SYS_VOLT_UNDER) (replicate 16 CHR ''x'') = Some b \<and> cstring b = ''FAULT|VOLT_OVER'')"
proof -
  have "bits_text (EVT_SYS_FAULT OR EVT_SYS_VOLT_OVER OR EVT_SYS_VOLT_UNDER) = ''FAULT|VOLT_OVER|VOLT_UNDER''"
    by (simp add: bits_text_def s_evt_names_def join_bar_def)
  then show ?thesis
    using event_bits_text [of "replicate 16 CHR ''x''" "EVT_SYS_FAULT OR EVT_SYS_VOLT_OVER OR EVT_SYS_VOLT_UNDER"] by auto
qed

end
