(* ===== verification/Spec2Isabelle.thy ===== *)
theory Spec2Isabelle
  imports Firmware_Flows Thread_Laws Power_Laws Hall_Rod Kernel_Mq_Laws Kernel_Event Kernel_Mutex Kernel_Sem Kernel_Sched_Laws Kernel_Heap_Laws Event_Names
begin

text \<open>
  The firmware of the rod actuator controller (\<^verbatim>\<open>src/RTT_template1\<close>): an HC32F460 microcontroller
  that drives a linear actuator through a bridge, supervises supply voltage and motor current,
  measures the position of the rod with Hall sensors and keeps its parameters in on-chip flash.
  File names below are relative to that directory.

  \<^bold>\<open>The parts and how they interact.\<close> The 1 ms interrupt (\<^verbatim>\<open>Dev/dev_power\<close>) reads the converter means
  and posts voltage and current events. The input task samples the supply polarity, which is the
  user's command, and posts motor commands and events. The system thread (\<^verbatim>\<open>Dev/dev_mgr\<close>) waits for
  the events, dispatches them in a fixed order and moves a table-driven state machine
  (\<^verbatim>\<open>Utils/state_engine.c\<close>) whose entry actions start the devices or stop the motor. The rod task
  (\<^verbatim>\<open>Task/rod_task.c\<close>) integrates Hall pulses, runs the rod state machine and blocks directions at
  the limits. All of them send commands to the arbitration thread (\<^verbatim>\<open>Dev/dev_act/dev_act.c\<close>) through
  a kernel message queue; it keeps an allow and a block queue for each direction of an axis, decides,
  and drives the pins through an interface of three output operations. The parameter module
  (\<^verbatim>\<open>Dev/dev_param\<close>, \<^verbatim>\<open>Utils/param_manager.c\<close>) appends records to flash sectors and finds the newest
  at power-up. The task table (\<^verbatim>\<open>Task/task_set.c\<close>) creates the threads and watches them.

  \<^bold>\<open>The theories.\<close>
  \<^item> \<^emph>\<open>Foundations\<close>: \<open>Prelude\<close> (integer types, status codes, rule collections), \<open>Float32\<close> (the C type
    float on its bit patterns, with rounding), \<open>Ring\<close> (ring buffers as histories), \<open>Debounce\<close>,
    \<open>Dev_Events\<close> (event bits).
  \<^item> \<^emph>\<open>Kernel services\<close>: \<open>Rt_Ipc\<close> holds the abstract message queue and event word the components use,
    with their contract as the locale \<open>command_channel\<close>. \<open>Kernel_Mq\<close> and \<open>Kernel_Event\<close> are
    \<^verbatim>\<open>rt-thread/src/ipc.c\<close>: message blocks on linked lists, waiting threads, and the critical sections
    as separate functions. \<open>Kernel_Mq_Laws\<close> shows that no interleaving of critical sections loses,
    duplicates or damages a message, and both show that the calls implement \<open>Rt_Ipc\<close>; no wake-up of
    an event set is lost. \<open>Kernel_Mutex\<close> adds the mutexes with which threads share an axis: one owner,
    handing over in order of priority, and inheritance of the priority of waiting threads; \<open>Kernel_Sem\<close> the
    semaphores, whose count is exact. \<open>Kernel_Timer\<close> is
    \<^verbatim>\<open>rt-thread/src/timer.c\<close>: delays are exact across the wrap of the tick; its locale \<open>countdown\<close> is the
    contract of what counts down ticks. \<open>Kernel_Sched\<close> is \<^verbatim>\<open>scheduler.c\<close>, \<^verbatim>\<open>thread.c\<close> and \<^verbatim>\<open>clock.c\<close>: ready lists, bitmap,
    thread states and the tick; \<open>Kernel_Sched_Laws\<close> shows that the most urgent thread runs and that
    a delay ends with its tick, through the same contract. \<open>Kernel_Heap\<close> is the heap (\<^verbatim>\<open>mem.c\<close>), from which the
    kernel objects come: \<open>Kernel_Heap_Blocks\<close> refines its headers to a list of blocks, and \<open>Kernel_Heap_Laws\<close>
    shows that held blocks never overlap and that a request fails only when there is no room for it. \<open>Kernel_Printf\<close> and \<open>Kernel_Printf_Laws\<close> are \<open>rt_vsnprintf\<close> of
    \<^verbatim>\<open>rt-thread/src/kservice.c\<close> and its text; \<open>Event_Names\<close> is \<open>Sys_EventBitsName\<close> on top of it.
  \<^item> \<^emph>\<open>Arbitration\<close>: \<open>Arb_Queue\<close> (command queues as fixed arrays, against sorted lists; locale
    \<open>command_queue\<close>), \<open>Arbiter\<close> (the whole module), \<open>Arbiter_Laws\<close> (the decision as a function of the
    queues, reachable states, urgency, persistence of blocks), \<open>Motor_Output\<close> and \<open>Motor_Laws\<close> (the
    two-pin driver and the PWM driver as interpretations of \<open>motor_output\<close>, the PWM ramp).
  \<^item> \<^emph>\<open>Supply\<close>: \<open>Power_Sense\<close> and \<open>Power_Laws\<close> (voltage and current supervision, over sequences of
    samples), \<open>Polarity\<close>, \<open>Adc\<close> and \<open>Adc_Laws\<close> (the sliding mean equals the average of the window).
  \<^item> \<^emph>\<open>Motion\<close>: \<open>Hall_Motor\<close> and \<open>Hall_Motor_Laws\<close> (interrupts, direction, odometry; every index in
    range), \<open>Hall_Rod\<close>, \<open>Rod\<close> and \<open>Rod_Laws\<close> (position, calibration, limits), \<open>Us_Timer\<close>.
  \<^item> \<^emph>\<open>System\<close>: \<open>State_Engine\<close>, \<open>System\<close> (registry, state machine, dispatcher), \<open>System_Laws\<close> and
    \<open>Dispatch_Laws\<close> (for any registry that keeps the contract \<open>registry_client\<close>), \<open>Monitor\<close> (the watch
    record and the registered modules, which interpret that contract), \<open>Fault_Laws\<close> (faults and
    recovery of the firmware's own registry).
  \<^item> \<^emph>\<open>Storage\<close>: \<open>Flash\<close> (driver and the vendor functions it calls), \<open>Flash_Laws\<close> (locale \<open>flash_part\<close>:
    what the part's manual promises; \<open>nor_hw\<close> is an executable part that keeps it), \<open>Crc\<close> (the checksum
    as the remainder of a polynomial division), \<open>Param_Store\<close>, \<open>Param_Laws\<close>, \<open>Param_Scan\<close>, \<open>Param_Power\<close>
    (the store over saves and restarts, once for all layouts), \<open>Dev_Param\<close>, \<open>Dev_Param_Laws\<close>,
    \<open>Param_App\<close> (the two blocks of the application as interpretations).
  \<^item> \<^emph>\<open>Firmware\<close>: \<open>Task_Set\<close> and \<open>Task_Set_Laws\<close> (task table), \<open>Firmware\<close> (tasks, start-up, main loop and
    the step relation \<open>fw_step\<close>), \<open>Firmware_Laws\<close> (the invariant of all reachable states, cold start),
    \<open>Firmware_Flows\<close> (flows through several components), \<open>Thread_Laws\<close> (start-up of the threads and
    the starvation report).

  \<^bold>\<open>How the code is modelled.\<close> A structure is a record with the fields of the source, an integer a word
  of its width, a float its bit pattern. A C function is a function of the same name on the state it
  reaches; the global data reached by the system thread and the tasks is the record \<open>sys_world\<close>. A
  call that fails returns the code's error value, and a result \<open>None\<close> is a call that waits, a failed
  assertion, or undefined behaviour where the text says so. Hardware and kernel answers are arguments: converter
  values, pin levels, the flash controller, results of creating kernel objects and threads, the
  tick. An interrupt and a round of a thread are one step each of \<open>fw_step\<close>, in any order; the
  critical sections inside the message queue are interleaved in \<open>Kernel_Mq_Laws\<close>. The operations of the
  two-pin driver use the blanking configuration that was bound with them. The system thread may also
  wake with a part of the pending events, as a waiting thread does in the kernel.

  \<^bold>\<open>Bounds.\<close> The state machine calls itself through the entry of EMERGENCY: \<open>sys_send\<close> has a depth, and
  \<open>SYS_DEPTH\<close> = 2 is enough because any larger depth gives the same result. A save retries up to seven
  times, as the source does. The fill tests stop after 500 and 1000 saves, as the source does. The
  reset of a message queue empties at most as many blocks as the pool has. The two loops of the heap follow
  offsets in memory and are partial functions, shown to return on every heap that calls can produce. All
  other loops are structural or have a termination proof.

  \<^bold>\<open>Not modelled.\<close> Log output, except the text of the event bits and the lines of the starvation and
  stack checks; register set-up of clocks, timers, pins and converter, which only writes vendor
  registers; the bench test of the arbitration (\<^verbatim>\<open>DEV_ENABLE_ARB_SELFTEST\<close> is 0); the
  contents of the blocks of the heap, the object registry and the mailboxes of the kernel, creation and deletion of threads and the switch of the processor context; expiry of the timeout of a call that waits for a queue or an
  event (the result of taking the mutex of an axis is an argument of the arbitration module, and
  \<open>Kernel_Mutex\<close> shows that waiting for ever fails only when nested too deeply); preemption inside a thread
  round; file systems, network and device drivers of the vendored kernel and of the vendor's library,
  which the firmware does not call.
\<close>

end
